(* ===== verification/Prelude.thy ===== *)
theory Prelude
  imports Main "HOL-Library.Word"
begin

text \<open>
  What every component of the model shares: Go error values and the part of the \<open>errors\<close>
  package the code uses, gRPC status codes, the contract of the third-party
  \<open>backoff.Retry\<close>, decimal formatting of integers, and the integer conversions of Go.

  Conventions of the whole development.
  \<^item> A Go function that returns \<open>(T, error)\<close> returns \<open>goerr + 'a\<close> (\<open>Inl\<close> the error); one that
    returns \<open>error\<close> alone returns \<open>goerr + unit\<close> (\<open>Inr ()\<close> is nil).
  \<^item> A Go function with effects takes the state of the outside world as its last argument and
    returns it updated, in a pair with its result. The type of the world is a type variable:
    it belongs to the servers and libraries the code calls.
  \<^item> A Go interface value (or a client of a server) is a record of functions on the world.
  \<^item> Logging and tracing have no model: no result of the code depends on them.
\<close>

section \<open>Collections of facts\<close>

named_theorems go_defs \<open>definitions of the small helpers the handlers are written with\<close>
named_theorems frame_rules \<open>what an operation leaves alone\<close>
named_theorems conv_simps \<open>conversions between messages, structs and integers\<close>

section \<open>Error values\<close>

text \<open>The codes of the gRPC status package.\<close>

datatype code =
    OK | Canceled | Unknown | InvalidArgument | DeadlineExceeded | NotFound | AlreadyExists
  | PermissionDenied | ResourceExhausted | FailedPrecondition | Aborted | OutOfRange
  | Unimplemented | Internal | Unavailable | DataLoss | Unauthenticated

text \<open>
  Go error values: a sentinel (\<open>errors.New\<close>, or an error value a library hands out), a gRPC
  status error (\<open>status.Error\<close>), a formatted error with the errors its \<open>%w\<close> verbs wrap
  (\<open>fmt.Errorf\<close>), and \<open>backoff.Permanent\<close>.
\<close>

datatype goerr =
    ErrNew string
  | StatusErr code string
  | Errorf string "goerr list"
  | PermanentErr goerr

text \<open>\<open>errors.Is\<close> of the standard library: equality, or equality anywhere below a wrapper.\<close>

fun errors_is :: "goerr \<Rightarrow> goerr \<Rightarrow> bool" where
  "errors_is (ErrNew m) t = (ErrNew m = t)"
| "errors_is (StatusErr c m) t = (StatusErr c m = t)"
| "errors_is (Errorf m es) t = (Errorf m es = t \<or> list_ex (\<lambda>e. errors_is e t) es)"
| "errors_is (PermanentErr e) t = (PermanentErr e = t \<or> errors_is e t)"

lemma errors_is_refl [simp]: "errors_is e e"
  by (cases e) simp_all

lemma errors_is_wrap: "errors_is e t \<Longrightarrow> errors_is (Errorf m [e]) t"
  by simp

section \<open>Retrying with backoff\<close>

text \<open>
  \<open>backoff.Retry\<close> (github.com/cenkalti/backoff) is a parameter wherever the code calls it.
  What its documentation promises is stated against \<open>attempts\<close>: run the operation, stop at
  the first success or at a permanent error, otherwise run it again, at most \<open>k\<close> times more.
\<close>

fun attempts :: "nat \<Rightarrow> ('w \<Rightarrow> (goerr + 'a) \<times> 'w) \<Rightarrow> 'w \<Rightarrow> (goerr + 'a) \<times> 'w" where
  "attempts 0 f w =
     (case f w of
        (Inl (PermanentErr e), w') \<Rightarrow> (Inl e, w')
      | r \<Rightarrow> r)"
| "attempts (Suc k) f w =
     (case f w of
        (Inl (PermanentErr e), w') \<Rightarrow> (Inl e, w')
      | (Inl e, w') \<Rightarrow> attempts k f w'
      | (Inr a, w') \<Rightarrow> (Inr a, w'))"

text \<open>
  \<open>backoff.WithMaxRetries(b, n)\<close> bounds the retries by \<open>n\<close>; the exponential backoff below it may
  give up earlier (its elapsed-time limit).
\<close>

definition retry_within ::
  "nat \<Rightarrow> (('w \<Rightarrow> (goerr + 'a) \<times> 'w) \<Rightarrow> 'w \<Rightarrow> (goerr + 'a) \<times> 'w) \<Rightarrow> bool" where
  "retry_within n retry \<longleftrightarrow> (\<forall>f w. \<exists>k\<le>n. retry f w = attempts k f w)"

lemma retry_within_attempts: "k \<le> n \<Longrightarrow> retry_within n (attempts k)"
  by (auto simp: retry_within_def)

lemma retry_withinE:
  assumes "retry_within n retry"
  obtains k where "k \<le> n" and "retry f w = attempts k f w"
  using assms unfolding retry_within_def by blast

lemma retry_within_run: "retry_within n retry \<Longrightarrow> retry f w = (r, w') \<Longrightarrow> \<exists>k\<le>n. attempts k f w = (r, w')"
  by (metis retry_within_def)

text \<open>
  A relation that every single run of the operation keeps (and that composes) is kept by a
  whole retry loop.
\<close>

lemma attempts_relation:
  assumes step: "\<And>w r w'. I w \<Longrightarrow> f w = (r, w') \<Longrightarrow> I w' \<and> P w w'"
    and trans: "\<And>x y z. P x y \<Longrightarrow> P y z \<Longrightarrow> P x z"
  shows "I w \<Longrightarrow> attempts k f w = (r, w') \<Longrightarrow> I w' \<and> P w w'"
proof (induction k arbitrary: w)
  case 0
  then show ?case using step[OF 0(1)]
    by (auto split: prod.splits sum.splits goerr.splits)
next
  case (Suc k)
  obtain r1 w1 where f: "f w = (r1, w1)" by (cases "f w")
  with step Suc.prems(1) have 1: "I w1" "P w w1" by blast+
  show ?case
  proof (cases "\<exists>e. r1 = Inl e \<and> (\<forall>e'. e \<noteq> PermanentErr e')")
    case True
    then obtain e where e: "r1 = Inl e" "\<And>e'. e \<noteq> PermanentErr e'" by blast
    with f Suc.prems(2) have "attempts k f w1 = (r, w')" by (cases e) auto
    with Suc.IH 1 have "I w' \<and> P w1 w'" by blast
    with 1 trans show ?thesis by blast
  next
    case False
    with f Suc.prems(2) have "w' = w1" by (auto split: sum.splits goerr.splits)
    with 1 show ?thesis by simp
  qed
qed

text \<open>A successful loop ends with a successful run; what holds after every success holds then.\<close>

lemma attempts_success:
  assumes step: "\<And>w e w'. I w \<Longrightarrow> f w = (Inl e, w') \<Longrightarrow> I w'"
    and ok: "\<And>w a w'. I w \<Longrightarrow> f w = (Inr a, w') \<Longrightarrow> Q a w'"
  shows "I w \<Longrightarrow> attempts k f w = (Inr a, w') \<Longrightarrow> Q a w'"
proof (induction k arbitrary: w)
  case 0
  then show ?case using ok by (auto split: prod.splits sum.splits goerr.splits)
next
  case (Suc k)
  obtain r1 w1 where f: "f w = (r1, w1)" by (cases "f w")
  show ?case
  proof (cases r1)
    case (Inl e)
    with f step Suc.prems have "I w1" by blast
    with f Inl Suc show ?thesis by (cases e) auto
  next
    case (Inr b)
    with f Suc.prems ok show ?thesis by auto
  qed
qed

section \<open>Integers and decimal formatting\<close>

type_synonym int32 = "32 word"

text \<open>
  \<open>int(x)\<close> of an \<open>int32\<close> sign-extends; \<open>int32(x)\<close> of an \<open>int\<close> keeps the low 32 bits. A Go
  \<open>int\<close> is an HOL integer here: the code only ever negates such values, after converting them
  from \<open>int32\<close>, so they stay within 64 bits (\<open>int_of_int32_bounds\<close>).
\<close>

definition int_of_int32 :: "int32 \<Rightarrow> int" where
  "int_of_int32 x = sint x"

definition int32_of_int :: "int \<Rightarrow> int32" where
  "int32_of_int i = word_of_int i"

lemma int_of_int32_bounds: "- (2 ^ 31) \<le> int_of_int32 x" "int_of_int32 x < 2 ^ 31"
  using sint_ge[of x] sint_lt[of x] by (simp_all add: int_of_int32_def)

lemma neg_int_of_int32_bounds: "- (2 ^ 63) \<le> - int_of_int32 x" "- int_of_int32 x < 2 ^ 63"
  using int_of_int32_bounds[of x] by simp_all

lemma int32_of_int_of_int32 [simp, conv_simps]: "int32_of_int (int_of_int32 x) = x"
  by (simp add: int32_of_int_def int_of_int32_def)

lemma int_of_int32_of_int [conv_simps]:
  assumes "- (2 ^ 31) \<le> i" "i < 2 ^ 31"
  shows "int_of_int32 (int32_of_int i) = i"
  using assms by (simp add: int32_of_int_def int_of_int32_def sint_sbintrunc' signed_take_bit_int_eq_self)

text \<open>Decimal digits, as \<open>fmt\<close> prints them for \<open>%d\<close>.\<close>

definition digit_char :: "nat \<Rightarrow> char" where
  "digit_char d = char_of (48 + d)"

fun nat_digits :: "nat \<Rightarrow> string" where
  "nat_digits n = (if n < 10 then [digit_char n] else nat_digits (n div 10) @ [digit_char (n mod 10)])"

declare nat_digits.simps [simp del]

definition fmt_int :: "int \<Rightarrow> string" where
  "fmt_int i = (if i < 0 then CHR ''-'' # nat_digits (nat (- i)) else nat_digits (nat i))"

lemma digit_char_inject: "a < 10 \<Longrightarrow> b < 10 \<Longrightarrow> digit_char a = digit_char b \<Longrightarrow> a = b"
  by (simp add: digit_char_def char_of_eq_iff take_bit_eq_mod)

lemma digit_char_not_minus: "d < 10 \<Longrightarrow> digit_char d \<noteq> CHR ''-''"
  by (auto simp: digit_char_def char_of_eq_iff take_bit_eq_mod)

lemma nat_digits_nonempty: "nat_digits n \<noteq> []"
  by (subst nat_digits.simps) simp

lemma nat_digits_no_minus: "CHR ''-'' \<notin> set (nat_digits n)"
proof (induction n rule: nat_digits.induct)
  case (1 n)
  have "digit_char (n mod 10) \<noteq> CHR ''-''" by (rule digit_char_not_minus) simp
  with 1 show ?case
    by (subst nat_digits.simps) (auto dest: digit_char_not_minus[THEN not_sym])
qed

lemma nat_digits_inject: "nat_digits m = nat_digits n \<Longrightarrow> m = n"
proof (induction m arbitrary: n rule: nat_digits.induct)
  case (1 m)
  show ?case
  proof (cases "m < 10 \<or> n < 10")
    case True
    with 1 show ?thesis
      by (auto simp: nat_digits.simps[of m] nat_digits.simps[of n] nat_digits_nonempty nat_digits_nonempty[symmetric]
          split: if_splits dest: digit_char_inject)
  next
    case False
    with 1(2) have "nat_digits (m div 10) = nat_digits (n div 10)"
      and "digit_char (m mod 10) = digit_char (n mod 10)"
      by (simp_all add: nat_digits.simps[of m] nat_digits.simps[of n])
    with 1(1) False have "m div 10 = n div 10" "m mod 10 = n mod 10"
      using digit_char_inject[of "m mod 10" "n mod 10"] by simp_all
    then show ?thesis by (metis div_mult_mod_eq)
  qed
qed

lemma fmt_int_inject: "fmt_int i = fmt_int j \<Longrightarrow> i = j"
  using nat_digits_no_minus[of "nat i"] nat_digits_no_minus[of "nat j"]
  by (auto simp: fmt_int_def split: if_splits dest: nat_digits_inject)
     (metis list.set_intros(1))+

text \<open>Reading them back.\<close>

definition parse_digits :: "string \<Rightarrow> nat" where
  "parse_digits s = foldl (\<lambda>n c. 10 * n + (of_char c - 48)) 0 s"

lemma parse_nat_digits: "parse_digits (nat_digits n) = n"
proof (induction n rule: nat_digits.induct)
  case (1 n)
  have d: "of_char (digit_char d) - 48 = d" if "d < 10" for d
    using that by (simp add: digit_char_def of_char_of)
  show ?case
    by (subst nat_digits.simps) (use 1 d[of n] d[of "n mod 10"] in \<open>auto simp: parse_digits_def\<close>)
qed

end
