(* ===== verification/Exactly_Once.thy ===== *)
theory Exactly_Once
  imports Prelude
begin

text \<open>
  The contract of an operation that records what it did and refuses to do it twice. Several
  operations of the program share it (the capacity operations of the vessel repository and of
  its gRPC handler, and the state changes of the payment service); what their callers rely on
  - retry loops and redelivered events change the state at most once - is proved here once.
\<close>

text \<open>
  \<open>ok h\<close> says that the handle \<open>h\<close> (a repository, a server) sits on a store that behaves as
  documented; \<open>db h w\<close> is the stored state in world \<open>w\<close>; \<open>marked q d\<close> says that request \<open>q\<close> has
  been applied in \<open>d\<close>; \<open>step q d d'\<close> is the one state change \<open>q\<close> may make.
\<close>

locale exactly_once =
  fixes ok :: "'h \<Rightarrow> bool"
    and run :: "'h \<Rightarrow> 'q \<Rightarrow> 'w \<Rightarrow> (goerr + 'a) \<times> 'w"
    and db :: "'h \<Rightarrow> 'w \<Rightarrow> 'd"
    and marked :: "'q \<Rightarrow> 'd \<Rightarrow> bool"
    and step :: "'q \<Rightarrow> 'd \<Rightarrow> 'd \<Rightarrow> bool"
  assumes run_step: "ok h \<Longrightarrow> run h q w = (r, w') \<Longrightarrow> db h w' = db h w \<or> step q (db h w) (db h w')"
    and run_marked: "ok h \<Longrightarrow> run h q w = (Inr a, w') \<Longrightarrow> marked q (db h w')"
    and step_fresh: "step q d d' \<Longrightarrow> \<not> marked q d"
    and step_marks: "step q d d' \<Longrightarrow> marked q d'"
begin

lemma marked_no_effect:
  assumes "ok h" "marked q (db h w)" "run h q w = (r, w')"
  shows "db h w' = db h w"
  using run_step[OF assms(1,3)] step_fresh assms(2) by blast

text \<open>A second run after a success, and a run after a run that took effect, change nothing.\<close>

lemma second_run_no_effect:
  assumes "ok h" "run h q w = (Inr a, w1)" "run h q w1 = (r, w2)"
  shows "db h w2 = db h w1"
  using marked_no_effect[OF assms(1) run_marked[OF assms(1,2)] assms(3)] .

definition at_most_once :: "'q \<Rightarrow> 'd \<Rightarrow> 'd \<Rightarrow> bool" where
  "at_most_once q d d' \<longleftrightarrow> d' = d \<or> step q d d'"

lemma at_most_once_trans:
  "at_most_once q x y \<Longrightarrow> at_most_once q y z \<Longrightarrow> at_most_once q x z"
  using step_fresh step_marks unfolding at_most_once_def by blast

text \<open>A retry loop, however it ends, makes the one change at most once.\<close>

lemma retry_at_most_once:
  assumes "ok h" "retry_within n retry" "retry (run h q) w = (r, w')"
  shows "db h w' = db h w \<or> step q (db h w) (db h w')"
proof -
  from assms(2) obtain k where "retry (run h q) w = attempts k (run h q) w"
    by (rule retry_withinE)
  with assms(3) have "attempts k (run h q) w = (r, w')" by simp
  from attempts_relation[where I = "\<lambda>_. True" and P = "\<lambda>w w'. at_most_once q (db h w) (db h w')",
      OF _ _ _ this]
  have "at_most_once q (db h w) (db h w')"
    using run_step[OF assms(1)] at_most_once_trans by (auto simp: at_most_once_def)
  then show ?thesis by (simp add: at_most_once_def)
qed

text \<open>A retry loop that reports success has had its effect.\<close>

lemma retry_marked:
  assumes "ok h" "retry_within n retry" "retry (run h q) w = (Inr a, w')"
  shows "marked q (db h w')"
proof -
  from assms(2) obtain k where "retry (run h q) w = attempts k (run h q) w"
    by (rule retry_withinE)
  with assms(3) have "attempts k (run h q) w = (Inr a, w')" by simp
  from attempts_success[where I = "\<lambda>_. True" and Q = "\<lambda>_ w. marked q (db h w)", OF _ _ _ this]
  show ?thesis using run_marked[OF assms(1)] by blast
qed

text \<open>Any sequence of deliveries of the same request, each retried, takes effect at most once.\<close>

fun deliveries :: "'h \<Rightarrow> 'q \<Rightarrow> nat \<Rightarrow> 'w \<Rightarrow> 'w" where
  "deliveries h q 0 w = w"
| "deliveries h q (Suc k) w = deliveries h q k (snd (run h q w))"

lemma deliveries_at_most_once:
  assumes "ok h"
  shows "db h (deliveries h q k w) = db h w \<or> step q (db h w) (db h (deliveries h q k w))"
proof -
  have "at_most_once q (db h w) (db h (deliveries h q k w))"
  proof (induction k arbitrary: w)
    case 0
    then show ?case by (simp add: at_most_once_def)
  next
    case (Suc k)
    obtain r w1 where "run h q w = (r, w1)" by (cases "run h q w")
    with run_step[OF assms this] Suc[of w1] at_most_once_trans show ?case
      by (auto simp: at_most_once_def)
  qed
  then show ?thesis by (simp add: at_most_once_def)
qed

end

end
