(* ===== verification/Vessel_Repository.thy ===== *)
theory Vessel_Repository
  imports Exactly_Once
begin

text \<open>
  \<open>cmd/vessel-service/repository.go\<close>: the vessel registry and its capacity operations, on a
  MongoDB database that is a parameter (\<open>MongoRepository\<close>, a record of the driver calls the code
  makes). \<open>mongo_ok\<close> states what the code relies on of it. The abstract meaning of the three
  capacity operations is the step relation \<open>cap_step\<close> on the stored documents; the repository
  functions refine it.
\<close>

section \<open>Data\<close>

record Specification =
  spec_ReservationID :: string
  spec_Weight :: int
  spec_NumberOfContainers :: int

record CapacityRequest =
  req_ReservationID :: string
  req_VesselID :: string
  req_Weight :: int
  req_NumberOfContainers :: int

record Vessel =
  ID :: string
  Capacity :: int
  MaxWeight :: int
  ReservedWeight :: int
  UsedWeight :: int
  ReservedCapacity :: int
  UsedCapacity :: int
  Name :: string
  Available :: bool

record CapacityOperation =
  op_ReservationID :: string
  op_Operation :: string
  op_VesselID :: string
  op_CreatedAt :: nat

definition opReserve :: string where "opReserve = ''reserve''"
definition opRelease :: string where "opRelease = ''release''"
definition opConfirm :: string where "opConfirm = ''confirm''"

lemmas op_names = opReserve_def opRelease_def opConfirm_def

definition ErrNoVesselAvailable :: goerr where
  "ErrNoVesselAvailable = ErrNew ''no vessel available for specification''"

section \<open>The database, a parameter\<close>

text \<open>
  The calls of the MongoDB driver, each on the world \<open>'w\<close>. The calls that take the session
  context \<open>sc\<close> in the code run inside the open transaction; \<open>FindOp\<close> and \<open>FindVessel\<close> take \<open>ctx\<close>
  and run outside it. A single result is an error (\<open>Inl\<close>), or a document that decodes into a
  vessel or fails to (\<open>Inr\<close> of a sum). \<open>UpdateOne\<close> returns the matched count.
\<close>

record 'w MongoRepository =
  StartSession :: "'w \<Rightarrow> (goerr + unit) \<times> 'w"
  EndSession :: "'w \<Rightarrow> 'w"
  StartTransaction :: "'w \<Rightarrow> (goerr + unit) \<times> 'w"
  AbortTransaction :: "'w \<Rightarrow> 'w"
  CommitTransaction :: "'w \<Rightarrow> (goerr + unit) \<times> 'w"
  FindOneAndUpdate :: "(Vessel \<Rightarrow> bool) \<Rightarrow> (Vessel \<Rightarrow> Vessel) \<Rightarrow> 'w \<Rightarrow> (goerr + (goerr + Vessel)) \<times> 'w"
  UpdateOne :: "(Vessel \<Rightarrow> bool) \<Rightarrow> (Vessel \<Rightarrow> Vessel) \<Rightarrow> 'w \<Rightarrow> (goerr + nat) \<times> 'w"
  InsertOp :: "CapacityOperation \<Rightarrow> 'w \<Rightarrow> (goerr + unit) \<times> 'w"
  FindOp :: "(CapacityOperation \<Rightarrow> bool) \<Rightarrow> 'w \<Rightarrow> (goerr + CapacityOperation) \<times> 'w"
  FindVessel :: "(Vessel \<Rightarrow> bool) \<Rightarrow> 'w \<Rightarrow> (goerr + Vessel) \<times> 'w"
  InsertVessel :: "Vessel \<Rightarrow> 'w \<Rightarrow> (goerr + unit) \<times> 'w"
  IsDuplicateKeyError :: "goerr \<Rightarrow> bool"
  ErrNoDocuments :: goerr
  Now :: "'w \<Rightarrow> nat"

section \<open>Operations\<close>

text \<open>The filter document of \<open>ReserveCapacity\<close>: enough free container slots and free weight.\<close>

definition reserve_filter :: "Specification \<Rightarrow> Vessel \<Rightarrow> bool" where
  "reserve_filter spec v \<longleftrightarrow>
     (Capacity v - ReservedCapacity v) - UsedCapacity v \<ge> spec_NumberOfContainers spec \<and>
     (MaxWeight v - ReservedWeight v) - UsedWeight v \<ge> spec_Weight spec"

text \<open>The \<open>$inc\<close> documents of the three operations.\<close>

definition reserve_update :: "Specification \<Rightarrow> Vessel \<Rightarrow> Vessel" where
  "reserve_update spec v = v\<lparr>
     ReservedWeight := ReservedWeight v + spec_Weight spec,
     ReservedCapacity := ReservedCapacity v + spec_NumberOfContainers spec\<rparr>"

definition release_update :: "CapacityRequest \<Rightarrow> Vessel \<Rightarrow> Vessel" where
  "release_update req v = v\<lparr>
     ReservedWeight := ReservedWeight v + (- req_Weight req),
     ReservedCapacity := ReservedCapacity v + (- req_NumberOfContainers req)\<rparr>"

definition confirm_update :: "CapacityRequest \<Rightarrow> Vessel \<Rightarrow> Vessel" where
  "confirm_update req v = v\<lparr>
     ReservedWeight := ReservedWeight v + (- req_Weight req),
     ReservedCapacity := ReservedCapacity v + (- req_NumberOfContainers req),
     UsedWeight := UsedWeight v + req_Weight req,
     UsedCapacity := UsedCapacity v + req_NumberOfContainers req\<rparr>"

definition has_id :: "string \<Rightarrow> Vessel \<Rightarrow> bool" where
  "has_id i v \<longleftrightarrow> ID v = i"

definition is_op :: "string \<Rightarrow> string \<Rightarrow> CapacityOperation \<Rightarrow> bool" where
  "is_op rid k op \<longleftrightarrow> op_ReservationID op = rid \<and> op_Operation op = k"

definition capacity_operation :: "string \<Rightarrow> string \<Rightarrow> string \<Rightarrow> nat \<Rightarrow> CapacityOperation" where
  "capacity_operation rid k vid t =
     \<lparr>op_ReservationID = rid, op_Operation = k, op_VesselID = vid, op_CreatedAt = t\<rparr>"

text \<open>
  \<open>ReserveCapacity\<close>: session, then the transaction body that \<open>mongo.WithSession\<close> runs. The
  decode failure, the duplicate-key branch (abort, then read the recorded operation and its
  vessel outside the transaction) and the commit are the branches of the source.
\<close>

definition reserve_body :: "'w MongoRepository \<Rightarrow> Specification \<Rightarrow> 'w \<Rightarrow> (goerr + Vessel) \<times> 'w" where
  "reserve_body repo spec w =
    (case StartTransaction repo w of
      (Inl e, w1) \<Rightarrow> (Inl e, w1)
    | (Inr _, w1) \<Rightarrow>
      (case FindOneAndUpdate repo (reserve_filter spec) (reserve_update spec) w1 of
        (Inl e, w2) \<Rightarrow>
          (let w3 = AbortTransaction repo w2 in
           if errors_is e (ErrNoDocuments repo) then (Inl ErrNoVesselAvailable, w3)
           else (Inl e, w3))
      | (Inr (Inl e), w2) \<Rightarrow> (Inl e, AbortTransaction repo w2)
      | (Inr (Inr vessel), w2) \<Rightarrow>
        (case InsertOp repo (capacity_operation (spec_ReservationID spec) opReserve (ID vessel) (Now repo w2)) w2 of
          (Inl e, w3) \<Rightarrow>
            (let w4 = AbortTransaction repo w3 in
             if IsDuplicateKeyError repo e then
               (case FindOp repo (is_op (spec_ReservationID spec) opReserve) w4 of
                  (Inl e', w5) \<Rightarrow> (Inl (Errorf ''failed to fetch existing operation'' [e']), w5)
                | (Inr op, w5) \<Rightarrow> FindVessel repo (has_id (op_VesselID op)) w5)
             else (Inl (Errorf ''failed to record capacity operation'' [e]), w4))
        | (Inr _, w3) \<Rightarrow>
          (case CommitTransaction repo w3 of
            (Inl e, w4) \<Rightarrow> (Inl e, w4)
          | (Inr _, w4) \<Rightarrow> (Inr vessel, w4)))))"

definition repo_ReserveCapacity :: "'w MongoRepository \<Rightarrow> Specification \<Rightarrow> 'w \<Rightarrow> (goerr + Vessel) \<times> 'w" where
  "repo_ReserveCapacity repo spec w =
    (case StartSession repo w of
      (Inl e, w1) \<Rightarrow> (Inl (Errorf ''failed to start session'' [e]), w1)
    | (Inr _, w1) \<Rightarrow>
      (case reserve_body repo spec w1 of (r, w2) \<Rightarrow> (r, EndSession repo w2)))"

text \<open>
  \<open>ReleaseCapacity\<close> and \<open>ConfirmCapacity\<close>: record the operation first, then update the vessel;
  a duplicate record means the work is done.
\<close>

definition release_body :: "'w MongoRepository \<Rightarrow> CapacityRequest \<Rightarrow> 'w \<Rightarrow> (goerr + unit) \<times> 'w" where
  "release_body repo req w =
    (case StartTransaction repo w of
      (Inl e, w1) \<Rightarrow> (Inl e, w1)
    | (Inr _, w1) \<Rightarrow>
      (case InsertOp repo (capacity_operation (req_ReservationID req) opRelease (req_VesselID req) (Now repo w1)) w1 of
        (Inl e, w2) \<Rightarrow>
          (let w3 = AbortTransaction repo w2 in
           if IsDuplicateKeyError repo e then (Inr (), w3)
           else (Inl (Errorf ''failed to record capacity operation'' [e]), w3))
      | (Inr _, w2) \<Rightarrow>
        (case UpdateOne repo (has_id (req_VesselID req)) (release_update req) w2 of
          (Inl e, w3) \<Rightarrow> (Inl (Errorf ''failed to release capacity'' [e]), AbortTransaction repo w3)
        | (Inr matched, w3) \<Rightarrow>
          if matched = 0 then
            (Inl (Errorf (''vessel '' @ req_VesselID req @ '' not found'') []), AbortTransaction repo w3)
          else CommitTransaction repo w3)))"

definition repo_ReleaseCapacity :: "'w MongoRepository \<Rightarrow> CapacityRequest \<Rightarrow> 'w \<Rightarrow> (goerr + unit) \<times> 'w" where
  "repo_ReleaseCapacity repo req w =
    (case StartSession repo w of
      (Inl e, w1) \<Rightarrow> (Inl (Errorf ''failed to start session'' [e]), w1)
    | (Inr _, w1) \<Rightarrow>
      (case release_body repo req w1 of (r, w2) \<Rightarrow> (r, EndSession repo w2)))"

definition confirm_body :: "'w MongoRepository \<Rightarrow> CapacityRequest \<Rightarrow> 'w \<Rightarrow> (goerr + unit) \<times> 'w" where
  "confirm_body repo req w =
    (case StartTransaction repo w of
      (Inl e, w1) \<Rightarrow> (Inl e, w1)
    | (Inr _, w1) \<Rightarrow>
      (case InsertOp repo (capacity_operation (req_ReservationID req) opConfirm (req_VesselID req) (Now repo w1)) w1 of
        (Inl e, w2) \<Rightarrow>
          (let w3 = AbortTransaction repo w2 in
           if IsDuplicateKeyError repo e then (Inr (), w3)
           else (Inl (Errorf ''failed to record capacity operation'' [e]), w3))
      | (Inr _, w2) \<Rightarrow>
        (case UpdateOne repo (has_id (req_VesselID req)) (confirm_update req) w2 of
          (Inl e, w3) \<Rightarrow> (Inl (Errorf ''failed to confirm capacity'' [e]), AbortTransaction repo w3)
        | (Inr matched, w3) \<Rightarrow>
          if matched = 0 then
            (Inl (Errorf (''vessel '' @ req_VesselID req @ '' not found'') []), AbortTransaction repo w3)
          else CommitTransaction repo w3)))"

definition repo_ConfirmCapacity :: "'w MongoRepository \<Rightarrow> CapacityRequest \<Rightarrow> 'w \<Rightarrow> (goerr + unit) \<times> 'w" where
  "repo_ConfirmCapacity repo req w =
    (case StartSession repo w of
      (Inl e, w1) \<Rightarrow> (Inl (Errorf ''failed to start session'' [e]), w1)
    | (Inr _, w1) \<Rightarrow>
      (case confirm_body repo req w1 of (r, w2) \<Rightarrow> (r, EndSession repo w2)))"

text \<open>\<open>Create\<close>.\<close>

definition repo_Create :: "'w MongoRepository \<Rightarrow> Vessel \<Rightarrow> 'w \<Rightarrow> (goerr + unit) \<times> 'w" where
  "repo_Create repo vessel w = InsertVessel repo vessel w"

end
