(* ===== verification/Vessel_Contract.thy ===== *)
theory Vessel_Contract
  imports Vessel_Repository
begin

text \<open>
  What the vessel repository promises. \<open>vdb\<close> is the content of the two collections;
  \<open>mongo_ok\<close> is the documented behaviour of MongoDB transactions that the code relies on;
  \<open>cap_step\<close> is the abstract effect of one capacity operation. Every repository call either
  leaves the committed content alone or makes exactly its own step, whatever fails on the way.
\<close>

section \<open>The stored content and the documented behaviour of the database\<close>

record vdb =
  vessels_of :: "Vessel list"
  ops_of :: "CapacityOperation list"

text \<open>The views of a world: what is committed, and what the open transaction sees.\<close>

record 'w vview =
  committed :: "'w \<Rightarrow> vdb"
  in_tx :: "'w \<Rightarrow> vdb"

definition recorded :: "vdb \<Rightarrow> string \<Rightarrow> string \<Rightarrow> bool" where
  "recorded d rid k \<longleftrightarrow> list_ex (is_op rid k) (ops_of d)"

definition put_vessel :: "vdb \<Rightarrow> nat \<Rightarrow> (Vessel \<Rightarrow> Vessel) \<Rightarrow> vdb" where
  "put_vessel d i u = d\<lparr>vessels_of := (vessels_of d)[i := u (vessels_of d ! i)]\<rparr>"

definition add_op :: "vdb \<Rightarrow> CapacityOperation \<Rightarrow> vdb" where
  "add_op d op = d\<lparr>ops_of := op # ops_of d\<rparr>"

text \<open>
  Sessions and transactions: only a commit changes the committed content; a commit that reports
  an error may still have been applied (MongoDB's unknown commit result).
\<close>

definition tx_ok :: "'w MongoRepository \<Rightarrow> 'w vview \<Rightarrow> bool" where
  "tx_ok R V \<longleftrightarrow>
     (\<forall>w r w'. StartSession R w = (r, w') \<longrightarrow> committed V w' = committed V w) \<and>
     (\<forall>w. committed V (EndSession R w) = committed V w) \<and>
     (\<forall>w r w'. StartTransaction R w = (r, w') \<longrightarrow> committed V w' = committed V w) \<and>
     (\<forall>w w'. StartTransaction R w = (Inr (), w') \<longrightarrow> in_tx V w' = committed V w) \<and>
     (\<forall>w. committed V (AbortTransaction R w) = committed V w) \<and>
     (\<forall>w w'. CommitTransaction R w = (Inr (), w') \<longrightarrow> committed V w' = in_tx V w) \<and>
     (\<forall>w e w'. CommitTransaction R w = (Inl e, w') \<longrightarrow>
        committed V w' = committed V w \<or> committed V w' = in_tx V w)"

text \<open>
  Updates inside the transaction change its own view at one matching document. No document
  found is reported as \<open>ErrNoDocuments\<close> by \<open>FindOneAndUpdate\<close>, and as a matched count of 0 by
  \<open>UpdateOne\<close>.
\<close>

definition update_ok :: "'w MongoRepository \<Rightarrow> 'w vview \<Rightarrow> bool" where
  "update_ok R V \<longleftrightarrow>
     (\<forall>f u w r w'. FindOneAndUpdate R f u w = (r, w') \<longrightarrow> committed V w' = committed V w) \<and>
     (\<forall>f u w v w'. FindOneAndUpdate R f u w = (Inr (Inr v), w') \<longrightarrow>
        (\<exists>i<length (vessels_of (in_tx V w)). f (vessels_of (in_tx V w) ! i) \<and>
           v = u (vessels_of (in_tx V w) ! i) \<and> in_tx V w' = put_vessel (in_tx V w) i u)) \<and>
     (\<forall>f u w e w'. FindOneAndUpdate R f u w = (Inl e, w') \<longrightarrow> errors_is e (ErrNoDocuments R) \<longrightarrow>
        \<not> list_ex f (vessels_of (in_tx V w))) \<and>
     (\<forall>f u w r w'. UpdateOne R f u w = (r, w') \<longrightarrow> committed V w' = committed V w) \<and>
     (\<forall>f u w n w'. UpdateOne R f u w = (Inr n, w') \<longrightarrow> n \<noteq> 0 \<longrightarrow>
        (\<exists>i<length (vessels_of (in_tx V w)). f (vessels_of (in_tx V w) ! i) \<and>
           in_tx V w' = put_vessel (in_tx V w) i u))"

text \<open>
  The unique index on \<open>(reservation_id, operation)\<close> that \<open>SetupIndexes\<close> creates: an insert
  succeeds only without a record under the key, and a duplicate-key error means there is one.
  Reads outside the transaction see committed documents. \<open>InsertVessel\<close> is a write of its own: one
  that is answered with an error may have taken effect.
\<close>

definition index_ok :: "'w MongoRepository \<Rightarrow> 'w vview \<Rightarrow> bool" where
  "index_ok R V \<longleftrightarrow>
     (\<forall>op w r w'. InsertOp R op w = (r, w') \<longrightarrow> committed V w' = committed V w) \<and>
     (\<forall>op w w'. InsertOp R op w = (Inr (), w') \<longrightarrow>
        \<not> recorded (in_tx V w) (op_ReservationID op) (op_Operation op) \<and>
        in_tx V w' = add_op (in_tx V w) op) \<and>
     (\<forall>op w e w'. InsertOp R op w = (Inl e, w') \<longrightarrow> IsDuplicateKeyError R e \<longrightarrow>
        recorded (in_tx V w) (op_ReservationID op) (op_Operation op)) \<and>
     (\<forall>f w r w'. FindOp R f w = (r, w') \<longrightarrow> committed V w' = committed V w) \<and>
     (\<forall>f w op w'. FindOp R f w = (Inr op, w') \<longrightarrow> op \<in> set (ops_of (committed V w)) \<and> f op) \<and>
     (\<forall>f w r w'. FindVessel R f w = (r, w') \<longrightarrow> committed V w' = committed V w) \<and>
     (\<forall>f w v w'. FindVessel R f w = (Inr v, w') \<longrightarrow> v \<in> set (vessels_of (committed V w)) \<and> f v) \<and>
     (\<forall>v w w'. InsertVessel R v w = (Inr (), w') \<longrightarrow>
        committed V w' = (committed V w)\<lparr>vessels_of := vessels_of (committed V w) @ [v]\<rparr>) \<and>
     (\<forall>v w e w'. InsertVessel R v w = (Inl e, w') \<longrightarrow> committed V w' = committed V w \<or>
        committed V w' = (committed V w)\<lparr>vessels_of := vessels_of (committed V w) @ [v]\<rparr>)"

definition mongo_ok :: "'w MongoRepository \<times> 'w vview \<Rightarrow> bool" where
  "mongo_ok h \<longleftrightarrow> tx_ok (fst h) (snd h) \<and> update_ok (fst h) (snd h) \<and> index_ok (fst h) (snd h)"

section \<open>The abstract effect of a capacity operation\<close>

datatype cap_call = Reserve Specification | Release CapacityRequest | Confirm CapacityRequest

inductive cap_step :: "cap_call \<Rightarrow> vdb \<Rightarrow> vdb \<Rightarrow> bool" where
  reserve: "\<lbrakk>i < length (vessels_of d); reserve_filter spec (vessels_of d ! i);
      \<not> recorded d (spec_ReservationID spec) opReserve\<rbrakk> \<Longrightarrow>
    cap_step (Reserve spec) d
      (add_op (put_vessel d i (reserve_update spec))
        (capacity_operation (spec_ReservationID spec) opReserve (ID (vessels_of d ! i)) t))"
| release: "\<lbrakk>i < length (vessels_of d); has_id (req_VesselID req) (vessels_of d ! i);
      \<not> recorded d (req_ReservationID req) opRelease\<rbrakk> \<Longrightarrow>
    cap_step (Release req) d
      (put_vessel (add_op d
        (capacity_operation (req_ReservationID req) opRelease (req_VesselID req) t))
        i (release_update req))"
| confirm: "\<lbrakk>i < length (vessels_of d); has_id (req_VesselID req) (vessels_of d ! i);
      \<not> recorded d (req_ReservationID req) opConfirm\<rbrakk> \<Longrightarrow>
    cap_step (Confirm req) d
      (put_vessel (add_op d
        (capacity_operation (req_ReservationID req) opConfirm (req_VesselID req) t))
        i (confirm_update req))"

inductive_cases cap_reserveE: "cap_step (Reserve spec) d d'"
inductive_cases cap_releaseE: "cap_step (Release req) d d'"
inductive_cases cap_confirmE: "cap_step (Confirm req) d d'"

fun call_key :: "cap_call \<Rightarrow> string \<times> string" where
  "call_key (Reserve spec) = (spec_ReservationID spec, opReserve)"
| "call_key (Release req) = (req_ReservationID req, opRelease)"
| "call_key (Confirm req) = (req_ReservationID req, opConfirm)"

definition call_marked :: "cap_call \<Rightarrow> vdb \<Rightarrow> bool" where
  "call_marked c d \<longleftrightarrow> recorded d (fst (call_key c)) (snd (call_key c))"

lemma vdb_select [simp]:
  "vessels_of (add_op d op) = vessels_of d"
  "ops_of (add_op d op) = op # ops_of d"
  "ops_of (put_vessel d i u) = ops_of d"
  "vessels_of (put_vessel d i u) = (vessels_of d)[i := u (vessels_of d ! i)]"
  by (simp_all add: add_op_def put_vessel_def)

lemma recorded_add_op [simp]:
  "recorded (add_op d op) rid k \<longleftrightarrow> is_op rid k op \<or> recorded d rid k"
  "recorded (put_vessel d i u) rid k \<longleftrightarrow> recorded d rid k"
  by (simp_all add: recorded_def)

lemma is_op_capacity_operation [simp]:
  "is_op rid k (capacity_operation rid' k' vid t) \<longleftrightarrow> rid' = rid \<and> k' = k"
  "op_ReservationID (capacity_operation rid' k' vid t) = rid'"
  "op_Operation (capacity_operation rid' k' vid t) = k'"
  "op_VesselID (capacity_operation rid' k' vid t) = vid"
  by (simp_all add: is_op_def capacity_operation_def)

lemma update_ID [simp]:
  "ID (reserve_update spec v) = ID v"
  "ID (release_update req v) = ID v"
  "ID (confirm_update req v) = ID v"
  by (simp_all add: reserve_update_def release_update_def confirm_update_def)

lemma cap_step_fresh: "cap_step c d d' \<Longrightarrow> \<not> call_marked c d"
  by (induction rule: cap_step.induct) (simp_all add: call_marked_def)

lemma cap_step_marks: "cap_step c d d' \<Longrightarrow> call_marked c d'"
  by (induction rule: cap_step.induct) (simp_all add: call_marked_def)

lemma cap_step_ops_grow: "cap_step c d d' \<Longrightarrow> set (ops_of d) \<subseteq> set (ops_of d')"
  by (induction rule: cap_step.induct) auto

section \<open>The repository refines the abstract operations\<close>

text \<open>The laws one by one, in the form the proofs use.\<close>

lemma mongo_committed:
  assumes "mongo_ok (R, V)"
  shows "StartSession R w = (r, w') \<Longrightarrow> committed V w' = committed V w"
    and "committed V (EndSession R w) = committed V w"
    and "StartTransaction R w = (r, w') \<Longrightarrow> committed V w' = committed V w"
    and "committed V (AbortTransaction R w) = committed V w"
    and "FindOneAndUpdate R f u w = (rf, w') \<Longrightarrow> committed V w' = committed V w"
    and "UpdateOne R f u w = (ru, w') \<Longrightarrow> committed V w' = committed V w"
    and "InsertOp R op w = (r, w') \<Longrightarrow> committed V w' = committed V w"
    and "FindOp R p w = (ro, w') \<Longrightarrow> committed V w' = committed V w"
    and "FindVessel R f w = (rv, w') \<Longrightarrow> committed V w' = committed V w"
  using assms unfolding mongo_ok_def tx_ok_def update_ok_def index_ok_def fst_conv snd_conv
  by - metis+

lemma mongo_start: "mongo_ok (R, V) \<Longrightarrow> StartTransaction R w = (Inr (), w') \<Longrightarrow>
    in_tx V w' = committed V w"
  unfolding mongo_ok_def tx_ok_def by auto

lemma mongo_commit: "mongo_ok (R, V) \<Longrightarrow> CommitTransaction R w = (r, w') \<Longrightarrow>
    committed V w' = in_tx V w \<or> (\<exists>e. r = Inl e) \<and> committed V w' = committed V w"
  unfolding mongo_ok_def tx_ok_def fst_conv snd_conv by (cases r) (metis, metis old.unit.exhaust)

lemma mongo_find_update: "mongo_ok (R, V) \<Longrightarrow> FindOneAndUpdate R f u w = (Inr (Inr v), w') \<Longrightarrow>
    \<exists>i<length (vessels_of (in_tx V w)). f (vessels_of (in_tx V w) ! i) \<and>
      v = u (vessels_of (in_tx V w) ! i) \<and> in_tx V w' = put_vessel (in_tx V w) i u"
  unfolding mongo_ok_def update_ok_def fst_conv snd_conv by blast

lemma mongo_no_documents: "mongo_ok (R, V) \<Longrightarrow> FindOneAndUpdate R f u w = (Inl e, w') \<Longrightarrow>
    errors_is e (ErrNoDocuments R) \<Longrightarrow> \<not> list_ex f (vessels_of (in_tx V w))"
  unfolding mongo_ok_def update_ok_def fst_conv snd_conv by blast

lemma mongo_update: "mongo_ok (R, V) \<Longrightarrow> UpdateOne R f u w = (Inr n, w') \<Longrightarrow> n \<noteq> 0 \<Longrightarrow>
    \<exists>i<length (vessels_of (in_tx V w)). f (vessels_of (in_tx V w) ! i) \<and>
      in_tx V w' = put_vessel (in_tx V w) i u"
  unfolding mongo_ok_def update_ok_def fst_conv snd_conv by blast

lemma mongo_insert: "mongo_ok (R, V) \<Longrightarrow> InsertOp R op w = (Inr (), w') \<Longrightarrow>
    \<not> recorded (in_tx V w) (op_ReservationID op) (op_Operation op) \<and>
    in_tx V w' = add_op (in_tx V w) op"
  unfolding mongo_ok_def index_ok_def fst_conv snd_conv by simp

lemma mongo_duplicate: "mongo_ok (R, V) \<Longrightarrow> InsertOp R op w = (Inl e, w') \<Longrightarrow>
    IsDuplicateKeyError R e \<Longrightarrow>
    recorded (in_tx V w) (op_ReservationID op) (op_Operation op)"
  unfolding mongo_ok_def index_ok_def fst_conv snd_conv by simp

lemma mongo_find: "mongo_ok (R, V) \<Longrightarrow> FindOp R p w = (Inr op, w') \<Longrightarrow>
    op \<in> set (ops_of (committed V w)) \<and> p op"
  and mongo_find_vessel: "mongo_ok (R, V) \<Longrightarrow> FindVessel R f w = (Inr v, w') \<Longrightarrow>
    v \<in> set (vessels_of (committed V w)) \<and> f v"
  unfolding mongo_ok_def index_ok_def fst_conv snd_conv by blast+

lemmas mongo_laws = mongo_committed mongo_start mongo_commit mongo_find_update mongo_update
  mongo_insert mongo_duplicate

text \<open>
  What a run of \<open>ReserveCapacity\<close> amounts to: nothing; or the recorded vessel of an earlier
  reserve of the same reservation (nothing changes); or its step. A result without error means
  the reservation is recorded.
\<close>

definition reserved_on :: "Specification \<Rightarrow> Vessel \<Rightarrow> vdb \<Rightarrow> vdb \<Rightarrow> bool" where
  "reserved_on spec v d d' \<longleftrightarrow>
     (\<exists>i<length (vessels_of d). reserve_filter spec (vessels_of d ! i) \<and>
        v = reserve_update spec (vessels_of d ! i) \<and> vessels_of d' = (vessels_of d)[i := v] \<and>
        (\<exists>t. ops_of d' = capacity_operation (spec_ReservationID spec) opReserve (ID v) t # ops_of d))"

definition reserve_outcome :: "Specification \<Rightarrow> (goerr + Vessel) \<Rightarrow> vdb \<Rightarrow> vdb \<Rightarrow> bool" where
  "reserve_outcome spec r d d' \<longleftrightarrow>
     (case r of
        Inl e \<Rightarrow> d' = d \<or> cap_step (Reserve spec) d d'
      | Inr v \<Rightarrow>
          d' = d \<and> (\<exists>op\<in>set (ops_of d). is_op (spec_ReservationID spec) opReserve op \<and> ID v = op_VesselID op)
             \<and> v \<in> set (vessels_of d)
          \<or> cap_step (Reserve spec) d d' \<and> reserved_on spec v d d')"

lemma reserve_commit_step:
  assumes ok: "mongo_ok (R, V)" and start: "StartTransaction R w = (Inr (), w1)"
    and find: "FindOneAndUpdate R (reserve_filter spec) (reserve_update spec) w1 = (Inr (Inr v), w2)"
    and ins: "InsertOp R (capacity_operation (spec_ReservationID spec) opReserve (ID v) t) w2 = (Inr (), w3)"
  shows "cap_step (Reserve spec) (committed V w) (in_tx V w3)"
    and "reserved_on spec v (committed V w) (in_tx V w3)"
proof -
  let ?d = "committed V w"
  from mongo_start[OF ok start] have d: "in_tx V w1 = ?d" .
  from mongo_find_update[OF ok find, unfolded d] obtain i where i: "i < length (vessels_of ?d)"
    "reserve_filter spec (vessels_of ?d ! i)" "v = reserve_update spec (vessels_of ?d ! i)"
    "in_tx V w2 = put_vessel ?d i (reserve_update spec)" by blast
  from mongo_insert[OF ok ins] i have
    "\<not> recorded ?d (spec_ReservationID spec) opReserve"
    "in_tx V w3 = add_op (put_vessel ?d i (reserve_update spec))
      (capacity_operation (spec_ReservationID spec) opReserve (ID (vessels_of ?d ! i)) t)"
    by simp_all
  with i show "cap_step (Reserve spec) ?d (in_tx V w3)"
    and "reserved_on spec v ?d (in_tx V w3)"
    by (auto intro: cap_step.reserve simp: reserved_on_def)
qed

text \<open>The duplicate-key branch: the recorded operation and its vessel, read outside the transaction.\<close>

definition reserve_duplicate :: "'w MongoRepository \<Rightarrow> Specification \<Rightarrow> 'w \<Rightarrow> (goerr + Vessel) \<times> 'w" where
  "reserve_duplicate R spec w =
    (case FindOp R (is_op (spec_ReservationID spec) opReserve) w of
       (Inl e', w5) \<Rightarrow> (Inl (Errorf ''failed to fetch existing operation'' [e']), w5)
     | (Inr op, w5) \<Rightarrow> FindVessel R (has_id (op_VesselID op)) w5)"

lemma reserve_duplicate_outcome:
  assumes ok: "mongo_ok (R, V)" and run: "reserve_duplicate R spec w = (r, w')"
  shows "committed V w' = committed V w \<and> reserve_outcome spec r (committed V w) (committed V w)"
proof -
  obtain r5 w5 where fop: "FindOp R (is_op (spec_ReservationID spec) opReserve) w = (r5, w5)"
    by (cases "FindOp R (is_op (spec_ReservationID spec) opReserve) w")
  note c5 = mongo_committed(8)[OF ok fop]
  show ?thesis
  proof (cases r5)
    case (Inl e')
    with run fop c5 show ?thesis by (auto simp: reserve_duplicate_def reserve_outcome_def)
  next
    case (Inr op)
    with run fop have fv: "FindVessel R (has_id (op_VesselID op)) w5 = (r, w')"
      by (simp add: reserve_duplicate_def)
    have "ID v' = op_VesselID op \<and> v' \<in> set (vessels_of (committed V w))" if "r = Inr v'" for v'
      using mongo_find_vessel[OF ok, of "has_id (op_VesselID op)" w5 v' w'] fv that c5
      by (simp add: has_id_def)
    with mongo_find[OF ok fop[unfolded Inr]] mongo_committed(9)[OF ok fv] c5 show ?thesis
      by (cases r) (auto simp: reserve_outcome_def)
  qed
qed

lemma reserve_body_outcome:
  assumes ok: "mongo_ok (R, V)" and run: "reserve_body R spec w = (r, w')"
  shows "reserve_outcome spec r (committed V w) (committed V w')"
proof -
  note same = mongo_committed[OF ok]
  obtain r1 w1 where start: "StartTransaction R w = (r1, w1)" by (cases "StartTransaction R w")
  obtain r2 w2 where find:
    "FindOneAndUpdate R (reserve_filter spec) (reserve_update spec) w1 = (r2, w2)"
    by (cases "FindOneAndUpdate R (reserve_filter spec) (reserve_update spec) w1")
  note c12 = same(3)[OF start] same(5)[OF find]
  show ?thesis
  proof (cases "\<exists>v. r1 = Inr () \<and> r2 = Inr (Inr v)")
    case False
    with run start find c12 show ?thesis
      by (auto simp: reserve_body_def reserve_outcome_def same(4) Let_def
          split: sum.splits if_splits)
  next
    case True
    then obtain v where v: "r1 = Inr ()" "r2 = Inr (Inr v)" by blast
    let ?op = "capacity_operation (spec_ReservationID spec) opReserve (ID v) (Now R w2)"
    obtain r3 w3 where ins: "InsertOp R ?op w2 = (r3, w3)" by (cases "InsertOp R ?op w2")
    note c3 = same(7)[OF ins]
    show ?thesis
    proof (cases r3)
      case (Inr u)
      note step = reserve_commit_step[OF ok start[unfolded v] find[unfolded v], of "Now R w2" w3]
      obtain r4 w4 where com: "CommitTransaction R w3 = (r4, w4)" by (cases "CommitTransaction R w3")
      from run start find ins com v Inr have "w' = w4" "r = (case r4 of Inl e \<Rightarrow> Inl e | Inr _ \<Rightarrow> Inr v)"
        by (auto simp: reserve_body_def split: sum.splits)
      with mongo_commit[OF ok com] step ins Inr c12 c3 show ?thesis
        by (auto simp: reserve_outcome_def split: sum.splits)
    next
      case (Inl e)
      from run start find ins v Inl have "IsDuplicateKeyError R e \<Longrightarrow>
          reserve_duplicate R spec (AbortTransaction R w3) = (r, w')"
        and "\<not> IsDuplicateKeyError R e \<Longrightarrow> (\<exists>e'. r = Inl e') \<and> w' = AbortTransaction R w3"
        by (auto simp: reserve_body_def reserve_duplicate_def Let_def)
      with reserve_duplicate_outcome[OF ok, of spec "AbortTransaction R w3"] c12 c3 same(4)
      show ?thesis by (cases "IsDuplicateKeyError R e") (auto simp: reserve_outcome_def)
    qed
  qed
qed

lemma repo_ReserveCapacity_outcome:
  assumes ok: "mongo_ok (R, V)" and run: "repo_ReserveCapacity R spec w = (r, w')"
  shows "reserve_outcome spec r (committed V w) (committed V w')"
proof -
  obtain r1 w1 where s: "StartSession R w = (r1, w1)" by (cases "StartSession R w")
  obtain r2 w2 where b: "reserve_body R spec w1 = (r2, w2)" by (cases "reserve_body R spec w1")
  from reserve_body_outcome[OF ok b] mongo_committed(1)[OF ok s] mongo_committed(2)[OF ok] run s b
  show ?thesis
    by (auto simp: repo_ReserveCapacity_def reserve_outcome_def split: sum.splits)
qed

text \<open>
  \<open>ReleaseCapacity\<close> and \<open>ConfirmCapacity\<close> have one shape: record the operation, update the
  vessel, commit. \<open>once_body\<close> is that shape.
\<close>

definition once_body ::
  "string \<Rightarrow> string \<Rightarrow> string \<Rightarrow> (Vessel \<Rightarrow> Vessel) \<Rightarrow> string \<Rightarrow> 'w MongoRepository \<Rightarrow> 'w \<Rightarrow> (goerr + unit) \<times> 'w" where
  "once_body rid k vid upd msg repo w =
    (case StartTransaction repo w of
      (Inl e, w1) \<Rightarrow> (Inl e, w1)
    | (Inr _, w1) \<Rightarrow>
      (case InsertOp repo (capacity_operation rid k vid (Now repo w1)) w1 of
        (Inl e, w2) \<Rightarrow>
          (let w3 = AbortTransaction repo w2 in
           if IsDuplicateKeyError repo e then (Inr (), w3)
           else (Inl (Errorf ''failed to record capacity operation'' [e]), w3))
      | (Inr _, w2) \<Rightarrow>
        (case UpdateOne repo (has_id vid) upd w2 of
          (Inl e, w3) \<Rightarrow> (Inl (Errorf msg [e]), AbortTransaction repo w3)
        | (Inr matched, w3) \<Rightarrow>
          if matched = 0 then
            (Inl (Errorf (''vessel '' @ vid @ '' not found'') []), AbortTransaction repo w3)
          else CommitTransaction repo w3)))"

lemma release_body_once: "release_body R req = once_body (req_ReservationID req) opRelease
    (req_VesselID req) (release_update req) ''failed to release capacity'' R"
  by (rule ext) (simp add: release_body_def once_body_def)

lemma confirm_body_once: "confirm_body R req = once_body (req_ReservationID req) opConfirm
    (req_VesselID req) (confirm_update req) ''failed to confirm capacity'' R"
  by (rule ext) (simp add: confirm_body_def once_body_def)

definition once_effect :: "string \<Rightarrow> string \<Rightarrow> string \<Rightarrow> (Vessel \<Rightarrow> Vessel) \<Rightarrow> vdb \<Rightarrow> vdb \<Rightarrow> bool" where
  "once_effect rid k vid upd d d' \<longleftrightarrow>
     (\<exists>i t. i < length (vessels_of d) \<and> has_id vid (vessels_of d ! i) \<and> \<not> recorded d rid k \<and>
        d' = put_vessel (add_op d (capacity_operation rid k vid t)) i upd)"

lemma once_effect_step:
  "once_effect (req_ReservationID req) opRelease (req_VesselID req) (release_update req) d d'
     \<Longrightarrow> cap_step (Release req) d d'"
  "once_effect (req_ReservationID req) opConfirm (req_VesselID req) (confirm_update req) d d'
     \<Longrightarrow> cap_step (Confirm req) d d'"
  by (auto simp: once_effect_def intro: cap_step.intros)

lemma once_commit_effect:
  assumes ok: "mongo_ok (R, V)" and start: "StartTransaction R w = (Inr (), w1)"
    and ins: "InsertOp R (capacity_operation rid k vid t) w1 = (Inr (), w2)"
    and upd: "UpdateOne R (has_id vid) u w2 = (Inr n, w3)" and "n \<noteq> 0"
  shows "once_effect rid k vid u (committed V w) (in_tx V w3)"
proof -
  let ?op = "capacity_operation rid k vid t"
  from mongo_start[OF ok start] mongo_insert[OF ok ins]
  have d2: "in_tx V w2 = add_op (committed V w) ?op" and "\<not> recorded (committed V w) rid k"
    by simp_all
  with mongo_update[OF ok upd \<open>n \<noteq> 0\<close>] show ?thesis by (auto simp: once_effect_def)
qed

lemma once_body_outcome:
  assumes ok: "mongo_ok (R, V)" and run: "once_body rid k vid u msg R w = (r, w')"
  shows "committed V w' = committed V w \<and> (r = Inr () \<longrightarrow> recorded (committed V w) rid k) \<or>
    once_effect rid k vid u (committed V w) (committed V w')"
proof -
  note same = mongo_committed[OF ok]
  obtain r1 w1 where start: "StartTransaction R w = (r1, w1)" by (cases "StartTransaction R w")
  let ?op = "capacity_operation rid k vid (Now R w1)"
  obtain r2 w2 where ins: "InsertOp R ?op w1 = (r2, w2)" by (cases "InsertOp R ?op w1")
  obtain r3 w3 where upd: "UpdateOne R (has_id vid) u w2 = (r3, w3)"
    by (cases "UpdateOne R (has_id vid) u w2")
  note c = same(3)[OF start] same(7)[OF ins] same(6)[OF upd]
  show ?thesis
  proof (cases "\<exists>n. r1 = Inr () \<and> r2 = Inr () \<and> r3 = Inr n \<and> n \<noteq> 0")
    case False
    have "recorded (committed V w) rid k" if "r1 = Inr ()" "r2 = Inl e" "IsDuplicateKeyError R e" for e
      using mongo_duplicate[OF ok ins[unfolded that] that(3)] mongo_start[OF ok, of w w1] start that
      by simp
    with False run start ins upd c show ?thesis
      by (auto simp: once_body_def Let_def same(4) split: sum.splits if_splits)
  next
    case True
    then obtain n where n: "r1 = Inr ()" "r2 = Inr ()" "r3 = Inr n" "n \<noteq> 0" by blast
    with run start ins upd have "CommitTransaction R w3 = (r, w')" by (simp add: once_body_def)
    from mongo_commit[OF ok this] once_commit_effect[OF ok start[unfolded n] ins[unfolded n]
        upd[unfolded n] n(4)] c
    show ?thesis by auto
  qed
qed

lemma session_wrap_outcome:
  assumes ok: "mongo_ok (R, V)"
    and run: "(case StartSession R w of
      (Inl e, w1) \<Rightarrow> (Inl (Errorf ''failed to start session'' [e]), w1)
    | (Inr _, w1) \<Rightarrow>
      (case once_body rid k vid u msg R w1 of (r, w2) \<Rightarrow> (r, EndSession R w2))) = (r, w')"
  shows "committed V w' = committed V w \<and> (r = Inr () \<longrightarrow> recorded (committed V w) rid k) \<or>
    once_effect rid k vid u (committed V w) (committed V w')"
proof -
  obtain r1 w1 where s: "StartSession R w = (r1, w1)" by (cases "StartSession R w")
  obtain r2 w2 where b: "once_body rid k vid u msg R w1 = (r2, w2)"
    by (cases "once_body rid k vid u msg R w1")
  from once_body_outcome[OF ok b] mongo_committed(1)[OF ok s] mongo_committed(2)[OF ok] run s b
  show ?thesis by (cases r1) auto
qed

lemma repo_ReleaseCapacity_outcome:
  assumes "mongo_ok (R, V)" "repo_ReleaseCapacity R req w = (r, w')"
  shows "committed V w' = committed V w \<and> (r = Inr () \<longrightarrow> call_marked (Release req) (committed V w)) \<or>
    cap_step (Release req) (committed V w) (committed V w')"
  using session_wrap_outcome[OF assms(1) assms(2)[unfolded repo_ReleaseCapacity_def release_body_once]]
    once_effect_step(1) by (auto simp: call_marked_def)

lemma repo_ConfirmCapacity_outcome:
  assumes "mongo_ok (R, V)" "repo_ConfirmCapacity R req w = (r, w')"
  shows "committed V w' = committed V w \<and> (r = Inr () \<longrightarrow> call_marked (Confirm req) (committed V w)) \<or>
    cap_step (Confirm req) (committed V w) (committed V w')"
  using session_wrap_outcome[OF assms(1) assms(2)[unfolded repo_ConfirmCapacity_def confirm_body_once]]
    once_effect_step(2) by (auto simp: call_marked_def)

section \<open>The exactly-once contract, provided by the repository\<close>

interpretation repo_release: exactly_once mongo_ok "\<lambda>h. repo_ReleaseCapacity (fst h)"
  "\<lambda>h. committed (snd h)" "\<lambda>q. call_marked (Release q)" "\<lambda>q. cap_step (Release q)"
proof unfold_locales
  fix h :: "'a MongoRepository \<times> 'a vview" and q w r w' u
  assume ok: "mongo_ok h"
  then have okp: "mongo_ok (fst h, snd h)" by simp
  show "committed (snd h) w' = committed (snd h) w \<or>
      cap_step (Release q) (committed (snd h) w) (committed (snd h) w')"
    if "repo_ReleaseCapacity (fst h) q w = (r, w')"
    using repo_ReleaseCapacity_outcome[OF okp that] by blast
  show "call_marked (Release q) (committed (snd h) w')"
    if "repo_ReleaseCapacity (fst h) q w = (Inr u, w')"
    using repo_ReleaseCapacity_outcome[OF okp that] cap_step_marks by (cases u) auto
qed (simp_all add: cap_step_fresh cap_step_marks)

interpretation repo_confirm: exactly_once mongo_ok "\<lambda>h. repo_ConfirmCapacity (fst h)"
  "\<lambda>h. committed (snd h)" "\<lambda>q. call_marked (Confirm q)" "\<lambda>q. cap_step (Confirm q)"
proof unfold_locales
  fix h :: "'a MongoRepository \<times> 'a vview" and q w r w' u
  assume ok: "mongo_ok h"
  then have okp: "mongo_ok (fst h, snd h)" by simp
  show "committed (snd h) w' = committed (snd h) w \<or>
      cap_step (Confirm q) (committed (snd h) w) (committed (snd h) w')"
    if "repo_ConfirmCapacity (fst h) q w = (r, w')"
    using repo_ConfirmCapacity_outcome[OF okp that] by blast
  show "call_marked (Confirm q) (committed (snd h) w')"
    if "repo_ConfirmCapacity (fst h) q w = (Inr u, w')"
    using repo_ConfirmCapacity_outcome[OF okp that] cap_step_marks by (cases u) auto
qed (simp_all add: cap_step_fresh cap_step_marks)

end
