(* ===== verification/Vessel_Handler.thy ===== *)
theory Vessel_Handler
  imports Vessel_Contract
begin

text \<open>
  \<open>cmd/vessel-service/handler.go\<close> and the conversions of \<open>repository.go\<close>: the gRPC messages of
  \<open>proto/vessel\<close>, the four handlers over the \<open>repository\<close> interface, and the exactly-once
  contract of the release and confirm handlers on a MongoDB repository.
\<close>

section \<open>Messages\<close>

record PbVessel =
  pbv_Id :: string
  pbv_Capacity :: int32
  pbv_MaxWeight :: int32
  pbv_Name :: string
  pbv_Available :: bool
  pbv_OwnerId :: string
  pbv_ReservedWeight :: int32
  pbv_UsedWeight :: int32
  pbv_ReservedCapacity :: int32
  pbv_UsedCapacity :: int32

record PbSpecification =
  pbs_Weight :: int32
  pbs_NumberOfContainers :: int32
  pbs_ReservationId :: string

record PbCapacityRequest =
  pbr_VesselId :: string
  pbr_Weight :: int32
  pbr_NumberOfContainers :: int32
  pbr_ReservationId :: string

text \<open>\<open>Response\<close>; the message pointer \<open>Vessel\<close> may be nil.\<close>

record PbVesselResponse =
  rsp_Vessel :: "PbVessel option"
  rsp_Created :: bool

section \<open>Conversions\<close>

definition UnmarshalVessel :: "Vessel \<Rightarrow> PbVessel" where
  "UnmarshalVessel v = \<lparr>
     pbv_Id = ID v,
     pbv_Capacity = int32_of_int (Capacity v),
     pbv_MaxWeight = int32_of_int (MaxWeight v),
     pbv_Name = Name v,
     pbv_Available = Available v,
     pbv_OwnerId = '''',
     pbv_ReservedWeight = int32_of_int (ReservedWeight v),
     pbv_UsedWeight = int32_of_int (UsedWeight v),
     pbv_ReservedCapacity = int32_of_int (ReservedCapacity v),
     pbv_UsedCapacity = int32_of_int (UsedCapacity v)\<rparr>"

definition MarshalVessel :: "PbVessel \<Rightarrow> Vessel" where
  "MarshalVessel v = \<lparr>
     ID = pbv_Id v,
     Capacity = int_of_int32 (pbv_Capacity v),
     MaxWeight = int_of_int32 (pbv_MaxWeight v),
     ReservedWeight = int_of_int32 (pbv_ReservedWeight v),
     UsedWeight = int_of_int32 (pbv_UsedWeight v),
     ReservedCapacity = int_of_int32 (pbv_ReservedCapacity v),
     UsedCapacity = int_of_int32 (pbv_UsedCapacity v),
     Name = pbv_Name v,
     Available = pbv_Available v\<rparr>"

definition MarshalSpecification :: "PbSpecification \<Rightarrow> Specification" where
  "MarshalSpecification spec = \<lparr>
     spec_ReservationID = pbs_ReservationId spec,
     spec_Weight = int_of_int32 (pbs_Weight spec),
     spec_NumberOfContainers = int_of_int32 (pbs_NumberOfContainers spec)\<rparr>"

definition MarshalCapacityRequest :: "PbCapacityRequest \<Rightarrow> CapacityRequest" where
  "MarshalCapacityRequest req = \<lparr>
     req_ReservationID = pbr_ReservationId req,
     req_VesselID = pbr_VesselId req,
     req_Weight = int_of_int32 (pbr_Weight req),
     req_NumberOfContainers = int_of_int32 (pbr_NumberOfContainers req)\<rparr>"

section \<open>The repository interface and its MongoDB provider\<close>

record 'w vessel_repository =
  ri_ReserveCapacity :: "Specification \<Rightarrow> 'w \<Rightarrow> (goerr + Vessel) \<times> 'w"
  ri_ReleaseCapacity :: "CapacityRequest \<Rightarrow> 'w \<Rightarrow> (goerr + unit) \<times> 'w"
  ri_ConfirmCapacity :: "CapacityRequest \<Rightarrow> 'w \<Rightarrow> (goerr + unit) \<times> 'w"
  ri_Create :: "Vessel \<Rightarrow> 'w \<Rightarrow> (goerr + unit) \<times> 'w"

definition mongo_repository :: "'w MongoRepository \<Rightarrow> 'w vessel_repository" where
  "mongo_repository R = \<lparr>
     ri_ReserveCapacity = repo_ReserveCapacity R,
     ri_ReleaseCapacity = repo_ReleaseCapacity R,
     ri_ConfirmCapacity = repo_ConfirmCapacity R,
     ri_Create = repo_Create R\<rparr>"

section \<open>Handlers\<close>

definition vessel_Create :: "'w vessel_repository \<Rightarrow> PbVessel \<Rightarrow> 'w \<Rightarrow> (goerr + PbVesselResponse) \<times> 'w" where
  "vessel_Create h req w =
    (case ri_Create h (MarshalVessel req) w of
      (Inl e, w') \<Rightarrow> (Inl (StatusErr Internal ''failed to create vessel''), w')
    | (Inr _, w') \<Rightarrow> (Inr \<lparr>rsp_Vessel = Some req, rsp_Created = True\<rparr>, w'))"

definition vessel_ReserveCapacity ::
  "'w vessel_repository \<Rightarrow> PbSpecification \<Rightarrow> 'w \<Rightarrow> (goerr + PbVesselResponse) \<times> 'w" where
  "vessel_ReserveCapacity h req w =
    (case ri_ReserveCapacity h (MarshalSpecification req) w of
      (Inl e, w') \<Rightarrow>
        if errors_is e ErrNoVesselAvailable then
          (Inl (StatusErr NotFound ''no vessel available for specification''), w')
        else (Inl (StatusErr Internal ''failed to reserve capacity''), w')
    | (Inr vessel, w') \<Rightarrow> (Inr \<lparr>rsp_Vessel = Some (UnmarshalVessel vessel), rsp_Created = False\<rparr>, w'))"

definition vessel_ReleaseCapacity ::
  "'w vessel_repository \<Rightarrow> PbCapacityRequest \<Rightarrow> 'w \<Rightarrow> (goerr + unit) \<times> 'w" where
  "vessel_ReleaseCapacity h req w =
    (case ri_ReleaseCapacity h (MarshalCapacityRequest req) w of
      (Inl e, w') \<Rightarrow> (Inl (StatusErr Internal ''failed to release capacity''), w')
    | (Inr _, w') \<Rightarrow> (Inr (), w'))"

definition vessel_ConfirmCapacity ::
  "'w vessel_repository \<Rightarrow> PbCapacityRequest \<Rightarrow> 'w \<Rightarrow> (goerr + unit) \<times> 'w" where
  "vessel_ConfirmCapacity h req w =
    (case ri_ConfirmCapacity h (MarshalCapacityRequest req) w of
      (Inl e, w') \<Rightarrow> (Inl (StatusErr Internal ''failed to confirm capacity''), w')
    | (Inr _, w') \<Rightarrow> (Inr (), w'))"

section \<open>The exactly-once contract, provided by the handlers\<close>

interpretation vessel_release: exactly_once mongo_ok
  "\<lambda>h. vessel_ReleaseCapacity (mongo_repository (fst h))" "\<lambda>h. committed (snd h)"
  "\<lambda>q. call_marked (Release (MarshalCapacityRequest q))"
  "\<lambda>q. cap_step (Release (MarshalCapacityRequest q))"
proof unfold_locales
  fix h :: "'a MongoRepository \<times> 'a vview" and q w r w' u
  assume ok: "mongo_ok h"
  obtain r0 w0 where repo: "repo_ReleaseCapacity (fst h) (MarshalCapacityRequest q) w = (r0, w0)"
    by (cases "repo_ReleaseCapacity (fst h) (MarshalCapacityRequest q) w")
  note run = vessel_ReleaseCapacity_def mongo_repository_def
  show "committed (snd h) w' = committed (snd h) w \<or>
      cap_step (Release (MarshalCapacityRequest q)) (committed (snd h) w) (committed (snd h) w')"
    if "vessel_ReleaseCapacity (mongo_repository (fst h)) q w = (r, w')"
    using repo_release.run_step[OF ok repo] repo that by (auto simp: run split: sum.splits)
  show "call_marked (Release (MarshalCapacityRequest q)) (committed (snd h) w')"
    if "vessel_ReleaseCapacity (mongo_repository (fst h)) q w = (Inr u, w')"
    using repo_release.run_marked[OF ok] repo that by (auto simp: run split: sum.splits)
qed (simp_all add: cap_step_fresh cap_step_marks)

interpretation vessel_confirm: exactly_once mongo_ok
  "\<lambda>h. vessel_ConfirmCapacity (mongo_repository (fst h))" "\<lambda>h. committed (snd h)"
  "\<lambda>q. call_marked (Confirm (MarshalCapacityRequest q))"
  "\<lambda>q. cap_step (Confirm (MarshalCapacityRequest q))"
proof unfold_locales
  fix h :: "'a MongoRepository \<times> 'a vview" and q w r w' u
  assume ok: "mongo_ok h"
  obtain r0 w0 where repo: "repo_ConfirmCapacity (fst h) (MarshalCapacityRequest q) w = (r0, w0)"
    by (cases "repo_ConfirmCapacity (fst h) (MarshalCapacityRequest q) w")
  note run = vessel_ConfirmCapacity_def mongo_repository_def
  show "committed (snd h) w' = committed (snd h) w \<or>
      cap_step (Confirm (MarshalCapacityRequest q)) (committed (snd h) w) (committed (snd h) w')"
    if "vessel_ConfirmCapacity (mongo_repository (fst h)) q w = (r, w')"
    using repo_confirm.run_step[OF ok repo] repo that by (auto simp: run split: sum.splits)
  show "call_marked (Confirm (MarshalCapacityRequest q)) (committed (snd h) w')"
    if "vessel_ConfirmCapacity (mongo_repository (fst h)) q w = (Inr u, w')"
    using repo_confirm.run_marked[OF ok] repo that by (auto simp: run split: sum.splits)
qed (simp_all add: cap_step_fresh cap_step_marks)

end
