(* ===== verification/Vessel_Memory.thy ===== *)
theory Vessel_Memory
  imports Vessel_Handler
begin

text \<open>
  An in-memory database that behaves as \<open>mongo_ok\<close> says, on which the witnesses of the vessel
  properties run the repository: the committed content, and the open transaction's copy of it.
  \<open>m_commit_lost\<close> makes a commit report an error although it was applied.
\<close>

record memdb =
  m_db :: vdb
  m_tx :: vdb
  m_commit_lost :: bool

fun first_index :: "('a \<Rightarrow> bool) \<Rightarrow> 'a list \<Rightarrow> nat option" where
  "first_index f [] = None"
| "first_index f (x # xs) = (if f x then Some 0 else map_option Suc (first_index f xs))"

lemma first_index_Some: "first_index f xs = Some i \<Longrightarrow> i < length xs \<and> f (xs ! i)"
  by (induction xs arbitrary: i) (auto split: if_splits)

lemma first_index_None: "first_index f xs = None \<longleftrightarrow> \<not> list_ex f xs"
  by (induction xs) auto

definition mem_find_update ::
  "(Vessel \<Rightarrow> bool) \<Rightarrow> (Vessel \<Rightarrow> Vessel) \<Rightarrow> memdb \<Rightarrow> (goerr + (goerr + Vessel)) \<times> memdb" where
  "mem_find_update f u w =
    (case first_index f (vessels_of (m_tx w)) of
      None \<Rightarrow> (Inl (ErrNew ''no documents''), w)
    | Some i \<Rightarrow> (Inr (Inr (u (vessels_of (m_tx w) ! i))), w\<lparr>m_tx := put_vessel (m_tx w) i u\<rparr>))"

definition mem_update ::
  "(Vessel \<Rightarrow> bool) \<Rightarrow> (Vessel \<Rightarrow> Vessel) \<Rightarrow> memdb \<Rightarrow> (goerr + nat) \<times> memdb" where
  "mem_update f u w =
    (case first_index f (vessels_of (m_tx w)) of
      None \<Rightarrow> (Inr 0, w)
    | Some i \<Rightarrow> (Inr 1, w\<lparr>m_tx := put_vessel (m_tx w) i u\<rparr>))"

definition mem_find :: "('a \<Rightarrow> bool) \<Rightarrow> 'a list \<Rightarrow> goerr + 'a" where
  "mem_find f xs = (case first_index f xs of None \<Rightarrow> Inl (ErrNew ''no documents'') | Some i \<Rightarrow> Inr (xs ! i))"

definition mem_mongo :: "memdb MongoRepository" where
  "mem_mongo = \<lparr>
     StartSession = (\<lambda>w. (Inr (), w)),
     EndSession = (\<lambda>w. w),
     StartTransaction = (\<lambda>w. (Inr (), w\<lparr>m_tx := m_db w\<rparr>)),
     AbortTransaction = (\<lambda>w. w),
     CommitTransaction = (\<lambda>w. (if m_commit_lost w then Inl (ErrNew ''unknown commit result'') else Inr (),
        w\<lparr>m_db := m_tx w, m_commit_lost := False\<rparr>)),
     FindOneAndUpdate = mem_find_update,
     UpdateOne = mem_update,
     InsertOp = (\<lambda>op w.
       if recorded (m_tx w) (op_ReservationID op) (op_Operation op) then (Inl (ErrNew ''duplicate key''), w)
       else (Inr (), w\<lparr>m_tx := add_op (m_tx w) op\<rparr>)),
     FindOp = (\<lambda>f w. (mem_find f (ops_of (m_db w)), w)),
     FindVessel = (\<lambda>f w. (mem_find f (vessels_of (m_db w)), w)),
     InsertVessel = (\<lambda>v w. (Inr (), w\<lparr>m_db := (m_db w)\<lparr>vessels_of := vessels_of (m_db w) @ [v]\<rparr>\<rparr>)),
     IsDuplicateKeyError = (\<lambda>e. e = ErrNew ''duplicate key''),
     ErrNoDocuments = ErrNew ''no documents'',
     Now = (\<lambda>w. 0)\<rparr>"

definition mem_view :: "memdb vview" where
  "mem_view = \<lparr>committed = m_db, in_tx = m_tx\<rparr>"

lemmas mem_defs = mem_mongo_def mem_view_def mem_find_update_def mem_update_def mem_find_def

lemma mem_tx_ok: "tx_ok mem_mongo mem_view"
  by (auto simp: tx_ok_def mem_mongo_def mem_view_def)

lemma mem_update_ok: "update_ok mem_mongo mem_view"
  unfolding update_ok_def mem_defs
  by (auto simp: first_index_None dest: first_index_Some split: option.splits)

lemma mem_index_ok: "index_ok mem_mongo mem_view"
  unfolding index_ok_def mem_defs
  by (auto dest: first_index_Some split: option.splits if_splits)

lemma mem_ok: "mongo_ok (mem_mongo, mem_view)"
  by (simp add: mongo_ok_def mem_tx_ok mem_update_ok mem_index_ok)

text \<open>Sample data: one vessel, one reservation.\<close>

definition sample_vessel :: Vessel where
  "sample_vessel = \<lparr>ID = ''v1'', Capacity = 10, MaxWeight = 100, ReservedWeight = 0, UsedWeight = 0,
     ReservedCapacity = 0, UsedCapacity = 0, Name = ''SS'', Available = False\<rparr>"

definition sample_world :: memdb where
  "sample_world = \<lparr>m_db = \<lparr>vessels_of = [sample_vessel], ops_of = []\<rparr>,
     m_tx = \<lparr>vessels_of = [], ops_of = []\<rparr>, m_commit_lost = False\<rparr>"

definition sample_spec :: Specification where
  "sample_spec = \<lparr>spec_ReservationID = ''r1'', spec_Weight = 60, spec_NumberOfContainers = 4\<rparr>"

definition sample_request :: CapacityRequest where
  "sample_request = \<lparr>req_ReservationID = ''r1'', req_VesselID = ''v1'', req_Weight = 60,
     req_NumberOfContainers = 4\<rparr>"

lemmas sample_defs = sample_vessel_def sample_world_def sample_spec_def sample_request_def

end
