(* ===== verification/Vessel_Capacity.thy ===== *)
theory Vessel_Capacity
  imports Vessel_Memory
begin

text \<open>
  What the capacity bookkeeping guarantees: no vessel is booked beyond its capacity whatever
  sequence of calls runs and fails; and, for callers that release or confirm each reservation
  once and with its own amounts, the counters of every vessel are exactly the sums over the
  live reservations. Two theorems show what the unique index does not guarantee.
\<close>

section \<open>Never overbooked\<close>

definition fits :: "Vessel \<Rightarrow> bool" where
  "fits v \<longleftrightarrow> ReservedCapacity v + UsedCapacity v \<le> Capacity v \<and>
     ReservedWeight v + UsedWeight v \<le> MaxWeight v"

definition fleet_fits :: "vdb \<Rightarrow> bool" where
  "fleet_fits d \<longleftrightarrow> list_all fits (vessels_of d)"

fun call_nonneg :: "cap_call \<Rightarrow> bool" where
  "call_nonneg (Reserve spec) = True"
| "call_nonneg (Release req) = (0 \<le> req_Weight req \<and> 0 \<le> req_NumberOfContainers req)"
| "call_nonneg (Confirm req) = True"

lemma fits_update:
  "reserve_filter spec v \<Longrightarrow> fits (reserve_update spec v)"
  "fits v \<Longrightarrow> 0 \<le> req_Weight req \<Longrightarrow> 0 \<le> req_NumberOfContainers req \<Longrightarrow> fits (release_update req v)"
  "fits v \<Longrightarrow> fits (confirm_update req v)"
  by (simp_all add: fits_def reserve_filter_def reserve_update_def release_update_def confirm_update_def)

lemma list_all_update: "list_all P xs \<Longrightarrow> P x \<Longrightarrow> list_all P (xs[i := x])"
  using set_update_subset_insert[of xs i x] by (auto simp: list_all_iff)

lemma fleet_fits_put:
  "fleet_fits d \<Longrightarrow> fits (u (vessels_of d ! i)) \<Longrightarrow> fleet_fits (put_vessel d i u)"
  "fleet_fits (add_op d op) = fleet_fits d"
  by (simp_all add: fleet_fits_def list_all_update)

lemma fleet_fits_nth: "fleet_fits d \<Longrightarrow> i < length (vessels_of d) \<Longrightarrow> fits (vessels_of d ! i)"
  by (simp add: fleet_fits_def list_all_length)

lemma cap_step_fits: "cap_step c d d' \<Longrightarrow> call_nonneg c \<Longrightarrow> fleet_fits d \<Longrightarrow> fleet_fits d'"
  by (induction rule: cap_step.induct)
     (auto simp: fleet_fits_put(2) intro!: fleet_fits_put(1) fits_update fleet_fits_nth)

text \<open>One call of the repository, and a sequence of calls, each with whatever outcome.\<close>

fun repo_call :: "'w MongoRepository \<Rightarrow> cap_call \<Rightarrow> 'w \<Rightarrow> 'w" where
  "repo_call R (Reserve spec) w = snd (repo_ReserveCapacity R spec w)"
| "repo_call R (Release req) w = snd (repo_ReleaseCapacity R req w)"
| "repo_call R (Confirm req) w = snd (repo_ConfirmCapacity R req w)"

lemma repo_call_step:
  assumes "mongo_ok (R, V)"
  shows "committed V (repo_call R c w) = committed V w \<or>
    cap_step c (committed V w) (committed V (repo_call R c w))"
proof (cases c)
  case (Reserve spec)
  with repo_ReserveCapacity_outcome[OF assms, of spec w] show ?thesis
    by (cases "repo_ReserveCapacity R spec w") (auto simp: reserve_outcome_def split: sum.splits)
next
  case (Release req)
  with repo_ReleaseCapacity_outcome[OF assms, of req w] show ?thesis
    by (cases "repo_ReleaseCapacity R req w") auto
next
  case (Confirm req)
  with repo_ConfirmCapacity_outcome[OF assms, of req w] show ?thesis
    by (cases "repo_ConfirmCapacity R req w") auto
qed

lemma repo_calls_fit:
  assumes "mongo_ok (R, V)" "list_all call_nonneg cs"
  shows "fleet_fits (committed V w) \<Longrightarrow> fleet_fits (committed V (fold (repo_call R) cs w))"
  using assms(2)
proof (induction cs arbitrary: w)
  case (Cons c cs)
  have "fleet_fits (committed V (repo_call R c w))"
    using repo_call_step[OF assms(1), of c w] cap_step_fits Cons.prems by auto
  with Cons show ?case by simp
qed simp

section \<open>The ledger of reservations\<close>

text \<open>
  A ghost ledger: what each reservation holds, on which vessel, and whether it is still held,
  confirmed or released. \<open>ledger_step\<close> is the discipline of a caller that confirms or releases
  a held reservation with its own amounts.
\<close>

datatype phase = Held | Used | Freed

record entry =
  e_rid :: string
  e_vessel :: string
  e_weight :: int
  e_slots :: int
  e_phase :: phase

definition set_phase :: "string \<Rightarrow> phase \<Rightarrow> entry list \<Rightarrow> entry list" where
  "set_phase rid p g = map (\<lambda>x. if e_rid x = rid then x\<lparr>e_phase := p\<rparr> else x) g"

definition matches :: "CapacityRequest \<Rightarrow> entry \<Rightarrow> bool" where
  "matches req x \<longleftrightarrow> e_rid x = req_ReservationID req \<and> e_vessel x = req_VesselID req \<and>
     e_weight x = req_Weight req \<and> e_slots x = req_NumberOfContainers req"

inductive ledger_step :: "cap_call \<Rightarrow> vdb \<times> entry list \<Rightarrow> vdb \<times> entry list \<Rightarrow> bool" where
  hold: "cap_step (Reserve spec) d d' \<Longrightarrow>
    ledger_step (Reserve spec) (d, g)
      (d', \<lparr>e_rid = spec_ReservationID spec, e_vessel = op_VesselID (hd (ops_of d')),
            e_weight = spec_Weight spec, e_slots = spec_NumberOfContainers spec,
            e_phase = Held\<rparr> # g)"
| use: "\<lbrakk>cap_step (Confirm req) d d'; x \<in> set g; e_phase x = Held; matches req x\<rbrakk> \<Longrightarrow>
    ledger_step (Confirm req) (d, g) (d', set_phase (e_rid x) Used g)"
| free: "\<lbrakk>cap_step (Release req) d d'; x \<in> set g; e_phase x = Held; matches req x\<rbrakk> \<Longrightarrow>
    ledger_step (Release req) (d, g) (d', set_phase (e_rid x) Freed g)"

inductive ledger_reachable :: "vdb \<times> entry list \<Rightarrow> bool" where
  start: "\<lbrakk>distinct (map ID (vessels_of d)); ops_of d = [];
      list_all (\<lambda>v. ReservedWeight v = 0 \<and> UsedWeight v = 0 \<and> ReservedCapacity v = 0 \<and>
        UsedCapacity v = 0) (vessels_of d)\<rbrakk> \<Longrightarrow> ledger_reachable (d, [])"
| step: "\<lbrakk>ledger_reachable s; ledger_step c s s'\<rbrakk> \<Longrightarrow> ledger_reachable s'"

definition total :: "(entry \<Rightarrow> int) \<Rightarrow> phase \<Rightarrow> string \<Rightarrow> entry list \<Rightarrow> int" where
  "total f p vid g = (\<Sum>x\<leftarrow>g. if e_vessel x = vid \<and> e_phase x = p then f x else 0)"

definition balanced :: "entry list \<Rightarrow> Vessel \<Rightarrow> bool" where
  "balanced g v \<longleftrightarrow>
     ReservedWeight v = total e_weight Held (ID v) g \<and>
     UsedWeight v = total e_weight Used (ID v) g \<and>
     ReservedCapacity v = total e_slots Held (ID v) g \<and>
     UsedCapacity v = total e_slots Used (ID v) g"

definition ledger_inv :: "vdb \<times> entry list \<Rightarrow> bool" where
  "ledger_inv s \<longleftrightarrow> distinct (map ID (vessels_of (fst s))) \<and> distinct (map e_rid (snd s)) \<and>
     (\<forall>x\<in>set (snd s). recorded (fst s) (e_rid x) opReserve) \<and>
     (\<forall>v\<in>set (vessels_of (fst s)). balanced (snd s) v)"

lemma total_simps [simp]:
  "total f p vid [] = 0"
  "total f p vid (x # g) = (if e_vessel x = vid \<and> e_phase x = p then f x else 0) + total f p vid g"
  by (simp_all add: total_def)

lemma total_set_phase:
  assumes "distinct (map e_rid g)" "x \<in> set g"
    and ext: "\<And>y p. f (y\<lparr>e_phase := p\<rparr>) = f y"
  shows "total f p vid (set_phase (e_rid x) q g) = total f p vid g
     - (if e_vessel x = vid \<and> e_phase x = p then f x else 0)
     + (if e_vessel x = vid \<and> q = p then f x else 0)"
  using assms(1,2)
proof (induction g)
  case (Cons y g)
  show ?case
  proof (cases "x = y")
    case True
    with Cons.prems(1) have "\<forall>z\<in>set g. e_rid z \<noteq> e_rid x" by (simp add: image_iff) metis
    then have "set_phase (e_rid x) q g = g" by (simp add: set_phase_def map_idI)
    then have "set_phase (e_rid x) q (y # g) = x\<lparr>e_phase := q\<rparr> # g"
      using True by (simp add: set_phase_def)
    with True show ?thesis by (simp add: ext)
  next
    case False
    with Cons.prems have "e_rid y \<noteq> e_rid x" "x \<in> set g" by auto
    moreover from this have "set_phase (e_rid x) q (y # g) = y # set_phase (e_rid x) q g"
      by (simp add: set_phase_def)
    ultimately show ?thesis using Cons by simp
  qed
qed simp

lemma set_phase_rids: "map e_rid (set_phase rid q g) = map e_rid g"
  by (simp add: set_phase_def comp_def if_distrib cong: if_cong)

lemma distinct_ID_update: "ID v = ID (vs ! i) \<Longrightarrow> i < length vs \<Longrightarrow> map ID (vs[i := v]) = map ID vs"
  by (simp add: map_update list_update_id[of "map ID vs" i, simplified nth_map] list_update_same_conv)

text \<open>A vessel of an updated fleet is the updated one, or another one with another ID.\<close>

lemma updated_vessel_cases:
  assumes "distinct (map ID vs)" "i < length vs" "v \<in> set (vs[i := u])"
  obtains "v = u" | "v \<in> set vs" "ID v \<noteq> ID (vs ! i)"
proof -
  from assms(3) obtain j where j: "j < length vs" "v = vs[i := u] ! j"
    by (auto simp: in_set_conv_nth)
  with assms(1,2) have "j \<noteq> i \<Longrightarrow> ID (vs ! j) \<noteq> ID (vs ! i)"
    by (auto simp: distinct_conv_nth)
  with j that show ?thesis by (cases "j = i") auto
qed

text \<open>Each call keeps the ledger balanced.\<close>

lemma balanced_reserve:
  assumes "balanced g v" "e_vessel x = ID v" "e_phase x = Held"
    "e_weight x = spec_Weight spec" "e_slots x = spec_NumberOfContainers spec"
  shows "balanced (x # g) (reserve_update spec v)"
  using assms by (simp add: balanced_def reserve_update_def)

lemma balanced_other: "balanced g v \<Longrightarrow> e_vessel x \<noteq> ID v \<Longrightarrow> balanced (x # g) v"
  by (simp add: balanced_def)

lemma balanced_phase:
  assumes d: "distinct (map e_rid g)" "x \<in> set g" "e_phase x = Held" "matches req x"
    and b: "balanced g v"
  shows "ID v \<noteq> req_VesselID req \<Longrightarrow> balanced (set_phase (e_rid x) p g) v"
    and "ID v = req_VesselID req \<Longrightarrow> balanced (set_phase (e_rid x) Used g) (confirm_update req v)"
    and "ID v = req_VesselID req \<Longrightarrow> balanced (set_phase (e_rid x) Freed g) (release_update req v)"
proof -
  from d(4) have m: "req_VesselID req = e_vessel x" "req_Weight req = e_weight x"
    "req_NumberOfContainers req = e_slots x" by (simp_all add: matches_def)
  note defs = balanced_def m d(3) total_set_phase[OF d(1,2)] confirm_update_def release_update_def
  show "ID v \<noteq> req_VesselID req \<Longrightarrow> balanced (set_phase (e_rid x) p g) v"
    and "ID v = req_VesselID req \<Longrightarrow> balanced (set_phase (e_rid x) Used g) (confirm_update req v)"
    and "ID v = req_VesselID req \<Longrightarrow> balanced (set_phase (e_rid x) Freed g) (release_update req v)"
    using b by (simp_all add: defs)
qed

lemma ledger_inv_reserve:
  assumes inv: "ledger_inv (d, g)" and st: "cap_step (Reserve spec) d d'"
  shows "ledger_inv (d', \<lparr>e_rid = spec_ReservationID spec, e_vessel = op_VesselID (hd (ops_of d')),
    e_weight = spec_Weight spec, e_slots = spec_NumberOfContainers spec, e_phase = Held\<rparr> # g)"
proof -
  from st obtain i t where 1:
    "d' = add_op (put_vessel d i (reserve_update spec))
      (capacity_operation (spec_ReservationID spec) opReserve (ID (vessels_of d ! i)) t)"
    "i < length (vessels_of d)" "\<not> recorded d (spec_ReservationID spec) opReserve"
    by (elim cap_reserveE) blast
  let ?x = "\<lparr>e_rid = spec_ReservationID spec, e_vessel = op_VesselID (hd (ops_of d')),
    e_weight = spec_Weight spec, e_slots = spec_NumberOfContainers spec, e_phase = Held\<rparr>"
  from inv 1 have fresh: "spec_ReservationID spec \<notin> e_rid ` set g" by (force simp: ledger_inv_def)
  have bal: "balanced (?x # g) v" if "v \<in> set (vessels_of d')" for v
  proof (rule updated_vessel_cases[of "vessels_of d" i v "reserve_update spec (vessels_of d ! i)"])
    show "distinct (map ID (vessels_of d))" using inv by (simp add: ledger_inv_def)
    show "i < length (vessels_of d)" by (rule 1(2))
    show "v \<in> set ((vessels_of d)[i := reserve_update spec (vessels_of d ! i)])"
      using that 1 by simp
  next
    assume v: "v = reserve_update spec (vessels_of d ! i)"
    from inv 1(2) have "balanced g (vessels_of d ! i)" by (simp add: ledger_inv_def)
    with v 1 show ?thesis by (auto intro: balanced_reserve)
  next
    assume "v \<in> set (vessels_of d)" "ID v \<noteq> ID (vessels_of d ! i)"
    with inv 1 show ?thesis by (auto simp: ledger_inv_def intro!: balanced_other)
  qed
  have "map ID (vessels_of d') = map ID (vessels_of d)" using 1 by (simp add: distinct_ID_update)
  with inv fresh bal 1 show ?thesis by (simp add: ledger_inv_def)
qed

lemma ledger_inv_put:
  assumes inv: "ledger_inv (d, g)" and i: "i < length (vessels_of d)"
    and vid: "ID (vessels_of d ! i) = vid" "ID (u (vessels_of d ! i)) = vid"
    and upd: "balanced g (vessels_of d ! i) \<Longrightarrow> balanced (set_phase rid p g) (u (vessels_of d ! i))"
    and other: "\<And>v. balanced g v \<Longrightarrow> ID v \<noteq> vid \<Longrightarrow> balanced (set_phase rid p g) v"
  shows "ledger_inv (put_vessel (add_op d op) i u, set_phase rid p g)"
proof -
  have "balanced (set_phase rid p g) v"
    if "v \<in> set ((vessels_of d)[i := u (vessels_of d ! i)])" for v
    by (rule updated_vessel_cases[OF _ i that]) (use inv i vid upd other in \<open>auto simp: ledger_inv_def\<close>)
  moreover have "map ID ((vessels_of d)[i := u (vessels_of d ! i)]) = map ID (vessels_of d)"
    using i vid by (simp add: distinct_ID_update)
  moreover have "\<forall>x\<in>set (set_phase rid p g). recorded d (e_rid x) opReserve"
    using inv by (auto simp: ledger_inv_def set_phase_def)
  ultimately show ?thesis using inv by (simp add: ledger_inv_def set_phase_rids)
qed

lemma ledger_step_inv: "ledger_step c s s' \<Longrightarrow> ledger_inv s \<Longrightarrow> ledger_inv s'"
proof (induction rule: ledger_step.induct)
  case (hold spec d d' g)
  then show ?case by (intro ledger_inv_reserve)
next
  case (use req d d' x g)
  note b = balanced_phase[OF _ use(2,3,4)]
  from use(5) have di: "distinct (map e_rid g)" by (simp add: ledger_inv_def)
  from use(1) show ?case
    by (cases rule: cap_confirmE)
       (auto intro!: ledger_inv_put[OF use(5), where vid = "req_VesselID req"] b[OF di] simp: has_id_def)
next
  case (free req d d' x g)
  note b = balanced_phase[OF _ free(2,3,4)]
  from free(5) have di: "distinct (map e_rid g)" by (simp add: ledger_inv_def)
  from free(1) show ?case
    by (cases rule: cap_releaseE)
       (auto intro!: ledger_inv_put[OF free(5), where vid = "req_VesselID req"] b[OF di] simp: has_id_def)
qed

lemma ledger_reachable_inv: "ledger_reachable s \<Longrightarrow> ledger_inv s"
proof (induction rule: ledger_reachable.induct)
  case (start d)
  then show ?case by (auto simp: ledger_inv_def balanced_def list_all_iff)
next
  case (step s c s')
  then show ?case by (blast intro: ledger_step_inv)
qed

end
