(* ===== verification/Vessel_Properties.thy ===== *)
theory Vessel_Properties
  imports Vessel_Capacity
begin

text \<open>
  The properties of the vessel service, each stated over the repository functions or the gRPC
  handlers on any database that behaves as \<open>mongo_ok\<close> says, with a witness on the in-memory
  database.
\<close>

section \<open>Bookkeeping\<close>

text \<open>
  C4. Whatever sequence of reserve, release and confirm calls runs against the repository, and
  however each of them fails (no session, aborted transaction, unknown commit result), no
  vessel is ever booked beyond its capacity or its maximum weight, provided the released
  amounts are not negative.
\<close>

theorem never_overbooked:
  assumes "mongo_ok (R, V)" and "fleet_fits (committed V w)" and "list_all call_nonneg cs"
  shows "fleet_fits (committed V (fold (repo_call R) cs w))"
  by (rule repo_calls_fit[OF assms(1,3,2)])

lemma sample_fits: "fleet_fits (committed mem_view sample_world)"
  by (simp add: fleet_fits_def fits_def mem_view_def sample_defs)

theorem never_overbooked_witness:
  "fleet_fits (committed mem_view (fold (repo_call mem_mongo)
     [Reserve sample_spec, Reserve sample_spec, Confirm sample_request] sample_world))"
  by (rule never_overbooked[OF mem_ok sample_fits]) (simp add: sample_request_def)

text \<open>The ghost ledger kept along a sequence of calls: an entry changes when the call took effect.\<close>

fun ghost :: "cap_call \<Rightarrow> vdb \<Rightarrow> entry list \<Rightarrow> entry list" where
  "ghost (Reserve spec) d' g =
     \<lparr>e_rid = spec_ReservationID spec, e_vessel = op_VesselID (hd (ops_of d')),
      e_weight = spec_Weight spec, e_slots = spec_NumberOfContainers spec, e_phase = Held\<rparr> # g"
| "ghost (Release req) d' g = set_phase (req_ReservationID req) Freed g"
| "ghost (Confirm req) d' g = set_phase (req_ReservationID req) Used g"

fun disciplined :: "cap_call \<Rightarrow> entry list \<Rightarrow> bool" where
  "disciplined (Reserve spec) g = True"
| "disciplined (Release req) g = list_ex (\<lambda>x. e_phase x = Held \<and> matches req x) g"
| "disciplined (Confirm req) g = list_ex (\<lambda>x. e_phase x = Held \<and> matches req x) g"

fun ledger_run :: "'w MongoRepository \<Rightarrow> 'w vview \<Rightarrow> cap_call list \<Rightarrow> 'w \<times> entry list \<Rightarrow> ('w \<times> entry list) option" where
  "ledger_run R V [] (w, g) = Some (w, g)"
| "ledger_run R V (c # cs) (w, g) =
     (let w' = repo_call R c w in
      if \<not> (call_marked c (committed V w')) \<or> call_marked c (committed V w) then ledger_run R V cs (w', g)
      else if disciplined c g then ledger_run R V cs (w', ghost c (committed V w') g)
      else None)"

lemma ghost_step: "cap_step c d d' \<Longrightarrow> disciplined c g \<Longrightarrow> ledger_step c (d, g) (d', ghost c d' g)"
proof (cases c)
  case (Reserve spec)
  then show "cap_step c d d' \<Longrightarrow> ?thesis" by (auto intro: hold)
next
  case (Release req)
  then show "cap_step c d d' \<Longrightarrow> disciplined c g \<Longrightarrow> ?thesis"
    using free by (fastforce simp: list_ex_iff matches_def)
next
  case (Confirm req)
  then show "cap_step c d d' \<Longrightarrow> disciplined c g \<Longrightarrow> ?thesis"
    using use by (fastforce simp: list_ex_iff matches_def)
qed

lemma ledger_run_inv:
  assumes ok: "mongo_ok (R, V)"
  shows "ledger_inv (committed V w, g) \<Longrightarrow> ledger_run R V cs (w, g) = Some (w', g') \<Longrightarrow>
    ledger_inv (committed V w', g')"
proof (induction cs arbitrary: w g)
  case (Cons c cs)
  let ?w = "repo_call R c w"
  consider "committed V ?w = committed V w" | "cap_step c (committed V w) (committed V ?w)"
    using repo_call_step[OF ok] by blast
  then show ?case
  proof cases
    case 1
    with Cons.prems have "ledger_inv (committed V ?w, g)" "ledger_run R V cs (?w, g) = Some (w', g')"
      by (auto simp: Let_def)
    then show ?thesis by (rule Cons.IH)
  next
    case 2
    with Cons.prems(2) have "disciplined c g"
      "ledger_run R V cs (?w, ghost c (committed V ?w) g) = Some (w', g')"
      using cap_step_fresh[OF 2] cap_step_marks[OF 2] by (auto simp: Let_def split: if_splits)
    with Cons.IH ledger_step_inv[OF ghost_step[OF 2]] Cons.prems(1) show ?thesis by blast
  qed
qed simp

text \<open>
  C5. When every reservation is confirmed or released at most once, while it is held and with the
  amounts and the vessel it was made with (\<open>ledger_run\<close> tracks it and stops otherwise), the
  four counters of every vessel equal, after any sequence of calls and failures, the sums over
  the reservations that are still held and over those that are confirmed.
\<close>

theorem counters_match_ledger:
  assumes "mongo_ok (R, V)" and "ledger_inv (committed V w, [])"
    and "ledger_run R V cs (w, []) = Some (w', g)" and "v \<in> set (vessels_of (committed V w'))"
  shows "ReservedWeight v = total e_weight Held (ID v) g \<and> UsedWeight v = total e_weight Used (ID v) g \<and>
    ReservedCapacity v = total e_slots Held (ID v) g \<and> UsedCapacity v = total e_slots Used (ID v) g"
  using ledger_run_inv[OF assms(1-3)] assms(4) by (simp add: ledger_inv_def balanced_def)

text \<open>One run evaluated: reserve 60, reserve it again (a duplicate), confirm.\<close>

lemmas mem_eval = mem_defs sample_defs repo_ReserveCapacity_def reserve_body_def
  repo_ReleaseCapacity_def release_body_def repo_ConfirmCapacity_def confirm_body_def
  reserve_filter_def reserve_update_def release_update_def confirm_update_def has_id_def is_op_def
  capacity_operation_def op_names put_vessel_def add_op_def recorded_def call_marked_def

lemma sample_ledger: "ledger_inv (committed mem_view sample_world, [])"
  by (simp add: ledger_inv_def balanced_def mem_view_def sample_defs)

lemma sample_run: "\<exists>w' v. ledger_run mem_mongo mem_view
    [Reserve sample_spec, Reserve sample_spec, Confirm sample_request] (sample_world, [])
      = Some (w', [\<lparr>e_rid = ''r1'', e_vessel = ''v1'', e_weight = 60, e_slots = 4, e_phase = Used\<rparr>])
    \<and> vessels_of (committed mem_view w') = [v]
    \<and> ID v = ''v1'' \<and> UsedWeight v = 60 \<and> ReservedWeight v = 0"
  by (simp add: mem_eval matches_def set_phase_def)

theorem counters_match_ledger_witness:
  "\<exists>w' g v. ledger_run mem_mongo mem_view
     [Reserve sample_spec, Reserve sample_spec, Confirm sample_request] (sample_world, []) = Some (w', g)
   \<and> v \<in> set (vessels_of (committed mem_view w')) \<and> UsedWeight v = 60
   \<and> UsedWeight v = total e_weight Used (ID v) g"
proof -
  let ?g = "[\<lparr>e_rid = ''r1'', e_vessel = ''v1'', e_weight = 60, e_slots = 4, e_phase = Used\<rparr>]"
  from sample_run obtain w' v where run: "ledger_run mem_mongo mem_view
      [Reserve sample_spec, Reserve sample_spec, Confirm sample_request] (sample_world, []) = Some (w', ?g)"
    and v: "v \<in> set (vessels_of (committed mem_view w'))" "UsedWeight v = 60" by auto
  from counters_match_ledger[OF mem_ok sample_ledger run v(1)] run v show ?thesis by blast
qed

section \<open>Exactly once\<close>

text \<open>
  C24. A retry loop around the release handler, and any number of redeliveries of the same
  release request, change the stored state at most once, by releasing that reservation; when
  the loop reports success the release is recorded.
\<close>

theorem release_retried_once:
  assumes "mongo_ok (R, V)" and "retry_within n retry"
    and "retry (vessel_ReleaseCapacity (mongo_repository R) req) w = (r, w')"
  shows "(committed V w' = committed V w \<or>
      cap_step (Release (MarshalCapacityRequest req)) (committed V w) (committed V w')) \<and>
    (r = Inr () \<longrightarrow> recorded (committed V w') (pbr_ReservationId req) opRelease)"
  using vessel_release.retry_at_most_once[of "(R, V)" n retry req w r w']
    vessel_release.retry_marked[of "(R, V)" n retry req w "()" w'] assms
  by (auto simp: call_marked_def MarshalCapacityRequest_def)

definition sample_pb_request :: PbCapacityRequest where
  "sample_pb_request = \<lparr>pbr_VesselId = ''v1'', pbr_Weight = 60, pbr_NumberOfContainers = 4,
     pbr_ReservationId = ''r1''\<rparr>"

lemma sample_release_lost_commit:
  "\<exists>w'. attempts 1 (vessel_ReleaseCapacity (mongo_repository mem_mongo) sample_pb_request)
      (sample_world\<lparr>m_commit_lost := True\<rparr>) = (Inr (), w')
    \<and> map ReservedWeight (vessels_of (m_db w')) = [- 60]"
  by (simp add: vessel_ReleaseCapacity_def mongo_repository_def mem_eval sample_pb_request_def
      MarshalCapacityRequest_def int_of_int32_def)

theorem release_retried_once_witness:
  "\<exists>w'. attempts 1 (vessel_ReleaseCapacity (mongo_repository mem_mongo) sample_pb_request)
      (sample_world\<lparr>m_commit_lost := True\<rparr>) = (Inr (), w') \<and>
    map ReservedWeight (vessels_of (m_db w')) = [- 60] \<and>
    recorded (committed mem_view w') (pbr_ReservationId sample_pb_request) opRelease"
proof -
  from sample_release_lost_commit obtain w' where
    run: "attempts 1 (vessel_ReleaseCapacity (mongo_repository mem_mongo) sample_pb_request)
      (sample_world\<lparr>m_commit_lost := True\<rparr>) = (Inr (), w')"
    and rw: "map ReservedWeight (vessels_of (m_db w')) = [- 60]"
    by (elim exE conjE) (rule that)
  have "retry_within 3 (attempts 1)" by (rule retry_within_attempts) simp
  from release_retried_once[OF mem_ok this run]
  have "recorded (committed mem_view w') (pbr_ReservationId sample_pb_request) opRelease"
    by (elim conjE) (erule mp, rule refl)
  with run rw show ?thesis by (intro exI[of _ w'] conjI)
qed

text \<open>
  Redelivering a confirm request any number of times moves its amounts from reserved to used
  at most once.
\<close>

theorem confirm_redelivered_once:
  assumes "mongo_ok (R, V)"
  shows "committed V (((\<lambda>w. snd (vessel_ConfirmCapacity (mongo_repository R) req w)) ^^ k) w) = committed V w \<or>
    cap_step (Confirm (MarshalCapacityRequest req)) (committed V w)
      (committed V (((\<lambda>w. snd (vessel_ConfirmCapacity (mongo_repository R) req w)) ^^ k) w))"
proof -
  have "((\<lambda>w. snd (vessel_ConfirmCapacity (mongo_repository R) req w)) ^^ k) w =
      vessel_confirm.deliveries (R, V) req k w"
    by (induction k arbitrary: w) (simp_all add: funpow_Suc_right del: funpow.simps(2))
  with vessel_confirm.deliveries_at_most_once[of "(R, V)" req k w] assms show ?thesis by simp
qed

theorem confirm_redelivered_once_witness:
  "committed mem_view (((\<lambda>w. snd (vessel_ConfirmCapacity (mongo_repository mem_mongo) sample_pb_request w)) ^^ 3)
      sample_world) = committed mem_view sample_world \<or>
   cap_step (Confirm (MarshalCapacityRequest sample_pb_request)) (committed mem_view sample_world)
     (committed mem_view (((\<lambda>w. snd (vessel_ConfirmCapacity (mongo_repository mem_mongo) sample_pb_request w)) ^^ 3)
       sample_world))"
  by (rule confirm_redelivered_once[OF mem_ok])

section \<open>Reserving\<close>

text \<open>
  A reservation that succeeds is recorded. If it was new, the returned vessel had enough free
  weight and container slots, exactly its two reserved counters grow by the requested amounts,
  and the vessel is the one recorded for the reservation; if it had been made before (a retried
  or concurrent call), nothing changes and the vessel recorded then is returned.
\<close>

theorem reserve_success:
  assumes "mongo_ok (R, V)" and "repo_ReserveCapacity R spec w = (Inr v, w')"
  shows "if recorded (committed V w) (spec_ReservationID spec) opReserve
    then committed V w' = committed V w \<and>
      (\<exists>op\<in>set (ops_of (committed V w)). is_op (spec_ReservationID spec) opReserve op \<and> op_VesselID op = ID v)
    else reserved_on spec v (committed V w) (committed V w')"
proof (cases "recorded (committed V w) (spec_ReservationID spec) opReserve")
  case True
  then have "\<not> cap_step (Reserve spec) (committed V w) (committed V w')"
    using cap_step_fresh by (fastforce simp: call_marked_def)
  with True repo_ReserveCapacity_outcome[OF assms] show ?thesis
    by (fastforce simp: reserve_outcome_def)
next
  case False
  with repo_ReserveCapacity_outcome[OF assms] show ?thesis
    by (auto simp: reserve_outcome_def recorded_def list_ex_iff)
qed

lemma sample_reserve: "\<exists>v w'. repo_ReserveCapacity mem_mongo sample_spec sample_world = (Inr v, w')
    \<and> ReservedWeight v = 60"
  by (simp add: mem_eval)

theorem reserve_success_witness:
  "\<exists>v w'. repo_ReserveCapacity mem_mongo sample_spec sample_world = (Inr v, w') \<and>
    ReservedWeight v = 60 \<and>
    reserved_on sample_spec v (committed mem_view sample_world) (committed mem_view w')"
proof -
  from sample_reserve obtain v w' where run:
    "repo_ReserveCapacity mem_mongo sample_spec sample_world = (Inr v, w')" "ReservedWeight v = 60"
    by blast
  have "\<not> recorded (committed mem_view sample_world) (spec_ReservationID sample_spec) opReserve"
    by (simp add: mem_view_def sample_defs recorded_def)
  with reserve_success[OF mem_ok run(1)] run show ?thesis by auto
qed

text \<open>
  Repeating a reservation that is already recorded fails once no vessel has room for a second
  one: the search for a free vessel comes before the check for a duplicate, so a retry of a
  committed reservation gets an error although the capacity is held for it.
\<close>

theorem reserve_replay_needs_room:
  assumes ok: "mongo_ok (R, V)" and "recorded (committed V w) (spec_ReservationID spec) opReserve"
    and full: "\<not> list_ex (reserve_filter spec) (vessels_of (committed V w))"
    and run: "repo_ReserveCapacity R spec w = (r, w')"
  shows "\<exists>e. r = Inl e"
proof -
  obtain r0 w0 where s: "StartSession R w = (r0, w0)" by (cases "StartSession R w")
  obtain r1 w1 where t: "StartTransaction R w0 = (r1, w1)" by (cases "StartTransaction R w0")
  have no_room: "FindOneAndUpdate R (reserve_filter spec) (reserve_update spec) w1 \<noteq> (Inr (Inr v), w2)"
    if "r1 = Inr ()" for v w2
  proof
    assume "FindOneAndUpdate R (reserve_filter spec) (reserve_update spec) w1 = (Inr (Inr v), w2)"
    from mongo_find_update[OF ok this] mongo_start[OF ok, of w0 w1] t that full
      mongo_committed(1)[OF ok s]
    show False by (auto simp: list_ex_length)
  qed
  show ?thesis
  proof (cases "FindOneAndUpdate R (reserve_filter spec) (reserve_update spec) w1")
    case (Pair rf w2)
    with run s t no_room[of _ w2] show ?thesis
      by (auto simp: repo_ReserveCapacity_def reserve_body_def Let_def split: sum.splits if_splits)
  qed
qed

lemma sample_replay: "\<exists>v w1. repo_ReserveCapacity mem_mongo sample_spec sample_world = (Inr v, w1) \<and>
    recorded (committed mem_view w1) (spec_ReservationID sample_spec) opReserve \<and>
    \<not> list_ex (reserve_filter sample_spec) (vessels_of (committed mem_view w1)) \<and>
    fst (repo_ReserveCapacity mem_mongo sample_spec w1) = Inl ErrNoVesselAvailable"
  by (simp add: mem_eval)

theorem reserve_replay_needs_room_witness:
  "\<exists>v w1 e. repo_ReserveCapacity mem_mongo sample_spec sample_world = (Inr v, w1) \<and>
    fst (repo_ReserveCapacity mem_mongo sample_spec w1) = Inl e"
proof -
  from sample_replay obtain v w1 where w1:
    "repo_ReserveCapacity mem_mongo sample_spec sample_world = (Inr v, w1)"
    "recorded (committed mem_view w1) (spec_ReservationID sample_spec) opReserve"
    "\<not> list_ex (reserve_filter sample_spec) (vessels_of (committed mem_view w1))" by blast
  from reserve_replay_needs_room[OF mem_ok w1(2,3), of "fst (repo_ReserveCapacity mem_mongo sample_spec w1)"
      "snd (repo_ReserveCapacity mem_mongo sample_spec w1)"] w1(1)
  show ?thesis by auto
qed

section \<open>What the index does not exclude\<close>

lemma same_id_same_index:
  assumes "distinct (map ID (vessels_of d))" "i < length (vessels_of d)" "j < length (vessels_of d)"
    "ID (vessels_of d ! i) = ID (vessels_of d ! j)"
  shows "i = j"
  using assms by (auto simp: distinct_conv_nth)

text \<open>
  The unique index on reservation and operation makes each operation happen once, but not one
  of them only: when a reservation that has been confirmed is then released (as the
  dead-letter path of the reservation service does after a confirm whose result was lost), its
  weight is subtracted from the reserved weight twice while it stays counted as used.
\<close>

theorem release_after_confirm_frees_twice:
  assumes ok: "mongo_ok (R, V)" and ids: "distinct (map ID (vessels_of (committed V w)))"
    and c: "repo_ConfirmCapacity R req w = (Inr (), w1)"
    and l: "repo_ReleaseCapacity R req w1 = (Inr (), w2)"
    and fresh: "\<not> recorded (committed V w) (req_ReservationID req) opConfirm"
      "\<not> recorded (committed V w1) (req_ReservationID req) opRelease"
  shows "\<exists>i<length (vessels_of (committed V w)).
    ID (vessels_of (committed V w) ! i) = req_VesselID req \<and>
    ReservedWeight (vessels_of (committed V w2) ! i) =
      ReservedWeight (vessels_of (committed V w) ! i) - 2 * req_Weight req \<and>
    UsedWeight (vessels_of (committed V w2) ! i) =
      UsedWeight (vessels_of (committed V w) ! i) + req_Weight req"
proof -
  from repo_ConfirmCapacity_outcome[OF ok c] fresh(1)
  have s1: "cap_step (Confirm req) (committed V w) (committed V w1)" by (simp add: call_marked_def)
  from repo_ReleaseCapacity_outcome[OF ok l] fresh(2)
  have s2: "cap_step (Release req) (committed V w1) (committed V w2)" by (simp add: call_marked_def)
  from s1 obtain i t where i: "i < length (vessels_of (committed V w))"
    "has_id (req_VesselID req) (vessels_of (committed V w) ! i)"
    "committed V w1 = put_vessel (add_op (committed V w) t) i (confirm_update req)"
    by (elim cap_confirmE) blast
  from s2 obtain j t' where j: "j < length (vessels_of (committed V w1))"
    "has_id (req_VesselID req) (vessels_of (committed V w1) ! j)"
    "committed V w2 = put_vessel (add_op (committed V w1) t') j (release_update req)"
    by (elim cap_releaseE) blast
  have "i = j"
    by (rule same_id_same_index[OF ids i(1)]) (use i j in \<open>auto simp: has_id_def nth_list_update split: if_splits\<close>)
  with i j show ?thesis
    by (intro exI[of _ i]) (simp add: has_id_def confirm_update_def release_update_def)
qed

lemma sample_confirm_release: "\<exists>w1 w2. repo_ConfirmCapacity mem_mongo sample_request sample_world = (Inr (), w1) \<and>
    repo_ReleaseCapacity mem_mongo sample_request w1 = (Inr (), w2) \<and>
    \<not> recorded (committed mem_view w1) (req_ReservationID sample_request) opRelease"
  by (simp add: mem_eval)

theorem release_after_confirm_frees_twice_witness:
  "\<exists>w1 w2. repo_ConfirmCapacity mem_mongo sample_request sample_world = (Inr (), w1) \<and>
    repo_ReleaseCapacity mem_mongo sample_request w1 = (Inr (), w2) \<and>
    ReservedWeight (vessels_of (committed mem_view w2) ! 0) = - 120"
proof -
  from sample_confirm_release obtain w1 w2 where w:
    "repo_ConfirmCapacity mem_mongo sample_request sample_world = (Inr (), w1)"
    "repo_ReleaseCapacity mem_mongo sample_request w1 = (Inr (), w2)"
    "\<not> recorded (committed mem_view w1) (req_ReservationID sample_request) opRelease" by blast
  have "distinct (map ID (vessels_of (committed mem_view sample_world)))"
    "\<not> recorded (committed mem_view sample_world) (req_ReservationID sample_request) opConfirm"
    by (simp_all add: mem_view_def sample_defs recorded_def)
  from release_after_confirm_frees_twice[OF mem_ok this(1) w(1,2) this(2) w(3)] w(1,2) show ?thesis
    by (auto simp: mem_view_def sample_defs)
qed

section \<open>Conversions\<close>

text \<open>
  A stored vessel whose numbers fit in 32 bits survives the trip through its message, and a
  message survives the trip through the stored vessel except for its owner, which the store
  drops; numbers outside 32 bits are truncated.
\<close>

theorem vessel_roundtrip:
  assumes "list_all (\<lambda>n. - (2 ^ 31) \<le> n \<and> n < 2 ^ 31)
    [Capacity v, MaxWeight v, ReservedWeight v, UsedWeight v, ReservedCapacity v, UsedCapacity v]"
  shows "MarshalVessel (UnmarshalVessel v) = v \<and> UnmarshalVessel (MarshalVessel pb) = pb\<lparr>pbv_OwnerId := ''''\<rparr>"
  using assms by (simp add: MarshalVessel_def UnmarshalVessel_def int_of_int32_of_int)

theorem vessel_roundtrip_witness:
  "MarshalVessel (UnmarshalVessel sample_vessel) = sample_vessel \<and>
    UnmarshalVessel (MarshalVessel (UnmarshalVessel sample_vessel)) = (UnmarshalVessel sample_vessel)\<lparr>pbv_OwnerId := ''''\<rparr>"
  by (rule vessel_roundtrip) (simp add: sample_vessel_def)

end
