(* ===== verification/Events.thy ===== *)
theory Events
  imports Prelude
begin

text \<open>
  The event messages of \<open>proto/events\<close> that the consignment and the reservation service send each
  other over Kafka, with the nil-safe getters the code uses, and the parts of two libraries the
  code needs: the protobuf codec and UUIDs. Both are parameters; their documented laws are the
  predicates \<open>codec_ok\<close> and \<open>uuid_ok\<close>.
\<close>

section \<open>Messages\<close>

type_synonym bytes = string

text \<open>A \<open>timestamppb.Timestamp\<close>: seconds and nanoseconds. Message pointers may be nil.\<close>

record Timestamp =
  ts_Seconds :: "64 word"
  ts_Nanos :: int32

record PbReservationInfo =
  evi_Id :: string
  evi_VesselId :: string
  evi_ConsignmentId :: string
  evi_NumberOfContainers :: int32
  evi_Weight :: int32

record PaymentAuthorisedEvent =
  pae_ConsignmentId :: string
  pae_ReservationId :: string
  pae_VesselId :: string
  pae_PaymentAuthId :: string
  pae_IdempotencyKey :: string
  pae_Weight :: int32
  pae_Containers :: int32
  pae_RetryCount :: int32
  pae_CacheCleared :: bool
  pae_PaymentCaptured :: bool
  pae_PaymentId :: string
  pae_SagaStartedAt :: "Timestamp option"

record PaymentCapturedEvent =
  pce_ReservationInfo :: "PbReservationInfo option"
  pce_ConsignmentId :: string
  pce_PaymentId :: string
  pce_SagaStartedAt :: "Timestamp option"

record ReservationConfirmedEvent =
  rce_ReservationId :: string
  rce_ConsignmentId :: string
  rce_SagaStartedAt :: "Timestamp option"

record ReservationExpiredEvent =
  ree_ReservationId :: string
  ree_VesselId :: string
  ree_ConsignmentId :: string
  ree_Weight :: int32
  ree_Containers :: int32

record ConsignmentConfirmationFailedEvent =
  cfe_ConsignmentId :: string
  cfe_ReservationId :: string
  cfe_VesselId :: string
  cfe_PaymentId :: string
  cfe_Weight :: int32
  cfe_Containers :: int32
  cfe_CacheCleared :: bool
  cfe_PaymentCaptured :: bool
  cfe_PaymentAuthId :: string
  cfe_SagaStartedAt :: "Timestamp option"

text \<open>Protobuf enums are open: any \<open>int32\<close> can arrive.\<close>

type_synonym CapacityAction = int32

definition CAPACITY_ACTION_UNSPECIFIED :: CapacityAction where "CAPACITY_ACTION_UNSPECIFIED = 0"
definition CAPACITY_ACTION_RELEASE :: CapacityAction where "CAPACITY_ACTION_RELEASE = 1"
definition CAPACITY_ACTION_CONFIRM :: CapacityAction where "CAPACITY_ACTION_CONFIRM = 2"

lemma capacity_actions_distinct [simp]:
  "CAPACITY_ACTION_RELEASE \<noteq> CAPACITY_ACTION_CONFIRM" "CAPACITY_ACTION_CONFIRM \<noteq> CAPACITY_ACTION_RELEASE"
  by (simp_all add: CAPACITY_ACTION_RELEASE_def CAPACITY_ACTION_CONFIRM_def)

record CapacityEvent =
  ce_Action :: CapacityAction
  ce_ReservationInfo :: "PbReservationInfo option"
  ce_CacheCleared :: bool
  ce_RetryCount :: int32
  ce_ConsignmentId :: string
  ce_PaymentId :: string
  ce_SagaStartedAt :: "Timestamp option"

text \<open>A composite literal \<open>&eventspb.CapacityEvent{...}\<close> starts from the zero value.\<close>

definition zero_CapacityEvent :: CapacityEvent where
  "zero_CapacityEvent = \<lparr>ce_Action = CAPACITY_ACTION_UNSPECIFIED, ce_ReservationInfo = None,
     ce_CacheCleared = False, ce_RetryCount = 0, ce_ConsignmentId = '''', ce_PaymentId = '''',
     ce_SagaStartedAt = None\<rparr>"

definition zero_PaymentAuthorisedEvent :: PaymentAuthorisedEvent where
  "zero_PaymentAuthorisedEvent = \<lparr>pae_ConsignmentId = '''', pae_ReservationId = '''', pae_VesselId = '''',
     pae_PaymentAuthId = '''', pae_IdempotencyKey = '''', pae_Weight = 0, pae_Containers = 0,
     pae_RetryCount = 0, pae_CacheCleared = False, pae_PaymentCaptured = False, pae_PaymentId = '''',
     pae_SagaStartedAt = None\<rparr>"

definition zero_FailedEvent :: ConsignmentConfirmationFailedEvent where
  "zero_FailedEvent = \<lparr>cfe_ConsignmentId = '''', cfe_ReservationId = '''', cfe_VesselId = '''',
     cfe_PaymentId = '''', cfe_Weight = 0, cfe_Containers = 0, cfe_CacheCleared = False,
     cfe_PaymentCaptured = False, cfe_PaymentAuthId = '''', cfe_SagaStartedAt = None\<rparr>"

text \<open>The generated getters return the zero value on a nil message.\<close>

definition GetId :: "PbReservationInfo option \<Rightarrow> string" where
  "GetId i = (case i of None \<Rightarrow> '''' | Some x \<Rightarrow> evi_Id x)"

definition GetVesselId :: "PbReservationInfo option \<Rightarrow> string" where
  "GetVesselId i = (case i of None \<Rightarrow> '''' | Some x \<Rightarrow> evi_VesselId x)"

definition GetWeight :: "PbReservationInfo option \<Rightarrow> int32" where
  "GetWeight i = (case i of None \<Rightarrow> 0 | Some x \<Rightarrow> evi_Weight x)"

definition GetNumberOfContainers :: "PbReservationInfo option \<Rightarrow> int32" where
  "GetNumberOfContainers i = (case i of None \<Rightarrow> 0 | Some x \<Rightarrow> evi_NumberOfContainers x)"

lemma getters_Some [simp]:
  "GetId (Some x) = evi_Id x" "GetVesselId (Some x) = evi_VesselId x"
  "GetWeight (Some x) = evi_Weight x" "GetNumberOfContainers (Some x) = evi_NumberOfContainers x"
  by (simp_all add: GetId_def GetVesselId_def GetWeight_def GetNumberOfContainers_def)

section \<open>The protobuf codec\<close>

text \<open>
  \<open>proto.Marshal\<close> and \<open>proto.Unmarshal\<close> at one message type. Marshalling can fail (a string that
  is not UTF-8); what it produced unmarshals to the same message.
\<close>

record 'm codec =
  Marshal :: "'m \<Rightarrow> goerr + bytes"
  Unmarshal :: "bytes \<Rightarrow> goerr + 'm"

definition codec_ok :: "'m codec \<Rightarrow> bool" where
  "codec_ok c \<longleftrightarrow> (\<forall>m b. Marshal c m = Inr b \<longrightarrow> Unmarshal c b = Inr m)"

lemma codec_okD: "codec_ok c \<Longrightarrow> Marshal c m = Inr b \<Longrightarrow> Unmarshal c b = Inr m"
  by (simp add: codec_ok_def)

record event_codecs =
  pb_PaymentAuthorised :: "PaymentAuthorisedEvent codec"
  pb_PaymentCaptured :: "PaymentCapturedEvent codec"
  pb_ReservationConfirmed :: "ReservationConfirmedEvent codec"
  pb_ReservationExpired :: "ReservationExpiredEvent codec"
  pb_ConfirmationFailed :: "ConsignmentConfirmationFailedEvent codec"
  pb_Capacity :: "CapacityEvent codec"

section \<open>UUIDs\<close>

type_synonym UUID = "128 word"

record uuid_lib =
  uuid_String :: "UUID \<Rightarrow> string"
  uuid_Parse :: "string \<Rightarrow> goerr + UUID"

definition uuid_ok :: "uuid_lib \<Rightarrow> bool" where
  "uuid_ok u \<longleftrightarrow> (\<forall>i. uuid_Parse u (uuid_String u i) = Inr i)"

lemma uuid_okD: "uuid_ok u \<Longrightarrow> uuid_Parse u (uuid_String u i) = Inr i"
  by (simp add: uuid_ok_def)

lemma uuid_String_inject: "uuid_ok u \<Longrightarrow> uuid_String u i = uuid_String u j \<Longrightarrow> i = j"
  by (metis uuid_okD sum.inject(2))

end
