(* ===== verification/Kafka.thy ===== *)
theory Kafka
  imports Events
begin

text \<open>
  \<open>pkg/kafka\<close>: the header carrier that moves trace contexts through message headers, the producer,
  the consumer loop with its commit rule, and topic creation. The confluent-kafka-go clients are
  parameters, records of the calls the code makes; \<open>kafka_ok\<close> states what its documentation says
  of the position and the committed offset of a consumer.
\<close>

section \<open>Headers\<close>

record Header =
  hdr_Key :: string
  hdr_Value :: bytes

type_synonym Headers = "Header list"

text \<open>\<open>HeaderCarrier\<close> holds a pointer to the headers, which may be nil; \<open>Set\<close> writes through it.\<close>

fun header_get :: "Headers \<Rightarrow> string \<Rightarrow> string" where
  "header_get [] key = ''''"
| "header_get (h # hs) key = (if hdr_Key h = key then hdr_Value h else header_get hs key)"

definition carrier_Get :: "Headers option \<Rightarrow> string \<Rightarrow> string" where
  "carrier_Get c key = (case c of None \<Rightarrow> '''' | Some hs \<Rightarrow> header_get hs key)"

fun header_set :: "Headers \<Rightarrow> string \<Rightarrow> string \<Rightarrow> Headers" where
  "header_set [] key v = [\<lparr>hdr_Key = key, hdr_Value = v\<rparr>]"
| "header_set (h # hs) key v =
     (if hdr_Key h = key then \<lparr>hdr_Key = key, hdr_Value = v\<rparr> # hs else h # header_set hs key v)"

definition carrier_Set :: "Headers option \<Rightarrow> string \<Rightarrow> string \<Rightarrow> Headers option" where
  "carrier_Set c key v = (case c of None \<Rightarrow> None | Some hs \<Rightarrow> Some (header_set hs key v))"

definition carrier_Keys :: "Headers option \<Rightarrow> string list" where
  "carrier_Keys c = (case c of None \<Rightarrow> [] | Some hs \<Rightarrow> map hdr_Key hs)"

text \<open>
  \<open>HeadersFromTraceContext\<close>: one header per entry, in the order Go ranges over the map; the
  argument lists the entries in that order.
\<close>

definition HeadersFromTraceContext :: "(string \<times> string) list \<Rightarrow> Headers" where
  "HeadersFromTraceContext tc = map (\<lambda>(k, v). \<lparr>hdr_Key = k, hdr_Value = v\<rparr>) tc"

section \<open>Producer\<close>

datatype KafkaCode = ErrNoError | ErrMsgTimedOut | ErrTransport | ErrTopicAlreadyExists | ErrTimedOut | ErrCode int

record Message =
  msg_Topic :: string
  msg_Partition :: nat
  msg_Offset :: nat
  msg_Key :: bytes
  msg_Value :: bytes
  msg_Headers :: Headers

text \<open>What the \<open>select\<close> of \<open>Produce\<close> receives first.\<close>

datatype ProduceSelect = DeliveryReport "goerr option" | ContextDone goerr

text \<open>
  The producer client: enqueue a message, wait for its delivery report or the end of the context,
  and \<open>errors.As\<close> into a \<open>kafka.Error\<close> followed by \<open>Code()\<close>.
\<close>

record 'w ProducerClient =
  kp_Produce :: "string \<Rightarrow> bytes \<Rightarrow> bytes \<Rightarrow> Headers \<Rightarrow> 'w \<Rightarrow> (goerr + unit) \<times> 'w"
  kp_Select :: "'w \<Rightarrow> ProduceSelect \<times> 'w"
  kp_ErrorCode :: "goerr \<Rightarrow> KafkaCode option"

definition ErrBrokerUnreachable :: goerr where
  "ErrBrokerUnreachable = ErrNew ''kafka broker unreachable''"

definition isBrokerUnreachable :: "'w ProducerClient \<Rightarrow> goerr \<Rightarrow> bool" where
  "isBrokerUnreachable p err =
    (case kp_ErrorCode p err of
       None \<Rightarrow> False
     | Some c \<Rightarrow> c = ErrMsgTimedOut \<or> c = ErrTransport)"

definition Produce ::
  "'w ProducerClient \<Rightarrow> string \<Rightarrow> bytes \<Rightarrow> bytes \<Rightarrow> Headers \<Rightarrow> 'w \<Rightarrow> (goerr + unit) \<times> 'w" where
  "Produce p topic key val headers w =
    (case kp_Produce p topic key val headers w of
       (Inl e, w1) \<Rightarrow> (Inl (Errorf ''failed to enqueue message'' [e]), w1)
     | (Inr _, w1) \<Rightarrow>
       (case kp_Select p w1 of
          (DeliveryReport (Some err), w2) \<Rightarrow>
            if isBrokerUnreachable p err then (Inl (Errorf '''' [ErrBrokerUnreachable, err]), w2)
            else (Inl (Errorf ''failed to deliver message'' [err]), w2)
        | (DeliveryReport None, w2) \<Rightarrow> (Inr (), w2)
        | (ContextDone err, w2) \<Rightarrow> (Inl err, w2)))"

text \<open>
  Kafka's promise to a producer: a delivery report without an error means that the broker has the
  message; messages stay. \<open>sent\<close> are the acknowledged messages, \<open>db\<close> is what some other server holds.
\<close>

definition producer_law ::
  "'w ProducerClient \<Rightarrow> ('w \<Rightarrow> (string \<times> string \<times> bytes) set) \<Rightarrow> ('w \<Rightarrow> 'r) \<Rightarrow> bool" where
  "producer_law p sent db \<longleftrightarrow>
     (\<forall>t k x hds w q w1. kp_Produce p t k x hds w = (q, w1) \<longrightarrow>
        sent w \<subseteq> sent w1 \<and> db w1 = db w \<and>
        (\<forall>sel w2. kp_Select p w1 = (sel, w2) \<longrightarrow>
           sent w1 \<subseteq> sent w2 \<and> db w2 = db w1 \<and>
           (q = Inr () \<and> sel = DeliveryReport None \<longrightarrow> (t, k, x) \<in> sent w2)))"

lemma Produce_law:
  assumes law: "producer_law p sent db" and run: "Produce p t k x hds w = (r, w')"
  shows "sent w \<subseteq> sent w'" "db w' = db w" "r = Inr () \<Longrightarrow> (t, k, x) \<in> sent w'"
proof -
  obtain q w1 where p: "kp_Produce p t k x hds w = (q, w1)" by fastforce
  obtain sel w2 where sel: "kp_Select p w1 = (sel, w2)" by fastforce
  note L = law[unfolded producer_law_def, rule_format, OF p]
  have l1: "sent w \<subseteq> sent w1" "db w1 = db w" using L by blast+
  have l2: "sent w1 \<subseteq> sent w2" "db w2 = db w1"
    "q = Inr () \<and> sel = DeliveryReport None \<Longrightarrow> (t, k, x) \<in> sent w2" using L sel by blast+
  have "w' = w1 \<and> r \<noteq> Inr () \<or> w' = w2 \<and> (r = Inr () \<longrightarrow> q = Inr () \<and> sel = DeliveryReport None)"
    using run p sel by (auto simp: Produce_def split: sum.splits ProduceSelect.splits option.splits if_splits)
  then show "sent w \<subseteq> sent w'" "db w' = db w" "r = Inr () \<Longrightarrow> (t, k, x) \<in> sent w'" using l1 l2 by auto
qed

section \<open>Consumer\<close>

type_synonym 'w EventHandler = "bytes \<Rightarrow> bytes \<Rightarrow> 'w \<Rightarrow> (goerr + unit) \<times> 'w"
type_synonym 'w EventHandlers = "string \<rightharpoonup> 'w EventHandler"

record 'w ConsumerClient =
  kc_SubscribeTopics :: "string set \<Rightarrow> 'w \<Rightarrow> (goerr + unit) \<times> 'w"
  kc_ReadMessage :: "'w \<Rightarrow> (goerr + Message) \<times> 'w"
  kc_CommitMessage :: "Message \<Rightarrow> 'w \<Rightarrow> (goerr + unit) \<times> 'w"
  kc_Close :: "'w \<Rightarrow> 'w"

definition handleMessage :: "'w ConsumerClient \<Rightarrow> Message \<Rightarrow> 'w EventHandler \<Rightarrow> 'w \<Rightarrow> 'w" where
  "handleMessage c message handler w =
    (case handler (msg_Key message) (msg_Value message) w of
       (Inl e, w1) \<Rightarrow> w1
     | (Inr _, w1) \<Rightarrow> snd (kc_CommitMessage c message w1))"

text \<open>One pass through the \<open>default\<close> branch of the loop.\<close>

definition consume_step :: "'w ConsumerClient \<Rightarrow> 'w EventHandlers \<Rightarrow> 'w \<Rightarrow> 'w" where
  "consume_step c topicHandlers w =
    (case kc_ReadMessage c w of
       (Inl err, w1) \<Rightarrow> w1
     | (Inr message, w1) \<Rightarrow>
       (case topicHandlers (msg_Topic message) of
          Some handler \<Rightarrow> handleMessage c message handler w1
        | None \<Rightarrow> w1))"

fun consume :: "'w ConsumerClient \<Rightarrow> 'w EventHandlers \<Rightarrow> nat \<Rightarrow> 'w \<Rightarrow> 'w" where
  "consume c topicHandlers 0 w = w"
| "consume c topicHandlers (Suc n) w = consume c topicHandlers n (consume_step c topicHandlers w)"

text \<open>
  \<open>StartConsuming\<close>, when its context ends (with error \<open>done\<close>) after \<open>n\<close> passes: the loop has no
  other exit. The error is returned after the deferred \<open>Close\<close>.
\<close>

definition StartConsuming ::
  "'w ConsumerClient \<Rightarrow> 'w EventHandlers \<Rightarrow> goerr \<Rightarrow> nat \<Rightarrow> 'w \<Rightarrow> (goerr + unit) \<times> 'w" where
  "StartConsuming c topicHandlers ctx_err n w =
    (case kc_SubscribeTopics c (dom topicHandlers) w of
       (Inl e, w1) \<Rightarrow> (Inl (Errorf ''failed to subscribe to topics'' [e]), w1)
     | (Inr _, w1) \<Rightarrow> (Inl ctx_err, kc_Close c (consume c topicHandlers n w1)))"

text \<open>
  The loop over the configured topics, with which \<open>New\<close> of both event-driven managers picks the
  handlers that are active.
\<close>

fun assign_handlers :: "'w EventHandlers \<Rightarrow> 'w EventHandlers \<Rightarrow> string list \<Rightarrow> goerr + 'w EventHandlers" where
  "assign_handlers all active [] = Inr active"
| "assign_handlers all active (topic # topics) =
    (case all topic of
       None \<Rightarrow> Inl (Errorf (''no event handler for topic: '' @ topic) [])
     | Some handler \<Rightarrow> assign_handlers all (active(topic \<mapsto> handler)) topics)"

lemma assign_handlers_result:
  "assign_handlers all active ts =
    (case find (\<lambda>t. all t = None) ts of
       Some t \<Rightarrow> Inl (Errorf (''no event handler for topic: '' @ t) [])
     | None \<Rightarrow> Inr (\<lambda>t. if t \<in> set ts then all t else active t))"
  by (induction ts arbitrary: active) (auto split: option.splits)

section \<open>Topic creation\<close>

record TopicConfig =
  tc_Name :: string
  tc_NumPartitions :: int
  tc_ReplicationFactor :: int

text \<open>The admin client: a connection, and one result per topic.\<close>

record 'w AdminClient =
  ka_Connect :: "'w \<Rightarrow> (goerr + unit) \<times> 'w"
  ka_CreateTopics :: "TopicConfig list \<Rightarrow> 'w \<Rightarrow> (goerr + (string \<times> KafkaCode) list) \<times> 'w"
  ka_Close :: "'w \<Rightarrow> 'w"
  ka_Error :: "KafkaCode \<Rightarrow> goerr"

definition topic_failed :: "string \<times> KafkaCode \<Rightarrow> bool" where
  "topic_failed r \<longleftrightarrow> snd r \<noteq> ErrNoError \<and> snd r \<noteq> ErrTopicAlreadyExists"

definition EnsureTopics :: "'w AdminClient \<Rightarrow> TopicConfig list \<Rightarrow> 'w \<Rightarrow> (goerr + unit) \<times> 'w" where
  "EnsureTopics a topics w =
    (case ka_Connect a w of
       (Inl e, w1) \<Rightarrow> (Inl (Errorf ''failed to create admin client'' [e]), w1)
     | (Inr _, w1) \<Rightarrow>
       (case ka_CreateTopics a topics w1 of
          (Inl e, w2) \<Rightarrow> (Inl (Errorf ''failed to create topics'' [e]), ka_Close a w2)
        | (Inr results, w2) \<Rightarrow>
          (case find topic_failed results of
             Some (t, c) \<Rightarrow> (Inl (Errorf (''failed to create topic '' @ t) [ka_Error a c]), ka_Close a w2)
           | None \<Rightarrow> (Inr (), ka_Close a w2))))"

section \<open>The documented consumer\<close>

text \<open>
  The view of a consumer on its partitions: the position (the offset the next read
  returns) and the committed offset (where a consumer that takes the partition over starts).
\<close>

type_synonym partition = "string \<times> nat"

record 'w kview =
  kv_pos :: "'w \<Rightarrow> partition \<Rightarrow> nat"
  kv_committed :: "'w \<Rightarrow> partition \<Rightarrow> nat"

definition msg_at :: "Message \<Rightarrow> partition" where
  "msg_at m = (msg_Topic m, msg_Partition m)"

definition read_ok :: "'w ConsumerClient \<times> 'w kview \<Rightarrow> bool" where
  "read_ok h \<longleftrightarrow> (\<forall>w r w'. kc_ReadMessage (fst h) w = (r, w') \<longrightarrow>
     kv_committed (snd h) w' = kv_committed (snd h) w \<and>
     (case r of
        Inl e \<Rightarrow> kv_pos (snd h) w' = kv_pos (snd h) w
      | Inr m \<Rightarrow> msg_Offset m = kv_pos (snd h) w (msg_at m) \<and>
          kv_pos (snd h) w' = (kv_pos (snd h) w)(msg_at m := Suc (msg_Offset m))))"

definition commit_ok :: "'w ConsumerClient \<times> 'w kview \<Rightarrow> bool" where
  "commit_ok h \<longleftrightarrow> (\<forall>m w r w'. kc_CommitMessage (fst h) m w = (r, w') \<longrightarrow>
     kv_pos (snd h) w' = kv_pos (snd h) w \<and>
     (case r of
        Inl e \<Rightarrow> kv_committed (snd h) w' = kv_committed (snd h) w
      | Inr _ \<Rightarrow> kv_committed (snd h) w' = (kv_committed (snd h) w)(msg_at m := Suc (msg_Offset m))))"

text \<open>Event handlers talk to other servers; they do not touch the consumer.\<close>

definition handlers_leave :: "'w kview \<Rightarrow> 'w EventHandlers \<Rightarrow> bool" where
  "handlers_leave v hs \<longleftrightarrow> (\<forall>t f k x w r w'. hs t = Some f \<longrightarrow> f k x w = (r, w') \<longrightarrow>
     kv_pos v w' = kv_pos v w \<and> kv_committed v w' = kv_committed v w)"

definition kafka_ok :: "'w ConsumerClient \<times> 'w kview \<Rightarrow> 'w EventHandlers \<Rightarrow> bool" where
  "kafka_ok h hs \<longleftrightarrow> read_ok h \<and> commit_ok h \<and> handlers_leave (snd h) hs"

lemma read_okD:
  assumes "kafka_ok (c, v) hs" "kc_ReadMessage c w = (r, w')"
  shows "kv_committed v w' = kv_committed v w \<and>
     (case r of
        Inl e \<Rightarrow> kv_pos v w' = kv_pos v w
      | Inr m \<Rightarrow> msg_Offset m = kv_pos v w (msg_at m) \<and>
          kv_pos v w' = (kv_pos v w)(msg_at m := Suc (msg_Offset m)))"
  proof -
  from assms(1) have "read_ok (c, v)" by (simp add: kafka_ok_def)
  from this[unfolded read_ok_def fst_conv snd_conv, rule_format, OF assms(2)] show ?thesis .
qed

lemma commit_okD:
  assumes "kafka_ok (c, v) hs" "kc_CommitMessage c m w = (r, w')"
  shows "kv_pos v w' = kv_pos v w \<and>
     (case r of
        Inl e \<Rightarrow> kv_committed v w' = kv_committed v w
      | Inr _ \<Rightarrow> kv_committed v w' = (kv_committed v w)(msg_at m := Suc (msg_Offset m)))"
  proof -
  from assms(1) have "commit_ok (c, v)" by (simp add: kafka_ok_def)
  from this[unfolded commit_ok_def fst_conv snd_conv, rule_format, OF assms(2)] show ?thesis .
qed

lemma header_get_set: "header_get (header_set hs k v) k' = (if k' = k then v else header_get hs k')"
  by (induction hs) auto

lemma header_set_keys: "map hdr_Key (header_set hs k v) =
    (if k \<in> set (map hdr_Key hs) then map hdr_Key hs else map hdr_Key hs @ [k])"
  by (induction hs) auto

lemma find_filter: "find P xs = (case filter P xs of [] \<Rightarrow> None | x # _ \<Rightarrow> Some x)"
  by (induction xs) auto

text \<open>What one pass does to position and committed offset.\<close>

lemma handleMessage_view:
  assumes "kafka_ok (c, v) hs" "hs t = Some f"
  shows "kv_pos v (handleMessage c m f w) = kv_pos v w"
    and "kv_committed v (handleMessage c m f w) =
      (if (\<exists>x. fst (f (msg_Key m) (msg_Value m) w) = Inr x) \<and>
          (\<exists>x. fst (kc_CommitMessage c m (snd (f (msg_Key m) (msg_Value m) w))) = Inr x)
       then (kv_committed v w)(msg_at m := Suc (msg_Offset m)) else kv_committed v w)"
proof -
  obtain r w1 where f: "f (msg_Key m) (msg_Value m) w = (r, w1)" by fastforce
  obtain r' w2 where k: "kc_CommitMessage c m w1 = (r', w2)" by fastforce
  from assms f have 1: "kv_pos v w1 = kv_pos v w" "kv_committed v w1 = kv_committed v w"
    unfolding kafka_ok_def handlers_leave_def by (metis snd_conv)+
  have 2: "kv_pos v w2 = kv_pos v w1"
    "kv_committed v w2 = (case r' of Inl e \<Rightarrow> kv_committed v w1
       | Inr _ \<Rightarrow> (kv_committed v w1)(msg_at m := Suc (msg_Offset m)))"
    using commit_okD[OF assms(1) k] by (auto split: sum.splits)
  show "kv_pos v (handleMessage c m f w) = kv_pos v w"
    using f k 1 2 by (auto simp: handleMessage_def split: sum.splits)
  show "kv_committed v (handleMessage c m f w) =
      (if (\<exists>x. fst (f (msg_Key m) (msg_Value m) w) = Inr x) \<and>
          (\<exists>x. fst (kc_CommitMessage c m (snd (f (msg_Key m) (msg_Value m) w))) = Inr x)
       then (kv_committed v w)(msg_at m := Suc (msg_Offset m)) else kv_committed v w)"
    using f k 1 2 by (cases r; cases r') (simp_all add: handleMessage_def)
qed

lemma consume_step_pos:
  assumes "kafka_ok (c, v) hs"
  shows "kv_pos v (consume_step c hs w) = kv_pos v w \<or>
    (\<exists>m w1. kc_ReadMessage c w = (Inr m, w1) \<and> msg_Offset m = kv_pos v w (msg_at m) \<and>
       kv_pos v (consume_step c hs w) = (kv_pos v w)(msg_at m := Suc (msg_Offset m)))"
proof -
  obtain r w1 where r: "kc_ReadMessage c w = (r, w1)" by fastforce
  show ?thesis
  proof (cases r)
    case (Inl e)
    with read_okD[OF assms r] r show ?thesis by (simp add: consume_step_def)
  next
    case (Inr m)
    with read_okD[OF assms r] have 1: "msg_Offset m = kv_pos v w (msg_at m)"
      "kv_pos v w1 = (kv_pos v w)(msg_at m := Suc (msg_Offset m))" by simp_all
    have "kv_pos v (consume_step c hs w) = kv_pos v w1"
      using r Inr handleMessage_view(1)[OF assms] by (auto simp: consume_step_def split: option.splits)
    with r Inr 1 show ?thesis by auto
  qed
qed

lemma consume_pos_mono:
  assumes "kafka_ok (c, v) hs"
  shows "kv_pos v w p \<le> kv_pos v (consume c hs n w) p"
proof (induction n arbitrary: w)
  case (Suc n)
  have "kv_pos v w p \<le> kv_pos v (consume_step c hs w) p"
    using consume_step_pos[OF assms, of w] by auto
  with Suc[of "consume_step c hs w"] show ?case by simp
qed simp

section \<open>Properties\<close>

text \<open>
  The header carrier is a map over the header list: reading a key after setting it gives the
  value set, every other key keeps its value, the keys are the old ones in their old order with
  the new one at the end if it was missing, and on a nil pointer all three do nothing.
\<close>

theorem carrier_laws:
  "carrier_Get (carrier_Set c k v) k' =
     (if k' = k \<and> c \<noteq> None then v else carrier_Get c k') \<and>
   carrier_Keys (carrier_Set c k v) =
     (if c = None \<or> k \<in> set (carrier_Keys c) then carrier_Keys c else carrier_Keys c @ [k])"
  by (cases c) (simp_all add: carrier_Get_def carrier_Set_def carrier_Keys_def header_get_set header_set_keys)

text \<open>
  What an outcome of Produce means. It returns nil exactly when the message was enqueued and
  its delivery report carries no error; the error is the broker-unreachable sentinel exactly when
  the report carries a timed-out or transport error, given that neither the client's own errors
  nor the context's are that sentinel; so the outbox publisher aborts only for an unreachable
  broker and marks only delivered events.
\<close>

theorem Produce_outcome:
  assumes enq: "kp_Produce p t k x hds w = (q, w1)" and sel: "kp_Select p w1 = (s, w2)"
    and alien: "\<forall>e. q = Inl e \<or> s = DeliveryReport (Some e) \<or> s = ContextDone e \<longrightarrow> \<not> errors_is e ErrBrokerUnreachable"
  shows "(fst (Produce p t k x hds w) = Inr () \<longleftrightarrow> (\<exists>u. q = Inr u) \<and> s = DeliveryReport None) \<and>
    ((\<exists>e. fst (Produce p t k x hds w) = Inl e \<and> errors_is e ErrBrokerUnreachable) \<longleftrightarrow>
       (\<exists>u e. q = Inr u \<and> s = DeliveryReport (Some e) \<and> kp_ErrorCode p e \<in> {Some ErrMsgTimedOut, Some ErrTransport}))"
proof (cases q)
  case (Inl e)
  with enq alien show ?thesis by (simp add: Produce_def ErrBrokerUnreachable_def)
next
  case (Inr u)
  show ?thesis
  proof (cases s)
    case (DeliveryReport r)
    with enq sel Inr alien show ?thesis
      by (cases r) (auto simp: Produce_def isBrokerUnreachable_def ErrBrokerUnreachable_def split: option.splits)
  next
    case (ContextDone e)
    with enq sel Inr alien show ?thesis by (simp add: Produce_def)
  qed
qed

theorem Produce_outcome_witness:
  "\<exists>e. fst (Produce \<lparr>kp_Produce = \<lambda>_ _ _ _ w. (Inr (), w), kp_Select = \<lambda>w. (DeliveryReport (Some (ErrNew ''timeout'')), w),
     kp_ErrorCode = \<lambda>_. Some ErrMsgTimedOut\<rparr> ''t'' ''k'' ''v'' [] (0 :: nat)) = Inl e \<and> errors_is e ErrBrokerUnreachable"
  using Produce_outcome[where p = "\<lparr>kp_Produce = \<lambda>_ _ _ _ w. (Inr (), w), kp_Select = \<lambda>w. (DeliveryReport (Some (ErrNew ''timeout'')), w),
     kp_ErrorCode = \<lambda>_. Some ErrMsgTimedOut\<rparr>" and t = "''t''" and k = "''k''" and x = "''v''" and hds = "[]" and w = "0 :: nat"
     and q = "Inr ()" and s = "DeliveryReport (Some (ErrNew ''timeout''))" and ?w1.0 = 0 and ?w2.0 = 0]
  by (simp add: ErrBrokerUnreachable_def)

text \<open>
  C33. A failed message is not delivered again. When the handler fails on a message its offset is
  not committed, but the position has moved past it: however long the consumer goes on, no later
  pass reads that offset, and as soon as a later message of the partition is handled and its
  commit succeeds, the committed offset is past the failed message too, so a restart does not
  bring it back either.
\<close>

theorem failed_message_skipped:
  assumes ok: "kafka_ok (c, v) hs"
    and read: "kc_ReadMessage c w = (Inr m, w1)" and handler: "hs (msg_Topic m) = Some f"
    and fails: "f (msg_Key m) (msg_Value m) w1 = (Inl e, w2)"
    and later: "w3 = consume c hs n (consume_step c hs w)"
    and next_msg: "kc_ReadMessage c w3 = (Inr m', w4)" "msg_at m' = msg_at m"
    and handled: "f (msg_Key m') (msg_Value m') w4 = (Inr u, w5)"
    and commits: "kc_CommitMessage c m' w5 = (Inr u', w6)"
  shows "kv_committed v (consume_step c hs w) = kv_committed v w \<and>
    msg_Offset m < msg_Offset m' \<and>
    msg_Offset m < kv_committed v (consume_step c hs w3) (msg_at m)"
proof -
  have w1: "kv_committed v w1 = kv_committed v w" "kv_pos v w1 = (kv_pos v w)(msg_at m := Suc (msg_Offset m))"
    using read_okD[OF ok read] by simp_all
  have first: "consume_step c hs w = handleMessage c m f w1"
    using read handler by (simp add: consume_step_def)
  have "kv_committed v (consume_step c hs w) = kv_committed v w"
    using handleMessage_view(2)[OF ok handler, of m w1] fails w1 by (simp add: first)
  moreover have "kv_pos v (consume_step c hs w) (msg_at m) = Suc (msg_Offset m)"
    using handleMessage_view(1)[OF ok handler, of m w1] w1 by (simp add: first)
  with consume_pos_mono[OF ok, of "consume_step c hs w" "msg_at m" n] later
  have "Suc (msg_Offset m) \<le> kv_pos v w3 (msg_at m)" by simp
  moreover have "msg_Offset m' = kv_pos v w3 (msg_at m)"
    using read_okD[OF ok next_msg(1)] next_msg(2) by simp
  ultimately have less: "msg_Offset m < msg_Offset m'" by simp
  have "msg_Topic m' = msg_Topic m" using next_msg(2) by (simp add: msg_at_def)
  then have "kv_committed v (consume_step c hs w3) (msg_at m) = Suc (msg_Offset m')"
    using handleMessage_view(2)[OF ok handler, of m' w4] next_msg handled commits handler
    by (simp add: consume_step_def)
  with less \<open>kv_committed v (consume_step c hs w) = kv_committed v w\<close> show ?thesis by simp
qed

text \<open>A consumer of one partition of three messages, the first of which its handler refuses.\<close>

record kworld =
  kw_pos :: nat
  kw_committed :: nat

definition sample_consumer :: "kworld ConsumerClient" where
  "sample_consumer = \<lparr>
     kc_SubscribeTopics = \<lambda>_ w. (Inr (), w),
     kc_ReadMessage = \<lambda>w. (Inr \<lparr>msg_Topic = ''t'', msg_Partition = 0, msg_Offset = kw_pos w, msg_Key = ''k'',
        msg_Value = (if kw_pos w = 0 then ''bad'' else ''good''), msg_Headers = []\<rparr>, w\<lparr>kw_pos := Suc (kw_pos w)\<rparr>),
     kc_CommitMessage = \<lambda>m w. if msg_at m = (''t'', 0) then (Inr (), w\<lparr>kw_committed := Suc (msg_Offset m)\<rparr>)
        else (Inl (ErrNew ''unassigned''), w),
     kc_Close = \<lambda>w. w\<rparr>"

definition sample_kview :: "kworld kview" where
  "sample_kview = \<lparr>kv_pos = \<lambda>w p. if p = (''t'', 0) then kw_pos w else 0,
     kv_committed = \<lambda>w p. if p = (''t'', 0) then kw_committed w else 0\<rparr>"

definition sample_handler :: "kworld EventHandler" where
  "sample_handler = (\<lambda>k x w. (if x = ''bad'' then Inl (ErrNew ''bad'') else Inr (), w))"

lemma sample_kafka_ok: "kafka_ok (sample_consumer, sample_kview) [''t'' \<mapsto> sample_handler]"
  by (auto simp: kafka_ok_def read_ok_def commit_ok_def handlers_leave_def sample_consumer_def
      sample_kview_def sample_handler_def msg_at_def split: if_splits)

theorem failed_message_skipped_witness:
  "kv_committed sample_kview (consume_step sample_consumer [''t'' \<mapsto> sample_handler]
     (consume_step sample_consumer [''t'' \<mapsto> sample_handler] \<lparr>kw_pos = 0, kw_committed = 0\<rparr>)) (''t'', 0) > 0"
proof -
  let ?m = "\<lambda>n x. \<lparr>msg_Topic = ''t'', msg_Partition = 0, msg_Offset = n, msg_Key = ''k'', msg_Value = x, msg_Headers = []\<rparr>"
  have step: "consume_step sample_consumer [''t'' \<mapsto> sample_handler] \<lparr>kw_pos = 0, kw_committed = 0\<rparr>
      = \<lparr>kw_pos = 1, kw_committed = 0\<rparr>"
    by (simp add: consume_step_def handleMessage_def sample_consumer_def sample_handler_def)
  show ?thesis
    using failed_message_skipped[OF sample_kafka_ok, of "\<lparr>kw_pos = 0, kw_committed = 0\<rparr>" "?m 0 ''bad''"
        "\<lparr>kw_pos = 1, kw_committed = 0\<rparr>" sample_handler "ErrNew ''bad''" "\<lparr>kw_pos = 1, kw_committed = 0\<rparr>"
        "\<lparr>kw_pos = 1, kw_committed = 0\<rparr>" 0 "?m 1 ''good''" "\<lparr>kw_pos = 2, kw_committed = 0\<rparr>" "()"
        "\<lparr>kw_pos = 2, kw_committed = 0\<rparr>" "()" "\<lparr>kw_pos = 2, kw_committed = 2\<rparr>"]
    by (simp add: step) (simp add: sample_consumer_def sample_handler_def msg_at_def)
qed

text \<open>
  Creating topics is idempotent for its caller: EnsureTopics returns nil exactly when the
  connection and the request succeed and every single result is success or "already exists", and
  otherwise reports the first topic that failed.
\<close>

theorem EnsureTopics_outcome:
  assumes "ka_Connect a w = (Inr u, w1)" and "ka_CreateTopics a ts w1 = (Inr results, w2)"
  shows "fst (EnsureTopics a ts w) =
    (case filter topic_failed results of
       [] \<Rightarrow> Inr ()
     | (t, k) # _ \<Rightarrow> Inl (Errorf (''failed to create topic '' @ t) [ka_Error a k]))"
  using assms by (simp add: EnsureTopics_def find_filter split: list.splits)

theorem EnsureTopics_outcome_witness:
  "fst (EnsureTopics \<lparr>ka_Connect = \<lambda>w. (Inr (), w), ka_CreateTopics = \<lambda>ts w. (Inr [(''t'', ErrTopicAlreadyExists)], w),
     ka_Close = \<lambda>w. w, ka_Error = \<lambda>_. ErrNew ''e''\<rparr> [] (0 :: nat)) = Inr ()"
  using EnsureTopics_outcome[of "\<lparr>ka_Connect = \<lambda>w. (Inr (), w), ka_CreateTopics = \<lambda>ts w. (Inr [(''t'', ErrTopicAlreadyExists)], w),
     ka_Close = \<lambda>w. w, ka_Error = \<lambda>_. ErrNew ''e''\<rparr>" 0 "()" 0 "[]" "[(''t'', ErrTopicAlreadyExists)]" 0]
  by (simp add: topic_failed_def)

end
