(* ===== verification/Outbox.thy ===== *)
theory Outbox
  imports Kafka
begin

text \<open>
  The transactional outbox both event-driven services share: \<open>OutboxEvent\<close> and the
  \<open>OutboxRepository\<close> interface of their \<open>storage\<close> packages, \<open>publishOutbox\<close> of
  \<open>manager/outbox.go\<close> (the same file in the reservation and the consignment service), and the
  contract of the interface as a locale with what the publisher guarantees on top of it. The
  PostgreSQL and the MongoDB repository interpret it.
\<close>

section \<open>Events and the interface\<close>

text \<open>
  Times and durations are in nanoseconds. The consignment service's \<open>OutboxEvent\<close> extends this
  record by two fields. A trace context is a map; it is listed in the order Go ranges over it.
\<close>

type_synonym time = int

record OutboxEvent =
  oe_Id :: UUID
  oe_Topic :: string
  oe_Key :: string
  oe_Payload :: bytes
  oe_CreatedAt :: time
  oe_PublishedAt :: "time option"
  oe_TraceContext :: "(string \<times> string) list"

text \<open>The zero \<open>time.Time\<close>: midnight on the first of January of the year 1, in nanoseconds since 1970.\<close>

definition zero_time :: time where
  "zero_time = - 62135596800 * 10 ^ 9"

text \<open>\<open>&storage.OutboxEvent{Topic: t, Key: k, Payload: p}\<close>.\<close>

definition outbox_event :: "string \<Rightarrow> string \<Rightarrow> bytes \<Rightarrow> OutboxEvent" where
  "outbox_event t k p = \<lparr>oe_Id = 0, oe_Topic = t, oe_Key = k, oe_Payload = p, oe_CreatedAt = zero_time,
     oe_PublishedAt = None, oe_TraceContext = []\<rparr>"

record ('e, 'w) OutboxRepository =
  ob_CreateEvent :: "'e \<Rightarrow> 'w \<Rightarrow> (goerr + unit) \<times> 'w"
  ob_MarkPublished :: "UUID \<Rightarrow> 'w \<Rightarrow> (goerr + unit) \<times> 'w"
  ob_GetPendingEvents :: "time \<Rightarrow> 'w \<Rightarrow> (goerr + 'e list) \<times> 'w"

section \<open>The publisher\<close>

definition outboxLeaseDuration :: time where
  "outboxLeaseDuration = 30 * 10 ^ 9"

definition outboxPublishDeadline :: time where
  "outboxPublishDeadline = 20 * 10 ^ 9"

definition context_Canceled :: goerr where
  "context_Canceled = ErrNew ''context canceled''"

definition context_DeadlineExceeded :: goerr where
  "context_DeadlineExceeded = ErrNew ''context deadline exceeded''"

text \<open>
  What \<open>publishOutbox\<close> uses of its manager: the repository and the producer; \<open>ctx.Err()\<close> of the
  service's context, which is non-nil once the service stops; and the clock behind the deadline of
  \<open>context.WithTimeout\<close>.
\<close>

record ('e, 'w) OutboxManager =
  om_outbox :: "('e, 'w) OutboxRepository"
  om_Produce :: "string \<Rightarrow> bytes \<Rightarrow> bytes \<Rightarrow> Headers \<Rightarrow> 'w \<Rightarrow> (goerr + unit) \<times> 'w"
  om_CtxErr :: "'w \<Rightarrow> goerr option"
  om_Now :: "'w \<Rightarrow> time"

text \<open>\<open>publishCtx.Err()\<close> of a pass: the context ends with the service's or at its own deadline.\<close>

definition publishCtx_Err :: "('x OutboxEvent_scheme, 'w) OutboxManager \<Rightarrow> time \<Rightarrow> 'w \<Rightarrow> goerr option" where
  "publishCtx_Err m deadline w =
    (case om_CtxErr m w of
       Some err \<Rightarrow> Some err
     | None \<Rightarrow> if deadline \<le> om_Now m w then Some context_DeadlineExceeded else None)"

fun publish_events ::
  "('x OutboxEvent_scheme, 'w) OutboxManager \<Rightarrow> time \<Rightarrow> 'x OutboxEvent_scheme list \<Rightarrow> 'w \<Rightarrow> (goerr + unit) \<times> 'w" where
  "publish_events m deadline [] w = (Inr (), w)"
| "publish_events m deadline (event # events) w =
    (case publishCtx_Err m deadline w of
       Some err \<Rightarrow> (Inr (), w)
     | None \<Rightarrow>
       (case om_Produce m (oe_Topic event) (oe_Key event) (oe_Payload event)
               (HeadersFromTraceContext (oe_TraceContext event)) w of
          (Inl err, w1) \<Rightarrow>
            if errors_is err context_Canceled \<or> errors_is err context_DeadlineExceeded then (Inr (), w1)
            else if errors_is err ErrBrokerUnreachable then (Inl err, w1)
            else publish_events m deadline events w1
        | (Inr _, w1) \<Rightarrow>
            publish_events m deadline events (snd (ob_MarkPublished (om_outbox m) (oe_Id event) w1))))"

definition publishOutbox :: "('x OutboxEvent_scheme, 'w) OutboxManager \<Rightarrow> 'w \<Rightarrow> (goerr + unit) \<times> 'w" where
  "publishOutbox m w =
    (case ob_GetPendingEvents (om_outbox m) outboxLeaseDuration w of
       (Inl err, w1) \<Rightarrow> (Inl (Errorf ''failed to get pending outbox events'' [err]), w1)
     | (Inr events, w1) \<Rightarrow> publish_events m (om_Now m w + outboxPublishDeadline) events w1)"

section \<open>The contract of the interface\<close>

text \<open>The stored rows as a client sees them.\<close>

record outbox_row =
  row_id :: UUID
  row_topic :: string
  row_key :: string
  row_payload :: bytes
  row_published :: bool

definition event_row :: "'x OutboxEvent_scheme \<Rightarrow> outbox_row" where
  "event_row e = \<lparr>row_id = oe_Id e, row_topic = oe_Topic e, row_key = oe_Key e,
     row_payload = oe_Payload e, row_published = False\<rparr>"

definition new_row :: "UUID \<Rightarrow> 'x OutboxEvent_scheme \<Rightarrow> outbox_row" where
  "new_row i e = (event_row e)\<lparr>row_id := i\<rparr>"

definition mark_row :: "UUID \<Rightarrow> outbox_row \<Rightarrow> outbox_row" where
  "mark_row i r = (if row_id r = i then r\<lparr>row_published := True\<rparr> else r)"

definition row_message :: "outbox_row \<Rightarrow> string \<times> string \<times> bytes" where
  "row_message r = (row_topic r, row_key r, row_payload r)"

definition pending_for :: "string \<Rightarrow> string \<Rightarrow> outbox_row list \<Rightarrow> bool" where
  "pending_for t k rs \<longleftrightarrow> (\<exists>r \<in> set rs. row_topic r = t \<and> row_key r = k \<and> \<not> row_published r)"

text \<open>Nothing is lost: the rows stay, in order, and at most become published.\<close>

definition rows_kept :: "outbox_row list \<Rightarrow> outbox_row list \<Rightarrow> bool" where
  "rows_kept rs rs' \<longleftrightarrow> (\<exists>new f. rs' = map f rs @ new \<and>
     (\<forall>r. row_id (f r) = row_id r \<and> row_message (f r) = row_message r \<and> (row_published r \<longrightarrow> row_published (f r))))"

lemma rows_kept_refl [simp]: "rows_kept rs rs"
  unfolding rows_kept_def by (rule exI[of _ "[]"], rule exI[of _ id]) simp

lemma rows_kept_append: "rows_kept rs (rs @ new)"
  unfolding rows_kept_def by (rule exI[of _ new], rule exI[of _ id]) simp

lemma rows_kept_mark: "rows_kept rs (map (mark_row i) rs)"
  unfolding rows_kept_def
  by (rule exI[of _ "[]"], rule exI[of _ "mark_row i"]) (simp add: mark_row_def row_message_def)

lemma rows_kept_trans: "rows_kept x y \<Longrightarrow> rows_kept y z \<Longrightarrow> rows_kept x z"
proof -
  assume "rows_kept x y" "rows_kept y z"
  then obtain f g n1 n2 where y: "y = map f x @ n1" and z: "z = map g y @ n2"
    and f: "\<And>r. row_id (f r) = row_id r \<and> row_message (f r) = row_message r \<and> (row_published r \<longrightarrow> row_published (f r))"
    and g: "\<And>r. row_id (g r) = row_id r \<and> row_message (g r) = row_message r \<and> (row_published r \<longrightarrow> row_published (g r))"
    unfolding rows_kept_def by blast
  have "z = map (g \<circ> f) x @ map g n1 @ n2" by (simp add: y z)
  moreover have "\<forall>r. row_id ((g \<circ> f) r) = row_id r \<and> row_message ((g \<circ> f) r) = row_message r \<and>
      (row_published r \<longrightarrow> row_published ((g \<circ> f) r))"
    using f g by simp
  ultimately show "rows_kept x z" unfolding rows_kept_def by blast
qed

locale outbox_repository =
  fixes ok :: "'h \<Rightarrow> bool"
    and repo :: "'h \<Rightarrow> ('x OutboxEvent_scheme, 'w) OutboxRepository"
    and rows :: "'h \<Rightarrow> 'w \<Rightarrow> outbox_row list"
  assumes create: "ok h \<Longrightarrow> ob_CreateEvent (repo h) e w = (r, w') \<Longrightarrow>
      rows h w' = rows h w \<or> (\<exists>i. i \<notin> row_id ` set (rows h w) \<and> rows h w' = rows h w @ [new_row i e])"
    and create_pending: "ok h \<Longrightarrow> ob_CreateEvent (repo h) e w = (Inr u, w') \<Longrightarrow>
      pending_for (oe_Topic e) (oe_Key e) (rows h w')"
    and mark: "ok h \<Longrightarrow> ob_MarkPublished (repo h) i w = (r', w') \<Longrightarrow>
      rows h w' = rows h w \<or> rows h w' = map (mark_row i) (rows h w)"
    and mark_done: "ok h \<Longrightarrow> ob_MarkPublished (repo h) i w = (Inr u, w') \<Longrightarrow>
      rows h w' = map (mark_row i) (rows h w)"
    and pending_rows: "ok h \<Longrightarrow> ob_GetPendingEvents (repo h) l w = (r'', w') \<Longrightarrow> rows h w' = rows h w"
    and pending_events: "ok h \<Longrightarrow> ob_GetPendingEvents (repo h) l w = (Inr es, w') \<Longrightarrow>
      e \<in> set es \<Longrightarrow> event_row e \<in> set (rows h w)"
begin

lemma create_kept:
  "ok h \<Longrightarrow> ob_CreateEvent (repo h) e w = (r, w') \<Longrightarrow> rows_kept (rows h w) (rows h w')"
  using create by (metis rows_kept_refl rows_kept_append)

lemma mark_kept:
  "ok h \<Longrightarrow> ob_MarkPublished (repo h) i w = (r, w') \<Longrightarrow> rows_kept (rows h w) (rows h w')"
  using mark by (metis rows_kept_refl rows_kept_mark)

end

text \<open>
  The publisher's view adds the messages Kafka acknowledged. Row identifiers are unique, as the
  primary key makes them.
\<close>

locale outbox_publisher = outbox_repository ok repo rows
  for ok :: "'h \<Rightarrow> bool"
    and repo :: "'h \<Rightarrow> ('x OutboxEvent_scheme, 'w) OutboxRepository"
    and rows :: "'h \<Rightarrow> 'w \<Rightarrow> outbox_row list" +
  fixes mgr :: "'h \<Rightarrow> ('x OutboxEvent_scheme, 'w) OutboxManager"
    and sent :: "'h \<Rightarrow> 'w \<Rightarrow> (string \<times> string \<times> bytes) set"
  assumes mgr_outbox: "om_outbox (mgr h) = repo h"
    and ids_distinct: "ok h \<Longrightarrow> distinct (map row_id (rows h w))"
    and produce_rows: "ok h \<Longrightarrow> om_Produce (mgr h) t k p hds w = (r, w') \<Longrightarrow> rows h w' = rows h w"
    and produce_sent: "ok h \<Longrightarrow> om_Produce (mgr h) t k p hds w = (r, w') \<Longrightarrow>
      sent h w \<subseteq> sent h w' \<and> (r = Inr () \<longrightarrow> (t, k, p) \<in> sent h w')"
    and mark_sent: "ok h \<Longrightarrow> ob_MarkPublished (repo h) i w = (r, w') \<Longrightarrow> sent h w' = sent h w"
    and pending_sent: "ok h \<Longrightarrow> ob_GetPendingEvents (repo h) l w = (r', w') \<Longrightarrow> sent h w' = sent h w"
begin

text \<open>
  \<open>delivered_first\<close>: no row is lost, and a row that is published afterwards was published before or
  its message has been acknowledged by Kafka.
\<close>

definition delivered_first :: "'h \<Rightarrow> 'w \<Rightarrow> 'w \<Rightarrow> bool" where
  "delivered_first h w w' \<longleftrightarrow> sent h w \<subseteq> sent h w' \<and>
     (\<exists>f. rows h w' = map f (rows h w) \<and>
       (\<forall>r \<in> set (rows h w). row_id (f r) = row_id r \<and> row_message (f r) = row_message r \<and>
          (row_published r \<longrightarrow> row_published (f r)) \<and>
          (row_published (f r) \<longrightarrow> row_published r \<or> row_message r \<in> sent h w')))"

lemma delivered_first_same: "rows h w' = rows h w \<Longrightarrow> sent h w \<subseteq> sent h w' \<Longrightarrow> delivered_first h w w'"
  unfolding delivered_first_def by (intro conjI exI[of _ id]) simp_all

lemma delivered_first_trans:
  assumes "delivered_first h x y" "delivered_first h y z"
  shows "delivered_first h x z"
proof -
  from assms obtain f g where
    f: "rows h y = map f (rows h x)" "\<forall>r \<in> set (rows h x). row_id (f r) = row_id r \<and> row_message (f r) = row_message r \<and>
          (row_published r \<longrightarrow> row_published (f r)) \<and> (row_published (f r) \<longrightarrow> row_published r \<or> row_message r \<in> sent h y)"
    and g: "rows h z = map g (rows h y)" "\<forall>r \<in> set (rows h y). row_id (g r) = row_id r \<and> row_message (g r) = row_message r \<and>
          (row_published r \<longrightarrow> row_published (g r)) \<and> (row_published (g r) \<longrightarrow> row_published r \<or> row_message r \<in> sent h z)"
    and s: "sent h x \<subseteq> sent h y" "sent h y \<subseteq> sent h z"
    unfolding delivered_first_def by (elim conjE exE) (rule that)
  show ?thesis
    unfolding delivered_first_def
  proof (intro conjI exI[of _ "g \<circ> f"] ballI)
    fix r assume r: "r \<in> set (rows h x)"
    then have fr: "f r \<in> set (rows h y)" by (simp add: f(1))
    note F = bspec[OF f(2) r] and G = bspec[OF g(2) fr]
    from F G show "row_id ((g \<circ> f) r) = row_id r" "row_message ((g \<circ> f) r) = row_message r"
      "row_published r \<longrightarrow> row_published ((g \<circ> f) r)" by simp_all
    from F G s(2) show "row_published ((g \<circ> f) r) \<longrightarrow> row_published r \<or> row_message r \<in> sent h z" by auto
  qed (use f(1) g(1) s in auto)
qed

lemma mark_delivered:
  assumes "ok h" "ob_MarkPublished (repo h) i w = (r, w')"
    and row: "row \<in> set (rows h w)" "row_id row = i" "row_message row \<in> sent h w"
  shows "delivered_first h w w'"
proof -
  have s: "sent h w' = sent h w" using assms by (simp add: mark_sent)
  from mark[OF assms(1,2)] show ?thesis
  proof
    assume "rows h w' = rows h w"
    with s show ?thesis by (simp add: delivered_first_same)
  next
    assume m: "rows h w' = map (mark_row i) (rows h w)"
    have "r' = row" if "r' \<in> set (rows h w)" "row_id r' = i" for r'
      using that row ids_distinct[OF assms(1), of w] by (auto simp: distinct_map inj_on_def)
    with m s row(3) show ?thesis
      unfolding delivered_first_def
      by (intro conjI exI[of _ "mark_row i"]) (auto simp: mark_row_def row_message_def)
  qed
qed

lemma publish_events_delivered:
  assumes "ok h"
  shows "publish_events (mgr h) dl es w = (r, w') \<Longrightarrow>
    (\<And>e. e \<in> set es \<Longrightarrow> \<exists>row \<in> set (rows h w). row_id row = oe_Id e \<and> row_message row = row_message (event_row e)) \<Longrightarrow>
    delivered_first h w w'"
proof (induction es arbitrary: w)
  case Nil
  then show ?case by (simp add: delivered_first_same)
next
  case (Cons e es)
  show ?case
  proof (cases "publishCtx_Err (mgr h) dl w")
    case (Some a)
    with Cons.prems show ?thesis by (simp add: delivered_first_same)
  next
    case None
    obtain q w1 where p: "om_Produce (mgr h) (oe_Topic e) (oe_Key e) (oe_Payload e)
        (HeadersFromTraceContext (oe_TraceContext e)) w = (q, w1)" by fastforce
    note rows1 = produce_rows[OF assms p] and sent1 = produce_sent[OF assms p]
    then have first: "delivered_first h w w1" by (simp add: delivered_first_same)
    have still: "\<exists>row \<in> set (rows h w2). row_id row = oe_Id e' \<and> row_message row = row_message (event_row e')"
      if e': "e' \<in> set es" and d: "delivered_first h w w2" for e' w2
    proof -
      from Cons.prems(2)[of e'] e' obtain row where
        row: "row \<in> set (rows h w)" "row_id row = oe_Id e'" "row_message row = row_message (event_row e')" by auto
      from d obtain f where f: "rows h w2 = map f (rows h w)"
        "\<forall>r \<in> set (rows h w). row_id (f r) = row_id r \<and> row_message (f r) = row_message r"
        unfolding delivered_first_def by blast
      with row show ?thesis by (intro bexI[of _ "f row"]) auto
    qed
    show ?thesis
    proof (cases q)
      case (Inl err)
      then consider "w' = w1" | "publish_events (mgr h) dl es w1 = (r, w')"
        using Cons.prems(1) None p by (auto split: if_splits)
      then show ?thesis
        using first still[OF _ first] Cons.IH[of w1] by cases (auto intro: delivered_first_trans)
    next
      case (Inr u)
      obtain q2 w2 where mk: "ob_MarkPublished (repo h) (oe_Id e) w1 = (q2, w2)" by fastforce
      from Cons.prems(2)[of e] rows1 obtain row where
        row: "row \<in> set (rows h w1)" "row_id row = oe_Id e" "row_message row = row_message (event_row e)" by auto
      have "row_message row \<in> sent h w1" using sent1 Inr row(3) by (simp add: row_message_def event_row_def)
      with mark_delivered[OF assms mk row(1,2)] have second: "delivered_first h w w2"
        using first delivered_first_trans by blast
      have "publish_events (mgr h) dl es w2 = (r, w')"
        using Cons.prems(1) None p Inr mk by (simp add: mgr_outbox)
      with second still[OF _ second] Cons.IH[of w2] show ?thesis by (auto intro: delivered_first_trans)
    qed
  qed
qed

lemma publishOutbox_delivered:
  assumes "ok h" "publishOutbox (mgr h) w = (r, w')"
  shows "delivered_first h w w'"
proof -
  obtain q w1 where g: "ob_GetPendingEvents (repo h) outboxLeaseDuration w = (q, w1)" by fastforce
  have same: "rows h w1 = rows h w" "sent h w1 = sent h w"
    using assms(1) g by (simp_all add: pending_rows pending_sent)
  then have first: "delivered_first h w w1" by (simp add: delivered_first_same)
  show ?thesis
  proof (cases q)
    case (Inl e)
    with assms(2) g first show ?thesis by (simp add: publishOutbox_def mgr_outbox)
  next
    case (Inr es)
    have "\<exists>row \<in> set (rows h w1). row_id row = oe_Id e \<and> row_message row = row_message (event_row e)" if "e \<in> set es" for e
      using pending_events[OF assms(1) g[unfolded Inr] that] same by (intro bexI[of _ "event_row e"]) (simp_all add: event_row_def)
    moreover have "publish_events (mgr h) (om_Now (mgr h) w + outboxPublishDeadline) es w1 = (r, w')"
      using assms(2) g Inr by (simp add: publishOutbox_def mgr_outbox)
    ultimately have "delivered_first h w1 w'" using publish_events_delivered[OF assms(1)] by blast
    with first show ?thesis by (rule delivered_first_trans)
  qed
qed

text \<open>
  Progress. When nothing but the end of a context makes a call fail, a pass over the events that
  the claim returned publishes all of them, or stops because its context has ended.
\<close>

definition marked_all :: "'h \<Rightarrow> UUID set \<Rightarrow> 'w \<Rightarrow> bool" where
  "marked_all h ids w \<longleftrightarrow> (\<forall>row \<in> set (rows h w). row_id row \<in> ids \<longrightarrow> row_published row)"

lemma publish_events_all:
  assumes ok: "ok h"
    and up: "\<And>t k p hds x e y. om_Produce (mgr h) t k p hds x = (Inl e, y) \<Longrightarrow>
      (errors_is e context_Canceled \<or> errors_is e context_DeadlineExceeded) \<and> publishCtx_Err (mgr h) dl y \<noteq> None"
    and marks: "\<And>i x q y. i \<in> row_id ` set (rows h x) \<Longrightarrow> ob_MarkPublished (repo h) i x = (q, y) \<Longrightarrow>
      q = Inr () \<or> om_CtxErr (mgr h) y \<noteq> None"
  shows "publish_events (mgr h) dl es w = (r, w') \<Longrightarrow> oe_Id ` set es \<subseteq> row_id ` set (rows h w) \<Longrightarrow> marked_all h ids w \<Longrightarrow>
    r = Inr () \<and> (marked_all h (ids \<union> oe_Id ` set es) w' \<or> publishCtx_Err (mgr h) dl w' \<noteq> None)"
proof (induction es arbitrary: w ids)
  case Nil
  then show ?case by simp
next
  case (Cons e es)
  show ?case
  proof (cases "publishCtx_Err (mgr h) dl w")
    case (Some a)
    with Cons.prems(1) show ?thesis by simp
  next
    case None
    obtain q w1 where p: "om_Produce (mgr h) (oe_Topic e) (oe_Key e) (oe_Payload e)
        (HeadersFromTraceContext (oe_TraceContext e)) w = (q, w1)" by fastforce
    show ?thesis
    proof (cases q)
      case (Inl err)
      from up[OF p[unfolded Inl]] Cons.prems(1) None p Inl show ?thesis by auto
    next
      case (Inr u)
      note rows1 = produce_rows[OF ok p]
      obtain q2 w2 where m: "ob_MarkPublished (repo h) (oe_Id e) w1 = (q2, w2)" by fastforce
      have run: "publish_events (mgr h) dl es w2 = (r, w')" using Cons.prems(1) None p Inr m by (simp add: mgr_outbox)
      from marks[OF _ m] Cons.prems(2) rows1 consider "q2 = Inr ()" | "om_CtxErr (mgr h) w2 \<noteq> None" by auto
      then show ?thesis
      proof cases
        case 1
        have rows2: "rows h w2 = map (mark_row (oe_Id e)) (rows h w)" using mark_done[OF ok m[unfolded 1]] rows1 by simp
        have "map row_id (rows h w2) = map row_id (rows h w)" by (simp add: rows2 mark_row_def)
        then have "row_id ` set (rows h w2) = row_id ` set (rows h w)" by (metis list.set_map)
        with Cons.prems(2) have sub: "oe_Id ` set es \<subseteq> row_id ` set (rows h w2)" by simp
        have "marked_all h (insert (oe_Id e) ids) w2"
          using Cons.prems(3) by (auto simp: marked_all_def rows2 mark_row_def)
        from Cons.IH[OF run sub this] show ?thesis by simp
      next
        case 2
        then have "publishCtx_Err (mgr h) dl w2 \<noteq> None" by (auto simp: publishCtx_Err_def)
        with run show ?thesis by (cases es) auto
      qed
    qed
  qed
qed

end

end
