(* ===== verification/Reservation_Cache.thy ===== *)
theory Reservation_Cache
  imports Outbox "HOL-Library.Sublist"
begin

text \<open>
  \<open>cmd/reservation-service/storage\<close>: \<open>ReservationInfo\<close>, the \<open>ReservationCache\<close> interface and its
  Redis implementation (\<open>redis/redis.go\<close>). The go-redis client is a parameter; \<open>redis_ok\<close> states
  what Redis documents of its commands, with time: every key has a deadline, and each command
  acts at some moment between its call and its reply; of \<open>SCAN\<close> also what a whole iteration gives. The locale \<open>reservation_cache\<close> is what the
  manager relies on; it is interpreted on the Redis cache.
\<close>

section \<open>Data and interface\<close>

record ReservationInfo =
  info_Id :: UUID
  info_VesselID :: UUID
  info_ConsignmentID :: UUID
  info_NumberOfContainers :: int
  info_Weight :: int

text \<open>\<open>GetExpired\<close> loops over a remote iterator: \<open>None\<close> is the call that never returns.\<close>

record 'w ReservationCache =
  rc_Store :: "string \<Rightarrow> ReservationInfo \<Rightarrow> 'w \<Rightarrow> (goerr + unit) \<times> 'w"
  rc_GetData :: "string \<Rightarrow> 'w \<Rightarrow> (goerr + ReservationInfo) \<times> 'w"
  rc_GetExpired :: "'w \<Rightarrow> ((goerr + ReservationInfo list) \<times> 'w) option"
  rc_DeleteData :: "string \<Rightarrow> 'w \<Rightarrow> (goerr + bool) \<times> 'w"
  rc_DeleteID :: "string \<Rightarrow> 'w \<Rightarrow> (goerr + bool) \<times> 'w"
  rc_Refresh :: "string \<Rightarrow> 'w \<Rightarrow> (goerr + bool) \<times> 'w"

section \<open>The Redis cache\<close>

text \<open>A scan cursor is an unsigned 64-bit number; 0 starts an iteration and ends it.\<close>

record 'w RedisClient =
  rd_Set :: "string \<Rightarrow> bytes \<Rightarrow> time \<Rightarrow> 'w \<Rightarrow> (goerr + unit) \<times> 'w"
  rd_Get :: "string \<Rightarrow> 'w \<Rightarrow> (goerr + bytes) \<times> 'w"
  rd_Scan :: "64 word \<Rightarrow> string \<Rightarrow> nat \<Rightarrow> 'w \<Rightarrow> (goerr + string list \<times> 64 word) \<times> 'w"
  rd_MGet :: "string list \<Rightarrow> 'w \<Rightarrow> (goerr + bytes option list) \<times> 'w"
  rd_Expire :: "string \<Rightarrow> time \<Rightarrow> 'w \<Rightarrow> (goerr + bool) \<times> 'w"
  rd_Del :: "string \<Rightarrow> 'w \<Rightarrow> (goerr + nat) \<times> 'w"
  rd_Nil :: goerr

record 'w Cache =
  c_client :: "'w RedisClient"
  c_reservationTTL :: time
  c_reservationDataTTL :: time
  c_json :: "ReservationInfo codec"
  c_uuid :: uuid_lib

text \<open>\<open>fmt.Sprintf\<close> with the two key formats.\<close>

definition id_key :: "string \<Rightarrow> string" where
  "id_key i = ''reservation:'' @ i"

definition data_key :: "string \<Rightarrow> string" where
  "data_key i = ''reservation_data:'' @ i"

definition cache_Store :: "'w Cache \<Rightarrow> string \<Rightarrow> ReservationInfo \<Rightarrow> 'w \<Rightarrow> (goerr + unit) \<times> 'w" where
  "cache_Store c i reservation w =
    (case rd_Set (c_client c) (id_key i) '''' (c_reservationTTL c) w of
       (Inl err, w1) \<Rightarrow> (Inl (Errorf ''failed to set price'' [err]), w1)
     | (Inr _, w1) \<Rightarrow>
       (case Marshal (c_json c) reservation of
          Inl err \<Rightarrow> (Inl (Errorf ''failed to marshal reservation'' [err]), w1)
        | Inr data \<Rightarrow>
          (case rd_Set (c_client c) (data_key i) data (c_reservationDataTTL c) w1 of
             (Inl err, w2) \<Rightarrow> (Inl (Errorf ''failed to set reservation data'' [err]), w2)
           | (Inr _, w2) \<Rightarrow> (Inr (), w2))))"

definition cache_GetData :: "'w Cache \<Rightarrow> string \<Rightarrow> 'w \<Rightarrow> (goerr + ReservationInfo) \<times> 'w" where
  "cache_GetData c i w =
    (case rd_Get (c_client c) (data_key i) w of
       (Inl err, w1) \<Rightarrow>
         if err = rd_Nil (c_client c) then (Inl (Errorf (''reservation '' @ i @ '' not found'') [err]), w1)
         else (Inl (Errorf ''failed to get reservation'' [err]), w1)
     | (Inr val, w1) \<Rightarrow>
       (case Unmarshal (c_json c) val of
          Inl err \<Rightarrow> (Inl (Errorf ''failed to unmarshal reservation'' [err]), w1)
        | Inr info \<Rightarrow> (Inr info, w1)))"

text \<open>One scan loop: call \<open>SCAN\<close> until the cursor is 0 again, appending the batches.\<close>

partial_function (option) scan_keys ::
  "'w RedisClient \<Rightarrow> string \<Rightarrow> 64 word \<Rightarrow> string list \<Rightarrow> 'w \<Rightarrow> ((goerr + string list) \<times> 'w) option" where
  "scan_keys r pat cursor keys w =
    (case rd_Scan r cursor pat 100 w of
       (Inl err, w1) \<Rightarrow> Some (Inl err, w1)
     | (Inr (batch, cursor'), w1) \<Rightarrow>
         if cursor' = 0 then Some (Inr (keys @ batch), w1)
         else scan_keys r pat cursor' (keys @ batch) w1)"

text \<open>\<open>strings.TrimPrefix\<close>.\<close>

definition TrimPrefix :: "string \<Rightarrow> string \<Rightarrow> string" where
  "TrimPrefix s p = (if take (length p) s = p then drop (length p) s else s)"

fun collect_expired :: "'w Cache \<Rightarrow> string set \<Rightarrow> bytes option list \<Rightarrow> ReservationInfo list" where
  "collect_expired c activeIDs [] = []"
| "collect_expired c activeIDs (None # vals) = collect_expired c activeIDs vals"
| "collect_expired c activeIDs (Some val # vals) =
    (case Unmarshal (c_json c) val of
       Inl err \<Rightarrow> collect_expired c activeIDs vals
     | Inr reservation \<Rightarrow>
         if uuid_String (c_uuid c) (info_Id reservation) \<notin> activeIDs
         then reservation # collect_expired c activeIDs vals
         else collect_expired c activeIDs vals)"

definition cache_GetExpired :: "'w Cache \<Rightarrow> 'w \<Rightarrow> ((goerr + ReservationInfo list) \<times> 'w) option" where
  "cache_GetExpired c w =
    (case scan_keys (c_client c) ''reservation:*'' 0 [] w of
       None \<Rightarrow> None
     | Some (Inl err, w1) \<Rightarrow> Some (Inl err, w1)
     | Some (Inr idKeys, w1) \<Rightarrow>
       (case scan_keys (c_client c) ''reservation_data:*'' 0 [] w1 of
          None \<Rightarrow> None
        | Some (Inl err, w2) \<Rightarrow> Some (Inl err, w2)
        | Some (Inr dataKeys, w2) \<Rightarrow>
          if dataKeys = [] then Some (Inr [], w2)
          else
            (case rd_MGet (c_client c) dataKeys w2 of
               (Inl err, w3) \<Rightarrow> Some (Inl (Errorf ''failed to mget reservation data'' [err]), w3)
             | (Inr vals, w3) \<Rightarrow>
                 Some (Inr (collect_expired c ((\<lambda>key. TrimPrefix key ''reservation:'') ` set idKeys) vals), w3))))"

definition cache_Refresh :: "'w Cache \<Rightarrow> string \<Rightarrow> 'w \<Rightarrow> (goerr + bool) \<times> 'w" where
  "cache_Refresh c i w =
    (case rd_Expire (c_client c) (id_key i) (c_reservationTTL c) w of
       (Inl err, w1) \<Rightarrow> (Inl (Errorf ''failed to refresh reservation TTL'' [err]), w1)
     | (Inr refreshed, w1) \<Rightarrow> (Inr refreshed, w1))"

definition cache_DeleteData :: "'w Cache \<Rightarrow> string \<Rightarrow> 'w \<Rightarrow> (goerr + bool) \<times> 'w" where
  "cache_DeleteData c i w =
    (case rd_Del (c_client c) (data_key i) w of
       (Inl err, w1) \<Rightarrow> (Inl (Errorf ''failed to delete reservation data'' [err]), w1)
     | (Inr deleted, w1) \<Rightarrow> (Inr (deleted = 1), w1))"

definition cache_DeleteID :: "'w Cache \<Rightarrow> string \<Rightarrow> 'w \<Rightarrow> (goerr + bool) \<times> 'w" where
  "cache_DeleteID c i w =
    (case rd_Del (c_client c) (id_key i) w of
       (Inl err, w1) \<Rightarrow> (Inl (Errorf ''failed to delete reservation id'' [err]), w1)
     | (Inr deleted, w1) \<Rightarrow> (Inr (deleted = 1), w1))"

definition redis_cache :: "'w Cache \<Rightarrow> 'w ReservationCache" where
  "redis_cache c = \<lparr>rc_Store = cache_Store c, rc_GetData = cache_GetData c, rc_GetExpired = cache_GetExpired c,
     rc_DeleteData = cache_DeleteData c, rc_DeleteID = cache_DeleteID c, rc_Refresh = cache_Refresh c\<rparr>"

section \<open>What Redis does\<close>

text \<open>The keys with values and deadlines (expired ones may linger), and the server's clock.\<close>

type_synonym redis_store = "string \<rightharpoonup> bytes \<times> time"

record 'w rview =
  rv_store :: "'w \<Rightarrow> redis_store"
  rv_now :: "'w \<Rightarrow> time"

definition live_at :: "time \<Rightarrow> redis_store \<Rightarrow> string \<Rightarrow> bytes option" where
  "live_at t s k = (case s k of Some (v, d) \<Rightarrow> if t < d then Some v else None | None \<Rightarrow> None)"

text \<open>Patterns made of plain characters and one final \<open>*\<close>, the only ones in the program.\<close>

definition glob :: "string \<Rightarrow> string \<Rightarrow> bool" where
  "glob pat k \<longleftrightarrow> prefix (butlast pat) k"

definition redis_set_ok :: "'w RedisClient \<times> 'w rview \<Rightarrow> bool" where
  "redis_set_ok h \<longleftrightarrow> (\<forall>k val ttl w r w'. rd_Set (fst h) k val ttl w = (r, w') \<longrightarrow>
     (\<exists>t. rv_now (snd h) w \<le> t \<and> t \<le> rv_now (snd h) w' \<and>
       (rv_store (snd h) w' = (rv_store (snd h) w)(k \<mapsto> (val, t + ttl)) \<or>
        (\<exists>e. r = Inl e) \<and> rv_store (snd h) w' = rv_store (snd h) w)))"

definition redis_get_ok :: "'w RedisClient \<times> 'w rview \<Rightarrow> bool" where
  "redis_get_ok h \<longleftrightarrow> (\<forall>k w r w'. rd_Get (fst h) k w = (r, w') \<longrightarrow>
     rv_store (snd h) w' = rv_store (snd h) w \<and>
     (\<exists>t. rv_now (snd h) w \<le> t \<and> t \<le> rv_now (snd h) w' \<and>
       (\<forall>val. r = Inr val \<longrightarrow> live_at t (rv_store (snd h) w) k = Some val) \<and>
       (r = Inl (rd_Nil (fst h)) \<longrightarrow> live_at t (rv_store (snd h) w) k = None)))"

definition redis_mget_ok :: "'w RedisClient \<times> 'w rview \<Rightarrow> bool" where
  "redis_mget_ok h \<longleftrightarrow> (\<forall>ks w r w'. rd_MGet (fst h) ks w = (r, w') \<longrightarrow>
     rv_store (snd h) w' = rv_store (snd h) w \<and>
     (\<exists>t. rv_now (snd h) w \<le> t \<and> t \<le> rv_now (snd h) w' \<and>
       (\<forall>vals. r = Inr vals \<longrightarrow> vals = map (live_at t (rv_store (snd h) w)) ks)))"

definition redis_expire_ok :: "'w RedisClient \<times> 'w rview \<Rightarrow> bool" where
  "redis_expire_ok h \<longleftrightarrow> (\<forall>k ttl w r w'. rd_Expire (fst h) k ttl w = (r, w') \<longrightarrow>
     (\<exists>t. rv_now (snd h) w \<le> t \<and> t \<le> rv_now (snd h) w' \<and>
       (case r of
          Inl e \<Rightarrow> rv_store (snd h) w' = rv_store (snd h) w \<or>
            (\<exists>val. live_at t (rv_store (snd h) w) k = Some val \<and> rv_store (snd h) w' = (rv_store (snd h) w)(k \<mapsto> (val, t + ttl)))
        | Inr b \<Rightarrow> (case live_at t (rv_store (snd h) w) k of
            None \<Rightarrow> \<not> b \<and> rv_store (snd h) w' = rv_store (snd h) w
          | Some val \<Rightarrow> b \<and> rv_store (snd h) w' = (rv_store (snd h) w)(k \<mapsto> (val, t + ttl))))))"

definition redis_del_ok :: "'w RedisClient \<times> 'w rview \<Rightarrow> bool" where
  "redis_del_ok h \<longleftrightarrow> (\<forall>k w r w'. rd_Del (fst h) k w = (r, w') \<longrightarrow>
     (\<exists>t. rv_now (snd h) w \<le> t \<and> t \<le> rv_now (snd h) w' \<and>
       (case r of
          Inl e \<Rightarrow> rv_store (snd h) w' = rv_store (snd h) w \<or> rv_store (snd h) w' = (rv_store (snd h) w)(k := None)
        | Inr n \<Rightarrow> rv_store (snd h) w' = (rv_store (snd h) w)(k := None) \<and>
            n = (if live_at t (rv_store (snd h) w) k = None then 0 else 1))))"

text \<open>
  An iteration is a chain of \<open>SCAN\<close> calls, each with the cursor the one before it answered; the
  keys delivered so far, the cursor to go on with, the number of calls and the world after them.
\<close>

inductive scan_chain :: "'w RedisClient \<Rightarrow> string \<Rightarrow> nat \<Rightarrow> 'w \<Rightarrow> string list \<Rightarrow> 64 word \<Rightarrow> nat \<Rightarrow> 'w \<Rightarrow> bool"
  for r :: "'w RedisClient" and pat :: string and count :: nat and w :: 'w where
  chain_first: "rd_Scan r 0 pat count w = (Inr (batch, cursor), w1) \<Longrightarrow> scan_chain r pat count w batch cursor 1 w1"
| chain_next: "scan_chain r pat count w ks cursor n w1 \<Longrightarrow> cursor \<noteq> 0 \<Longrightarrow>
    rd_Scan r cursor pat count w1 = (Inr (batch, cursor'), w2) \<Longrightarrow>
    scan_chain r pat count w (ks @ batch) cursor' (Suc n) w2"

text \<open>
  One call only reads, and what it delivers are matching keys that exist at some moment of it, in
  any order and number (none, or one a second time, is possible). The two guarantees Redis gives
  for an iteration over keys that do not grow without bound: it ends, and when its cursor is 0
  again it has delivered every matching key that existed from its start to its end.
\<close>

definition redis_scan_ok :: "'w RedisClient \<times> 'w rview \<Rightarrow> bool" where
  "redis_scan_ok h \<longleftrightarrow>
     (\<forall>cursor pat count w r w'. rd_Scan (fst h) cursor pat count w = (r, w') \<longrightarrow>
       rv_store (snd h) w' = rv_store (snd h) w \<and>
       (\<exists>t. rv_now (snd h) w \<le> t \<and> t \<le> rv_now (snd h) w' \<and>
         (\<forall>batch cursor' k. r = Inr (batch, cursor') \<longrightarrow> k \<in> set batch \<longrightarrow>
           glob pat k \<and> live_at t (rv_store (snd h) w) k \<noteq> None))) \<and>
     (\<forall>pat count w. \<exists>N. \<forall>ks cursor n w'. scan_chain (fst h) pat count w ks cursor n w' \<longrightarrow> n \<le> N) \<and>
     (\<forall>pat count w ks n w' k. scan_chain (fst h) pat count w ks 0 n w' \<longrightarrow> glob pat k \<longrightarrow>
       live_at (rv_now (snd h) w') (rv_store (snd h) w) k \<noteq> None \<longrightarrow> k \<in> set ks)"

definition redis_ok :: "'w Cache \<times> 'w rview \<Rightarrow> bool" where
  "redis_ok h \<longleftrightarrow>
     redis_set_ok (c_client (fst h), snd h) \<and> redis_get_ok (c_client (fst h), snd h) \<and>
     redis_mget_ok (c_client (fst h), snd h) \<and> redis_expire_ok (c_client (fst h), snd h) \<and>
     redis_del_ok (c_client (fst h), snd h) \<and> redis_scan_ok (c_client (fst h), snd h) \<and>
     codec_ok (c_json (fst h)) \<and> uuid_ok (c_uuid (fst h)) \<and>
     0 < c_reservationTTL (fst h) \<and> 0 < c_reservationDataTTL (fst h)"

text \<open>With a fixed store, keys only disappear as time goes on.\<close>

lemma live_at_antimono: "live_at t s k = Some v \<Longrightarrow> t' \<le> t \<Longrightarrow> live_at t' s k = Some v"
  by (auto simp: live_at_def split: option.splits if_splits)

lemma live_at_None_mono: "live_at t s k = None \<Longrightarrow> t \<le> t' \<Longrightarrow> live_at t' s k = None"
  by (auto simp: live_at_def split: option.splits if_splits)

lemma keys_distinct [simp]: "id_key i \<noteq> data_key j" "data_key j \<noteq> id_key i"
  by (simp_all add: id_key_def data_key_def)

lemma keys_inject [simp]: "id_key i = id_key j \<longleftrightarrow> i = j" "data_key i = data_key j \<longleftrightarrow> i = j"
  by (simp_all add: id_key_def data_key_def)

lemma TrimPrefix_id_key [simp]: "TrimPrefix (id_key i) ''reservation:'' = i"
  by (simp add: TrimPrefix_def id_key_def)

lemma glob_keys: "glob ''reservation:*'' k \<longleftrightarrow> (\<exists>i. k = id_key i)" "glob ''reservation_data:*'' k \<longleftrightarrow> (\<exists>i. k = data_key i)"
  by (auto simp: glob_def prefix_def id_key_def data_key_def)

end
