(* ===== verification/Redis_Contract.thy ===== *)
theory Redis_Contract
  imports Reservation_Cache
begin

text \<open>
  What the Redis cache does on a Redis that behaves as documented: the outcome of every operation,
  the scan loop with the iteration behind it, the exact result of \<open>GetExpired\<close>, and the contract \<open>reservation_cache\<close> the reservation manager
  and the gRPC handlers rely on, interpreted on it.
\<close>

section \<open>Outcomes\<close>

lemma redis_okD:
  assumes "redis_ok (c, v)"
  shows "redis_set_ok (c_client c, v)" "redis_get_ok (c_client c, v)" "redis_mget_ok (c_client c, v)"
    "redis_expire_ok (c_client c, v)" "redis_del_ok (c_client c, v)" "redis_scan_ok (c_client c, v)"
    "codec_ok (c_json c)" "uuid_ok (c_uuid c)" "0 < c_reservationTTL c" "0 < c_reservationDataTTL c"
  using assms by (simp_all add: redis_ok_def)

lemma set_outcome:
  assumes "redis_ok (c, v)" "rd_Set (c_client c) k val ttl w = (r, w')"
  obtains t where "rv_now v w \<le> t" "t \<le> rv_now v w'"
    "rv_store v w' = (rv_store v w)(k \<mapsto> (val, t + ttl)) \<or> (\<exists>e. r = Inl e) \<and> rv_store v w' = rv_store v w"
  using redis_okD(1)[OF assms(1), unfolded redis_set_ok_def fst_conv snd_conv, rule_format, OF assms(2)] by blast

lemma get_outcome:
  assumes "redis_ok (c, v)" "rd_Get (c_client c) k w = (r, w')"
  obtains t where "rv_now v w \<le> t" "t \<le> rv_now v w'" "rv_store v w' = rv_store v w"
    "\<And>val. r = Inr val \<Longrightarrow> live_at t (rv_store v w) k = Some val"
    "r = Inl (rd_Nil (c_client c)) \<Longrightarrow> live_at t (rv_store v w) k = None"
  using redis_okD(2)[OF assms(1), unfolded redis_get_ok_def fst_conv snd_conv, rule_format, OF assms(2)] by blast

lemma mget_outcome:
  assumes "redis_ok (c, v)" "rd_MGet (c_client c) ks w = (r, w')"
  obtains t where "rv_now v w \<le> t" "t \<le> rv_now v w'" "rv_store v w' = rv_store v w"
    "\<And>vals. r = Inr vals \<Longrightarrow> vals = map (live_at t (rv_store v w)) ks"
  using redis_okD(3)[OF assms(1), unfolded redis_mget_ok_def fst_conv snd_conv, rule_format, OF assms(2)] by blast

lemma expire_outcome:
  assumes "redis_ok (c, v)" "rd_Expire (c_client c) k ttl w = (r, w')"
  obtains t where "rv_now v w \<le> t" "t \<le> rv_now v w'"
    "rv_store v w' = rv_store v w \<or>
     (\<exists>val. live_at t (rv_store v w) k = Some val \<and> rv_store v w' = (rv_store v w)(k \<mapsto> (val, t + ttl)))"
    "\<And>b. r = Inr b \<Longrightarrow> b \<longleftrightarrow> live_at t (rv_store v w) k \<noteq> None"
    "r = Inr True \<Longrightarrow> \<exists>val. rv_store v w' = (rv_store v w)(k \<mapsto> (val, t + ttl))"
proof -
  note law = redis_okD(4)[OF assms(1), unfolded redis_expire_ok_def fst_conv snd_conv, rule_format, OF assms(2)]
  then obtain t where t: "rv_now v w \<le> t" "t \<le> rv_now v w'" and rest:
    "case r of
       Inl e \<Rightarrow> rv_store v w' = rv_store v w \<or>
         (\<exists>val. live_at t (rv_store v w) k = Some val \<and> rv_store v w' = (rv_store v w)(k \<mapsto> (val, t + ttl)))
     | Inr b \<Rightarrow> (case live_at t (rv_store v w) k of
         None \<Rightarrow> \<not> b \<and> rv_store v w' = rv_store v w
       | Some val \<Rightarrow> b \<and> rv_store v w' = (rv_store v w)(k \<mapsto> (val, t + ttl)))" by blast
  show thesis
    by (rule that[OF t]; use rest in \<open>cases r; cases "live_at t (rv_store v w) k"; auto\<close>)
qed

lemma del_outcome:
  assumes "redis_ok (c, v)" "rd_Del (c_client c) k w = (r, w')"
  obtains t where "rv_now v w \<le> t" "t \<le> rv_now v w'"
    "rv_store v w' = (rv_store v w)(k := None) \<or> (\<exists>e. r = Inl e) \<and> rv_store v w' = rv_store v w"
    "\<And>n. r = Inr n \<Longrightarrow> n = (if live_at t (rv_store v w) k = None then 0 else 1)"
proof -
  note law = redis_okD(5)[OF assms(1), unfolded redis_del_ok_def fst_conv snd_conv, rule_format, OF assms(2)]
  then obtain t where t: "rv_now v w \<le> t" "t \<le> rv_now v w'" and rest:
    "case r of
       Inl e \<Rightarrow> rv_store v w' = rv_store v w \<or> rv_store v w' = (rv_store v w)(k := None)
     | Inr n \<Rightarrow> rv_store v w' = (rv_store v w)(k := None) \<and>
         n = (if live_at t (rv_store v w) k = None then 0 else 1)" by blast
  show thesis by (rule that[OF t]; use rest in \<open>cases r; auto\<close>)
qed

section \<open>The scan loop\<close>

text \<open>What one \<open>SCAN\<close> call does.\<close>

lemma scan_call:
  assumes "redis_ok (c, v)" "rd_Scan (c_client c) cur pat n w = (r, w')"
  obtains t where "rv_now v w \<le> t" "t \<le> rv_now v w'" "rv_store v w' = rv_store v w"
    "\<And>batch cur' k. r = Inr (batch, cur') \<Longrightarrow> k \<in> set batch \<Longrightarrow> glob pat k \<and> live_at t (rv_store v w) k \<noteq> None"
proof -
  note law = conjunct1[OF redis_okD(6)[OF assms(1), unfolded redis_scan_ok_def fst_conv snd_conv], rule_format, OF assms(2)]
  from conjunct2[OF law] obtain t where "rv_now v w \<le> t" "t \<le> rv_now v w'"
    "\<And>batch cur' k. r = Inr (batch, cur') \<Longrightarrow> k \<in> set batch \<Longrightarrow> glob pat k \<and> live_at t (rv_store v w) k \<noteq> None"
    by blast
  with conjunct1[OF law] that show thesis by blast
qed

text \<open>A call that starts at or after \<open>t\<^sub>0\<close> delivers only matching keys that were live at \<open>t\<^sub>0\<close>.\<close>

lemma scan_call_from:
  assumes ok: "redis_ok (c, v)" and run: "rd_Scan (c_client c) cur pat n w = (r, w')" and t0: "t0 \<le> rv_now v w"
  shows "rv_store v w' = rv_store v w" "t0 \<le> rv_now v w'"
    "r = Inr (batch, cur') \<Longrightarrow> k \<in> set batch \<Longrightarrow> glob pat k \<and> live_at t0 (rv_store v w) k \<noteq> None"
proof -
  obtain t where t: "rv_now v w \<le> t" "t \<le> rv_now v w'" "rv_store v w' = rv_store v w"
    "\<And>batch cur' k. r = Inr (batch, cur') \<Longrightarrow> k \<in> set batch \<Longrightarrow> glob pat k \<and> live_at t (rv_store v w) k \<noteq> None"
    by (rule scan_call[OF ok run]) (rule that)
  show "rv_store v w' = rv_store v w" by (rule t(3))
  show "t0 \<le> rv_now v w'" using t(1,2) t0 by linarith
  show "glob pat k \<and> live_at t0 (rv_store v w) k \<noteq> None" if "r = Inr (batch, cur')" "k \<in> set batch"
    using t(4)[OF that] live_at_None_mono[of t0 _ k t] t(1) t0 by force
qed

text \<open>What the calls of an unfinished or finished iteration have delivered.\<close>

lemma chain_sound:
  assumes ok: "redis_ok (c, v)" and chain: "scan_chain (c_client c) pat count w ks cur n w'"
  shows "rv_store v w' = rv_store v w \<and> rv_now v w \<le> rv_now v w' \<and>
    (\<forall>k \<in> set ks. glob pat k \<and> live_at (rv_now v w) (rv_store v w) k \<noteq> None)"
  using chain
proof induction
  case (chain_first batch cursor w1)
  note F = scan_call_from[OF ok chain_first order_refl]
  show ?case using F(1,2) F(3)[OF refl] by blast
next
  case (chain_next ks cursor n w1 batch cursor' w2)
  then have st: "rv_store v w1 = rv_store v w" and t: "rv_now v w \<le> rv_now v w1"
    and old: "\<forall>k \<in> set ks. glob pat k \<and> live_at (rv_now v w) (rv_store v w) k \<noteq> None" by blast+
  note F = scan_call_from[OF ok chain_next.hyps(3) t]
  show ?case using F(1,2) F(3)[OF refl] old by (auto simp: st)
qed

text \<open>
  The loop of the cache from any point of an iteration: it goes on until the iteration has ended
  or a call has failed. The number of calls it can still make is the measure.
\<close>

lemma scan_keys_chain:
  assumes ok: "redis_ok (c, v)" and bound: "\<And>ks cur n w'. scan_chain (c_client c) pat 100 w ks cur n w' \<Longrightarrow> n \<le> N"
  shows "scan_chain (c_client c) pat 100 w ks cur n w1 \<Longrightarrow> cur \<noteq> 0 \<Longrightarrow>
    (\<exists>ks' m w'. scan_keys (c_client c) pat cur ks w1 = Some (Inr ks', w') \<and> scan_chain (c_client c) pat 100 w ks' 0 m w') \<or>
    (\<exists>e w'. scan_keys (c_client c) pat cur ks w1 = Some (Inl e, w') \<and> rv_store v w' = rv_store v w \<and> rv_now v w \<le> rv_now v w')"
proof (induction "N - n" arbitrary: ks cur n w1 rule: less_induct)
  case less
  obtain q w2 where call: "rd_Scan (c_client c) cur pat 100 w1 = (q, w2)" by fastforce
  note step = scan_keys.simps[of "c_client c" pat cur ks w1]
  show ?case
  proof (cases q)
    case (Inl e)
    have "rv_store v w2 = rv_store v w" "rv_now v w \<le> rv_now v w2"
      using chain_sound[OF ok less.prems(1)] scan_call_from[OF ok call, of "rv_now v w"] by auto
    with step call Inl show ?thesis by simp
  next
    case (Inr bc)
    obtain batch cur' where bc: "bc = (batch, cur')" by fastforce
    from chain_next[OF less.prems, of batch cur' w2] call Inr bc
    have chain: "scan_chain (c_client c) pat 100 w (ks @ batch) cur' (Suc n) w2" by simp
    show ?thesis
    proof (cases "cur' = 0")
      case True
      have "scan_keys (c_client c) pat cur ks w1 = Some (Inr (ks @ batch), w2)" using step call Inr bc True by simp
      with chain True show ?thesis by blast
    next
      case False
      have "scan_keys (c_client c) pat cur ks w1 = scan_keys (c_client c) pat cur' (ks @ batch) w2"
        using step call Inr bc False by simp
      moreover have "N - Suc n < N - n" using bound[OF chain] by linarith
      ultimately show ?thesis using less.hyps[OF _ chain False] by simp
    qed
  qed
qed

text \<open>
  The whole loop: it returns; a successful one has gathered the batches of a complete iteration,
  so its result holds exactly the keys an iteration guarantees.
\<close>

lemma scan_keys_returns:
  assumes ok: "redis_ok (c, v)"
  shows "(\<exists>ks m w'. scan_keys (c_client c) pat 0 [] w = Some (Inr ks, w') \<and> scan_chain (c_client c) pat 100 w ks 0 m w') \<or>
    (\<exists>e w'. scan_keys (c_client c) pat 0 [] w = Some (Inl e, w') \<and> rv_store v w' = rv_store v w \<and> rv_now v w \<le> rv_now v w')"
proof -
  have "\<forall>pat count w. \<exists>N. \<forall>ks cursor n w'. scan_chain (c_client c) pat count w ks cursor n w' \<longrightarrow> n \<le> N"
    using redis_okD(6)[OF ok, unfolded redis_scan_ok_def fst_conv snd_conv] by (elim conjE)
  then obtain N where N: "\<And>ks cur n w'. scan_chain (c_client c) pat 100 w ks cur n w' \<Longrightarrow> n \<le> N" by metis
  obtain q w1 where call: "rd_Scan (c_client c) 0 pat 100 w = (q, w1)" by fastforce
  note step = scan_keys.simps[of "c_client c" pat 0 "[]" w]
  show ?thesis
  proof (cases q)
    case (Inl e)
    with step call scan_call_from(1,2)[OF ok call order_refl] show ?thesis by simp
  next
    case (Inr bc)
    obtain batch cur' where bc: "bc = (batch, cur')" by fastforce
    from call Inr bc have "rd_Scan (c_client c) 0 pat 100 w = (Inr (batch, cur'), w1)" by simp
    then have chain: "scan_chain (c_client c) pat 100 w batch cur' 1 w1" by (rule chain_first)
    show ?thesis
    proof (cases "cur' = 0")
      case True
      have "scan_keys (c_client c) pat 0 [] w = Some (Inr batch, w1)" using step call Inr bc True by simp
      with chain True show ?thesis by blast
    next
      case False
      have "scan_keys (c_client c) pat 0 [] w = scan_keys (c_client c) pat cur' batch w1" using step call Inr bc False by simp
      with scan_keys_chain[OF ok N chain False] show ?thesis by simp
    qed
  qed
qed

lemma scan_outcome:
  assumes "redis_ok (c, v)"
  obtains r w' where "scan_keys (c_client c) pat 0 [] w = Some (r, w')" "rv_store v w' = rv_store v w"
    "rv_now v w \<le> rv_now v w'"
    "\<And>ks k. r = Inr ks \<Longrightarrow> k \<in> set ks \<Longrightarrow> glob pat k \<and> live_at (rv_now v w) (rv_store v w) k \<noteq> None"
    "\<And>ks k. r = Inr ks \<Longrightarrow> glob pat k \<Longrightarrow> live_at (rv_now v w') (rv_store v w) k \<noteq> None \<Longrightarrow> k \<in> set ks"
  using scan_keys_returns[OF assms, of pat w]
proof (elim disjE exE conjE)
  fix ks m w'
  assume run: "scan_keys (c_client c) pat 0 [] w = Some (Inr ks, w')" and chain: "scan_chain (c_client c) pat 100 w ks 0 m w'"
  have complete: "k \<in> set ks" if "glob pat k" "live_at (rv_now v w') (rv_store v w) k \<noteq> None" for k
    using redis_okD(6)[OF assms, unfolded redis_scan_ok_def fst_conv snd_conv] chain that by blast
  show thesis by (rule that[OF run]) (use chain_sound[OF assms chain] complete in auto)
next
  fix e w'
  assume "scan_keys (c_client c) pat 0 [] w = Some (Inl e, w')" "rv_store v w' = rv_store v w" "rv_now v w \<le> rv_now v w'"
  then show thesis by (rule that) simp_all
qed

section \<open>GetExpired\<close>

text \<open>
  The cache is well formed when every data entry is the JSON of a reservation with the identifier
  in its key; the cache is only written by \<open>Store\<close>, which the handler calls with that identifier.
\<close>

definition cache_wf :: "'w Cache \<Rightarrow> redis_store \<Rightarrow> bool" where
  "cache_wf c s \<longleftrightarrow> (\<forall>i val d. s (data_key i) = Some (val, d) \<longrightarrow>
     (\<exists>info. Unmarshal (c_json c) val = Inr info \<and> uuid_String (c_uuid c) (info_Id info) = i))"

definition stored_live :: "'w Cache \<Rightarrow> time \<Rightarrow> redis_store \<Rightarrow> ReservationInfo \<Rightarrow> bool" where
  "stored_live c t s info \<longleftrightarrow>
     (\<exists>val. live_at t s (data_key (uuid_String (c_uuid c) (info_Id info))) = Some val \<and> Unmarshal (c_json c) val = Inr info)"

definition id_live :: "'w Cache \<Rightarrow> time \<Rightarrow> redis_store \<Rightarrow> ReservationInfo \<Rightarrow> bool" where
  "id_live c t s info \<longleftrightarrow> live_at t s (id_key (uuid_String (c_uuid c) (info_Id info))) \<noteq> None"

lemma set_collect_expired:
  "set (collect_expired c A vals) =
    {info. uuid_String (c_uuid c) (info_Id info) \<notin> A \<and> (\<exists>val. Some val \<in> set vals \<and> Unmarshal (c_json c) val = Inr info)}"
  by (induction c A vals rule: collect_expired.induct) (auto split: sum.splits)

lemma GetExpired_terminates:
  assumes "redis_ok (c, v)"
  shows "\<exists>r w'. cache_GetExpired c w = Some (r, w') \<and> rv_store v w' = rv_store v w \<and> rv_now v w \<le> rv_now v w'"
proof -
  obtain r1 w1 where s1: "scan_keys (c_client c) ''reservation:*'' 0 [] w = Some (r1, w1)"
    "rv_store v w1 = rv_store v w" "rv_now v w \<le> rv_now v w1" by (rule scan_outcome[OF assms])
  obtain r2 w2 where s2: "scan_keys (c_client c) ''reservation_data:*'' 0 [] w1 = Some (r2, w2)"
    "rv_store v w2 = rv_store v w1" "rv_now v w1 \<le> rv_now v w2" by (rule scan_outcome[OF assms])
  obtain r3 w3 where m: "rd_MGet (c_client c) (projr r2) w2 = (r3, w3)" by fastforce
  have m': "rv_store v w3 = rv_store v w2" "rv_now v w2 \<le> rv_now v w3" by (rule mget_outcome[OF assms m], simp)+
  show ?thesis
    using s1 s2 m m' by (cases r1; cases r2; cases r3) (auto simp: cache_GetExpired_def)
qed

text \<open>The scans and the fetch of a successful call, as facts about keys and times.\<close>

lemma GetExpired_cases:
  assumes ok: "redis_ok (c, v)" and run: "cache_GetExpired c w = Some (Inr infos, w')"
  obtains ids datas t1 t2 t where
    "rv_now v w \<le> t1" "t1 \<le> t2" "t2 \<le> t" "t \<le> rv_now v w'"
    "\<And>i. i \<in> ids \<Longrightarrow> live_at (rv_now v w) (rv_store v w) (id_key i) \<noteq> None"
    "\<And>i. live_at t1 (rv_store v w) (id_key i) \<noteq> None \<Longrightarrow> i \<in> ids"
    "\<And>i. i \<in> datas \<Longrightarrow> live_at t1 (rv_store v w) (data_key i) \<noteq> None"
    "\<And>i. live_at t2 (rv_store v w) (data_key i) \<noteq> None \<Longrightarrow> i \<in> datas"
    "set infos = {info. uuid_String (c_uuid c) (info_Id info) \<notin> ids \<and>
      (\<exists>i \<in> datas. \<exists>val. live_at t (rv_store v w) (data_key i) = Some val \<and> Unmarshal (c_json c) val = Inr info)}"
proof -
  let ?s = "rv_store v w"
  obtain r1 w1 where s1: "scan_keys (c_client c) ''reservation:*'' 0 [] w = Some (r1, w1)"
    and st1: "rv_store v w1 = ?s" and t1: "rv_now v w \<le> rv_now v w1"
    and sound1: "\<And>ks k. r1 = Inr ks \<Longrightarrow> k \<in> set ks \<Longrightarrow> glob ''reservation:*'' k \<and> live_at (rv_now v w) ?s k \<noteq> None"
    and compl1: "\<And>ks k. r1 = Inr ks \<Longrightarrow> glob ''reservation:*'' k \<Longrightarrow> live_at (rv_now v w1) ?s k \<noteq> None \<Longrightarrow> k \<in> set ks"
    by (rule scan_outcome[OF ok]) (rule that)
  obtain r2 w2 where s2: "scan_keys (c_client c) ''reservation_data:*'' 0 [] w1 = Some (r2, w2)"
    and st2: "rv_store v w2 = rv_store v w1" and t2: "rv_now v w1 \<le> rv_now v w2"
    and sound2: "\<And>ks k. r2 = Inr ks \<Longrightarrow> k \<in> set ks \<Longrightarrow> glob ''reservation_data:*'' k \<and> live_at (rv_now v w1) (rv_store v w1) k \<noteq> None"
    and compl2: "\<And>ks k. r2 = Inr ks \<Longrightarrow> glob ''reservation_data:*'' k \<Longrightarrow> live_at (rv_now v w2) (rv_store v w1) k \<noteq> None \<Longrightarrow> k \<in> set ks"
    by (rule scan_outcome[OF ok]) (rule that)
  from run s1 obtain idKeys where ids: "r1 = Inr idKeys" by (cases r1) (auto simp: cache_GetExpired_def)
  from run s1 ids s2 obtain dataKeys where data: "r2 = Inr dataKeys" by (cases r2) (auto simp: cache_GetExpired_def)
  let ?ids = "(\<lambda>key. TrimPrefix key ''reservation:'') ` set idKeys" and ?datas = "{i. data_key i \<in> set dataKeys}"
  have "\<exists>t. rv_now v w2 \<le> t \<and> t \<le> rv_now v w' \<and> infos = collect_expired c ?ids (map (live_at t ?s) dataKeys)"
  proof (cases "dataKeys = []")
    case True
    with run s1 ids s2 data show ?thesis by (auto simp: cache_GetExpired_def)
  next
    case False
    obtain q w3 where m: "rd_MGet (c_client c) dataKeys w2 = (q, w3)" by fastforce
    show ?thesis
      by (rule mget_outcome[OF ok m]; use run s1 ids s2 data False m st1 st2 in \<open>cases q; auto simp: cache_GetExpired_def\<close>)
  qed
  then obtain t where t: "rv_now v w2 \<le> t" "t \<le> rv_now v w'" and infos: "infos = collect_expired c ?ids (map (live_at t ?s) dataKeys)"
    by blast
  have keys: "\<exists>i. k = id_key i" if "k \<in> set idKeys" for k using sound1[OF ids that] by (simp add: glob_keys)
  have dkeys: "\<exists>i. k = data_key i" if "k \<in> set dataKeys" for k using sound2[OF data that] by (simp add: glob_keys)
  have mem: "i \<in> ?ids \<longleftrightarrow> id_key i \<in> set idKeys" for i
    using keys by (auto simp: image_iff) (metis TrimPrefix_id_key)+
  show thesis
  proof (rule that[OF t1 t2 t])
    show "i \<in> ?ids \<Longrightarrow> live_at (rv_now v w) ?s (id_key i) \<noteq> None" for i using mem sound1[OF ids] by blast
    show "live_at (rv_now v w1) ?s (id_key i) \<noteq> None \<Longrightarrow> i \<in> ?ids" for i using mem compl1[OF ids] by (simp add: glob_keys)
    show "i \<in> ?datas \<Longrightarrow> live_at (rv_now v w1) ?s (data_key i) \<noteq> None" for i using sound2[OF data] st1 by auto
    show "live_at (rv_now v w2) ?s (data_key i) \<noteq> None \<Longrightarrow> i \<in> ?datas" for i using compl2[OF data] st1 by (simp add: glob_keys)
    show "set infos = {info. uuid_String (c_uuid c) (info_Id info) \<notin> ?ids \<and>
      (\<exists>i \<in> ?datas. \<exists>val. live_at t ?s (data_key i) = Some val \<and> Unmarshal (c_json c) val = Inr info)}"
      using dkeys by (auto simp: infos set_collect_expired image_iff eq_commute[of "Some _"]) metis+
  qed
qed

text \<open>
  With \<open>w\<close> the world before and \<open>w'\<close> the world after a successful call: what is returned had live
  data before and has no live identifier after; what has live data after and had no live
  identifier before is returned.
\<close>

lemma GetExpired_result:
  assumes ok: "redis_ok (c, v)" and wf: "cache_wf c (rv_store v w)"
    and run: "cache_GetExpired c w = Some (Inr infos, w')"
  shows "info \<in> set infos \<Longrightarrow> stored_live c (rv_now v w) (rv_store v w) info \<and> \<not> id_live c (rv_now v w') (rv_store v w) info"
    and "stored_live c (rv_now v w') (rv_store v w) info \<Longrightarrow> \<not> id_live c (rv_now v w) (rv_store v w) info \<Longrightarrow> info \<in> set infos"
proof -
  let ?s = "rv_store v w" and ?i = "uuid_String (c_uuid c) (info_Id info)"
  obtain ids datas t1 t2 t where ts: "rv_now v w \<le> t1" "t1 \<le> t2" "t2 \<le> t" "t \<le> rv_now v w'"
    and ids: "\<And>i. i \<in> ids \<Longrightarrow> live_at (rv_now v w) ?s (id_key i) \<noteq> None" "\<And>i. live_at t1 ?s (id_key i) \<noteq> None \<Longrightarrow> i \<in> ids"
    and datas: "\<And>i. live_at t2 ?s (data_key i) \<noteq> None \<Longrightarrow> i \<in> datas"
    and res: "set infos = {info. uuid_String (c_uuid c) (info_Id info) \<notin> ids \<and>
      (\<exists>i \<in> datas. \<exists>val. live_at t ?s (data_key i) = Some val \<and> Unmarshal (c_json c) val = Inr info)}"
    by (rule GetExpired_cases[OF ok run]) (rule that)
  show "stored_live c (rv_now v w) ?s info \<and> \<not> id_live c (rv_now v w') ?s info" if "info \<in> set infos"
  proof -
    from that res obtain i val where val: "live_at t ?s (data_key i) = Some val" "Unmarshal (c_json c) val = Inr info"
      and na: "?i \<notin> ids" by blast
    from val(1) obtain d where "?s (data_key i) = Some (val, d)" by (auto simp: live_at_def split: option.splits if_splits)
    with wf val(2) have "?i = i" unfolding cache_wf_def by (metis sum.inject(2))
    with val live_at_antimono[OF val(1), of "rv_now v w"] ts have "stored_live c (rv_now v w) ?s info"
      by (auto simp: stored_live_def)
    moreover have "live_at (rv_now v w') ?s (id_key ?i) = None"
      using na ids(2) live_at_None_mono[of t1 ?s "id_key ?i" "rv_now v w'"] ts by auto
    ultimately show ?thesis by (simp add: id_live_def)
  qed
  show "info \<in> set infos" if live: "stored_live c (rv_now v w') ?s info" and dead: "\<not> id_live c (rv_now v w) ?s info"
  proof -
    from live obtain val where val: "live_at (rv_now v w') ?s (data_key ?i) = Some val" "Unmarshal (c_json c) val = Inr info"
      by (auto simp: stored_live_def)
    have "?i \<in> datas" using datas live_at_antimono[OF val(1), of t2] ts by auto
    moreover have "?i \<notin> ids" using ids(1)[of ?i] dead unfolding id_live_def by blast
    ultimately show ?thesis using val(2) live_at_antimono[OF val(1) ts(4)] by (auto simp: res)
  qed
qed

section \<open>What a successful Store leaves\<close>

lemma cache_Store_stored:
  assumes ok: "redis_ok (c, v)" and store: "cache_Store c i info w = (Inr u, w')"
  obtains data t where "Marshal (c_json c) info = Inr data" "rv_now v w \<le> t" "t \<le> rv_now v w'"
    "rv_store v w' (data_key i) = Some (data, t + c_reservationDataTTL c)"
proof -
  obtain r1 wa where s1: "rd_Set (c_client c) (id_key i) '''' (c_reservationTTL c) w = (r1, wa)" by fastforce
  from store s1 obtain data where data: "Marshal (c_json c) info = Inr data"
    by (auto simp: cache_Store_def split: sum.splits)
  from store s1 data have s2: "rd_Set (c_client c) (data_key i) data (c_reservationDataTTL c) wa = (Inr (), w')"
    by (auto simp: cache_Store_def split: prod.splits sum.splits)
  obtain t1 where "rv_now v w \<le> t1" "t1 \<le> rv_now v wa" by (rule set_outcome[OF ok s1])
  moreover obtain t2 where "rv_now v wa \<le> t2" "t2 \<le> rv_now v w'"
    "rv_store v w' (data_key i) = Some (data, t2 + c_reservationDataTTL c)" by (rule set_outcome[OF ok s2]) auto
  ultimately show thesis using that[OF data, of t2] by simp
qed

text \<open>A successful read returns what the stored value decodes to.\<close>

lemma cache_GetData_value:
  assumes ok: "redis_ok (c, v)" and run: "cache_GetData c i w = (Inr info, w')"
  obtains val d where "rv_store v w (data_key i) = Some (val, d)" "Unmarshal (c_json c) val = Inr info"
proof -
  obtain q w1 where g: "rd_Get (c_client c) (data_key i) w = (q, w1)" by fastforce
  obtain t where t: "\<And>val. q = Inr val \<Longrightarrow> live_at t (rv_store v w) (data_key i) = Some val"
    by (rule get_outcome[OF ok g]) (rule that)
  from run g obtain val where q: "q = Inr val" and u: "Unmarshal (c_json c) val = Inr info"
    by (cases q) (auto simp: cache_GetData_def split: if_splits sum.splits)
  from t[OF q] have "\<exists>d. rv_store v w (data_key i) = Some (val, d)" by (auto simp: live_at_def split: option.splits if_splits)
  with u that show thesis by blast
qed

section \<open>The contract of the cache\<close>

text \<open>
  What a client of the interface relies on: only \<open>Store\<close> makes data for a reservation; after
  \<open>DeleteData\<close> has answered there is none, and it answers true only if there was. \<open>has_data\<close> are
  the identifiers with live data.
\<close>

locale reservation_cache =
  fixes ok :: "'h \<Rightarrow> bool"
    and cache :: "'h \<Rightarrow> 'w ReservationCache"
    and has_data :: "'h \<Rightarrow> 'w \<Rightarrow> string set"
  assumes store_data: "ok h \<Longrightarrow> rc_Store (cache h) i info w = (r1, w') \<Longrightarrow> has_data h w' \<subseteq> insert i (has_data h w)"
    and get_data: "ok h \<Longrightarrow> rc_GetData (cache h) i w = (r2, w') \<Longrightarrow> has_data h w' \<subseteq> has_data h w"
    and get_data_some: "ok h \<Longrightarrow> rc_GetData (cache h) i w = (Inr info, w') \<Longrightarrow> i \<in> has_data h w"
    and get_expired: "ok h \<Longrightarrow> rc_GetExpired (cache h) w = Some (r3, w') \<Longrightarrow> has_data h w' \<subseteq> has_data h w"
    and delete_data: "ok h \<Longrightarrow> rc_DeleteData (cache h) i w = (r4, w') \<Longrightarrow> has_data h w' \<subseteq> has_data h w"
    and delete_data_gone: "ok h \<Longrightarrow> rc_DeleteData (cache h) i w = (Inr b, w') \<Longrightarrow> i \<notin> has_data h w'"
    and delete_data_true: "ok h \<Longrightarrow> rc_DeleteData (cache h) i w = (Inr True, w') \<Longrightarrow> i \<in> has_data h w"
    and delete_id: "ok h \<Longrightarrow> rc_DeleteID (cache h) i w = (r5, w') \<Longrightarrow> has_data h w' \<subseteq> has_data h w"
    and refresh: "ok h \<Longrightarrow> rc_Refresh (cache h) i w = (r6, w') \<Longrightarrow> has_data h w' \<subseteq> has_data h w"
begin

text \<open>Without data, \<open>DeleteData\<close> never answers true.\<close>

lemma delete_absent:
  assumes "ok h" "i \<notin> has_data h w" "rc_DeleteData (cache h) i w = (r, w')"
  shows "r \<noteq> Inr True"
  using assms delete_data_true by blast

end

definition cache_data :: "'w Cache \<times> 'w rview \<Rightarrow> 'w \<Rightarrow> string set" where
  "cache_data h w = {i. live_at (rv_now (snd h) w) (rv_store (snd h) w) (data_key i) \<noteq> None}"

text \<open>Time alone, changes of other keys and deletions only take data away.\<close>

lemma cache_data_mono:
  assumes "rv_now v w \<le> rv_now v w'"
    and "\<And>i. rv_store v w' (data_key i) = rv_store v w (data_key i) \<or> rv_store v w' (data_key i) = None"
  shows "cache_data (c, v) w' \<subseteq> cache_data (c, v) w"
proof
  fix i assume "i \<in> cache_data (c, v) w'"
  then have live: "live_at (rv_now v w') (rv_store v w') (data_key i) \<noteq> None" by (simp add: cache_data_def)
  then have "rv_store v w' (data_key i) = rv_store v w (data_key i)"
    using assms(2)[of i] by (auto simp: live_at_def)
  with live have "live_at (rv_now v w') (rv_store v w) (data_key i) \<noteq> None" by (simp add: live_at_def)
  with live_at_None_mono[OF _ assms(1), of "rv_store v w" "data_key i"] have "live_at (rv_now v w) (rv_store v w) (data_key i) \<noteq> None" by blast
  then show "i \<in> cache_data (c, v) w" by (simp add: cache_data_def)
qed

lemma del_data_mono:
  assumes "redis_ok (c, v)" "rd_Del (c_client c) k w = (r, w')"
  shows "cache_data (c, v) w' \<subseteq> cache_data (c, v) w"
  by (rule del_outcome[OF assms]) (rule cache_data_mono; auto split: if_splits)

lemma set_id_data_mono:
  assumes "redis_ok (c, v)" "rd_Set (c_client c) (id_key i) val ttl w = (r, w')"
  shows "cache_data (c, v) w' \<subseteq> cache_data (c, v) w"
  by (rule set_outcome[OF assms]) (rule cache_data_mono; auto)

lemma set_data_mono:
  assumes "redis_ok (c, v)" "rd_Set (c_client c) (data_key i) val ttl w = (r, w')"
  shows "cache_data (c, v) w' \<subseteq> insert i (cache_data (c, v) w)"
proof (rule set_outcome[OF assms])
  fix t assume t: "rv_now v w \<le> t" "t \<le> rv_now v w'"
    and st: "rv_store v w' = (rv_store v w)(data_key i \<mapsto> (val, t + ttl)) \<or> (\<exists>e. r = Inl e) \<and> rv_store v w' = rv_store v w"
  show ?thesis
  proof
    fix j assume j: "j \<in> cache_data (c, v) w'"
    show "j \<in> insert i (cache_data (c, v) w)"
    proof (cases "j = i")
      case False
      with st have "rv_store v w' (data_key j) = rv_store v w (data_key j)" by auto
      with j have "live_at (rv_now v w') (rv_store v w) (data_key j) \<noteq> None" by (simp add: cache_data_def live_at_def)
      with t live_at_None_mono[of "rv_now v w" "rv_store v w" "data_key j" "rv_now v w'"]
      have "live_at (rv_now v w) (rv_store v w) (data_key j) \<noteq> None" by (meson order_trans)
      then show ?thesis by (simp add: cache_data_def)
    qed simp
  qed
qed

lemma cache_Store_data:
  assumes ok: "redis_ok (c, v)" and run: "cache_Store c i info w = (r, w')"
  shows "cache_data (c, v) w' \<subseteq> insert i (cache_data (c, v) w)"
proof -
  obtain r1 w1 where 1: "rd_Set (c_client c) (id_key i) '''' (c_reservationTTL c) w = (r1, w1)" by fastforce
  note m1 = set_id_data_mono[OF ok 1]
  show ?thesis
  proof (cases "\<exists>u d. r1 = Inr u \<and> Marshal (c_json c) info = Inr d")
    case False
    with run 1 have "w' = w1" by (auto simp: cache_Store_def split: sum.splits)
    with m1 show ?thesis by blast
  next
    case True
    then obtain u d where ud: "r1 = Inr u" "Marshal (c_json c) info = Inr d" by blast
    obtain r2 w2 where 2: "rd_Set (c_client c) (data_key i) d (c_reservationDataTTL c) w1 = (r2, w2)" by fastforce
    with run 1 ud have "w' = w2" by (auto simp: cache_Store_def split: sum.splits)
    with m1 set_data_mono[OF ok 2] show ?thesis by blast
  qed
qed

lemma cache_GetData_data:
  assumes ok: "redis_ok (c, v)" and run: "cache_GetData c i w = (r, w')"
  shows "cache_data (c, v) w' \<subseteq> cache_data (c, v) w" and "r = Inr info \<Longrightarrow> i \<in> cache_data (c, v) w"
proof -
  obtain r1 w1 where 1: "rd_Get (c_client c) (data_key i) w = (r1, w1)" by fastforce
  obtain t where t: "rv_now v w \<le> t" "t \<le> rv_now v w1" "rv_store v w1 = rv_store v w"
    "\<And>val. r1 = Inr val \<Longrightarrow> live_at t (rv_store v w) (data_key i) = Some val" by (rule get_outcome[OF ok 1]) (rule that)
  have w': "w' = w1" using run 1 by (auto simp: cache_GetData_def split: sum.splits if_splits)
  show "cache_data (c, v) w' \<subseteq> cache_data (c, v) w" unfolding w' by (rule cache_data_mono) (use t in auto)
  show "i \<in> cache_data (c, v) w" if "r = Inr info"
  proof -
    from run 1 that obtain val where "r1 = Inr val" by (cases r1) (auto simp: cache_GetData_def split: if_splits)
    with t(4) live_at_antimono[OF _ t(1)] show ?thesis by (simp add: cache_data_def)
  qed
qed

lemma cache_DeleteData_data:
  assumes ok: "redis_ok (c, v)" and run: "cache_DeleteData c i w = (r, w')"
  shows "cache_data (c, v) w' \<subseteq> cache_data (c, v) w"
    and "r = Inr b \<Longrightarrow> i \<notin> cache_data (c, v) w'" and "r = Inr True \<Longrightarrow> i \<in> cache_data (c, v) w"
proof -
  obtain r1 w1 where 1: "rd_Del (c_client c) (data_key i) w = (r1, w1)" by fastforce
  obtain t where t: "rv_now v w \<le> t" "t \<le> rv_now v w1"
    "rv_store v w1 = (rv_store v w)(data_key i := None) \<or> (\<exists>e. r1 = Inl e) \<and> rv_store v w1 = rv_store v w"
    "\<And>n. r1 = Inr n \<Longrightarrow> n = (if live_at t (rv_store v w) (data_key i) = None then 0 else 1)"
    by (rule del_outcome[OF ok 1]) (rule that)
  have w': "w' = w1" using run 1 by (auto simp: cache_DeleteData_def split: sum.splits)
  show "cache_data (c, v) w' \<subseteq> cache_data (c, v) w" unfolding w' by (rule del_data_mono[OF ok 1])
  show "i \<notin> cache_data (c, v) w'" if "r = Inr b"
  proof -
    from run 1 that obtain n where "r1 = Inr n" by (cases r1) (auto simp: cache_DeleteData_def)
    with t(3) show ?thesis by (auto simp: w' cache_data_def live_at_def)
  qed
  show "i \<in> cache_data (c, v) w" if "r = Inr True"
  proof -
    from run 1 that have "r1 = Inr 1" by (cases r1) (auto simp: cache_DeleteData_def)
    from t(4)[OF this] obtain val where "live_at t (rv_store v w) (data_key i) = Some val" by (auto split: if_splits)
    from live_at_antimono[OF this t(1)] show ?thesis by (simp add: cache_data_def)
  qed
qed

interpretation redis: reservation_cache redis_ok "\<lambda>h. redis_cache (fst h)" cache_data
proof unfold_locales
  fix h :: "'a Cache \<times> 'a rview" and i w w' info b
    and r1 :: "goerr + unit" and r2 :: "goerr + ReservationInfo" and r3 :: "goerr + ReservationInfo list"
    and r4 r5 r6 :: "goerr + bool"
  assume "redis_ok h"
  then have ok: "redis_ok (fst h, snd h)" by simp
  note run = redis_cache_def
  show "cache_data h w' \<subseteq> insert i (cache_data h w)" if "rc_Store (redis_cache (fst h)) i info w = (r1, w')"
    using cache_Store_data[OF ok, of i info w r1 w'] that by (simp add: run)
  show "cache_data h w' \<subseteq> cache_data h w" if "rc_GetData (redis_cache (fst h)) i w = (r2, w')"
    using cache_GetData_data(1)[OF ok, of i w r2 w'] that by (simp add: run)
  show "i \<in> cache_data h w" if "rc_GetData (redis_cache (fst h)) i w = (Inr info, w')"
    using cache_GetData_data(2)[OF ok, of i w "Inr info" w'] that by (simp add: run)
  show "cache_data h w' \<subseteq> cache_data h w" if "rc_GetExpired (redis_cache (fst h)) w = Some (r3, w')"
  proof -
    from GetExpired_terminates[OF ok, of w] that have "rv_store (snd h) w' = rv_store (snd h) w" "rv_now (snd h) w \<le> rv_now (snd h) w'"
      by (auto simp: run)
    then have "cache_data (fst h, snd h) w' \<subseteq> cache_data (fst h, snd h) w" by (intro cache_data_mono) simp_all
    then show ?thesis by simp
  qed
  show "cache_data h w' \<subseteq> cache_data h w" if "rc_DeleteData (redis_cache (fst h)) i w = (r4, w')"
    using cache_DeleteData_data(1)[OF ok, of i w r4 w'] that by (simp add: run)
  show "i \<notin> cache_data h w'" if "rc_DeleteData (redis_cache (fst h)) i w = (Inr b, w')"
    using cache_DeleteData_data(2)[OF ok, of i w "Inr b" w'] that by (simp add: run)
  show "i \<in> cache_data h w" if "rc_DeleteData (redis_cache (fst h)) i w = (Inr True, w')"
    using cache_DeleteData_data(3)[OF ok, of i w "Inr True" w'] that by (simp add: run)
  show "cache_data h w' \<subseteq> cache_data h w" if "rc_DeleteID (redis_cache (fst h)) i w = (r5, w')"
    using del_data_mono[OF ok, of "id_key i" w] that
    by (auto simp: run cache_DeleteID_def split: prod.splits sum.splits)
  show "cache_data h w' \<subseteq> cache_data h w" if run6: "rc_Refresh (redis_cache (fst h)) i w = (r6, w')"
  proof -
    obtain q w1 where e: "rd_Expire (c_client (fst h)) (id_key i) (c_reservationTTL (fst h)) w = (q, w1)" by fastforce
    have w': "w' = w1" using run6 e by (auto simp: run cache_Refresh_def split: sum.splits)
    have "cache_data (fst h, snd h) w1 \<subseteq> cache_data (fst h, snd h) w"
      by (rule expire_outcome[OF ok e]) (rule cache_data_mono; auto)
    then show ?thesis by (simp add: w')
  qed
qed

end
