(* ===== verification/Postgres_Outbox.thy ===== *)
theory Postgres_Outbox
  imports Outbox
begin

text \<open>
  \<open>cmd/reservation-service/storage/postgres/outbox.go\<close>: the reservation service's outbox table. The
  pgx pool is a parameter (\<open>PgPool\<close>, a record of the statements the code runs); \<open>pg_ok\<close> states what
  PostgreSQL does with them, with the partial unique index of \<open>database/sql/init.sql\<close>. The
  contract \<open>outbox_repository\<close> is interpreted on it.
\<close>

section \<open>Table and driver\<close>

record pg_row =
  pgr_id :: UUID
  pgr_topic :: string
  pgr_key :: string
  pgr_payload :: bytes
  pgr_trace :: "(string \<times> string) list"
  pgr_created :: time
  pgr_published :: "time option"
  pgr_until :: "time option"

text \<open>
  The statements: the \<open>INSERT\<close> of four columns, an \<open>UPDATE\<close> given by its \<open>WHERE\<close> and \<open>SET\<close> parts
  (the number of rows affected is returned), and within a transaction the \<open>SELECT\<close> (each row
  scans or fails to) and the \<open>UPDATE\<close>. Conditions may read \<open>NOW()\<close>. \<open>pg_Code\<close> is \<open>errors.As\<close> into
  a \<open>PgError\<close> and its code; \<open>pg_Inject\<close> is the current trace context.
\<close>

record 'w PgPool =
  pg_Insert :: "string \<Rightarrow> string \<Rightarrow> bytes \<Rightarrow> (string \<times> string) list \<Rightarrow> 'w \<Rightarrow> (goerr + unit) \<times> 'w"
  pg_Update :: "(time \<Rightarrow> pg_row \<Rightarrow> bool) \<Rightarrow> (pg_row \<Rightarrow> pg_row) \<Rightarrow> 'w \<Rightarrow> (goerr + nat) \<times> 'w"
  pg_Begin :: "'w \<Rightarrow> (goerr + unit) \<times> 'w"
  pg_Query :: "(time \<Rightarrow> pg_row \<Rightarrow> bool) \<Rightarrow> (pg_row \<Rightarrow> time) \<Rightarrow> 'w \<Rightarrow> (goerr + (goerr + pg_row) list) \<times> 'w"
  pg_TxUpdate :: "(time \<Rightarrow> pg_row \<Rightarrow> bool) \<Rightarrow> (pg_row \<Rightarrow> pg_row) \<Rightarrow> 'w \<Rightarrow> (goerr + nat) \<times> 'w"
  pg_Commit :: "'w \<Rightarrow> (goerr + unit) \<times> 'w"
  pg_Rollback :: "'w \<Rightarrow> 'w"
  pg_Now :: "'w \<Rightarrow> time"
  pg_Inject :: "'w \<Rightarrow> (string \<times> string) list"
  pg_Code :: "goerr \<Rightarrow> string option"

section \<open>Operations\<close>

definition db_CreateEvent :: "'w PgPool \<Rightarrow> OutboxEvent \<Rightarrow> 'w \<Rightarrow> (goerr + unit) \<times> 'w" where
  "db_CreateEvent db event w =
    (case pg_Insert db (oe_Topic event) (oe_Key event) (oe_Payload event) (pg_Inject db w) w of
       (Inl err, w1) \<Rightarrow>
         if pg_Code db err = Some ''23505'' then (Inr (), w1)
         else (Inl (Errorf ''failed to create outbox event'' [err]), w1)
     | (Inr _, w1) \<Rightarrow> (Inr (), w1))"

definition db_MarkPublished :: "'w PgPool \<Rightarrow> UUID \<Rightarrow> 'w \<Rightarrow> (goerr + unit) \<times> 'w" where
  "db_MarkPublished db i w =
    (case pg_Update db (\<lambda>_ r. pgr_id r = i) (\<lambda>r. r\<lparr>pgr_published := Some (pg_Now db w)\<rparr>) w of
       (Inl err, w1) \<Rightarrow> (Inl (Errorf ''failed to mark outbox event as published'' [err]), w1)
     | (Inr n, w1) \<Rightarrow> if n = 0 then (Inl (Errorf ''outbox event not found'' []), w1) else (Inr (), w1))"

text \<open>The \<open>WHERE\<close> part of the query: pending, and not under another instance's lease.\<close>

definition claimable :: "time \<Rightarrow> pg_row \<Rightarrow> bool" where
  "claimable now r \<longleftrightarrow> pgr_published r = None \<and>
     (case pgr_until r of None \<Rightarrow> True | Some t \<Rightarrow> t < now)"

definition scan_row :: "pg_row \<Rightarrow> OutboxEvent" where
  "scan_row r = \<lparr>oe_Id = pgr_id r, oe_Topic = pgr_topic r, oe_Key = pgr_key r, oe_Payload = pgr_payload r,
     oe_CreatedAt = pgr_created r, oe_PublishedAt = pgr_published r, oe_TraceContext = pgr_trace r\<rparr>"

fun scan_rows :: "(goerr + pg_row) list \<Rightarrow> goerr + OutboxEvent list" where
  "scan_rows [] = Inr []"
| "scan_rows (Inl err # rs) = Inl (Errorf ''failed to scan outbox event'' [err])"
| "scan_rows (Inr r # rs) = (case scan_rows rs of Inl e \<Rightarrow> Inl e | Inr es \<Rightarrow> Inr (scan_row r # es))"

definition claim_body :: "'w PgPool \<Rightarrow> time \<Rightarrow> 'w \<Rightarrow> (goerr + OutboxEvent list) \<times> 'w" where
  "claim_body db lease w =
    (case pg_Query db claimable pgr_created w of
       (Inl err, w1) \<Rightarrow> (Inl (Errorf ''failed to get pending outbox events'' [err]), w1)
     | (Inr rs, w1) \<Rightarrow>
       (case scan_rows rs of
          Inl err \<Rightarrow> (Inl err, w1)
        | Inr events \<Rightarrow>
          if events = [] then (Inr [], w1)
          else
            (case pg_TxUpdate db (\<lambda>_ r. pgr_id r \<in> set (map oe_Id events))
                    (\<lambda>r. r\<lparr>pgr_until := Some (pg_Now db w1 + lease)\<rparr>) w1 of
               (Inl err, w2) \<Rightarrow> (Inl (Errorf ''failed to claim outbox lease'' [err]), w2)
             | (Inr _, w2) \<Rightarrow>
               (case pg_Commit db w2 of
                  (Inl err, w3) \<Rightarrow> (Inl (Errorf ''failed to commit outbox lease'' [err]), w3)
                | (Inr _, w3) \<Rightarrow> (Inr events, w3)))))"

definition db_GetPendingEvents :: "'w PgPool \<Rightarrow> time \<Rightarrow> 'w \<Rightarrow> (goerr + OutboxEvent list) \<times> 'w" where
  "db_GetPendingEvents db lease w =
    (case pg_Begin db w of
       (Inl err, w1) \<Rightarrow> (Inl (Errorf ''failed to begin transaction'' [err]), w1)
     | (Inr _, w1) \<Rightarrow> (case claim_body db lease w1 of (r, w2) \<Rightarrow> (r, pg_Rollback db w2)))"

definition postgres_outbox :: "'w PgPool \<Rightarrow> (OutboxEvent, 'w) OutboxRepository" where
  "postgres_outbox db = \<lparr>ob_CreateEvent = db_CreateEvent db, ob_MarkPublished = db_MarkPublished db,
     ob_GetPendingEvents = db_GetPendingEvents db\<rparr>"

section \<open>What PostgreSQL does\<close>

text \<open>The committed table, the table as the open transaction sees it, and the server's clock.\<close>

record 'w pgview =
  pv_rows :: "'w \<Rightarrow> pg_row list"
  pv_tx :: "'w \<Rightarrow> pg_row list"
  pv_now :: "'w \<Rightarrow> time"

definition where_set :: "(pg_row \<Rightarrow> bool) \<Rightarrow> (pg_row \<Rightarrow> pg_row) \<Rightarrow> pg_row list \<Rightarrow> pg_row list" where
  "where_set p f rs = map (\<lambda>r. if p r then f r else r) rs"

definition pg_pending :: "string \<Rightarrow> string \<Rightarrow> pg_row list \<Rightarrow> bool" where
  "pg_pending t k rs \<longleftrightarrow> (\<exists>r \<in> set rs. pgr_topic r = t \<and> pgr_key r = k \<and> pgr_published r = None)"

text \<open>An \<open>INSERT\<close> whose error is not the unique violation may still have been committed.\<close>

definition inserted :: "string \<Rightarrow> string \<Rightarrow> bytes \<Rightarrow> (string \<times> string) list \<Rightarrow> pg_row list \<Rightarrow> pg_row list \<Rightarrow> bool" where
  "inserted t k p tc rs rs' \<longleftrightarrow> (\<exists>i now. i \<notin> pgr_id ` set rs \<and> \<not> pg_pending t k rs \<and>
     rs' = rs @ [\<lparr>pgr_id = i, pgr_topic = t, pgr_key = k, pgr_payload = p, pgr_trace = tc,
       pgr_created = now, pgr_published = None, pgr_until = None\<rparr>])"

definition pg_insert_ok :: "'w PgPool \<times> 'w pgview \<Rightarrow> bool" where
  "pg_insert_ok h \<longleftrightarrow> (\<forall>t k p tc w r w'. pg_Insert (fst h) t k p tc w = (r, w') \<longrightarrow>
     (case r of
        Inr _ \<Rightarrow> inserted t k p tc (pv_rows (snd h) w) (pv_rows (snd h) w')
      | Inl e \<Rightarrow>
          if pg_Code (fst h) e = Some ''23505''
          then pv_rows (snd h) w' = pv_rows (snd h) w \<and> pg_pending t k (pv_rows (snd h) w)
          else pv_rows (snd h) w' = pv_rows (snd h) w \<or> inserted t k p tc (pv_rows (snd h) w) (pv_rows (snd h) w')))"

definition pg_update_ok :: "'w PgPool \<times> 'w pgview \<Rightarrow> bool" where
  "pg_update_ok h \<longleftrightarrow> (\<forall>p f w r w'. pg_Update (fst h) p f w = (r, w') \<longrightarrow>
     (\<exists>t. case r of
        Inr n \<Rightarrow> pv_rows (snd h) w' = where_set (p t) f (pv_rows (snd h) w)
      | Inl e \<Rightarrow> pv_rows (snd h) w' = pv_rows (snd h) w \<or> pv_rows (snd h) w' = where_set (p t) f (pv_rows (snd h) w)))"

definition pg_begin_ok :: "'w PgPool \<times> 'w pgview \<Rightarrow> bool" where
  "pg_begin_ok h \<longleftrightarrow> (\<forall>w r w'. pg_Begin (fst h) w = (r, w') \<longrightarrow>
     pv_rows (snd h) w' = pv_rows (snd h) w \<and> pv_now (snd h) w \<le> pv_now (snd h) w' \<and>
     (\<forall>u. r = Inr u \<longrightarrow> pv_tx (snd h) w' = pv_rows (snd h) w))"

text \<open>The \<open>SELECT\<close> may skip locked rows; its \<open>NOW()\<close> is not later than the clock after it.\<close>

definition pg_query_ok :: "'w PgPool \<times> 'w pgview \<Rightarrow> bool" where
  "pg_query_ok h \<longleftrightarrow> (\<forall>p key w r w'. pg_Query (fst h) p key w = (r, w') \<longrightarrow>
     pv_rows (snd h) w' = pv_rows (snd h) w \<and> pv_tx (snd h) w' = pv_tx (snd h) w \<and>
     pv_now (snd h) w \<le> pv_now (snd h) w' \<and>
     (\<forall>rs. r = Inr rs \<longrightarrow> (\<exists>t \<le> pv_now (snd h) w'.
        \<forall>x. Inr x \<in> set rs \<longrightarrow> x \<in> set (pv_tx (snd h) w) \<and> p t x)))"

definition pg_txupdate_ok :: "'w PgPool \<times> 'w pgview \<Rightarrow> bool" where
  "pg_txupdate_ok h \<longleftrightarrow> (\<forall>p f w r w'. pg_TxUpdate (fst h) p f w = (r, w') \<longrightarrow>
     pv_rows (snd h) w' = pv_rows (snd h) w \<and> pv_now (snd h) w \<le> pv_now (snd h) w' \<and>
     (\<forall>n. r = Inr n \<longrightarrow> (\<exists>t. pv_tx (snd h) w' = where_set (p t) f (pv_tx (snd h) w))))"

definition pg_commit_ok :: "'w PgPool \<times> 'w pgview \<Rightarrow> bool" where
  "pg_commit_ok h \<longleftrightarrow> (\<forall>w r w'. pg_Commit (fst h) w = (r, w') \<longrightarrow>
     pv_now (snd h) w \<le> pv_now (snd h) w' \<and>
     (case r of
        Inr _ \<Rightarrow> pv_rows (snd h) w' = pv_tx (snd h) w
      | Inl e \<Rightarrow> pv_rows (snd h) w' = pv_rows (snd h) w \<or> pv_rows (snd h) w' = pv_tx (snd h) w))"

definition pg_rollback_ok :: "'w PgPool \<times> 'w pgview \<Rightarrow> bool" where
  "pg_rollback_ok h \<longleftrightarrow> (\<forall>w. pv_rows (snd h) (pg_Rollback (fst h) w) = pv_rows (snd h) w \<and>
     pv_now (snd h) w \<le> pv_now (snd h) (pg_Rollback (fst h) w))"

text \<open>The primary key keeps identifiers distinct.\<close>

definition pg_ok :: "'w PgPool \<times> 'w pgview \<Rightarrow> bool" where
  "pg_ok h \<longleftrightarrow> pg_insert_ok h \<and> pg_update_ok h \<and> pg_begin_ok h \<and> pg_query_ok h \<and> pg_txupdate_ok h \<and>
     pg_commit_ok h \<and> pg_rollback_ok h \<and> (\<forall>w. distinct (map pgr_id (pv_rows (snd h) w)))"

section \<open>The repository keeps the outbox contract\<close>

definition abs_row :: "pg_row \<Rightarrow> outbox_row" where
  "abs_row r = \<lparr>row_id = pgr_id r, row_topic = pgr_topic r, row_key = pgr_key r, row_payload = pgr_payload r,
     row_published = (pgr_published r \<noteq> None)\<rparr>"

definition pg_rows :: "'w PgPool \<times> 'w pgview \<Rightarrow> 'w \<Rightarrow> outbox_row list" where
  "pg_rows h w = map abs_row (pv_rows (snd h) w)"

lemma event_row_scan: "pgr_published r = None \<Longrightarrow> event_row (scan_row r) = abs_row r"
  by (simp add: event_row_def scan_row_def abs_row_def)

lemma pending_abs: "pending_for t k (map abs_row rs) \<longleftrightarrow> pg_pending t k rs"
  by (auto simp: pending_for_def pg_pending_def abs_row_def)

lemma inserted_abs:
  assumes "inserted (oe_Topic e) (oe_Key e) (oe_Payload e) tc rs rs'"
  shows "(\<exists>i. i \<notin> row_id ` set (map abs_row rs) \<and> map abs_row rs' = map abs_row rs @ [new_row i e])"
    and "pg_pending (oe_Topic e) (oe_Key e) rs'"
  using assms by (auto simp: inserted_def abs_row_def new_row_def event_row_def image_iff pg_pending_def)

text \<open>An update of the lease column is invisible in the contract; one of the published column marks.\<close>

lemma where_set_until:
  "map abs_row (where_set p (\<lambda>r. r\<lparr>pgr_until := u\<rparr>) rs) = map abs_row rs"
  by (auto simp: where_set_def abs_row_def)

lemma where_set_mark:
  "map abs_row (where_set (\<lambda>r. pgr_id r = i) (\<lambda>r. r\<lparr>pgr_published := Some t\<rparr>) rs) = map (mark_row i) (map abs_row rs)"
  by (auto simp: where_set_def abs_row_def mark_row_def)

lemma scan_rows_map:
  "scan_rows rs = Inr es \<Longrightarrow> es = map (\<lambda>r. scan_row (projr r)) rs \<and> (\<forall>r \<in> set rs. \<not> isl r)"
  by (induction rs arbitrary: es rule: scan_rows.induct) (auto split: sum.splits)

lemma scan_rows_Inr:
  assumes "scan_rows rs = Inr es" "e \<in> set es"
  shows "\<exists>x. Inr x \<in> set rs \<and> e = scan_row x"
proof -
  from scan_rows_map[OF assms(1)] assms(2) obtain r where r: "r \<in> set rs" "e = scan_row (projr r)" "\<not> isl r" by auto
  then have "Inr (projr r) = r" by (cases r) simp_all
  with r show ?thesis by metis
qed

lemma db_CreateEvent_outcome:
  assumes "pg_ok (db, v)" "db_CreateEvent db e w = (r, w')"
  shows "pv_rows v w' = pv_rows v w \<or> (\<exists>tc. inserted (oe_Topic e) (oe_Key e) (oe_Payload e) tc (pv_rows v w) (pv_rows v w'))"
    and "r = Inr u \<Longrightarrow> pg_pending (oe_Topic e) (oe_Key e) (pv_rows v w')"
proof -
  obtain q w1 where q: "pg_Insert db (oe_Topic e) (oe_Key e) (oe_Payload e) (pg_Inject db w) w = (q, w1)" by fastforce
  from assms(1) have "pg_insert_ok (db, v)" by (simp add: pg_ok_def)
  note law = this[unfolded pg_insert_ok_def fst_conv snd_conv, rule_format, OF q]
  show "pv_rows v w' = pv_rows v w \<or> (\<exists>tc. inserted (oe_Topic e) (oe_Key e) (oe_Payload e) tc (pv_rows v w) (pv_rows v w'))"
    using law assms(2) q by (auto simp: db_CreateEvent_def split: sum.splits if_splits)
  show "r = Inr u \<Longrightarrow> pg_pending (oe_Topic e) (oe_Key e) (pv_rows v w')"
    using law assms(2) q inserted_abs(2)[of e]
    by (auto simp: db_CreateEvent_def split: sum.splits if_splits)
qed

lemma db_MarkPublished_outcome:
  assumes "pg_ok (db, v)" "db_MarkPublished db i w = (r, w')"
  shows "map abs_row (pv_rows v w') = map abs_row (pv_rows v w) \<or>
      map abs_row (pv_rows v w') = map (mark_row i) (map abs_row (pv_rows v w))"
    and "r = Inr u \<Longrightarrow> map abs_row (pv_rows v w') = map (mark_row i) (map abs_row (pv_rows v w))"
proof -
  obtain q w1 where q: "pg_Update db (\<lambda>_ r. pgr_id r = i) (\<lambda>r. r\<lparr>pgr_published := Some (pg_Now db w)\<rparr>) w = (q, w1)"
    by fastforce
  from assms(1) have "pg_update_ok (db, v)" by (simp add: pg_ok_def)
  note law = this[unfolded pg_update_ok_def fst_conv snd_conv, rule_format, OF q]
  have w': "w' = w1" using assms(2) q by (auto simp: db_MarkPublished_def split: sum.splits if_splits)
  show "map abs_row (pv_rows v w') = map abs_row (pv_rows v w) \<or>
      map abs_row (pv_rows v w') = map (mark_row i) (map abs_row (pv_rows v w))"
    using law by (auto simp: w' where_set_mark simp del: map_map split: sum.splits)
  show "r = Inr u \<Longrightarrow> map abs_row (pv_rows v w') = map (mark_row i) (map abs_row (pv_rows v w))"
    using law assms(2) q by (auto simp: w' where_set_mark db_MarkPublished_def simp del: map_map split: sum.splits if_splits)
qed

abbreviation lease_update :: "'w PgPool \<Rightarrow> time \<Rightarrow> OutboxEvent list \<Rightarrow> 'w \<Rightarrow> 'w \<Rightarrow> (goerr + nat) \<times> 'w" where
  "lease_update db l es w1 \<equiv> pg_TxUpdate db (\<lambda>_ r. pgr_id r \<in> set (map oe_Id es))
     (\<lambda>r. r\<lparr>pgr_until := Some (pg_Now db w1 + l)\<rparr>)"

text \<open>The ways through the transaction: it ends before the update, in it, or in the commit.\<close>

lemma claim_body_cases:
  assumes "claim_body db l w = (r, w')"
  obtains
    (early) q where "pg_Query db claimable pgr_created w = (q, w')" "\<And>es. r = Inr es \<Longrightarrow> es = []"
  | (update) rs w1 es e where "pg_Query db claimable pgr_created w = (Inr rs, w1)"
      "lease_update db l es w1 w1 = (Inl e, w')" "\<And>es. r \<noteq> Inr es"
  | (commit) rs w1 es n w2 c where "pg_Query db claimable pgr_created w = (Inr rs, w1)" "scan_rows rs = Inr es"
      "lease_update db l es w1 w1 = (Inr n, w2)" "pg_Commit db w2 = (c, w')"
      "\<And>es'. r = Inr es' \<Longrightarrow> es' = es \<and> (\<exists>u. c = Inr u)"
proof -
  obtain q w1 where q: "pg_Query db claimable pgr_created w = (q, w1)" by fastforce
  show thesis
  proof (cases "\<exists>rs es. q = Inr rs \<and> scan_rows rs = Inr es \<and> es \<noteq> []")
    case False
    with assms q have "w' = w1 \<and> (\<forall>es. r = Inr es \<longrightarrow> es = [])"
      by (auto simp: claim_body_def split: sum.splits if_splits)
    with q early show thesis by blast
  next
    case True
    then obtain rs es where es: "q = Inr rs" "scan_rows rs = Inr es" "es \<noteq> []" by blast
    obtain u w2 where u: "lease_update db l es w1 w1 = (u, w2)" by fastforce
    show thesis
    proof (cases u)
      case (Inl e)
      with assms q es u have "w' = w2" "\<And>es. r \<noteq> Inr es" by (auto simp: claim_body_def)
      with q es u Inl update show thesis by blast
    next
      case (Inr n)
      obtain c w3 where c: "pg_Commit db w2 = (c, w3)" by fastforce
      with assms q es u Inr have "w' = w3" "\<And>es'. r = Inr es' \<Longrightarrow> es' = es \<and> (\<exists>u. c = Inr u)"
        by (auto simp: claim_body_def split: sum.splits)
      with q es u Inr c commit show thesis by blast
    qed
  qed
qed

definition lease_changed :: "pg_row list \<Rightarrow> pg_row list \<Rightarrow> bool" where
  "lease_changed rs rs' \<longleftrightarrow> (\<exists>p u. rs' = where_set p (\<lambda>r. r\<lparr>pgr_until := u\<rparr>) rs)"

lemma lease_changed_abs: "lease_changed rs rs' \<Longrightarrow> map abs_row rs' = map abs_row rs"
  unfolding lease_changed_def using where_set_until by blast

lemma lease_changed_refl [simp]: "lease_changed rs rs"
  unfolding lease_changed_def by (rule exI[of _ "\<lambda>_. False"]) (simp add: where_set_def)

lemma claim_body_outcome:
  assumes ok: "pg_ok (db, v)" and start: "pv_tx v w = pv_rows v w" and run: "claim_body db l w = (r, w')"
  shows "lease_changed (pv_rows v w) (pv_rows v w')" and "pv_now v w \<le> pv_now v w'"
    and "r = Inr es \<Longrightarrow> \<exists>t \<le> pv_now v w'. \<forall>e \<in> set es. \<exists>x \<in> set (pv_rows v w). claimable t x \<and> e = scan_row x"
    and "r = Inr es \<Longrightarrow> es \<noteq> [] \<Longrightarrow> \<exists>w1. pv_now v w \<le> pv_now v w1 \<and> pv_rows v w' =
         where_set (\<lambda>r. pgr_id r \<in> oe_Id ` set es) (\<lambda>r. r\<lparr>pgr_until := Some (pg_Now db w1 + l)\<rparr>) (pv_rows v w)"
proof -
  from ok have laws: "pg_query_ok (db, v)" "pg_txupdate_ok (db, v)" "pg_commit_ok (db, v)" by (simp_all add: pg_ok_def)
  note qry = laws(1)[unfolded pg_query_ok_def fst_conv snd_conv, rule_format]
  note upd = laws(2)[unfolded pg_txupdate_ok_def fst_conv snd_conv, rule_format]
  note cmt = laws(3)[unfolded pg_commit_ok_def fst_conv snd_conv, rule_format]
  let ?events = "\<lambda>es. \<exists>t \<le> pv_now v w'. \<forall>e \<in> set es. \<exists>x \<in> set (pv_rows v w). claimable t x \<and> e = scan_row x"
  let ?leased = "\<lambda>es. \<exists>w1. pv_now v w \<le> pv_now v w1 \<and> pv_rows v w' =
         where_set (\<lambda>r. pgr_id r \<in> oe_Id ` set es) (\<lambda>r. r\<lparr>pgr_until := Some (pg_Now db w1 + l)\<rparr>) (pv_rows v w)"
  have "lease_changed (pv_rows v w) (pv_rows v w') \<and> pv_now v w \<le> pv_now v w' \<and>
    (r = Inr es \<longrightarrow> ?events es \<and> (es \<noteq> [] \<longrightarrow> ?leased es))"
    using run
  proof (cases rule: claim_body_cases)
    case (early q)
    then show ?thesis using qry[OF early(1)] by auto
  next
    case (update rs w1 es e)
    then show ?thesis using qry[OF update(1)] upd[OF update(2)] by auto
  next
    case (commit rs w1 es1 n w2 c)
    note Q = qry[OF commit(1)] and U = upd[OF commit(3)] and C = cmt[OF commit(4)]
    have now: "pv_now v w1 \<le> pv_now v w'" "pv_now v w \<le> pv_now v w1" using Q U C by auto
    have tx: "pv_tx v w2 = where_set (\<lambda>r. pgr_id r \<in> oe_Id ` set es1) (\<lambda>r. r\<lparr>pgr_until := Some (pg_Now db w1 + l)\<rparr>) (pv_rows v w)"
      using Q U start by auto
    from Q start obtain t where t: "t \<le> pv_now v w1" "\<And>x. Inr x \<in> set rs \<Longrightarrow> x \<in> set (pv_rows v w) \<and> claimable t x" by auto
    have ev: "?events es1" using t now scan_rows_Inr[OF commit(2)]
      by (intro exI[of _ t]) (meson order_trans)
    have rows: "pv_rows v w' = pv_rows v w \<or> pv_rows v w' = pv_tx v w2" using Q U C by (cases c) auto
    have committed: "c = Inr u \<Longrightarrow> pv_rows v w' = pv_tx v w2" for u using C by simp
    have "lease_changed (pv_rows v w) (pv_tx v w2)" unfolding tx lease_changed_def by blast
    with rows have "lease_changed (pv_rows v w) (pv_rows v w')" by auto
    moreover have "?events es \<and> ?leased es" if r: "r = Inr es"
    proof -
      from commit(5)[OF r] obtain u where "es = es1" "c = Inr u" by blast
      with ev committed tx now show ?thesis by auto
    qed
    ultimately show ?thesis using now by simp
  qed
  then show "lease_changed (pv_rows v w) (pv_rows v w')" "pv_now v w \<le> pv_now v w'"
    "r = Inr es \<Longrightarrow> ?events es" "r = Inr es \<Longrightarrow> es \<noteq> [] \<Longrightarrow> ?leased es" by simp_all
qed

text \<open>
  \<open>GetPendingEvents\<close>: whatever happens, the table changes in the lease column only; what a
  successful call returns was claimable at some time up to the clock of the query, and (unless the
  result is empty) afterwards stands under a lease that runs from a time the call saw.
\<close>

lemma db_GetPendingEvents_outcome:
  assumes ok: "pg_ok (db, v)" and run: "db_GetPendingEvents db l w = (r, w')"
  shows "lease_changed (pv_rows v w) (pv_rows v w')" and "pv_now v w \<le> pv_now v w'"
    and "r = Inr es \<Longrightarrow> \<exists>t \<le> pv_now v w'. \<forall>e \<in> set es. \<exists>x \<in> set (pv_rows v w). claimable t x \<and> e = scan_row x"
    and "r = Inr es \<Longrightarrow> es \<noteq> [] \<Longrightarrow> \<exists>w1. pv_now v w \<le> pv_now v w1 \<and> pv_rows v w' =
         where_set (\<lambda>r. pgr_id r \<in> oe_Id ` set es) (\<lambda>r. r\<lparr>pgr_until := Some (pg_Now db w1 + l)\<rparr>) (pv_rows v w)"
proof -
  from ok have laws: "pg_begin_ok (db, v)" "pg_rollback_ok (db, v)" by (simp_all add: pg_ok_def)
  note bgn = laws(1)[unfolded pg_begin_ok_def fst_conv snd_conv, rule_format]
  have rbk: "pv_rows v (pg_Rollback db x) = pv_rows v x" "pv_now v x \<le> pv_now v (pg_Rollback db x)" for x
    using laws(2) by (simp_all add: pg_rollback_ok_def)
  let ?events = "\<lambda>es. \<exists>t \<le> pv_now v w'. \<forall>e \<in> set es. \<exists>x \<in> set (pv_rows v w). claimable t x \<and> e = scan_row x"
  let ?leased = "\<lambda>es. \<exists>w1. pv_now v w \<le> pv_now v w1 \<and> pv_rows v w' =
         where_set (\<lambda>r. pgr_id r \<in> oe_Id ` set es) (\<lambda>r. r\<lparr>pgr_until := Some (pg_Now db w1 + l)\<rparr>) (pv_rows v w)"
  obtain r0 w0 where b: "pg_Begin db w = (r0, w0)" by fastforce
  have "lease_changed (pv_rows v w) (pv_rows v w') \<and> pv_now v w \<le> pv_now v w' \<and>
    (r = Inr es \<longrightarrow> ?events es \<and> (es \<noteq> [] \<longrightarrow> ?leased es))"
  proof (cases r0)
    case (Inl e)
    with run b bgn[OF b] show ?thesis by (auto simp: db_GetPendingEvents_def)
  next
    case (Inr u0)
    with bgn[OF b] have w0: "pv_rows v w0 = pv_rows v w" "pv_tx v w0 = pv_rows v w0" "pv_now v w \<le> pv_now v w0" by auto
    obtain r2 w2 where body: "claim_body db l w0 = (r2, w2)" by fastforce
    have fin: "r2 = r" "w' = pg_Rollback db w2" using run b Inr body by (simp_all add: db_GetPendingEvents_def)
    note out = claim_body_outcome[OF ok w0(2) body, unfolded w0(1) fin(1)]
    have now: "pv_now v w2 \<le> pv_now v w'" and rows: "pv_rows v w' = pv_rows v w2" using rbk[of w2] fin by simp_all
    have "?events es" if "r = Inr es" using out(3)[OF that] now by (meson order_trans)
    moreover have "?leased es" if ne: "r = Inr es" "es \<noteq> []"
    proof -
      from out(4)[OF ne] obtain wx where "pv_now v w0 \<le> pv_now v wx" "pv_rows v w2 =
         where_set (\<lambda>r. pgr_id r \<in> oe_Id ` set es) (\<lambda>r. r\<lparr>pgr_until := Some (pg_Now db wx + l)\<rparr>) (pv_rows v w)" by blast
      with rows w0(3) show ?thesis by (intro exI[of _ wx]) simp
    qed
    ultimately show ?thesis using out(1,2) w0(3) now rows by simp
  qed
  then show "lease_changed (pv_rows v w) (pv_rows v w')" "pv_now v w \<le> pv_now v w'"
    "r = Inr es \<Longrightarrow> ?events es" "r = Inr es \<Longrightarrow> es \<noteq> [] \<Longrightarrow> ?leased es" by simp_all
qed

text \<open>
  What a claim writes, answered or not: an expiry on rows that were claimable at some time up to
  its end, or nothing.
\<close>

definition leases_claimable :: "time \<Rightarrow> pg_row list \<Rightarrow> pg_row list \<Rightarrow> bool" where
  "leases_claimable now rs rs' \<longleftrightarrow> (\<exists>t \<le> now. \<exists>ids u. rs' = where_set (\<lambda>r. pgr_id r \<in> ids) (\<lambda>r. r\<lparr>pgr_until := u\<rparr>) rs \<and>
     (\<forall>r \<in> set rs. pgr_id r \<in> ids \<longrightarrow> claimable t r))"

lemma leases_claimable_same [simp]: "leases_claimable now rs rs"
  unfolding leases_claimable_def
  by (intro exI[of _ now] exI[of _ "{}"] conjI) (simp_all add: where_set_def)

lemma leases_claimable_later: "leases_claimable now rs rs' \<Longrightarrow> now \<le> now' \<Longrightarrow> leases_claimable now' rs rs'"
  unfolding leases_claimable_def by (elim exE conjE) (rule exI, rule conjI, erule order_trans, assumption, blast)

lemma claim_body_leases:
  assumes ok: "pg_ok (db, v)" and start: "pv_tx v w = pv_rows v w" and run: "claim_body db l w = (r, w')"
  shows "leases_claimable (pv_now v w') (pv_rows v w) (pv_rows v w')"
proof -
  from ok have laws: "pg_query_ok (db, v)" "pg_txupdate_ok (db, v)" "pg_commit_ok (db, v)" by (simp_all add: pg_ok_def)
  note qry = laws(1)[unfolded pg_query_ok_def fst_conv snd_conv, rule_format]
  note upd = laws(2)[unfolded pg_txupdate_ok_def fst_conv snd_conv, rule_format]
  note cmt = laws(3)[unfolded pg_commit_ok_def fst_conv snd_conv, rule_format]
  show ?thesis
    using run
  proof (cases rule: claim_body_cases)
    case (early q)
    then show ?thesis using qry[OF early(1)] by simp
  next
    case (update rs w1 es e)
    then show ?thesis using qry[OF update(1)] upd[OF update(2)] by simp
  next
    case (commit rs w1 es n w2 c)
    note Q = qry[OF commit(1)] and U = upd[OF commit(3)] and C = cmt[OF commit(4)]
    have now: "pv_now v w1 \<le> pv_now v w'" using U C by auto
    have tx: "pv_tx v w2 = where_set (\<lambda>r. pgr_id r \<in> oe_Id ` set es) (\<lambda>r. r\<lparr>pgr_until := Some (pg_Now db w1 + l)\<rparr>) (pv_rows v w)"
      using Q U start by auto
    from Q start obtain t where t: "t \<le> pv_now v w1" "\<And>x. Inr x \<in> set rs \<Longrightarrow> x \<in> set (pv_rows v w) \<and> claimable t x" by auto
    have "claimable t x" if x: "x \<in> set (pv_rows v w)" "pgr_id x \<in> oe_Id ` set es" for x
    proof -
      from x(2) obtain e where e: "e \<in> set es" "pgr_id x = oe_Id e" by auto
      from scan_rows_Inr[OF commit(2) e(1)] e(2) obtain y where y: "Inr y \<in> set rs" "pgr_id x = pgr_id y" by (auto simp: scan_row_def)
      with t(2)[OF y(1)] x(1) ok have "x = y" by (auto simp: pg_ok_def distinct_map inj_on_def)
      with t(2)[OF y(1)] show ?thesis by simp
    qed
    then have "leases_claimable (pv_now v w1) (pv_rows v w) (pv_tx v w2)"
      unfolding tx leases_claimable_def using t(1) by blast
    moreover have "pv_rows v w' = pv_rows v w \<or> pv_rows v w' = pv_tx v w2" using Q U C by (cases c) auto
    ultimately show ?thesis using leases_claimable_later[OF _ now] by auto
  qed
qed

lemma db_GetPendingEvents_leases:
  assumes ok: "pg_ok (db, v)" and run: "db_GetPendingEvents db l w = (r, w')"
  shows "leases_claimable (pv_now v w') (pv_rows v w) (pv_rows v w')"
proof -
  from ok have laws: "pg_begin_ok (db, v)" "pg_rollback_ok (db, v)" by (simp_all add: pg_ok_def)
  note bgn = laws(1)[unfolded pg_begin_ok_def fst_conv snd_conv, rule_format]
  obtain r0 w0 where b: "pg_Begin db w = (r0, w0)" by fastforce
  show ?thesis
  proof (cases r0)
    case (Inl e)
    with run b bgn[OF b] show ?thesis by (auto simp: db_GetPendingEvents_def)
  next
    case (Inr u)
    with bgn[OF b] have w0: "pv_rows v w0 = pv_rows v w" "pv_tx v w0 = pv_rows v w0" by auto
    obtain r2 w2 where body: "claim_body db l w0 = (r2, w2)" by fastforce
    have fin: "w' = pg_Rollback db w2" using run b Inr body by (simp add: db_GetPendingEvents_def)
    from laws(2) have "pv_rows v w' = pv_rows v w2" "pv_now v w2 \<le> pv_now v w'" by (simp_all add: fin pg_rollback_ok_def)
    with leases_claimable_later[OF claim_body_leases[OF ok w0(2) body]] w0(1) show ?thesis by simp
  qed
qed

text \<open>Marking touches the published column of one row only.\<close>

lemma db_MarkPublished_rows:
  assumes "pg_ok (db, v)" "db_MarkPublished db i w = (r, w')"
  shows "\<exists>p t. pv_rows v w' = where_set p (\<lambda>r. r\<lparr>pgr_published := Some t\<rparr>) (pv_rows v w)"
proof -
  obtain q w1 where q: "pg_Update db (\<lambda>_ r. pgr_id r = i) (\<lambda>r. r\<lparr>pgr_published := Some (pg_Now db w)\<rparr>) w = (q, w1)"
    by fastforce
  from assms(1) have "pg_update_ok (db, v)" by (simp add: pg_ok_def)
  note law = this[unfolded pg_update_ok_def fst_conv snd_conv, rule_format, OF q]
  have w': "w' = w1" using assms(2) q by (auto simp: db_MarkPublished_def split: sum.splits if_splits)
  have "pv_rows v w' = where_set (\<lambda>_. False) (\<lambda>r. r\<lparr>pgr_published := Some 0\<rparr>) (pv_rows v w) \<or>
      pv_rows v w' = where_set (\<lambda>r. pgr_id r = i) (\<lambda>r. r\<lparr>pgr_published := Some (pg_Now db w)\<rparr>) (pv_rows v w)"
    using law by (auto simp: w' where_set_def split: sum.splits)
  then show ?thesis by blast
qed

interpretation pg: outbox_repository pg_ok "\<lambda>h. postgres_outbox (fst h)" pg_rows
proof unfold_locales
  fix h :: "'a PgPool \<times> 'a pgview" and e :: OutboxEvent and w w' r i l es u and r'' :: "goerr + OutboxEvent list"
  assume ok: "pg_ok h"
  then have ok': "pg_ok (fst h, snd h)" by simp
  show "pg_rows h w' = pg_rows h w \<or> (\<exists>i. i \<notin> row_id ` set (pg_rows h w) \<and> pg_rows h w' = pg_rows h w @ [new_row i e])"
    if "ob_CreateEvent (postgres_outbox (fst h)) e w = (r, w')"
    using db_CreateEvent_outcome(1)[OF ok'] that inserted_abs(1)[of e]
    by (simp add: postgres_outbox_def pg_rows_def) (metis (no_types, lifting))
  show "pending_for (oe_Topic e) (oe_Key e) (pg_rows h w')"
    if "ob_CreateEvent (postgres_outbox (fst h)) e w = (Inr u, w')"
    using db_CreateEvent_outcome(2)[OF ok'] that by (simp add: postgres_outbox_def pg_rows_def pending_abs)
  show "pg_rows h w' = pg_rows h w \<or> pg_rows h w' = map (mark_row i) (pg_rows h w)"
    if "ob_MarkPublished (postgres_outbox (fst h)) i w = (r, w')"
    using db_MarkPublished_outcome(1)[OF ok'] that by (simp add: postgres_outbox_def pg_rows_def)
  show "pg_rows h w' = map (mark_row i) (pg_rows h w)"
    if "ob_MarkPublished (postgres_outbox (fst h)) i w = (Inr u, w')"
    using db_MarkPublished_outcome(2)[OF ok'] that by (simp add: postgres_outbox_def pg_rows_def)
  show "pg_rows h w' = pg_rows h w"
    if "ob_GetPendingEvents (postgres_outbox (fst h)) l w = (r'', w')"
    using lease_changed_abs[OF db_GetPendingEvents_outcome(1)[OF ok', of l w r'' w']] that
    by (simp add: postgres_outbox_def pg_rows_def)
  show "event_row e \<in> set (pg_rows h w)"
    if "ob_GetPendingEvents (postgres_outbox (fst h)) l w = (Inr es, w')" "e \<in> set es"
    using db_GetPendingEvents_outcome(3)[OF ok' _ refl] that
    by (fastforce simp: postgres_outbox_def pg_rows_def claimable_def event_row_scan)
qed

end
