(* ===== verification/Reservation_Manager.thy ===== *)
theory Reservation_Manager
  imports Redis_Contract Postgres_Outbox Vessel_Handler
begin

text \<open>
  \<open>cmd/reservation-service/manager\<close> (\<open>event.go\<close>, \<open>manager.go\<close>): the event handlers of the
  reservation service, their retry and dead-letter routing, the clean-up job, and the assignment
  of handlers to topics. The vessel client, \<open>backoff.Retry\<close> with the limits of \<open>backoffFn\<close>, and the
  codecs are fields of the manager record.
\<close>

section \<open>The manager\<close>

definition rs_PaymentCapturedTopic :: string where "rs_PaymentCapturedTopic = ''consignment.payment.captured''"
definition ReleaseCapacityTopic :: string where "ReleaseCapacityTopic = ''reservation.capacity.release''"
definition ConfirmCapacityTopic :: string where "ConfirmCapacityTopic = ''reservation.capacity.confirm''"
definition CapacityFailedTopic :: string where "CapacityFailedTopic = ''reservation.capacity.failed''"
definition rs_ReservationExpiredTopic :: string where "rs_ReservationExpiredTopic = ''reservation.expired''"
definition rs_ConfirmationFailedTopic :: string where "rs_ConfirmationFailedTopic = ''consignment.confirmation.failed''"
definition rs_ReservationConfirmedTopic :: string where "rs_ReservationConfirmedTopic = ''reservation.confirmed''"

lemmas rs_topic_defs = rs_PaymentCapturedTopic_def ReleaseCapacityTopic_def ConfirmCapacityTopic_def
  CapacityFailedTopic_def rs_ReservationExpiredTopic_def rs_ConfirmationFailedTopic_def rs_ReservationConfirmedTopic_def

definition MaxRetries :: nat where "MaxRetries = 3"

text \<open>The gRPC client of the vessel service; the empty responses are not kept.\<close>

record 'w VesselClient =
  vc_ReserveCapacity :: "PbSpecification \<Rightarrow> 'w \<Rightarrow> (goerr + PbVesselResponse) \<times> 'w"
  vc_ReleaseCapacity :: "PbCapacityRequest \<Rightarrow> 'w \<Rightarrow> (goerr + unit) \<times> 'w"
  vc_ConfirmCapacity :: "PbCapacityRequest \<Rightarrow> 'w \<Rightarrow> (goerr + unit) \<times> 'w"

record 'w RsManager =
  rm_cache :: "'w ReservationCache"
  rm_outbox :: "(OutboxEvent, 'w) OutboxRepository"
  rm_vesselCli :: "'w VesselClient"
  rm_Retry :: "('w \<Rightarrow> (goerr + unit) \<times> 'w) \<Rightarrow> 'w \<Rightarrow> (goerr + unit) \<times> 'w"
  rm_codecs :: event_codecs
  rm_uuid :: uuid_lib

section \<open>Publish functions\<close>

definition publishReservationExpired :: "'w RsManager \<Rightarrow> ReservationInfo \<Rightarrow> 'w \<Rightarrow> (goerr + unit) \<times> 'w" where
  "publishReservationExpired m r w =
    (case Marshal (pb_ReservationExpired (rm_codecs m))
        \<lparr>ree_ReservationId = uuid_String (rm_uuid m) (info_Id r),
         ree_VesselId = uuid_String (rm_uuid m) (info_VesselID r),
         ree_ConsignmentId = uuid_String (rm_uuid m) (info_ConsignmentID r),
         ree_Weight = int32_of_int (info_Weight r),
         ree_Containers = int32_of_int (info_NumberOfContainers r)\<rparr> of
       Inl err \<Rightarrow> (Inl (Errorf ''failed to marshal reservation expired event'' [err]), w)
     | Inr payload \<Rightarrow>
         ob_CreateEvent (rm_outbox m)
           (outbox_event rs_ReservationExpiredTopic (uuid_String (rm_uuid m) (info_Id r)) payload) w)"

definition confirmed_event :: "CapacityEvent \<Rightarrow> ReservationConfirmedEvent" where
  "confirmed_event event = \<lparr>rce_ReservationId = GetId (ce_ReservationInfo event),
     rce_ConsignmentId = ce_ConsignmentId event, rce_SagaStartedAt = ce_SagaStartedAt event\<rparr>"

definition publishReservationConfirmed :: "'w RsManager \<Rightarrow> CapacityEvent \<Rightarrow> 'w \<Rightarrow> (goerr + unit) \<times> 'w" where
  "publishReservationConfirmed m event w =
    (case Marshal (pb_ReservationConfirmed (rm_codecs m)) (confirmed_event event) of
       Inl err \<Rightarrow> (Inl (Errorf ''failed to marshal reservation confirmed event'' [err]), w)
     | Inr payload \<Rightarrow>
         ob_CreateEvent (rm_outbox m)
           (outbox_event rs_ReservationConfirmedTopic (ce_ConsignmentId event) payload) w)"

definition confirmation_failed_event :: "CapacityEvent \<Rightarrow> ConsignmentConfirmationFailedEvent" where
  "confirmation_failed_event event = zero_FailedEvent\<lparr>
     cfe_PaymentCaptured := True,
     cfe_CacheCleared := True,
     cfe_PaymentId := ce_PaymentId event,
     cfe_ConsignmentId := ce_ConsignmentId event,
     cfe_ReservationId := GetId (ce_ReservationInfo event),
     cfe_VesselId := GetVesselId (ce_ReservationInfo event),
     cfe_Weight := GetWeight (ce_ReservationInfo event),
     cfe_Containers := GetNumberOfContainers (ce_ReservationInfo event),
     cfe_SagaStartedAt := ce_SagaStartedAt event\<rparr>"

definition publishConfirmationFailed :: "'w RsManager \<Rightarrow> CapacityEvent \<Rightarrow> 'w \<Rightarrow> (goerr + unit) \<times> 'w" where
  "publishConfirmationFailed m event w =
    (case Marshal (pb_ConfirmationFailed (rm_codecs m)) (confirmation_failed_event event) of
       Inl err \<Rightarrow> (Inl (Errorf ''failed to marshal failed confirmation event'' [err]), w)
     | Inr payload \<Rightarrow>
         ob_CreateEvent (rm_outbox m)
           (outbox_event rs_ConfirmationFailedTopic (ce_ConsignmentId event) payload) w)"

text \<open>The routing of a retry: \<open>RetryCount\<close> is an \<open>int32\<close> and is compared signed.\<close>

definition retry_topic :: "CapacityEvent \<Rightarrow> string" where
  "retry_topic event =
    (if ce_RetryCount event <s int32_of_int (int MaxRetries) then
       (if ce_Action event = CAPACITY_ACTION_CONFIRM then ConfirmCapacityTopic
        else if ce_Action event = CAPACITY_ACTION_RELEASE then ReleaseCapacityTopic
        else CapacityFailedTopic)
     else CapacityFailedTopic)"

definition retry_key :: "CapacityEvent \<Rightarrow> string" where
  "retry_key event = GetId (ce_ReservationInfo event) @ ''-'' @ fmt_int (int_of_int32 (ce_RetryCount event))"

definition publishRetryEvent :: "'w RsManager \<Rightarrow> CapacityEvent \<Rightarrow> 'w \<Rightarrow> (goerr + unit) \<times> 'w" where
  "publishRetryEvent m event0 w =
    (let event = event0\<lparr>ce_RetryCount := ce_RetryCount event0 + 1\<rparr> in
     case Marshal (pb_Capacity (rm_codecs m)) event of
       Inl err \<Rightarrow> (Inl (Errorf ''failed to marshal event'' [err]), w)
     | Inr payload \<Rightarrow>
       (case ob_CreateEvent (rm_outbox m) (outbox_event (retry_topic event) (retry_key event) payload) w of
          (Inl err, w1) \<Rightarrow> (Inl (Errorf ''failed to create outbox event'' [err]), w1)
        | (Inr _, w1) \<Rightarrow> (Inr (), w1)))"

section \<open>The capacity event\<close>

definition capacity_request :: "CapacityEvent \<Rightarrow> PbCapacityRequest" where
  "capacity_request event = \<lparr>
     pbr_VesselId = GetVesselId (ce_ReservationInfo event),
     pbr_Weight = GetWeight (ce_ReservationInfo event),
     pbr_NumberOfContainers = GetNumberOfContainers (ce_ReservationInfo event),
     pbr_ReservationId = GetId (ce_ReservationInfo event)\<rparr>"

text \<open>The \<open>switch\<close> on the action: no call, and no error, for any other action.\<close>

definition vessel_call :: "'w RsManager \<Rightarrow> CapacityEvent \<Rightarrow> 'w \<Rightarrow> (goerr + unit) \<times> 'w" where
  "vessel_call m event w =
    (if ce_Action event = CAPACITY_ACTION_CONFIRM then
       rm_Retry m (vc_ConfirmCapacity (rm_vesselCli m) (capacity_request event)) w
     else if ce_Action event = CAPACITY_ACTION_RELEASE then
       rm_Retry m (vc_ReleaseCapacity (rm_vesselCli m) (capacity_request event)) w
     else (Inr (), w))"

text \<open>From the vessel call to the end of \<open>processCapacityEvent\<close>.\<close>

definition process_cleared :: "'w RsManager \<Rightarrow> CapacityEvent \<Rightarrow> 'w \<Rightarrow> (goerr + unit) \<times> 'w" where
  "process_cleared m event w =
    (case vessel_call m event w of
       (Inl vesselErr, w1) \<Rightarrow>
         (case publishRetryEvent m event w1 of
            (Inl err, w2) \<Rightarrow> (Inl (Errorf ''failed to schedule release retry'' [err]), w2)
          | (Inr _, w2) \<Rightarrow> (Inr (), w2))
     | (Inr _, w1) \<Rightarrow>
         (let w2 = snd (rc_DeleteID (rm_cache m) (GetId (ce_ReservationInfo event)) w1) in
          if ce_Action event = CAPACITY_ACTION_CONFIRM
          then (Inr (), snd (publishReservationConfirmed m event w2))
          else (Inr (), w2)))"

definition processCapacityEvent :: "'w RsManager \<Rightarrow> CapacityEvent \<Rightarrow> 'w \<Rightarrow> (goerr + unit) \<times> 'w" where
  "processCapacityEvent m event w =
    (if ce_CacheCleared event then process_cleared m event w
     else
       (case rc_DeleteData (rm_cache m) (GetId (ce_ReservationInfo event)) w of
          (Inl deleteErr, w1) \<Rightarrow>
            (case publishRetryEvent m event w1 of
               (Inl err, w2) \<Rightarrow> (Inl (Errorf ''failed to schedule capacity retry'' [err]), w2)
             | (Inr _, w2) \<Rightarrow> (Inr (), w2))
        | (Inr deleted, w1) \<Rightarrow>
            if \<not> deleted then (Inr (), w1)
            else process_cleared m (event\<lparr>ce_CacheCleared := True\<rparr>) w1))"

section \<open>Event handlers\<close>

definition expired_to_release :: "ReservationExpiredEvent \<Rightarrow> CapacityEvent" where
  "expired_to_release pb = zero_CapacityEvent\<lparr>
     ce_Action := CAPACITY_ACTION_RELEASE,
     ce_ReservationInfo := Some \<lparr>evi_Id = ree_ReservationId pb, evi_VesselId = ree_VesselId pb,
       evi_ConsignmentId = ree_ConsignmentId pb, evi_NumberOfContainers = ree_Containers pb,
       evi_Weight = ree_Weight pb\<rparr>\<rparr>"

definition handleReservationExpiredEvent :: "'w RsManager \<Rightarrow> 'w EventHandler" where
  "handleReservationExpiredEvent m key val w =
    (case Unmarshal (pb_ReservationExpired (rm_codecs m)) val of
       Inl err \<Rightarrow> (Inl (Errorf ''failed to unmarshal event'' [err]), w)
     | Inr pb \<Rightarrow> processCapacityEvent m (expired_to_release pb) w)"

definition captured_to_confirm :: "PaymentCapturedEvent \<Rightarrow> CapacityEvent" where
  "captured_to_confirm pb = zero_CapacityEvent\<lparr>
     ce_Action := CAPACITY_ACTION_CONFIRM,
     ce_ReservationInfo := pce_ReservationInfo pb,
     ce_ConsignmentId := pce_ConsignmentId pb,
     ce_PaymentId := pce_PaymentId pb,
     ce_SagaStartedAt := pce_SagaStartedAt pb\<rparr>"

definition handlePaymentCapturedEvent :: "'w RsManager \<Rightarrow> 'w EventHandler" where
  "handlePaymentCapturedEvent m key val w =
    (case Unmarshal (pb_PaymentCaptured (rm_codecs m)) val of
       Inl err \<Rightarrow> (Inl (Errorf ''failed to unmarshal event'' [err]), w)
     | Inr pb \<Rightarrow>
         if pce_ReservationInfo pb = None
         then (Inl (Errorf ''payment captured event missing reservation_info'' []), w)
         else processCapacityEvent m (captured_to_confirm pb) w)"

definition handleCapacityEvent :: "'w RsManager \<Rightarrow> 'w EventHandler" where
  "handleCapacityEvent m key val w =
    (case Unmarshal (pb_Capacity (rm_codecs m)) val of
       Inl err \<Rightarrow> (Inl (Errorf ''failed to unmarshal event'' [err]), w)
     | Inr event \<Rightarrow> processCapacityEvent m event w)"

definition failed_to_release :: "CapacityEvent \<Rightarrow> CapacityEvent" where
  "failed_to_release event = zero_CapacityEvent\<lparr>
     ce_Action := CAPACITY_ACTION_RELEASE,
     ce_ReservationInfo := ce_ReservationInfo event,
     ce_CacheCleared := ce_CacheCleared event\<rparr>"

definition handleFailedCapacityEvent :: "'w RsManager \<Rightarrow> 'w EventHandler" where
  "handleFailedCapacityEvent m key val w =
    (case Unmarshal (pb_Capacity (rm_codecs m)) val of
       Inl err \<Rightarrow> (Inl (Errorf ''failed to unmarshal event'' [err]), w)
     | Inr event \<Rightarrow>
         if ce_Action event = CAPACITY_ACTION_RELEASE then (Inr (), w)
         else if ce_Action event = CAPACITY_ACTION_CONFIRM then
           (let w1 = snd (processCapacityEvent m (failed_to_release event) w) in
            case publishConfirmationFailed m event w1 of
              (Inl err, w2) \<Rightarrow> (Inl (Errorf ''failed to publish capacity confirmation failure event'' [err]), w2)
            | (Inr _, w2) \<Rightarrow> (Inr (), w2))
         else (Inr (), w))"

section \<open>Topics\<close>

definition rs_handlers :: "'w RsManager \<Rightarrow> 'w EventHandlers" where
  "rs_handlers m = [
     rs_PaymentCapturedTopic \<mapsto> handlePaymentCapturedEvent m,
     ReleaseCapacityTopic \<mapsto> handleCapacityEvent m,
     ConfirmCapacityTopic \<mapsto> handleCapacityEvent m,
     rs_ReservationExpiredTopic \<mapsto> handleReservationExpiredEvent m,
     CapacityFailedTopic \<mapsto> handleFailedCapacityEvent m]"

definition rs_New :: "'w RsManager \<Rightarrow> string list \<Rightarrow> goerr + 'w EventHandlers" where
  "rs_New m topics = assign_handlers (rs_handlers m) Map.empty topics"

section \<open>The clean-up job\<close>

fun publish_all_expired :: "'w RsManager \<Rightarrow> ReservationInfo list \<Rightarrow> 'w \<Rightarrow> 'w" where
  "publish_all_expired m [] w = w"
| "publish_all_expired m (r # rs) w = publish_all_expired m rs (snd (publishReservationExpired m r w))"

definition releaseReservations :: "'w RsManager \<Rightarrow> 'w \<Rightarrow> ((goerr + unit) \<times> 'w) option" where
  "releaseReservations m w =
    (case rc_GetExpired (rm_cache m) w of
       None \<Rightarrow> None
     | Some (Inl err, w1) \<Rightarrow> Some (Inl (Errorf ''failed to get expired reservations'' [err]), w1)
     | Some (Inr expired, w1) \<Rightarrow> Some (Inr (), publish_all_expired m expired w1))"

end
