(* ===== verification/Capacity_Manager.thy ===== *)
theory Capacity_Manager
  imports Reservation_Manager
begin

text \<open>
  What the reservation manager guarantees, proved once from the three contracts it is written
  against: the cache (\<open>reservation_cache\<close>), the outbox (\<open>outbox_repository\<close>) and a vessel service
  whose capacity operations take effect at most once per reservation and action.
\<close>

section \<open>The effect of an event\<close>

text \<open>The capacity operation an event asks for, its one allowed effect and the record it leaves.\<close>

definition ev_call :: "CapacityEvent \<Rightarrow> cap_call option" where
  "ev_call ev =
    (if ce_Action ev = CAPACITY_ACTION_CONFIRM then Some (Confirm (MarshalCapacityRequest (capacity_request ev)))
     else if ce_Action ev = CAPACITY_ACTION_RELEASE then Some (Release (MarshalCapacityRequest (capacity_request ev)))
     else None)"

definition ev_effect :: "CapacityEvent \<Rightarrow> vdb \<Rightarrow> vdb \<Rightarrow> bool" where
  "ev_effect ev d d' \<longleftrightarrow> (case ev_call ev of None \<Rightarrow> False | Some c \<Rightarrow> cap_step c d d')"

definition ev_done :: "CapacityEvent \<Rightarrow> vdb \<Rightarrow> bool" where
  "ev_done ev d \<longleftrightarrow> (case ev_call ev of None \<Rightarrow> True | Some c \<Rightarrow> call_marked c d)"

abbreviation ev_id :: "CapacityEvent \<Rightarrow> string" where
  "ev_id ev \<equiv> GetId (ce_ReservationInfo ev)"

text \<open>The event as it is scheduled again.\<close>

definition bump :: "CapacityEvent \<Rightarrow> CapacityEvent" where
  "bump ev = ev\<lparr>ce_RetryCount := ce_RetryCount ev + 1\<rparr>"

lemma publishRetryEvent_bump:
  "publishRetryEvent m ev w =
    (case Marshal (pb_Capacity (rm_codecs m)) (bump ev) of
       Inl err \<Rightarrow> (Inl (Errorf ''failed to marshal event'' [err]), w)
     | Inr payload \<Rightarrow>
       (case ob_CreateEvent (rm_outbox m) (outbox_event (retry_topic (bump ev)) (retry_key (bump ev)) payload) w of
          (Inl err, w1) \<Rightarrow> (Inl (Errorf ''failed to create outbox event'' [err]), w1)
        | (Inr _, w1) \<Rightarrow> (Inr (), w1)))"
  unfolding publishRetryEvent_def bump_def Let_def by (rule refl)

lemma ev_call_update [simp]:
  "ev_call (ev\<lparr>ce_CacheCleared := b\<rparr>) = ev_call ev" "ev_call (bump ev) = ev_call ev"
  by (simp_all add: ev_call_def capacity_request_def bump_def)

lemma ev_effect_update [simp]: "ev_effect (ev\<lparr>ce_CacheCleared := b\<rparr>) = ev_effect ev"
  by (simp add: ev_effect_def fun_eq_iff)

lemma ev_done_update [simp]: "ev_done (ev\<lparr>ce_CacheCleared := b\<rparr>) = ev_done ev"
  by (simp add: ev_done_def fun_eq_iff)

lemma retry_route_update [simp]:
  "retry_topic (bump (ev\<lparr>ce_CacheCleared := b\<rparr>)) = retry_topic (bump ev)"
  "retry_key (bump (ev\<lparr>ce_CacheCleared := b\<rparr>)) = retry_key (bump ev)"
  by (simp_all add: retry_topic_def retry_key_def bump_def)

text \<open>The result of each publication of a clean-up run, in its order.\<close>

fun publish_results :: "'w RsManager \<Rightarrow> ReservationInfo list \<Rightarrow> 'w \<Rightarrow> (ReservationInfo \<times> (goerr + unit)) list" where
  "publish_results m [] w = []"
| "publish_results m (r # rs) w =
    (case publishReservationExpired m r w of (q, w1) \<Rightarrow> (r, q) # publish_results m rs w1)"

lemma publish_results_fst: "map fst (publish_results m infos w) = infos"
  by (induction infos arbitrary: w) (auto split: prod.splits)

section \<open>The client of the three contracts\<close>

locale capacity_manager =
  reservation_cache ok cache has_data + outbox_repository ok repo rows
  for ok :: "'h \<Rightarrow> bool"
    and cache :: "'h \<Rightarrow> 'w ReservationCache"
    and has_data :: "'h \<Rightarrow> 'w \<Rightarrow> string set"
    and repo :: "'h \<Rightarrow> (OutboxEvent, 'w) OutboxRepository"
    and rows :: "'h \<Rightarrow> 'w \<Rightarrow> outbox_row list" +
  fixes mgr :: "'h \<Rightarrow> 'w RsManager"
    and cap :: "'h \<Rightarrow> 'w \<Rightarrow> vdb"
  assumes mgr_cache: "rm_cache (mgr h) = cache h" and mgr_outbox: "rm_outbox (mgr h) = repo h"
    and vessel_effect: "ok h \<Longrightarrow> vessel_call (mgr h) ev w = (r, w') \<Longrightarrow>
      cap h w' = cap h w \<or> ev_effect ev (cap h w) (cap h w')"
    and vessel_done: "ok h \<Longrightarrow> vessel_call (mgr h) ev w = (Inr u, w') \<Longrightarrow> ev_done ev (cap h w')"
    and vessel_frame: "ok h \<Longrightarrow> vessel_call (mgr h) ev w = (r, w') \<Longrightarrow>
      rows h w' = rows h w \<and> has_data h w' \<subseteq> has_data h w"
    and delete_data_frame: "ok h \<Longrightarrow> rc_DeleteData (cache h) i w = (r1, w') \<Longrightarrow>
      rows h w' = rows h w \<and> cap h w' = cap h w"
    and delete_id_frame: "ok h \<Longrightarrow> rc_DeleteID (cache h) i w = (r1, w') \<Longrightarrow>
      rows h w' = rows h w \<and> cap h w' = cap h w"
    and expired_frame: "ok h \<Longrightarrow> rc_GetExpired (cache h) w = Some (r2, w') \<Longrightarrow>
      rows h w' = rows h w \<and> cap h w' = cap h w"
    and create_frame: "ok h \<Longrightarrow> ob_CreateEvent (repo h) e w = (r, w') \<Longrightarrow>
      has_data h w' \<subseteq> has_data h w \<and> cap h w' = cap h w"
begin

text \<open>Publishing writes the outbox and nothing else.\<close>

lemma publish_frame:
  assumes "ok h" "ob_CreateEvent (repo h) e w = (r, w')"
  shows "rows_kept (rows h w) (rows h w')" "has_data h w' \<subseteq> has_data h w" "cap h w' = cap h w"
  using create_kept[OF assms] create_frame[OF assms] by blast+

lemma publish_pending:
  assumes "ok h" "ob_CreateEvent (repo h) (outbox_event t k p) w = (Inr u, w')"
  shows "pending_for t k (rows h w')"
  using create_pending[OF assms] by (simp add: outbox_event_def)

lemma retry_event:
  assumes "ok h" "publishRetryEvent (mgr h) ev w = (r, w')"
  shows "rows_kept (rows h w) (rows h w')" "has_data h w' \<subseteq> has_data h w" "cap h w' = cap h w"
    and "r = Inr u \<Longrightarrow> pending_for (retry_topic (bump ev)) (retry_key (bump ev)) (rows h w')"
proof -
  have both: "rows_kept (rows h w) (rows h w') \<and> has_data h w' \<subseteq> has_data h w \<and> cap h w' = cap h w \<and>
      (r = Inr u \<longrightarrow> pending_for (retry_topic (bump ev)) (retry_key (bump ev)) (rows h w'))"
  proof (cases "Marshal (pb_Capacity (rm_codecs (mgr h))) (bump ev)")
    case (Inl e)
    with assms(2) show ?thesis by (auto simp: publishRetryEvent_def bump_def)
  next
    case (Inr p)
    obtain q w1 where c: "ob_CreateEvent (repo h) (outbox_event (retry_topic (bump ev)) (retry_key (bump ev)) p) w = (q, w1)"
      by fastforce
    with assms(2) Inr have "w' = w1" "r = Inr u \<Longrightarrow> \<exists>u. q = Inr u"
      by (auto simp: publishRetryEvent_def bump_def mgr_outbox Let_def split: sum.splits)
    with publish_frame[OF assms(1) c] publish_pending[OF assms(1)] c show ?thesis by auto
  qed
  then show "rows_kept (rows h w) (rows h w')" "has_data h w' \<subseteq> has_data h w" "cap h w' = cap h w"
    "r = Inr u \<Longrightarrow> pending_for (retry_topic (bump ev)) (retry_key (bump ev)) (rows h w')" by simp_all
qed

lemma confirmed_published:
  assumes "ok h" "publishReservationConfirmed (mgr h) ev w = (r, w')"
  shows "rows_kept (rows h w) (rows h w')" "has_data h w' \<subseteq> has_data h w" "cap h w' = cap h w"
    and "r = Inr u \<Longrightarrow> pending_for rs_ReservationConfirmedTopic (ce_ConsignmentId ev) (rows h w')"
proof -
  have "rows_kept (rows h w) (rows h w') \<and> has_data h w' \<subseteq> has_data h w \<and> cap h w' = cap h w \<and>
      (r = Inr u \<longrightarrow> pending_for rs_ReservationConfirmedTopic (ce_ConsignmentId ev) (rows h w'))"
  proof (cases "Marshal (pb_ReservationConfirmed (rm_codecs (mgr h))) (confirmed_event ev)")
    case (Inl e)
    with assms(2) show ?thesis by (auto simp: publishReservationConfirmed_def)
  next
    case (Inr p)
    with assms(2) have c: "ob_CreateEvent (repo h) (outbox_event rs_ReservationConfirmedTopic (ce_ConsignmentId ev) p) w = (r, w')"
      by (simp add: publishReservationConfirmed_def mgr_outbox)
    with publish_frame[OF assms(1) c] publish_pending[OF assms(1)] show ?thesis by auto
  qed
  then show "rows_kept (rows h w) (rows h w')" "has_data h w' \<subseteq> has_data h w" "cap h w' = cap h w"
    "r = Inr u \<Longrightarrow> pending_for rs_ReservationConfirmedTopic (ce_ConsignmentId ev) (rows h w')" by simp_all
qed

text \<open>
  From the vessel call on: the capacity changes by the event's effect at most; a nil result means
  that the operation is recorded and (for a confirmation whose publishing succeeded) its event is
  in the outbox, or that a retry is.
\<close>

lemma cleared_outcome:
  assumes ok: "ok h" and run: "process_cleared (mgr h) ev w = (r, w')"
  shows "cap h w' = cap h w \<or> ev_effect ev (cap h w) (cap h w')"
    and "rows_kept (rows h w) (rows h w')" and "has_data h w' \<subseteq> has_data h w"
    and "r = Inr u \<Longrightarrow> pending_for (retry_topic (bump ev)) (retry_key (bump ev)) (rows h w') \<or>
      ev_done ev (cap h w') \<and> (ce_Action ev = CAPACITY_ACTION_CONFIRM \<longrightarrow>
        pending_for rs_ReservationConfirmedTopic (ce_ConsignmentId ev) (rows h w') \<or>
        (\<exists>w2 err. publishReservationConfirmed (mgr h) ev w2 = (Inl err, w')))"
proof -
  obtain q w1 where call: "vessel_call (mgr h) ev w = (q, w1)" by fastforce
  note eff = vessel_effect[OF ok call] and frm = vessel_frame[OF ok call]
  have "(cap h w' = cap h w \<or> ev_effect ev (cap h w) (cap h w')) \<and> rows_kept (rows h w) (rows h w') \<and>
    has_data h w' \<subseteq> has_data h w \<and>
    (r = Inr u \<longrightarrow> pending_for (retry_topic (bump ev)) (retry_key (bump ev)) (rows h w') \<or>
      ev_done ev (cap h w') \<and> (ce_Action ev = CAPACITY_ACTION_CONFIRM \<longrightarrow>
        pending_for rs_ReservationConfirmedTopic (ce_ConsignmentId ev) (rows h w') \<or>
        (\<exists>w2 err. publishReservationConfirmed (mgr h) ev w2 = (Inl err, w'))))"
  proof (cases q)
    case (Inl e)
    obtain p w2 where pub: "publishRetryEvent (mgr h) ev w1 = (p, w2)" by fastforce
    with run call Inl have "w' = w2" "r = Inr u \<Longrightarrow> p = Inr ()" by (auto simp: process_cleared_def split: sum.splits)
    with retry_event[OF ok pub] eff frm show ?thesis by auto
  next
    case (Inr x)
    obtain d w2 where del: "rc_DeleteID (cache h) (ev_id ev) w1 = (d, w2)" by fastforce
    note fr2 = delete_id_frame[OF ok del] delete_id[OF ok del]
    have dn: "ev_done ev (cap h w1)" using vessel_done[OF ok] call Inr by blast
    show ?thesis
    proof (cases "ce_Action ev = CAPACITY_ACTION_CONFIRM")
      case False
      with run call Inr del have "w' = w2" by (simp add: process_cleared_def mgr_cache)
      with dn fr2 frm eff False show ?thesis by auto
    next
      case True
      obtain p w3 where pub: "publishReservationConfirmed (mgr h) ev w2 = (p, w3)" by fastforce
      with run call Inr del True have w': "w' = w3" by (simp add: process_cleared_def mgr_cache)
      show ?thesis
        using confirmed_published[OF ok pub] pub dn fr2 frm eff w' by (cases p) auto
    qed
  qed
  then show "cap h w' = cap h w \<or> ev_effect ev (cap h w) (cap h w')" "rows_kept (rows h w) (rows h w')"
    "has_data h w' \<subseteq> has_data h w"
    "r = Inr u \<Longrightarrow> pending_for (retry_topic (bump ev)) (retry_key (bump ev)) (rows h w') \<or>
      ev_done ev (cap h w') \<and> (ce_Action ev = CAPACITY_ACTION_CONFIRM \<longrightarrow>
        pending_for rs_ReservationConfirmedTopic (ce_ConsignmentId ev) (rows h w') \<or>
        (\<exists>w2 err. publishReservationConfirmed (mgr h) ev w2 = (Inl err, w')))" by simp_all
qed

text \<open>The ways through the cache check.\<close>

lemma process_cases:
  assumes "processCapacityEvent (mgr h) ev w = (r, w')"
  obtains
    (cleared) "ce_CacheCleared ev" "process_cleared (mgr h) ev w = (r, w')"
  | (failed) e w1 p where "\<not> ce_CacheCleared ev" "rc_DeleteData (cache h) (ev_id ev) w = (Inl e, w1)"
      "publishRetryEvent (mgr h) ev w1 = (p, w')" "\<And>u. r = Inr u \<Longrightarrow> p = Inr ()"
  | (duplicate) "\<not> ce_CacheCleared ev" "rc_DeleteData (cache h) (ev_id ev) w = (Inr False, w')" "r = Inr ()"
  | (first) w1 where "\<not> ce_CacheCleared ev" "rc_DeleteData (cache h) (ev_id ev) w = (Inr True, w1)"
      "process_cleared (mgr h) (ev\<lparr>ce_CacheCleared := True\<rparr>) w1 = (r, w')"
proof (cases "ce_CacheCleared ev")
  case True
  with assms cleared show thesis by (simp add: processCapacityEvent_def)
next
  case False
  obtain d w1 where del: "rc_DeleteData (cache h) (ev_id ev) w = (d, w1)" by fastforce
  show thesis
  proof (cases d)
    case (Inl e)
    obtain p w2 where pub: "publishRetryEvent (mgr h) ev w1 = (p, w2)" by fastforce
    with assms False del Inl have "w' = w2" "\<And>u. r = Inr u \<Longrightarrow> p = Inr ()"
      by (auto simp: processCapacityEvent_def mgr_cache split: sum.splits)
    with False del Inl pub failed show thesis by blast
  next
    case (Inr b)
    with assms False del duplicate first show thesis
      by (cases b) (simp_all add: processCapacityEvent_def mgr_cache)
  qed
qed

text \<open>One delivery: at most the event's one effect on the capacity, and nothing lost in the outbox.\<close>

lemma process_effect:
  assumes ok: "ok h" and run: "processCapacityEvent (mgr h) ev w = (r, w')"
  shows "cap h w' = cap h w \<or> ev_effect ev (cap h w) (cap h w')"
    and "rows_kept (rows h w) (rows h w')" and "has_data h w' \<subseteq> has_data h w"
proof -
  have "(cap h w' = cap h w \<or> ev_effect ev (cap h w) (cap h w')) \<and> rows_kept (rows h w) (rows h w') \<and>
    has_data h w' \<subseteq> has_data h w" using run
  proof (cases rule: process_cases)
    case cleared
    then show ?thesis using cleared_outcome(1-3)[OF ok cleared(2)] by blast
  next
    case (failed e w1 p)
    then show ?thesis
      using delete_data_frame[OF ok failed(2)] delete_data[OF ok failed(2)] retry_event(1-3)[OF ok failed(3)] by auto
  next
    case duplicate
    then show ?thesis using delete_data_frame[OF ok duplicate(2)] delete_data[OF ok duplicate(2)] by auto
  next
    case (first w1)
    then show ?thesis
      using delete_data_frame[OF ok first(2)] delete_data[OF ok first(2)] cleared_outcome(1-3)[OF ok first(3)] by auto
  qed
  then show "cap h w' = cap h w \<or> ev_effect ev (cap h w) (cap h w')" "rows_kept (rows h w) (rows h w')"
    "has_data h w' \<subseteq> has_data h w" by simp_all
qed

text \<open>Without data for its reservation an event that has not passed the cache check does nothing.\<close>

lemma process_absent:
  assumes ok: "ok h" and run: "processCapacityEvent (mgr h) ev w = (r, w')"
    and fresh: "\<not> ce_CacheCleared ev" and absent: "ev_id ev \<notin> has_data h w"
  shows "cap h w' = cap h w"
    and "r = Inr u \<Longrightarrow> rows h w' = rows h w \<or> pending_for (retry_topic (bump ev)) (retry_key (bump ev)) (rows h w')"
proof -
  have "cap h w' = cap h w \<and> (r = Inr u \<longrightarrow> rows h w' = rows h w \<or>
      pending_for (retry_topic (bump ev)) (retry_key (bump ev)) (rows h w'))"
    using run
  proof (cases rule: process_cases)
    case (failed e w1 p)
    then show ?thesis
      using delete_data_frame[OF ok failed(2)] retry_event(3,4)[OF ok failed(3)] by auto
  next
    case duplicate
    then show ?thesis using delete_data_frame[OF ok duplicate(2)] by simp
  next
    case (first w1)
    then show ?thesis using delete_absent[OF ok absent first(2)] by simp
  qed (use fresh in simp)
  then show "cap h w' = cap h w"
    "r = Inr u \<Longrightarrow> rows h w' = rows h w \<or> pending_for (retry_topic (bump ev)) (retry_key (bump ev)) (rows h w')"
    by simp_all
qed

text \<open>After a delivery that got an answer from the cache, the reservation has no data.\<close>

lemma process_consumes:
  assumes ok: "ok h" and run: "processCapacityEvent (mgr h) ev w = (r, w')"
    and fresh: "\<not> ce_CacheCleared ev" and answered: "rc_DeleteData (cache h) (ev_id ev) w = (Inr b, w1)"
  shows "ev_id ev \<notin> has_data h w'"
  using run
proof (cases rule: process_cases)
  case (first w2)
  then show ?thesis using delete_data_gone[OF ok first(2)] cleared_outcome(3)[OF ok first(3)] by auto
qed (use fresh answered delete_data_gone[OF ok answered] in auto)

text \<open>A nil result: a duplicate, work done, or work scheduled again.\<close>

lemma process_outcome:
  assumes ok: "ok h" and run: "processCapacityEvent (mgr h) ev w = (Inr u, w')"
  shows "(\<not> ce_CacheCleared ev \<and> ev_id ev \<notin> has_data h w' \<and> cap h w' = cap h w \<and> rows h w' = rows h w) \<or>
    pending_for (retry_topic (bump ev)) (retry_key (bump ev)) (rows h w') \<or>
    ev_done ev (cap h w') \<and> (ce_Action ev = CAPACITY_ACTION_CONFIRM \<longrightarrow>
      pending_for rs_ReservationConfirmedTopic (ce_ConsignmentId ev) (rows h w') \<or>
      (\<exists>w2 err. publishReservationConfirmed (mgr h) (ev\<lparr>ce_CacheCleared := True\<rparr>) w2 = (Inl err, w')))"
  using run
proof (cases rule: process_cases)
  case cleared
  from cleared(1) have "ev\<lparr>ce_CacheCleared := True\<rparr> = ev" by simp
  then show ?thesis using cleared_outcome(4)[OF ok cleared(2) refl] by simp
next
  case (failed e w1 p)
  then show ?thesis using retry_event(4)[OF ok failed(3)] by simp
next
  case duplicate
  then show ?thesis using delete_data_frame[OF ok duplicate(2)] delete_data_gone[OF ok duplicate(2)] by simp
next
  case (first w1)
  show ?thesis using cleared_outcome(4)[OF ok first(3) refl] by simp
qed

text \<open>The dead-letter handler of a confirmation, and the clean-up job.\<close>

lemma failed_outcome:
  assumes ok: "ok h" and msg: "Unmarshal (pb_Capacity (rm_codecs (mgr h))) val = Inr ev"
    and confirm: "ce_Action ev = CAPACITY_ACTION_CONFIRM"
    and run: "handleFailedCapacityEvent (mgr h) key val w = (r, w')"
  shows "cap h w' = cap h w \<or> ev_effect (failed_to_release ev) (cap h w) (cap h w')"
    and "rows_kept (rows h w) (rows h w')"
    and "r = Inr u \<Longrightarrow> pending_for rs_ConfirmationFailedTopic (ce_ConsignmentId ev) (rows h w')"
proof -
  obtain q w1 where p: "processCapacityEvent (mgr h) (failed_to_release ev) w = (q, w1)" by fastforce
  obtain q2 w2 where n: "publishConfirmationFailed (mgr h) ev w1 = (q2, w2)" by fastforce
  have w': "w' = w2" "r = Inr u \<Longrightarrow> \<exists>u. q2 = Inr u"
    using run msg confirm p n by (auto simp: handleFailedCapacityEvent_def split: sum.splits)
  have pub: "rows_kept (rows h w1) (rows h w2) \<and> cap h w2 = cap h w1 \<and>
      (\<forall>u. q2 = Inr u \<longrightarrow> pending_for rs_ConfirmationFailedTopic (ce_ConsignmentId ev) (rows h w2))"
  proof (cases "Marshal (pb_ConfirmationFailed (rm_codecs (mgr h))) (confirmation_failed_event ev)")
    case (Inl e)
    with n show ?thesis by (auto simp: publishConfirmationFailed_def)
  next
    case (Inr b)
    with n have c: "ob_CreateEvent (repo h) (outbox_event rs_ConfirmationFailedTopic (ce_ConsignmentId ev) b) w1 = (q2, w2)"
      by (simp add: publishConfirmationFailed_def mgr_outbox)
    with publish_frame[OF ok c] publish_pending[OF ok] show ?thesis by blast
  qed
  note eff = process_effect[OF ok p]
  show "cap h w' = cap h w \<or> ev_effect (failed_to_release ev) (cap h w) (cap h w')" using eff pub w' by simp
  show "rows_kept (rows h w) (rows h w')" using eff pub w' rows_kept_trans by blast
  show "pending_for rs_ConfirmationFailedTopic (ce_ConsignmentId ev) (rows h w')" if "r = Inr u"
    using w'(2)[OF that] pub w'(1) by blast
qed

lemma create_keeps_pending:
  assumes "ok h" "ob_CreateEvent (repo h) e w = (r, w')" "pending_for t k (rows h w)"
  shows "pending_for t k (rows h w')"
  using create[OF assms(1,2)] assms(3) by (auto simp: pending_for_def)

lemma expired_keeps_pending:
  assumes "ok h" "publishReservationExpired (mgr h) info w = (r, w')" "pending_for t k (rows h w)"
  shows "pending_for t k (rows h w')"
  using assms create_keeps_pending by (auto simp: publishReservationExpired_def mgr_outbox split: sum.splits)

lemma expired_pending:
  assumes "ok h" "publishReservationExpired (mgr h) info w = (Inr u, w')"
  shows "pending_for rs_ReservationExpiredTopic (uuid_String (rm_uuid (mgr h)) (info_Id info)) (rows h w')"
  using assms publish_pending by (auto simp: publishReservationExpired_def mgr_outbox split: sum.splits)

lemma publish_all_keeps:
  "ok h \<Longrightarrow> pending_for t k (rows h w) \<Longrightarrow> pending_for t k (rows h (publish_all_expired (mgr h) infos w))"
proof (induction infos arbitrary: w)
  case (Cons i infos)
  obtain r w1 where "publishReservationExpired (mgr h) i w = (r, w1)" by fastforce
  with Cons expired_keeps_pending show ?case by simp
qed simp

lemma publish_all_pending:
  assumes ok: "ok h"
  shows "(info, Inr ()) \<in> set (publish_results (mgr h) infos w) \<Longrightarrow>
    pending_for rs_ReservationExpiredTopic (uuid_String (rm_uuid (mgr h)) (info_Id info))
      (rows h (publish_all_expired (mgr h) infos w))"
proof (induction infos arbitrary: w)
  case (Cons i infos)
  obtain q w1 where p: "publishReservationExpired (mgr h) i w = (q, w1)" by fastforce
  show ?case
  proof (cases "q = Inr () \<and> i = info")
    case True
    with p expired_pending[OF ok, of info w "()" w1] publish_all_keeps[OF ok] show ?thesis by simp
  next
    case False
    with Cons.prems p have "(info, Inr ()) \<in> set (publish_results (mgr h) infos w1)" by auto
    with Cons.IH p show ?thesis by simp
  qed
qed simp

end

end
