(* ===== verification/Reservation_System.thy ===== *)
theory Reservation_System
  imports Capacity_Manager
begin

text \<open>
  The reservation manager wired the way \<open>cmd/reservation-service/main.go\<close> wires it: a Redis cache,
  a PostgreSQL outbox and a gRPC client of the vessel service, whose handlers run on MongoDB. The
  locale \<open>capacity_manager\<close> is interpreted on this system, so what it proves holds for the
  program's own definitions all the way down to the drivers.
\<close>

section \<open>The system\<close>

record 'w rs_system =
  sy_mgr :: "'w RsManager"
  sy_cache :: "'w Cache"
  sy_rv :: "'w rview"
  sy_db :: "'w PgPool"
  sy_pv :: "'w pgview"
  sy_mongo :: "'w MongoRepository"
  sy_vv :: "'w vview"
  sy_rpc :: "('w \<Rightarrow> (goerr + unit) \<times> 'w) \<Rightarrow> 'w \<Rightarrow> (goerr + unit) \<times> 'w"

text \<open>A unary gRPC call is answered, or its request is lost, or its answer is.\<close>

definition transport_ok :: "(('w \<Rightarrow> (goerr + 'a) \<times> 'w) \<Rightarrow> 'w \<Rightarrow> (goerr + 'a) \<times> 'w) \<Rightarrow> bool" where
  "transport_ok rpc \<longleftrightarrow> (\<forall>f w. rpc f w = f w \<or> (\<exists>e. rpc f w = (Inl e, w) \<or> rpc f w = (Inl e, snd (f w))))"

definition wired :: "'w rs_system \<Rightarrow> bool" where
  "wired s \<longleftrightarrow>
     rm_cache (sy_mgr s) = redis_cache (sy_cache s) \<and>
     rm_outbox (sy_mgr s) = postgres_outbox (sy_db s) \<and>
     vc_ReleaseCapacity (rm_vesselCli (sy_mgr s)) =
       (\<lambda>q. sy_rpc s (vessel_ReleaseCapacity (mongo_repository (sy_mongo s)) q)) \<and>
     vc_ConfirmCapacity (rm_vesselCli (sy_mgr s)) =
       (\<lambda>q. sy_rpc s (vessel_ConfirmCapacity (mongo_repository (sy_mongo s)) q))"

text \<open>
  The three servers do not touch each other: a Redis command leaves the outbox and the vessels
  alone, an \<open>INSERT\<close> leaves the cache and the vessels alone, a vessel call leaves the cache and
  the outbox alone; time may pass.
\<close>

definition cache_idle :: "'w rs_system \<Rightarrow> 'w \<Rightarrow> 'w \<Rightarrow> bool" where
  "cache_idle s w w' \<longleftrightarrow> rv_store (sy_rv s) w' = rv_store (sy_rv s) w \<and> rv_now (sy_rv s) w \<le> rv_now (sy_rv s) w'"

definition outbox_idle :: "'w rs_system \<Rightarrow> 'w \<Rightarrow> 'w \<Rightarrow> bool" where
  "outbox_idle s w w' \<longleftrightarrow> pv_rows (sy_pv s) w' = pv_rows (sy_pv s) w"

definition vessels_idle :: "'w rs_system \<Rightarrow> 'w \<Rightarrow> 'w \<Rightarrow> bool" where
  "vessels_idle s w w' \<longleftrightarrow> committed (sy_vv s) w' = committed (sy_vv s) w"

definition independent :: "'w rs_system \<Rightarrow> bool" where
  "independent s \<longleftrightarrow>
     (\<forall>k w r w'. rd_Del (c_client (sy_cache s)) k w = (r, w') \<longrightarrow> outbox_idle s w w' \<and> vessels_idle s w w') \<and>
     (\<forall>cur pat n w r w'. rd_Scan (c_client (sy_cache s)) cur pat n w = (r, w') \<longrightarrow> outbox_idle s w w' \<and> vessels_idle s w w') \<and>
     (\<forall>ks w r w'. rd_MGet (c_client (sy_cache s)) ks w = (r, w') \<longrightarrow> outbox_idle s w w' \<and> vessels_idle s w w') \<and>
     (\<forall>t k p tc w r w'. pg_Insert (sy_db s) t k p tc w = (r, w') \<longrightarrow> cache_idle s w w' \<and> vessels_idle s w w') \<and>
     (\<forall>q w r w'. vessel_ReleaseCapacity (mongo_repository (sy_mongo s)) q w = (r, w') \<longrightarrow> cache_idle s w w' \<and> outbox_idle s w w') \<and>
     (\<forall>q w r w'. vessel_ConfirmCapacity (mongo_repository (sy_mongo s)) q w = (r, w') \<longrightarrow> cache_idle s w w' \<and> outbox_idle s w w')"

definition sys_ok :: "'w rs_system \<Rightarrow> bool" where
  "sys_ok s \<longleftrightarrow> redis_ok (sy_cache s, sy_rv s) \<and> pg_ok (sy_db s, sy_pv s) \<and> mongo_ok (sy_mongo s, sy_vv s) \<and>
     transport_ok (sy_rpc s) \<and> retry_within 3 (rm_Retry (sy_mgr s)) \<and> wired s \<and> independent s"

text \<open>A system that is not wired this way stands for no handle of the locales.\<close>

definition sys_mgr :: "'w rs_system \<Rightarrow> 'w RsManager" where
  "sys_mgr s = (sy_mgr s)\<lparr>rm_cache := redis_cache (sy_cache s), rm_outbox := postgres_outbox (sy_db s)\<rparr>"

lemma sys_mgr_wired: "wired s \<Longrightarrow> sys_mgr s = sy_mgr s"
  by (simp add: sys_mgr_def wired_def)

lemma sys_okD:
  assumes "sys_ok s"
  shows "redis_ok (sy_cache s, sy_rv s)" "pg_ok (sy_db s, sy_pv s)" "mongo_ok (sy_mongo s, sy_vv s)"
    "transport_ok (sy_rpc s)" "retry_within 3 (rm_Retry (sy_mgr s))" "wired s" "independent s"
  using assms by (simp_all add: sys_ok_def)

lemma independentD:
  assumes "sys_ok s"
  shows "rd_Del (c_client (sy_cache s)) k w = (r1, w') \<Longrightarrow> outbox_idle s w w' \<and> vessels_idle s w w'"
    and "rd_Scan (c_client (sy_cache s)) cur pat n w = (r2, w') \<Longrightarrow> outbox_idle s w w' \<and> vessels_idle s w w'"
    and "rd_MGet (c_client (sy_cache s)) ks w = (r3, w') \<Longrightarrow> outbox_idle s w w' \<and> vessels_idle s w w'"
    and "pg_Insert (sy_db s) t key p tc w = (r4, w') \<Longrightarrow> cache_idle s w w' \<and> vessels_idle s w w'"
    and "vessel_ReleaseCapacity (mongo_repository (sy_mongo s)) q w = (r4, w') \<Longrightarrow> cache_idle s w w' \<and> outbox_idle s w w'"
    and "vessel_ConfirmCapacity (mongo_repository (sy_mongo s)) q w = (r4, w') \<Longrightarrow> cache_idle s w w' \<and> outbox_idle s w w'"
  using sys_okD(7)[OF assms] unfolding independent_def by - metis+

section \<open>The vessel service behind gRPC\<close>

text \<open>Losing requests and answers keeps an exactly-once handler exactly-once.\<close>

lemma transport_cases:
  assumes "transport_ok rpc" "rpc f w = (r, w')"
  obtains r0 where "f w = (r0, w')" "r = r0 \<or> (\<exists>e. r = Inl e)" | "w' = w" "\<exists>e. r = Inl e"
proof -
  obtain r1 w1 where f: "f w = (r1, w1)" by fastforce
  from assms(1) have "rpc f w = f w \<or> (\<exists>e. rpc f w = (Inl e, w) \<or> rpc f w = (Inl e, snd (f w)))"
    unfolding transport_ok_def by blast
  with assms(2) f that show thesis by auto
qed

interpretation rpc_release: exactly_once sys_ok
  "\<lambda>s q. sy_rpc s (vessel_ReleaseCapacity (mongo_repository (sy_mongo s)) q)" "\<lambda>s. committed (sy_vv s)"
  "\<lambda>q. call_marked (Release (MarshalCapacityRequest q))" "\<lambda>q. cap_step (Release (MarshalCapacityRequest q))"
proof unfold_locales
  fix s :: "'a rs_system" and q w r w' u
  assume "sys_ok s"
  note ok = sys_okD(3,4)[OF this]
  show "committed (sy_vv s) w' = committed (sy_vv s) w \<or>
      cap_step (Release (MarshalCapacityRequest q)) (committed (sy_vv s) w) (committed (sy_vv s) w')"
    if "sy_rpc s (vessel_ReleaseCapacity (mongo_repository (sy_mongo s)) q) w = (r, w')"
    using ok(2) that by (rule transport_cases) (use vessel_release.run_step[OF ok(1)] in auto)
  show "call_marked (Release (MarshalCapacityRequest q)) (committed (sy_vv s) w')"
    if "sy_rpc s (vessel_ReleaseCapacity (mongo_repository (sy_mongo s)) q) w = (Inr u, w')"
    using ok(2) that by (rule transport_cases) (use vessel_release.run_marked[OF ok(1)] in auto)
qed (simp_all add: cap_step_fresh cap_step_marks)

interpretation rpc_confirm: exactly_once sys_ok
  "\<lambda>s q. sy_rpc s (vessel_ConfirmCapacity (mongo_repository (sy_mongo s)) q)" "\<lambda>s. committed (sy_vv s)"
  "\<lambda>q. call_marked (Confirm (MarshalCapacityRequest q))" "\<lambda>q. cap_step (Confirm (MarshalCapacityRequest q))"
proof unfold_locales
  fix s :: "'a rs_system" and q w r w' u
  assume "sys_ok s"
  note ok = sys_okD(3,4)[OF this]
  show "committed (sy_vv s) w' = committed (sy_vv s) w \<or>
      cap_step (Confirm (MarshalCapacityRequest q)) (committed (sy_vv s) w) (committed (sy_vv s) w')"
    if "sy_rpc s (vessel_ConfirmCapacity (mongo_repository (sy_mongo s)) q) w = (r, w')"
    using ok(2) that by (rule transport_cases) (use vessel_confirm.run_step[OF ok(1)] in auto)
  show "call_marked (Confirm (MarshalCapacityRequest q)) (committed (sy_vv s) w')"
    if "sy_rpc s (vessel_ConfirmCapacity (mongo_repository (sy_mongo s)) q) w = (Inr u, w')"
    using ok(2) that by (rule transport_cases) (use vessel_confirm.run_marked[OF ok(1)] in auto)
qed (simp_all add: cap_step_fresh cap_step_marks)

text \<open>The \<open>switch\<close> with its retries, as one call.\<close>

lemma sys_vessel_call:
  assumes "wired s"
  shows "vessel_call (sys_mgr s) ev =
    (if ce_Action ev = CAPACITY_ACTION_CONFIRM then
       rm_Retry (sy_mgr s) (sy_rpc s (vessel_ConfirmCapacity (mongo_repository (sy_mongo s)) (capacity_request ev)))
     else if ce_Action ev = CAPACITY_ACTION_RELEASE then
       rm_Retry (sy_mgr s) (sy_rpc s (vessel_ReleaseCapacity (mongo_repository (sy_mongo s)) (capacity_request ev)))
     else (\<lambda>w. (Inr (), w)))"
proof -
  from assms have "vc_ReleaseCapacity (rm_vesselCli (sy_mgr s)) = (\<lambda>q. sy_rpc s (vessel_ReleaseCapacity (mongo_repository (sy_mongo s)) q))"
    "vc_ConfirmCapacity (rm_vesselCli (sy_mgr s)) = (\<lambda>q. sy_rpc s (vessel_ConfirmCapacity (mongo_repository (sy_mongo s)) q))"
    unfolding wired_def by blast+
  then show ?thesis by (intro ext) (simp add: vessel_call_def sys_mgr_wired[OF assms])
qed

lemma sys_call_effect:
  assumes ok: "sys_ok s" and run: "vessel_call (sys_mgr s) ev w = (r, w')"
  shows "committed (sy_vv s) w' = committed (sy_vv s) w \<or> ev_effect ev (committed (sy_vv s) w) (committed (sy_vv s) w')"
    and "r = Inr u \<Longrightarrow> ev_done ev (committed (sy_vv s) w')"
  using run rpc_confirm.retry_at_most_once[OF ok sys_okD(5)[OF ok]] rpc_release.retry_at_most_once[OF ok sys_okD(5)[OF ok]]
    rpc_confirm.retry_marked[OF ok sys_okD(5)[OF ok]] rpc_release.retry_marked[OF ok sys_okD(5)[OF ok]]
  by (auto simp: sys_vessel_call[OF sys_okD(6)[OF ok]] ev_effect_def ev_done_def ev_call_def split: if_splits)

text \<open>Relations kept by every call survive the transport and the retries.\<close>

lemma transport_keeps:
  assumes "transport_ok rpc" and keep: "\<And>w r w'. f w = (r, w') \<Longrightarrow> P w w'" and refl: "\<And>w. P w w"
  shows "rpc f w = (r, w') \<Longrightarrow> P w w'"
  by (rule transport_cases[OF assms(1)]) (auto simp: refl dest: keep)

lemma retry_keeps:
  assumes "retry_within n retry" and keep: "\<And>w r w'. f w = (r, w') \<Longrightarrow> P w w'"
    and trans: "\<And>x y z. P x y \<Longrightarrow> P y z \<Longrightarrow> P x z" and run: "retry f w = (r, w')"
  shows "P w w'"
proof -
  from assms(1) obtain k where "retry f w = attempts k f w" by (rule retry_withinE)
  with run have "attempts k f w = (r, w')" by simp
  then have "True \<and> P w w'"
    by (rule attempts_relation[where I = "\<lambda>_. True" and P = P and f = f, rotated 3]) (use keep trans in blast)+
  then show ?thesis by simp
qed

definition both_idle :: "'w rs_system \<Rightarrow> 'w \<Rightarrow> 'w \<Rightarrow> bool" where
  "both_idle s w w' \<longleftrightarrow> cache_idle s w w' \<and> outbox_idle s w w'"

lemma both_idle_refl: "both_idle s w w"
  by (simp add: both_idle_def cache_idle_def outbox_idle_def)

lemma both_idle_trans: "both_idle s x y \<Longrightarrow> both_idle s y z \<Longrightarrow> both_idle s x z"
  by (auto simp: both_idle_def cache_idle_def outbox_idle_def)

lemma sys_call_idle:
  assumes ok: "sys_ok s" and run: "vessel_call (sys_mgr s) ev w = (r, w')"
  shows "both_idle s w w'"
proof -
  have rel: "both_idle s w w'" if "vessel_ReleaseCapacity (mongo_repository (sy_mongo s)) q w = (r, w')" for q w r w'
    using independentD(5)[OF ok that] unfolding both_idle_def by simp
  have con: "both_idle s w w'" if "vessel_ConfirmCapacity (mongo_repository (sy_mongo s)) q w = (r, w')" for q w r w'
    using independentD(6)[OF ok that] unfolding both_idle_def by simp
  note tr = transport_keeps[OF sys_okD(4)[OF ok], where P = "both_idle s", OF _ both_idle_refl]
  show ?thesis
    using run retry_keeps[OF sys_okD(5)[OF ok] tr[OF con] both_idle_trans]
      retry_keeps[OF sys_okD(5)[OF ok] tr[OF rel] both_idle_trans]
    by (auto simp: sys_vessel_call[OF sys_okD(6)[OF ok]] both_idle_refl split: if_splits)
qed

lemma idle_data: "cache_idle s w w' \<Longrightarrow> cache_data (sy_cache s, sy_rv s) w' \<subseteq> cache_data (sy_cache s, sy_rv s) w"
  by (rule cache_data_mono) (simp_all add: cache_idle_def)

lemma idle_rows: "outbox_idle s w w' \<Longrightarrow> pg_rows (sy_db s, sy_pv s) w' = pg_rows (sy_db s, sy_pv s) w"
  by (simp add: outbox_idle_def pg_rows_def)

text \<open>The scans of \<open>GetExpired\<close> are made of \<open>SCAN\<close> and \<open>MGET\<close> commands.\<close>

lemma scan_keys_keeps:
  assumes keep: "\<And>cur pat n w r w'. rd_Scan c cur pat n w = (r, w') \<Longrightarrow> P w w'"
    and trans: "\<And>x y z. P x y \<Longrightarrow> P y z \<Longrightarrow> P x z"
    and run: "scan_keys c pat cur ks w = Some rw"
  shows "P w (snd rw)"
proof -
  have "c = c \<longrightarrow> P w (snd rw)"
  proof (rule scan_keys.raw_induct[where P = "\<lambda>r _ _ _ w rw. r = c \<longrightarrow> P w (snd rw)", OF _ run], rule impI)
    fix f :: "'a RedisClient \<Rightarrow> string \<Rightarrow> 64 word \<Rightarrow> string list \<Rightarrow> 'a \<Rightarrow> ((goerr + string list) \<times> 'a) option"
      and r pat cur ks w rw
    assume IH: "\<And>r pat cur ks w rw. f r pat cur ks w = Some rw \<Longrightarrow> r = c \<longrightarrow> P w (snd rw)"
      and body: "(case rd_Scan r cur pat 100 w of (Inl err, w1) \<Rightarrow> Some (Inl err, w1)
          | (Inr (batch, cur'), w1) \<Rightarrow>
            if cur' = 0 then Some (Inr (ks @ batch), w1) else f r pat cur' (ks @ batch) w1) = Some rw"
      and r: "r = c"
    obtain q w1 where scan: "rd_Scan c cur pat 100 w = (q, w1)" by fastforce
    note first = keep[OF scan]
    show "P w (snd rw)"
    proof (cases "\<exists>b cur'. q = Inr (b, cur') \<and> cur' \<noteq> 0")
      case True
      then obtain b cur' where q: "q = Inr (b, cur')" "cur' \<noteq> 0" by blast
      with body scan r have "f c pat cur' (ks @ b) w1 = Some rw" by simp
      with IH first trans show ?thesis by blast
    next
      case False
      with body scan r have "snd rw = w1" by (auto split: sum.splits if_splits)
      with first show ?thesis by simp
    qed
  qed
  then show ?thesis by simp
qed

lemma sys_expired_idle:
  assumes ok: "sys_ok s" and run: "cache_GetExpired (sy_cache s) w = Some (r, w')"
  shows "outbox_idle s w w' \<and> vessels_idle s w w'"
proof -
  let ?P = "\<lambda>w w'. outbox_idle s w w' \<and> vessels_idle s w w'"
  have tr: "?P x y \<Longrightarrow> ?P y z \<Longrightarrow> ?P x z" for x y z by (auto simp: outbox_idle_def vessels_idle_def)
  have sc: "?P w w'" if "rd_Scan (c_client (sy_cache s)) cur pat n w = (r, w')" for cur pat n w r w' using independentD(2)[OF ok that] .
  have mg: "?P w w'" if "rd_MGet (c_client (sy_cache s)) ks w = (r, w')" for ks w r w' using independentD(3)[OF ok that] .
  have sk: "?P w (snd rw)" if "scan_keys (c_client (sy_cache s)) pat cur ks w = Some rw" for pat cur ks w rw
    by (rule scan_keys_keeps[where P = ?P, OF sc tr that])
  obtain r1 w1 where 1: "scan_keys (c_client (sy_cache s)) ''reservation:*'' 0 [] w = Some (r1, w1)"
    using run by (auto simp: cache_GetExpired_def split: option.splits)
  with sk[OF 1] have p1: "?P w w1" by simp
  show ?thesis
  proof (cases r1)
    case (Inl e)
    with run 1 p1 show ?thesis by (simp add: cache_GetExpired_def)
  next
    case (Inr ids)
    with run 1 obtain r2 w2 where 2: "scan_keys (c_client (sy_cache s)) ''reservation_data:*'' 0 [] w1 = Some (r2, w2)"
      by (auto simp: cache_GetExpired_def split: option.splits)
    from tr[OF p1 sk[OF 2]] have p2: "?P w w2" by simp
    obtain q w3 where 3: "rd_MGet (c_client (sy_cache s)) (projr r2) w2 = (q, w3)" by fastforce
    have p3: "?P w w3" using tr[OF p2 mg[OF 3]] .
    show ?thesis using run 1 Inr 2 3 p2 p3
      by (cases r2; cases q) (auto simp: cache_GetExpired_def split: if_splits)
  qed
qed

section \<open>The contracts on the system\<close>

interpretation rs: capacity_manager sys_ok "\<lambda>s. redis_cache (sy_cache s)" "\<lambda>s. cache_data (sy_cache s, sy_rv s)"
  "\<lambda>s. postgres_outbox (sy_db s)" "\<lambda>s. pg_rows (sy_db s, sy_pv s)" sys_mgr "\<lambda>s. committed (sy_vv s)"
proof unfold_locales
  fix s :: "'a rs_system" and i w w' info b e u r j l es ev
    and r0 :: "goerr + unit" and r1 :: "goerr + bool" and r2 :: "goerr + ReservationInfo list"
    and r3 :: "goerr + ReservationInfo" and r4 :: "goerr + OutboxEvent list"
  assume ok: "sys_ok s"
  note R = sys_okD(1)[OF ok] and D = sys_okD(2)[OF ok]
  let ?data = "cache_data (sy_cache s, sy_rv s)" and ?rows = "pg_rows (sy_db s, sy_pv s)" and ?cap = "committed (sy_vv s)"
  show "rc_Store (redis_cache (sy_cache s)) i info w = (r0, w') \<Longrightarrow> ?data w' \<subseteq> insert i (?data w)"
    using redis.store_data[OF R] by simp
  show "rc_GetData (redis_cache (sy_cache s)) i w = (r3, w') \<Longrightarrow> ?data w' \<subseteq> ?data w"
    using redis.get_data[OF R] by simp
  show "rc_GetData (redis_cache (sy_cache s)) i w = (Inr info, w') \<Longrightarrow> i \<in> ?data w"
    using redis.get_data_some[OF R] by simp
  show "rc_GetExpired (redis_cache (sy_cache s)) w = Some (r2, w') \<Longrightarrow> ?data w' \<subseteq> ?data w"
    using redis.get_expired[OF R] by simp
  show "rc_DeleteData (redis_cache (sy_cache s)) i w = (r1, w') \<Longrightarrow> ?data w' \<subseteq> ?data w"
    using redis.delete_data[OF R] by simp
  show "rc_DeleteData (redis_cache (sy_cache s)) i w = (Inr b, w') \<Longrightarrow> i \<notin> ?data w'"
    using redis.delete_data_gone[OF R] by simp
  show "rc_DeleteData (redis_cache (sy_cache s)) i w = (Inr True, w') \<Longrightarrow> i \<in> ?data w"
    using redis.delete_data_true[OF R] by simp
  show "rc_DeleteID (redis_cache (sy_cache s)) i w = (r1, w') \<Longrightarrow> ?data w' \<subseteq> ?data w"
    using redis.delete_id[OF R] by simp
  show "rc_Refresh (redis_cache (sy_cache s)) i w = (r1, w') \<Longrightarrow> ?data w' \<subseteq> ?data w"
    using redis.refresh[OF R] by simp
  show "ob_CreateEvent (postgres_outbox (sy_db s)) e w = (r0, w') \<Longrightarrow>
      ?rows w' = ?rows w \<or> (\<exists>i. i \<notin> row_id ` set (?rows w) \<and> ?rows w' = ?rows w @ [new_row i e])"
    using pg.create[OF D] by simp
  show "ob_CreateEvent (postgres_outbox (sy_db s)) e w = (Inr u, w') \<Longrightarrow> pending_for (oe_Topic e) (oe_Key e) (?rows w')"
    using pg.create_pending[OF D] by simp
  show "ob_MarkPublished (postgres_outbox (sy_db s)) j w = (r0, w') \<Longrightarrow>
      ?rows w' = ?rows w \<or> ?rows w' = map (mark_row j) (?rows w)"
    using pg.mark[OF D] by simp
  show "ob_MarkPublished (postgres_outbox (sy_db s)) j w = (Inr u, w') \<Longrightarrow> ?rows w' = map (mark_row j) (?rows w)"
    using pg.mark_done[OF D] by simp
  show "ob_GetPendingEvents (postgres_outbox (sy_db s)) l w = (r4, w') \<Longrightarrow> ?rows w' = ?rows w"
    using pg.pending_rows[OF D] by simp
  show "ob_GetPendingEvents (postgres_outbox (sy_db s)) l w = (Inr es, w') \<Longrightarrow> e \<in> set es \<Longrightarrow> event_row e \<in> set (?rows w)"
    using pg.pending_events[OF D] by simp
  show "vessel_call (sys_mgr s) ev w = (r0, w') \<Longrightarrow> ?cap w' = ?cap w \<or> ev_effect ev (?cap w) (?cap w')"
    by (rule sys_call_effect(1)[OF ok])
  show "vessel_call (sys_mgr s) ev w = (Inr u, w') \<Longrightarrow> ev_done ev (?cap w')"
    by (rule sys_call_effect(2)[OF ok _ refl])
  show "vessel_call (sys_mgr s) ev w = (r0, w') \<Longrightarrow> ?rows w' = ?rows w \<and> ?data w' \<subseteq> ?data w"
    using sys_call_idle[OF ok, of ev w r0 w'] idle_data[of s w w'] idle_rows[of s w w'] by (simp add: both_idle_def)
  have del: "?rows w' = ?rows w \<and> ?cap w' = ?cap w" if "rd_Del (c_client (sy_cache s)) k w = (r, w')" for k w r w'
    using independentD(1)[OF ok that] idle_rows[of s w w'] by (simp add: vessels_idle_def)
  show "rc_DeleteData (redis_cache (sy_cache s)) i w = (r1, w') \<Longrightarrow> ?rows w' = ?rows w \<and> ?cap w' = ?cap w"
    by (auto simp: redis_cache_def cache_DeleteData_def split: prod.splits sum.splits dest: del)
  show "rc_DeleteID (redis_cache (sy_cache s)) i w = (r1, w') \<Longrightarrow> ?rows w' = ?rows w \<and> ?cap w' = ?cap w"
    by (auto simp: redis_cache_def cache_DeleteID_def split: prod.splits sum.splits dest: del)
  show "rc_GetExpired (redis_cache (sy_cache s)) w = Some (r2, w') \<Longrightarrow> ?rows w' = ?rows w \<and> ?cap w' = ?cap w"
    using sys_expired_idle[OF ok, of w r2 w'] idle_rows[of s w w'] by (simp add: redis_cache_def vessels_idle_def)
  have ins: "?data w' \<subseteq> ?data w \<and> ?cap w' = ?cap w" if "pg_Insert (sy_db s) t k p tc w = (r, w')" for t k p tc w r w'
    using independentD(4)[OF ok that] idle_data[of s w w'] by (simp add: vessels_idle_def)
  show "ob_CreateEvent (postgres_outbox (sy_db s)) e w = (r0, w') \<Longrightarrow> ?data w' \<subseteq> ?data w \<and> ?cap w' = ?cap w"
    by (auto simp: postgres_outbox_def db_CreateEvent_def split: prod.splits sum.splits if_splits dest: ins)
qed (simp_all add: sys_mgr_def)

end
