(* ===== verification/Reservation_Memory.thy ===== *)
theory Reservation_Memory
  imports Reservation_System Vessel_Memory
begin

text \<open>
  An in-memory system on which the witnesses run the reservation service: a key-value store with
  deadlines, an outbox table, the vessel database of \<open>Vessel_Memory\<close>, and switches for failures
  (a deletion whose answer is lost, an outbox that is down, a vessel service that is down). It
  satisfies every law the properties assume.
\<close>

record rmem =
  rx_redis :: "(string \<times> bytes \<times> time) list"
  rx_now :: time
  rx_rows :: "pg_row list"
  rx_tx :: "pg_row list"
  rx_mongo :: memdb
  rx_sent :: "(string \<times> string \<times> bytes) list"
  rx_del_lost :: bool
  rx_outbox_down :: bool
  rx_vessel_down :: bool

section \<open>Redis\<close>

definition mx_del :: "string \<Rightarrow> rmem \<Rightarrow> rmem" where
  "mx_del k w = w\<lparr>rx_redis := filter (\<lambda>e. fst e \<noteq> k) (rx_redis w)\<rparr>"

definition mx_live :: "rmem \<Rightarrow> string \<Rightarrow> bytes option" where
  "mx_live w = live_at (rx_now w) (map_of (rx_redis w))"

text \<open>\<open>SCAN\<close> delivers the matching keys in two calls, so every loop over it takes two rounds.\<close>

definition mx_keys :: "string \<Rightarrow> rmem \<Rightarrow> string list" where
  "mx_keys pat w = filter (\<lambda>k. glob pat k \<and> mx_live w k \<noteq> None) (map fst (rx_redis w))"

definition mem_redis :: "rmem RedisClient" where
  "mem_redis = \<lparr>
     rd_Set = \<lambda>k val ttl w. (Inr (), w\<lparr>rx_redis := (k, val, rx_now w + ttl) # rx_redis w\<rparr>),
     rd_Get = \<lambda>k w. (case mx_live w k of None \<Rightarrow> Inl (ErrNew ''redis: nil'') | Some val \<Rightarrow> Inr val, w),
     rd_Scan = \<lambda>cur pat n w.
       (Inr (if cur = 0 then (take 1 (mx_keys pat w), 1) else (drop 1 (mx_keys pat w), 0)), w),
     rd_MGet = \<lambda>ks w. (Inr (map (mx_live w) ks), w),
     rd_Expire = \<lambda>k ttl w. (case mx_live w k of None \<Rightarrow> (Inr False, w)
       | Some val \<Rightarrow> (Inr True, w\<lparr>rx_redis := (k, val, rx_now w + ttl) # rx_redis w\<rparr>)),
     rd_Del = \<lambda>k w.
       if rx_del_lost w then (Inl (ErrNew ''timeout''), (mx_del k w)\<lparr>rx_del_lost := False\<rparr>)
       else (Inr (if mx_live w k = None then 0 else 1), mx_del k w),
     rd_Nil = ErrNew ''redis: nil''\<rparr>"

definition mem_rv :: "rmem rview" where
  "mem_rv = \<lparr>rv_store = \<lambda>w. map_of (rx_redis w), rv_now = rx_now\<rparr>"

text \<open>Codecs that know finitely many messages, and a decimal rendering of UUIDs.\<close>

definition table_codec :: "(bytes \<times> 'm) list \<Rightarrow> 'm codec" where
  "table_codec t = \<lparr>
     Marshal = \<lambda>m. case find (\<lambda>e. snd e = m) t of None \<Rightarrow> Inl (ErrNew ''marshal'') | Some e \<Rightarrow> Inr (fst e),
     Unmarshal = \<lambda>b. case map_of t b of None \<Rightarrow> Inl (ErrNew ''unmarshal'') | Some m \<Rightarrow> Inr m\<rparr>"

lemma table_codec_ok:
  assumes "distinct (map fst t)"
  shows "codec_ok (table_codec t)"
  unfolding codec_ok_def
proof (intro allI impI)
  fix m b assume "Marshal (table_codec t) m = Inr b"
  then obtain e where e: "find (\<lambda>e. snd e = m) t = Some e" "b = fst e"
    by (auto simp: table_codec_def split: option.splits)
  then have "e \<in> set t" "snd e = m" by (auto simp: find_Some_iff)
  with assms e(2) have "map_of t b = Some m" by (auto intro: map_of_is_SomeI)
  then show "Unmarshal (table_codec t) b = Inr m" by (simp add: table_codec_def)
qed

definition mem_uuid :: uuid_lib where
  "mem_uuid = \<lparr>uuid_String = \<lambda>u. nat_digits (unat u),
     uuid_Parse = \<lambda>s. if s = nat_digits (parse_digits s) then Inr (of_nat (parse_digits s)) else Inl (ErrNew ''invalid UUID'')\<rparr>"

lemma mem_uuid_ok: "uuid_ok mem_uuid"
  by (simp add: uuid_ok_def mem_uuid_def parse_nat_digits)

definition sample_info :: ReservationInfo where
  "sample_info = \<lparr>info_Id = 1, info_VesselID = 2, info_ConsignmentID = 3, info_NumberOfContainers = 4, info_Weight = 60\<rparr>"

definition mem_cache :: "rmem Cache" where
  "mem_cache = \<lparr>c_client = mem_redis, c_reservationTTL = 600, c_reservationDataTTL = 1800,
     c_json = table_codec [(''info'', sample_info)], c_uuid = mem_uuid\<rparr>"

lemma live_nonempty:
  assumes "live_at t (map_of kvs) k = Some val"
  shows "k \<in> fst ` set kvs"
proof (cases "map_of kvs k")
  case None
  with assms show ?thesis by (simp add: live_at_def)
next
  case (Some a)
  from map_of_SomeD[OF this] show ?thesis by force
qed

lemma map_of_filter_del: "map_of (filter (\<lambda>e. fst e \<noteq> k) kvs) = (map_of kvs)(k := None)"
  by (induction kvs) auto

lemma mem_scan_call:
  "rd_Scan mem_redis cur pat n w =
    (Inr (if cur = 0 then (take 1 (mx_keys pat w), 1) else (drop 1 (mx_keys pat w), 0)), w)"
  by (simp add: mem_redis_def)

lemma set_mx_keys: "k \<in> set (mx_keys pat w) \<longleftrightarrow> glob pat k \<and> live_at (rx_now w) (map_of (rx_redis w)) k \<noteq> None"
  by (auto simp: mx_keys_def mx_live_def dest: live_nonempty)

lemma mem_chain:
  "scan_chain mem_redis pat count w ks cur n w' \<Longrightarrow> w' = w \<and>
    (n = 1 \<and> cur = 1 \<and> ks = take 1 (mx_keys pat w) \<or> n = 2 \<and> cur = 0 \<and> ks = mx_keys pat w)"
proof (induction rule: scan_chain.induct)
  case (chain_next ks cursor n w1 batch cursor' w2)
  then show ?case by (auto simp: mem_scan_call)
qed (simp add: mem_scan_call)

lemma mem_scan_ok: "redis_scan_ok (mem_redis, mem_rv)"
proof -
  have call: "rv_store mem_rv w' = rv_store mem_rv w \<and> (\<exists>t. rv_now mem_rv w \<le> t \<and> t \<le> rv_now mem_rv w' \<and>
      (\<forall>batch cur' k. r = Inr (batch, cur') \<longrightarrow> k \<in> set batch \<longrightarrow> glob pat k \<and> live_at t (rv_store mem_rv w) k \<noteq> None))"
    if "rd_Scan mem_redis cur pat count w = (r, w')" for cur pat count w r w'
  proof -
    from that have r: "r = Inr (if cur = 0 then (take 1 (mx_keys pat w), 1) else (drop 1 (mx_keys pat w), 0))" "w' = w"
      by (simp_all add: mem_scan_call)
    have "k \<in> set (mx_keys pat w)" if "r = Inr (batch, cur')" "k \<in> set batch" for batch cur' k
      using that r(1) by (auto split: if_splits dest: in_set_takeD in_set_dropD)
    then show ?thesis by (intro conjI exI[of _ "rx_now w"]) (simp_all add: r(2) mem_rv_def set_mx_keys)
  qed
  have ends: "n \<le> 2" if "scan_chain mem_redis pat count w ks cursor n w'" for pat count w ks cursor n w'
    using mem_chain[OF that] by auto
  have complete: "k \<in> set ks" if "scan_chain mem_redis pat count w ks 0 n w'" "glob pat k"
    "live_at (rv_now mem_rv w') (rv_store mem_rv w) k \<noteq> None" for pat count w ks n w' k
    using mem_chain[OF that(1)] that(2,3) by (simp add: mem_rv_def set_mx_keys)
  show ?thesis
    unfolding redis_scan_ok_def fst_conv snd_conv
    by (rule conjI[OF _ conjI]; intro allI impI, rule call exI[of _ 2] complete; (intro allI impI, rule ends)?; assumption)
qed

lemma mem_redis_ok: "redis_ok (mem_cache, mem_rv)"
proof -
  have "redis_set_ok (mem_redis, mem_rv)" "redis_get_ok (mem_redis, mem_rv)" "redis_mget_ok (mem_redis, mem_rv)"
    "redis_expire_ok (mem_redis, mem_rv)" "redis_del_ok (mem_redis, mem_rv)"
    by (auto simp: redis_set_ok_def redis_get_ok_def redis_mget_ok_def redis_expire_ok_def redis_del_ok_def
        mem_redis_def mem_rv_def mx_live_def mx_del_def map_of_filter_del fun_eq_iff split: option.splits if_splits)
  then show ?thesis
    by (simp add: redis_ok_def mem_cache_def mem_scan_ok table_codec_ok mem_uuid_ok)
qed

section \<open>PostgreSQL\<close>

text \<open>A table whose identifiers are not distinct is seen as empty, and refuses every statement.\<close>

definition mx_valid :: "rmem \<Rightarrow> bool" where
  "mx_valid w \<longleftrightarrow> distinct (map pgr_id (rx_rows w))"

definition mem_pv :: "rmem pgview" where
  "mem_pv = \<lparr>pv_rows = \<lambda>w. if mx_valid w then rx_rows w else [], pv_tx = rx_tx, pv_now = rx_now\<rparr>"

definition mx_row :: "string \<Rightarrow> string \<Rightarrow> bytes \<Rightarrow> (string \<times> string) list \<Rightarrow> rmem \<Rightarrow> pg_row" where
  "mx_row t k p tc w = \<lparr>pgr_id = of_nat (length (rx_rows w)), pgr_topic = t, pgr_key = k, pgr_payload = p,
     pgr_trace = tc, pgr_created = rx_now w, pgr_published = None, pgr_until = None\<rparr>"

definition mem_pg :: "rmem PgPool" where
  "mem_pg = \<lparr>
     pg_Insert = \<lambda>t k p tc w.
       if rx_outbox_down w \<or> \<not> mx_valid w \<or> of_nat (length (rx_rows w)) \<in> pgr_id ` set (rx_rows w)
       then (Inl (ErrNew ''down''), w)
       else if pg_pending t k (rx_rows w) then (Inl (ErrNew ''duplicate key''), w)
       else (Inr (), w\<lparr>rx_rows := rx_rows w @ [mx_row t k p tc w]\<rparr>),
     pg_Update = \<lambda>p f w.
       let rows = where_set (p (rx_now w)) f (rx_rows w) in
       if mx_valid w \<and> distinct (map pgr_id rows)
       then (Inr (length (filter (p (rx_now w)) (rx_rows w))), w\<lparr>rx_rows := rows\<rparr>)
       else (Inl (ErrNew ''down''), w),
     pg_Begin = \<lambda>w. (Inr (), w\<lparr>rx_tx := pv_rows mem_pv w\<rparr>),
     pg_Query = \<lambda>p key w. (Inr (map Inr (filter (p (rx_now w)) (rx_tx w))), w),
     pg_TxUpdate = \<lambda>p f w. (Inr (length (filter (p (rx_now w)) (rx_tx w))),
        w\<lparr>rx_tx := where_set (p (rx_now w)) f (rx_tx w)\<rparr>),
     pg_Commit = \<lambda>w. if mx_valid w \<and> distinct (map pgr_id (rx_tx w)) then (Inr (), w\<lparr>rx_rows := rx_tx w\<rparr>)
        else (Inl (ErrNew ''down''), w),
     pg_Rollback = \<lambda>w. w,
     pg_Now = rx_now,
     pg_Inject = \<lambda>w. [],
     pg_Code = \<lambda>e. if e = ErrNew ''duplicate key'' then Some ''23505'' else None\<rparr>"

lemma mem_pg_ok: "pg_ok (mem_pg, mem_pv)"
proof -
  have "pg_insert_ok (mem_pg, mem_pv)"
    by (auto simp: pg_insert_ok_def mem_pg_def mem_pv_def mx_valid_def inserted_def mx_row_def image_iff)
  moreover have "pg_update_ok (mem_pg, mem_pv)"
    by (auto simp: pg_update_ok_def mem_pg_def mem_pv_def mx_valid_def Let_def split: if_splits)
  moreover have "pg_begin_ok (mem_pg, mem_pv)" "pg_query_ok (mem_pg, mem_pv)" "pg_txupdate_ok (mem_pg, mem_pv)"
    "pg_rollback_ok (mem_pg, mem_pv)"
    by (auto simp: pg_begin_ok_def pg_query_ok_def pg_txupdate_ok_def pg_rollback_ok_def mem_pg_def mem_pv_def mx_valid_def)
  moreover have "pg_commit_ok (mem_pg, mem_pv)"
    by (auto simp: pg_commit_ok_def mem_pg_def mem_pv_def mx_valid_def)
  moreover have "distinct (map pgr_id (pv_rows mem_pv w))" for w
    by (simp add: mem_pv_def mx_valid_def)
  ultimately show ?thesis by (simp add: pg_ok_def)
qed

section \<open>The vessel service\<close>

definition in_mongo :: "(memdb \<Rightarrow> 'a \<times> memdb) \<Rightarrow> rmem \<Rightarrow> 'a \<times> rmem" where
  "in_mongo f w = (case f (rx_mongo w) of (r, m) \<Rightarrow> (r, w\<lparr>rx_mongo := m\<rparr>))"

definition sys_mongo :: "rmem MongoRepository" where
  "sys_mongo = \<lparr>
     StartSession = in_mongo (StartSession mem_mongo),
     EndSession = (\<lambda>w. w\<lparr>rx_mongo := EndSession mem_mongo (rx_mongo w)\<rparr>),
     StartTransaction = in_mongo (StartTransaction mem_mongo),
     AbortTransaction = (\<lambda>w. w\<lparr>rx_mongo := AbortTransaction mem_mongo (rx_mongo w)\<rparr>),
     CommitTransaction = in_mongo (CommitTransaction mem_mongo),
     FindOneAndUpdate = (\<lambda>f u. in_mongo (FindOneAndUpdate mem_mongo f u)),
     UpdateOne = (\<lambda>f u. in_mongo (UpdateOne mem_mongo f u)),
     InsertOp = (\<lambda>p. in_mongo (InsertOp mem_mongo p)),
     FindOp = (\<lambda>f. in_mongo (FindOp mem_mongo f)),
     FindVessel = (\<lambda>f. in_mongo (FindVessel mem_mongo f)),
     InsertVessel = (\<lambda>v. in_mongo (InsertVessel mem_mongo v)),
     IsDuplicateKeyError = IsDuplicateKeyError mem_mongo,
     ErrNoDocuments = ErrNoDocuments mem_mongo,
     Now = (\<lambda>w. Now mem_mongo (rx_mongo w))\<rparr>"

definition sys_vv :: "rmem vview" where
  "sys_vv = \<lparr>committed = (\<lambda>w. m_db (rx_mongo w)), in_tx = (\<lambda>w. m_tx (rx_mongo w))\<rparr>"

lemma sys_mongo_ok: "mongo_ok (sys_mongo, sys_vv)"
proof -
  have "tx_ok sys_mongo sys_vv"
    by (auto simp: tx_ok_def sys_mongo_def sys_vv_def in_mongo_def mem_mongo_def)
  moreover have "update_ok sys_mongo sys_vv"
    unfolding update_ok_def sys_mongo_def sys_vv_def in_mongo_def mem_defs
    by (auto simp: first_index_None dest: first_index_Some split: option.splits)
  moreover have "index_ok sys_mongo sys_vv"
    unfolding index_ok_def sys_mongo_def sys_vv_def in_mongo_def mem_defs
    by (auto dest: first_index_Some split: option.splits if_splits)
  ultimately show ?thesis by (simp add: mongo_ok_def)
qed

text \<open>Calls of the vessel handlers change the vessel database only.\<close>

definition only_mongo :: "rmem \<Rightarrow> rmem \<Rightarrow> bool" where
  "only_mongo w w' \<longleftrightarrow> (\<exists>m. w' = w\<lparr>rx_mongo := m\<rparr>)"

lemma only_mongo_refl: "only_mongo w w"
  unfolding only_mongo_def by (rule exI[of _ "rx_mongo w"]) simp

lemma only_mongo_put: "only_mongo w w1 \<Longrightarrow> only_mongo w (w1\<lparr>rx_mongo := m\<rparr>)"
  by (auto simp: only_mongo_def)

lemma in_mongo_only: "in_mongo f w1 = (r, w2) \<Longrightarrow> only_mongo w w1 \<Longrightarrow> only_mongo w w2"
  by (auto simp: in_mongo_def only_mongo_put split: prod.splits)

lemma release_body_only: "release_body sys_mongo req w1 = (r, w2) \<Longrightarrow> only_mongo w w1 \<Longrightarrow> only_mongo w w2"
  unfolding release_body_def sys_mongo_def
  by (auto simp: Let_def split: prod.splits sum.splits if_splits) (blast intro: only_mongo_put in_mongo_only)+

lemma confirm_body_only: "confirm_body sys_mongo req w1 = (r, w2) \<Longrightarrow> only_mongo w w1 \<Longrightarrow> only_mongo w w2"
  unfolding confirm_body_def sys_mongo_def
  by (auto simp: Let_def split: prod.splits sum.splits if_splits) (blast intro: only_mongo_put in_mongo_only)+

lemma sys_start_session: "StartSession sys_mongo w = (Inr (), w)" "EndSession sys_mongo w = w"
  by (simp_all add: sys_mongo_def in_mongo_def mem_mongo_def)

lemma handlers_only_mongo:
  "vessel_ReleaseCapacity (mongo_repository sys_mongo) q w = (r, w') \<Longrightarrow> only_mongo w w'"
  "vessel_ConfirmCapacity (mongo_repository sys_mongo) q w = (r, w') \<Longrightarrow> only_mongo w w'"
  by (auto simp: vessel_ReleaseCapacity_def vessel_ConfirmCapacity_def mongo_repository_def repo_ReleaseCapacity_def
      repo_ConfirmCapacity_def sys_start_session split: prod.splits sum.splits
      dest: release_body_only confirm_body_only intro: only_mongo_refl)

section \<open>The whole system\<close>

text \<open>Events of the sample reservation, and codecs that know them.\<close>

definition sample_event :: CapacityEvent where
  "sample_event = \<lparr>ce_Action = CAPACITY_ACTION_CONFIRM,
     ce_ReservationInfo = Some \<lparr>evi_Id = ''1'', evi_VesselId = ''v1'', evi_ConsignmentId = '''', evi_NumberOfContainers = 4, evi_Weight = 60\<rparr>,
     ce_CacheCleared = False, ce_RetryCount = 0, ce_ConsignmentId = ''c1'', ce_PaymentId = ''p1'', ce_SagaStartedAt = None\<rparr>"

definition sample_release :: CapacityEvent where
  "sample_release = sample_event\<lparr>ce_Action := CAPACITY_ACTION_RELEASE\<rparr>"

definition mem_codecs :: event_codecs where
  "mem_codecs = \<lparr>
     pb_PaymentAuthorised = table_codec [],
     pb_PaymentCaptured = table_codec [],
     pb_ReservationConfirmed = table_codec [(''confirmed'', confirmed_event sample_event)],
     pb_ReservationExpired = table_codec [(''expired'',
       \<lparr>ree_ReservationId = ''1'', ree_VesselId = ''2'', ree_ConsignmentId = ''3'', ree_Weight = 60, ree_Containers = 4\<rparr>)],
     pb_ConfirmationFailed = table_codec [(''failed'', confirmation_failed_event sample_event)],
     pb_Capacity = table_codec [
       (''retry'', bump sample_event), (''retry cleared'', bump (sample_event\<lparr>ce_CacheCleared := True\<rparr>)),
       (''dead'', sample_event\<lparr>ce_CacheCleared := True, ce_RetryCount := 3\<rparr>),
       (''release'', bump (sample_release\<lparr>ce_CacheCleared := True\<rparr>))]\<rparr>"

definition mem_rpc :: "(rmem \<Rightarrow> (goerr + 'a) \<times> rmem) \<Rightarrow> rmem \<Rightarrow> (goerr + 'a) \<times> rmem" where
  "mem_rpc f w = (if rx_vessel_down w then (Inl (ErrNew ''unavailable''), w) else f w)"

definition mem_mgr :: "rmem RsManager" where
  "mem_mgr = \<lparr>
     rm_cache = redis_cache mem_cache,
     rm_outbox = postgres_outbox mem_pg,
     rm_vesselCli = \<lparr>
       vc_ReserveCapacity = vessel_ReserveCapacity (mongo_repository sys_mongo),
       vc_ReleaseCapacity = (\<lambda>q. mem_rpc (vessel_ReleaseCapacity (mongo_repository sys_mongo) q)),
       vc_ConfirmCapacity = (\<lambda>q. mem_rpc (vessel_ConfirmCapacity (mongo_repository sys_mongo) q))\<rparr>,
     rm_Retry = attempts 3,
     rm_codecs = mem_codecs,
     rm_uuid = mem_uuid\<rparr>"

definition mem_sys :: "rmem rs_system" where
  "mem_sys = \<lparr>sy_mgr = mem_mgr, sy_cache = mem_cache, sy_rv = mem_rv, sy_db = mem_pg, sy_pv = mem_pv,
     sy_mongo = sys_mongo, sy_vv = sys_vv, sy_rpc = mem_rpc\<rparr>"

lemma mem_wired: "wired mem_sys"
  by (simp add: wired_def mem_sys_def mem_mgr_def)

lemma mem_redis_idle:
  "rd_Del mem_redis k w = (r1, w') \<Longrightarrow> outbox_idle mem_sys w w' \<and> vessels_idle mem_sys w w'"
  "rd_Scan mem_redis cur pat n w = (r2, w') \<Longrightarrow> outbox_idle mem_sys w w' \<and> vessels_idle mem_sys w w'"
  "rd_MGet mem_redis ks w = (r3, w') \<Longrightarrow> outbox_idle mem_sys w w' \<and> vessels_idle mem_sys w w'"
  by (auto simp: mem_redis_def mx_del_def outbox_idle_def vessels_idle_def mem_sys_def mem_pv_def sys_vv_def
      mx_valid_def split: if_splits)

lemma mem_pg_idle:
  "pg_Insert mem_pg t k p tc w = (r, w') \<Longrightarrow> cache_idle mem_sys w w' \<and> vessels_idle mem_sys w w'"
  by (auto simp: mem_pg_def cache_idle_def vessels_idle_def mem_sys_def mem_rv_def sys_vv_def split: if_splits)

lemma only_mongo_idle: "only_mongo w w' \<Longrightarrow> cache_idle mem_sys w w' \<and> outbox_idle mem_sys w w'"
  by (auto simp: only_mongo_def cache_idle_def outbox_idle_def mem_sys_def mem_rv_def mem_pv_def mx_valid_def)

lemma mem_sys_ok: "sys_ok mem_sys"
proof -
  have "independent mem_sys"
    unfolding independent_def
    using mem_redis_idle mem_pg_idle only_mongo_idle handlers_only_mongo
    by (simp add: mem_sys_def mem_cache_def)
  moreover have "transport_ok mem_rpc"
    by (auto simp: transport_ok_def mem_rpc_def)
  ultimately show ?thesis
    using mem_redis_ok mem_pg_ok sys_mongo_ok mem_wired
    by (simp add: sys_ok_def mem_sys_def mem_mgr_def retry_within_attempts)
qed

end
