(* ===== verification/Reservation_Properties.thy ===== *)
theory Reservation_Properties
  imports Reservation_Memory
begin

text \<open>
  The properties of the reservation manager and its cache, on the system of \<open>Reservation_System\<close>:
  what one delivery of an event does, how duplicates, failures and retries end, and what the
  clean-up job schedules. The witnesses run the in-memory system.
\<close>

section \<open>Sample runs\<close>

text \<open>The sample reservation is cached for its full time and holds capacity on the sample vessel.\<close>

definition sample_db :: vdb where
  "sample_db = \<lparr>vessels_of = [sample_vessel\<lparr>ReservedWeight := 60, ReservedCapacity := 4\<rparr>],
     ops_of = [capacity_operation ''1'' opReserve ''v1'' 0]\<rparr>"

definition sample_rmem :: rmem where
  "sample_rmem = \<lparr>rx_redis = [(id_key ''1'', '''', 600), (data_key ''1'', ''info'', 1800)], rx_now = 0,
     rx_rows = [], rx_tx = [], rx_mongo = \<lparr>m_db = sample_db, m_tx = sample_db, m_commit_lost = False\<rparr>,
     rx_sent = [], rx_del_lost = False, rx_outbox_down = False, rx_vessel_down = False\<rparr>"

lemma mem_sys_select [simp]:
  "sy_mgr mem_sys = mem_mgr" "sy_cache mem_sys = mem_cache" "sy_rv mem_sys = mem_rv" "sy_db mem_sys = mem_pg"
  "sy_pv mem_sys = mem_pv" "sy_vv mem_sys = sys_vv"
  by (simp_all add: mem_sys_def)

lemma mem_mgr_select [simp]:
  "rm_cache mem_mgr = redis_cache mem_cache" "rm_outbox mem_mgr = postgres_outbox mem_pg"
  "rm_codecs mem_mgr = mem_codecs" "rm_uuid mem_mgr = mem_uuid"
  by (simp_all add: mem_mgr_def)

text \<open>Deleting the data of a reservation.\<close>

lemma mem_DeleteData:
  "rc_DeleteData (redis_cache mem_cache) i w =
    (if rx_del_lost w then (Inl (Errorf ''failed to delete reservation data'' [ErrNew ''timeout'']),
        (mx_del (data_key i) w)\<lparr>rx_del_lost := False\<rparr>)
     else (Inr (mx_live w (data_key i) \<noteq> None), mx_del (data_key i) w))"
  by (simp add: redis_cache_def cache_DeleteData_def mem_cache_def mem_redis_def)

lemma sample_live [simp]: "mx_live sample_rmem (data_key ''1'') = Some ''info''"
  by (simp add: mx_live_def live_at_def sample_rmem_def)

lemma sample_rmem_flags [simp]:
  "rx_del_lost sample_rmem = False" "rx_outbox_down sample_rmem = False" "rx_vessel_down sample_rmem = False"
  "rx_rows sample_rmem = []" "m_db (rx_mongo sample_rmem) = sample_db"
  by (simp_all add: sample_rmem_def)

lemma mx_del_flags [simp]:
  "rx_del_lost (mx_del k w) = rx_del_lost w" "rx_outbox_down (mx_del k w) = rx_outbox_down w"
  "rx_vessel_down (mx_del k w) = rx_vessel_down w" "rx_rows (mx_del k w) = rx_rows w" "rx_mongo (mx_del k w) = rx_mongo w"
  by (simp_all add: mx_del_def)

lemma mx_live_del [simp]: "mx_live (mx_del k w) k = None"
  by (simp add: mx_live_def mx_del_def live_at_def map_of_filter_del)

lemma mx_live_flags [simp]:
  "mx_live (w\<lparr>rx_vessel_down := b\<rparr>) k = mx_live w k" "mx_live (w\<lparr>rx_outbox_down := b\<rparr>) k = mx_live w k"
  "mx_live (w\<lparr>rx_del_lost := b\<rparr>) k = mx_live w k" "mx_live (w\<lparr>rx_rows := rs\<rparr>) k = mx_live w k"
  by (simp_all add: mx_live_def)

text \<open>Writing to the outbox of the memory system.\<close>

lemma mem_CreateEvent:
  "rx_rows w = [] \<Longrightarrow> ob_CreateEvent (postgres_outbox mem_pg) (outbox_event t k p) w =
    (if rx_outbox_down w then (Inl (Errorf ''failed to create outbox event'' [ErrNew ''down'']), w)
     else (Inr (), w\<lparr>rx_rows := [mx_row t k p [] w]\<rparr>))"
  by (simp add: postgres_outbox_def db_CreateEvent_def mem_pg_def mx_valid_def pg_pending_def outbox_event_def)

lemma mem_pg_rows_single: "pg_rows (mem_pg, mem_pv) (w\<lparr>rx_rows := [r]\<rparr>) = [abs_row r]"
  by (simp add: pg_rows_def mem_pv_def mx_valid_def)

lemma down_attempts: "rx_vessel_down w \<Longrightarrow> attempts k (mem_rpc f) w = (Inl (ErrNew ''unavailable''), w)"
  by (induction k) (simp_all add: mem_rpc_def)

text \<open>The cleared sample event, and the retry events the codec knows.\<close>

lemma sample_marshal:
  "Marshal (pb_Capacity mem_codecs) (bump sample_event) = Inr ''retry''"
  "Marshal (pb_Capacity mem_codecs) (bump (sample_event\<lparr>ce_CacheCleared := True\<rparr>)) = Inr ''retry cleared''"
  by (simp_all add: mem_codecs_def table_codec_def bump_def sample_event_def)

lemma sample_event_select [simp]:
  "\<not> ce_CacheCleared sample_event" "ev_id sample_event = ''1''"
  "ce_Action sample_event = CAPACITY_ACTION_CONFIRM" "\<not> ce_CacheCleared sample_release" "ev_id sample_release = ''1''"
  by (simp_all add: sample_event_def sample_release_def)

text \<open>The first delivery of the sample event while the vessel service is down.\<close>

definition down_rmem :: rmem where
  "down_rmem = sample_rmem\<lparr>rx_vessel_down := True\<rparr>"

definition down_row :: pg_row where
  "down_row = mx_row (retry_topic (bump sample_event)) (retry_key (bump sample_event)) ''retry cleared'' []
     (mx_del (data_key ''1'') down_rmem)"

lemma down_run:
  "processCapacityEvent mem_mgr sample_event down_rmem = (Inr (), (mx_del (data_key ''1'') down_rmem)\<lparr>rx_rows := [down_row]\<rparr>)"
proof -
  have "vessel_call mem_mgr (sample_event\<lparr>ce_CacheCleared := True\<rparr>) (mx_del (data_key ''1'') down_rmem) =
      (Inl (ErrNew ''unavailable''), mx_del (data_key ''1'') down_rmem)"
    by (simp add: vessel_call_def mem_mgr_def down_attempts down_rmem_def)
  then show ?thesis
    by (simp add: processCapacityEvent_def mem_DeleteData process_cleared_def publishRetryEvent_bump
        sample_marshal mem_CreateEvent down_rmem_def down_row_def)
qed

section \<open>One delivery\<close>

text \<open>
  C15. One delivery of a capacity event changes the vessels by its one operation at most. Whatever
  fails on the way - the cache, the vessel call and each of its retries, the outbox - the vessel
  database is left alone or changed by exactly the confirm or release step of this event, and no
  outbox row is lost or altered.
\<close>

theorem delivery_at_most_once:
  assumes "sys_ok s" and "processCapacityEvent (sy_mgr s) ev w = (r, w')"
  shows "(committed (sy_vv s) w' = committed (sy_vv s) w \<or>
      ev_effect ev (committed (sy_vv s) w) (committed (sy_vv s) w')) \<and>
    rows_kept (pg_rows (sy_db s, sy_pv s) w) (pg_rows (sy_db s, sy_pv s) w')"
  using rs.process_effect(1,2)[OF assms(1)] assms by (simp add: sys_mgr_wired[OF sys_okD(6)[OF assms(1)]])

theorem delivery_at_most_once_witness:
  "let w' = snd (processCapacityEvent mem_mgr sample_event sample_rmem) in
     (committed sys_vv w' = committed sys_vv sample_rmem \<or>
      ev_effect sample_event (committed sys_vv sample_rmem) (committed sys_vv w')) \<and>
     rows_kept (pg_rows (mem_pg, mem_pv) sample_rmem) (pg_rows (mem_pg, mem_pv) w')"
  using delivery_at_most_once[OF mem_sys_ok, of sample_event sample_rmem] by (simp add: Let_def) (metis prod.collapse)

text \<open>
  C8. The first event of a reservation wins. Of two events that have not passed the cache check -
  a captured payment and an expiry of the same reservation, or two copies of either - the second
  changes no vessel once the cache has answered the first one: capacity is never both confirmed
  and released, nor confirmed twice, by events of one reservation.
\<close>

theorem first_event_wins:
  assumes ok: "sys_ok s"
    and fresh: "\<not> ce_CacheCleared ev1" "\<not> ce_CacheCleared ev2" and same: "ev_id ev2 = ev_id ev1"
    and answered: "rc_DeleteData (rm_cache (sy_mgr s)) (ev_id ev1) w = (Inr b, w0)"
    and run1: "processCapacityEvent (sy_mgr s) ev1 w = (r1, w1)"
    and run2: "processCapacityEvent (sy_mgr s) ev2 w1 = (r2, w2)"
  shows "committed (sy_vv s) w2 = committed (sy_vv s) w1 \<and>
    (\<forall>u. r2 = Inr u \<longrightarrow> pg_rows (sy_db s, sy_pv s) w2 = pg_rows (sy_db s, sy_pv s) w1 \<or>
       pending_for (retry_topic (bump ev2)) (retry_key (bump ev2)) (pg_rows (sy_db s, sy_pv s) w2))"
proof -
  note W = sys_okD(6)[OF ok]
  have cache: "rm_cache (sy_mgr s) = redis_cache (sy_cache s)" using W by (simp add: wired_def)
  have "ev_id ev1 \<notin> cache_data (sy_cache s, sy_rv s) w1"
    using rs.process_consumes[OF ok, of ev1 w r1 w1 b w0] run1 fresh(1) answered
    by (simp add: sys_mgr_wired[OF W] cache)
  with rs.process_absent[OF ok, of ev2 w1 r2 w2] run2 fresh(2) same
  show ?thesis by (simp add: sys_mgr_wired[OF W])
qed

theorem first_event_wins_witness:
  "let w1 = snd (processCapacityEvent mem_mgr sample_event sample_rmem);
       w2 = snd (processCapacityEvent mem_mgr sample_release w1) in
     committed sys_vv w2 = committed sys_vv w1"
proof -
  obtain r1 w1 where run1: "processCapacityEvent mem_mgr sample_event sample_rmem = (r1, w1)" by fastforce
  obtain r2 w2 where run2: "processCapacityEvent mem_mgr sample_release w1 = (r2, w2)" by fastforce
  have "rc_DeleteData (rm_cache (sy_mgr mem_sys)) (ev_id sample_event) sample_rmem =
      (Inr True, mx_del (data_key ''1'') sample_rmem)" by (simp add: mem_DeleteData)
  from first_event_wins[OF mem_sys_ok _ _ _ this, of sample_release r1 w1 r2 w2] run1 run2
  show ?thesis by simp
qed

text \<open>
  C14. No event is forgotten. When the handler returns nil, and the offset is committed, the event
  was a duplicate (no data left, nothing changed), or its retry is pending in the outbox, or its
  operation is recorded with the vessel service - and then, for a confirmation, the confirmed
  event is pending too unless publishing it failed, which the handler only logs.
\<close>

theorem nil_means_settled:
  assumes ok: "sys_ok s" and run: "processCapacityEvent (sy_mgr s) ev w = (Inr u, w')"
  shows "(\<not> ce_CacheCleared ev \<and> ev_id ev \<notin> cache_data (sy_cache s, sy_rv s) w' \<and>
      committed (sy_vv s) w' = committed (sy_vv s) w \<and> pg_rows (sy_db s, sy_pv s) w' = pg_rows (sy_db s, sy_pv s) w) \<or>
    pending_for (retry_topic (bump ev)) (retry_key (bump ev)) (pg_rows (sy_db s, sy_pv s) w') \<or>
    ev_done ev (committed (sy_vv s) w') \<and> (ce_Action ev = CAPACITY_ACTION_CONFIRM \<longrightarrow>
      pending_for rs_ReservationConfirmedTopic (ce_ConsignmentId ev) (pg_rows (sy_db s, sy_pv s) w') \<or>
      (\<exists>w2 err. publishReservationConfirmed (sy_mgr s) (ev\<lparr>ce_CacheCleared := True\<rparr>) w2 = (Inl err, w')))"
  using rs.process_outcome[OF ok, of ev w u w'] run by (simp add: sys_mgr_wired[OF sys_okD(6)[OF ok]])

theorem nil_means_settled_witness:
  "pending_for (retry_topic (bump sample_event)) (retry_key (bump sample_event))
     (pg_rows (mem_pg, mem_pv) (snd (processCapacityEvent mem_mgr sample_event down_rmem)))"
proof -
  let ?w' = "(mx_del (data_key ''1'') down_rmem)\<lparr>rx_rows := [down_row]\<rparr>"
  have "\<not> ev_done sample_event (committed sys_vv ?w')"
    by (simp add: sys_vv_def down_rmem_def sample_db_def ev_done_def ev_call_def call_marked_def capacity_operation_def
        recorded_def is_op_def opReserve_def opConfirm_def)
  moreover have "pg_rows (mem_pg, mem_pv) ?w' \<noteq> pg_rows (mem_pg, mem_pv) down_rmem"
    by (simp only: mem_pg_rows_single) (simp add: pg_rows_def mem_pv_def mx_valid_def down_rmem_def)
  ultimately show ?thesis using nil_means_settled[OF mem_sys_ok, of sample_event down_rmem "()" ?w'] by (simp add: down_run)
qed

section \<open>Lost events\<close>

text \<open>
  A failed reschedule drops the event. When the vessel call fails and the retry event cannot
  be written either, the handler returns an error so that the message is delivered again; but
  the first delivery has deleted the cache entry, so the redelivery takes the event for a
  duplicate: it returns nil without calling the vessel service and without scheduling anything.
  The capacity is neither confirmed nor released.
\<close>

theorem failed_reschedule_drops_event:
  assumes ok: "sys_ok s" and fresh: "\<not> ce_CacheCleared ev"
    and deleted: "rc_DeleteData (rm_cache (sy_mgr s)) (ev_id ev) w = (Inr True, w0)"
    and first: "processCapacityEvent (sy_mgr s) ev w = (Inl e, w1)"
    and answered: "rc_DeleteData (rm_cache (sy_mgr s)) (ev_id ev) w1 = (Inr b, w2)"
  shows "processCapacityEvent (sy_mgr s) ev w1 = (Inr (), w2) \<and>
    committed (sy_vv s) w2 = committed (sy_vv s) w1 \<and>
    pg_rows (sy_db s, sy_pv s) w2 = pg_rows (sy_db s, sy_pv s) w1"
proof -
  note W = sys_okD(6)[OF ok]
  have cache: "rm_cache (sy_mgr s) = redis_cache (sy_cache s)" using W by (simp add: wired_def)
  have gone: "ev_id ev \<notin> cache_data (sy_cache s, sy_rv s) w1"
    using rs.process_consumes[OF ok, of ev w "Inl e" w1 True w0] first fresh deleted
    by (simp add: sys_mgr_wired[OF W] cache)
  then have "b = False" using rs.delete_absent[OF ok, of "ev_id ev" w1 "Inr b" w2] answered cache by auto
  with answered fresh have "processCapacityEvent (sy_mgr s) ev w1 = (Inr (), w2)"
    by (simp add: processCapacityEvent_def)
  with rs.delete_data_frame[OF ok, of "ev_id ev" w1 "Inr b" w2] answered cache show ?thesis by simp
qed

theorem failed_reschedule_drops_event_witness:
  "let w = sample_rmem\<lparr>rx_vessel_down := True, rx_outbox_down := True\<rparr>;
       w1 = snd (processCapacityEvent mem_mgr sample_event w) in
   (\<exists>e. fst (processCapacityEvent mem_mgr sample_event w) = Inl e) \<and>
   fst (processCapacityEvent mem_mgr sample_event w1) = Inr () \<and>
   committed sys_vv (snd (processCapacityEvent mem_mgr sample_event w1)) = sample_db"
proof -
  let ?w = "sample_rmem\<lparr>rx_vessel_down := True, rx_outbox_down := True\<rparr>"
  let ?w1 = "mx_del (data_key ''1'') ?w"
  have "vessel_call mem_mgr (sample_event\<lparr>ce_CacheCleared := True\<rparr>) ?w1 = (Inl (ErrNew ''unavailable''), ?w1)"
    by (simp add: vessel_call_def mem_mgr_def down_attempts)
  then have first: "\<exists>e. processCapacityEvent mem_mgr sample_event ?w = (Inl e, ?w1)"
    by (simp add: processCapacityEvent_def mem_DeleteData process_cleared_def publishRetryEvent_bump
        sample_marshal mem_CreateEvent)
  then obtain e where run: "processCapacityEvent (sy_mgr mem_sys) sample_event ?w = (Inl e, ?w1)" by auto
  have del: "rc_DeleteData (rm_cache (sy_mgr mem_sys)) (ev_id sample_event) ?w = (Inr True, ?w1)"
    "rc_DeleteData (rm_cache (sy_mgr mem_sys)) (ev_id sample_event) ?w1 = (Inr False, mx_del (data_key ''1'') ?w1)"
    by (simp_all add: mem_DeleteData)
  from failed_reschedule_drops_event[OF mem_sys_ok _ del(1) run del(2)] first
  show ?thesis by (auto simp: sys_vv_def)
qed

text \<open>
  A lost answer of the cache drops the event. When the cache deletes the entry but its answer
  is lost, the handler schedules a retry that still has to pass the cache check; delivered, that
  retry finds no entry, is taken for a duplicate and is dropped: nothing is confirmed or released.
\<close>

theorem lost_answer_drops_event:
  assumes ok: "sys_ok s" and fresh: "\<not> ce_CacheCleared ev"
    and lost: "rc_DeleteData (rm_cache (sy_mgr s)) (ev_id ev) w = (Inl e, w0)"
    and gone: "ev_id ev \<notin> cache_data (sy_cache s, sy_rv s) w0"
    and first: "processCapacityEvent (sy_mgr s) ev w = (Inr u, w1)"
    and answered: "rc_DeleteData (rm_cache (sy_mgr s)) (ev_id ev) w1 = (Inr b, w2)"
  shows "pending_for (retry_topic (bump ev)) (retry_key (bump ev)) (pg_rows (sy_db s, sy_pv s) w1) \<and>
    processCapacityEvent (sy_mgr s) (bump ev) w1 = (Inr (), w2) \<and>
    committed (sy_vv s) w2 = committed (sy_vv s) w \<and>
    pg_rows (sy_db s, sy_pv s) w2 = pg_rows (sy_db s, sy_pv s) w1"
proof -
  note W = sys_okD(6)[OF ok]
  have cache: "rm_cache (sy_mgr s) = redis_cache (sy_cache s)" using W by (simp add: wired_def)
  obtain p where pub: "publishRetryEvent (sys_mgr s) ev w0 = (p, w1)" "p = Inr ()"
    using first lost fresh by (auto simp: processCapacityEvent_def sys_mgr_wired[OF W] split: prod.splits sum.splits)
  note ret = rs.retry_event[OF ok pub(1)]
  have cap: "committed (sy_vv s) w1 = committed (sy_vv s) w"
    using ret(3) rs.delete_data_frame[OF ok, of "ev_id ev" w "Inl e" w0] lost cache by simp
  have "ev_id ev \<notin> cache_data (sy_cache s, sy_rv s) w1" using ret(2) gone by blast
  then have "b = False" using rs.delete_absent[OF ok, of "ev_id ev" w1 "Inr b" w2] answered cache by auto
  with answered fresh have "processCapacityEvent (sy_mgr s) (bump ev) w1 = (Inr (), w2)"
    by (simp add: processCapacityEvent_def bump_def)
  with rs.delete_data_frame[OF ok, of "ev_id ev" w1 "Inr b" w2] answered cache cap ret(4)[OF pub(2)]
  show ?thesis by simp
qed

theorem lost_answer_drops_event_witness:
  "let w1 = snd (processCapacityEvent mem_mgr sample_event (sample_rmem\<lparr>rx_del_lost := True\<rparr>)) in
   fst (processCapacityEvent mem_mgr (bump sample_event) w1) = Inr () \<and>
   committed sys_vv (snd (processCapacityEvent mem_mgr (bump sample_event) w1)) = sample_db"
proof -
  let ?w = "sample_rmem\<lparr>rx_del_lost := True\<rparr>"
  let ?del = "(mx_del (data_key ''1'') ?w)\<lparr>rx_del_lost := False\<rparr>"
  let ?r = "mx_row (retry_topic (bump sample_event)) (retry_key (bump sample_event)) ''retry'' [] ?del"
  let ?w1 = "?del\<lparr>rx_rows := [?r]\<rparr>"
  let ?e = "Errorf ''failed to delete reservation data'' [ErrNew ''timeout'']"
  have lost: "rc_DeleteData (redis_cache mem_cache) ''1'' ?w = (Inl ?e, ?del)"
    by (subst mem_DeleteData) simp
  have del: "rc_DeleteData (redis_cache mem_cache) ''1'' ?w1 = (Inr False, mx_del (data_key ''1'') ?w1)"
    by (subst mem_DeleteData) simp
  have run: "processCapacityEvent mem_mgr sample_event ?w = (Inr (), ?w1)"
    by (simp add: processCapacityEvent_def lost publishRetryEvent_bump sample_marshal mem_CreateEvent)
  have "''1'' \<notin> cache_data (mem_cache, mem_rv) ?del"
    by (simp add: cache_data_def mem_rv_def mx_del_def live_at_def map_of_filter_del)
  with lost_answer_drops_event[OF mem_sys_ok, of sample_event ?w ?e ?del "()" ?w1 False "mx_del (data_key ''1'') ?w1"] lost run del
  show ?thesis by (simp add: sys_vv_def)
qed

section \<open>Retries\<close>

lemma bump_pow: "((bump ^^ i) ev) = ev\<lparr>ce_RetryCount := ce_RetryCount ev + of_nat i\<rparr>"
  by (induction i) (simp_all add: bump_def ac_simps)

lemma retry_count_signed:
  assumes "n < 2 ^ 31"
  shows "int_of_int32 (of_nat n) = int n"
proof -
  have "(of_nat n :: int32) = int32_of_int (int n)" by (simp add: int32_of_int_def)
  moreover have "- (2 ^ 31) \<le> int n" "int n < 2 ^ 31" using assms by simp_all
  ultimately show ?thesis by (simp add: int_of_int32_of_int)
qed

lemma retry_count_less:
  assumes "n < 2 ^ 31"
  shows "(of_nat n :: int32) <s int32_of_int (int MaxRetries) \<longleftrightarrow> n < 3"
proof -
  have "sint (of_nat n :: int32) = int n" using retry_count_signed[OF assms] by (simp add: int_of_int32_def)
  moreover have "sint (int32_of_int (int MaxRetries)) = 3"
    using int_of_int32_of_int[of 3] by (simp add: MaxRetries_def int_of_int32_def)
  ultimately show ?thesis by (simp add: word_sless_alt)
qed

text \<open>
  C25. Retries end in the dead-letter topic. An event whose retry count is \<open>n \<le> 3\<close> goes back to the
  topic of its own action while it has been scheduled fewer than three times, and to the
  dead-letter topic the moment its count reaches 3 - so it is retried at most \<open>3 - n\<close> times - and no
  two of these outbox entries share a key, so none is swallowed as a duplicate of another.
\<close>

theorem retries_end_in_dead_letter:
  assumes action: "ce_Action ev = CAPACITY_ACTION_CONFIRM \<and> own = ConfirmCapacityTopic \<or>
      ce_Action ev = CAPACITY_ACTION_RELEASE \<and> own = ReleaseCapacityTopic"
    and count: "ce_RetryCount ev = of_nat n" "n \<le> 3"
  shows "(\<forall>i. n + i < 3 \<longrightarrow> retry_topic ((bump ^^ i) ev) = own) \<and>
    retry_topic ((bump ^^ (3 - n)) ev) = CapacityFailedTopic \<and>
    inj_on (\<lambda>i. retry_key ((bump ^^ i) ev)) {i. n + i < 2 ^ 31}"
proof (intro conjI allI impI inj_onI)
  have rc: "ce_RetryCount ((bump ^^ i) ev) = of_nat (n + i)" for i
    by (simp add: bump_pow count)
  show "retry_topic ((bump ^^ i) ev) = own" if "n + i < 3" for i
  proof -
    have "ce_RetryCount ((bump ^^ i) ev) <s int32_of_int (int MaxRetries)"
      unfolding rc using that by (subst retry_count_less) simp_all
    then show ?thesis using action by (auto simp: retry_topic_def bump_pow)
  qed
  have "\<not> (ce_RetryCount ((bump ^^ (3 - n)) ev) <s int32_of_int (int MaxRetries))"
    unfolding rc using count(2) by (subst retry_count_less) simp_all
  then show "retry_topic ((bump ^^ (3 - n)) ev) = CapacityFailedTopic" by (simp add: retry_topic_def)
  fix i j assume ij: "i \<in> {i. n + i < 2 ^ 31}" "j \<in> {i. n + i < 2 ^ 31}"
    and eq: "retry_key ((bump ^^ i) ev) = retry_key ((bump ^^ j) ev)"
  have "ev_id ((bump ^^ k) ev) = ev_id ev" for k by (simp add: bump_pow)
  with eq have "fmt_int (int_of_int32 (of_nat (n + i))) = fmt_int (int_of_int32 (of_nat (n + j)))"
    by (simp add: retry_key_def rc del: of_nat_add)
  then have "int_of_int32 (of_nat (n + i)) = int_of_int32 (of_nat (n + j))" by (rule fmt_int_inject)
  with ij show "i = j" by (simp add: retry_count_signed del: of_nat_add)
qed

theorem retries_end_in_dead_letter_witness:
  "retry_topic ((bump ^^ 2) sample_event) = ConfirmCapacityTopic \<and>
   retry_topic ((bump ^^ 3) sample_event) = CapacityFailedTopic"
  using retries_end_in_dead_letter[of sample_event ConfirmCapacityTopic 0] by (simp add: sample_event_def)

text \<open>
  C30. A confirmation that ran out of retries is undone and reported. When the dead-letter handler
  returns nil for a confirm event, the consignment's confirmation-failed event is pending in the
  outbox, the vessels changed by the release step of the reservation at most, and no row is lost.
\<close>

theorem dead_confirmation_reported:
  assumes ok: "sys_ok s"
    and msg: "Unmarshal (pb_Capacity (rm_codecs (sy_mgr s))) val = Inr ev"
    and confirm: "ce_Action ev = CAPACITY_ACTION_CONFIRM"
    and run: "handleFailedCapacityEvent (sy_mgr s) key val w = (r, w')"
  shows "(r = Inr () \<longrightarrow> pending_for rs_ConfirmationFailedTopic (ce_ConsignmentId ev) (pg_rows (sy_db s, sy_pv s) w')) \<and>
    (committed (sy_vv s) w' = committed (sy_vv s) w \<or>
     cap_step (Release (MarshalCapacityRequest (capacity_request ev))) (committed (sy_vv s) w) (committed (sy_vv s) w')) \<and>
    rows_kept (pg_rows (sy_db s, sy_pv s) w) (pg_rows (sy_db s, sy_pv s) w')"
proof -
  note W = sys_mgr_wired[OF sys_okD(6)[OF ok]]
  have "capacity_request (failed_to_release ev) = capacity_request ev"
    by (simp add: capacity_request_def failed_to_release_def zero_CapacityEvent_def)
  then have "ev_effect (failed_to_release ev) = cap_step (Release (MarshalCapacityRequest (capacity_request ev)))"
    by (simp add: fun_eq_iff ev_effect_def ev_call_def failed_to_release_def zero_CapacityEvent_def)
  with rs.failed_outcome[OF ok, of val ev key w r w'] msg confirm run show ?thesis by (auto simp: W)
qed

text \<open>The sample event after its last retry, its cache entry long gone.\<close>

definition dead_event :: CapacityEvent where
  "dead_event = sample_event\<lparr>ce_CacheCleared := True, ce_RetryCount := 3\<rparr>"

lemma dead_undo: "snd (processCapacityEvent mem_mgr (failed_to_release dead_event) down_rmem) = down_rmem"
proof -
  have "vessel_call mem_mgr (failed_to_release dead_event) down_rmem = (Inl (ErrNew ''unavailable''), down_rmem)"
    by (simp add: vessel_call_def mem_mgr_def down_attempts down_rmem_def failed_to_release_def zero_CapacityEvent_def)
  moreover have "\<exists>e. Marshal (pb_Capacity mem_codecs) (bump (failed_to_release dead_event)) = Inl e"
    by (simp add: mem_codecs_def table_codec_def bump_def failed_to_release_def zero_CapacityEvent_def dead_event_def
        sample_event_def sample_release_def)
  moreover have "ce_CacheCleared (failed_to_release dead_event)"
    by (simp add: failed_to_release_def dead_event_def)
  ultimately show ?thesis by (auto simp: processCapacityEvent_def process_cleared_def publishRetryEvent_bump)
qed

theorem dead_confirmation_reported_witness:
  "pending_for rs_ConfirmationFailedTopic ''c1''
     (pg_rows (mem_pg, mem_pv) (snd (handleFailedCapacityEvent mem_mgr '''' ''dead'' down_rmem)))"
proof -
  have msg: "Unmarshal (pb_Capacity (rm_codecs (sy_mgr mem_sys))) ''dead'' = Inr dead_event"
    by (simp add: mem_codecs_def table_codec_def dead_event_def)
  have act: "ce_Action dead_event = CAPACITY_ACTION_CONFIRM" "ce_ConsignmentId dead_event = ''c1''"
    by (simp_all add: dead_event_def sample_event_def)
  have "Marshal (pb_ConfirmationFailed mem_codecs) (confirmation_failed_event dead_event) = Inr ''failed''"
    by (simp add: mem_codecs_def table_codec_def confirmation_failed_event_def dead_event_def)
  then have "\<exists>w'. publishConfirmationFailed mem_mgr dead_event down_rmem = (Inr (), w')"
    by (simp add: publishConfirmationFailed_def act mem_CreateEvent down_rmem_def)
  then obtain w' where run: "handleFailedCapacityEvent mem_mgr '''' ''dead'' down_rmem = (Inr (), w')"
    using msg by (auto simp: handleFailedCapacityEvent_def act dead_undo)
  with dead_confirmation_reported[OF mem_sys_ok msg act(1), of "''''" down_rmem "Inr ()" w'] act
  show ?thesis by simp
qed

section \<open>Topics\<close>

text \<open>
  New assigns exactly the configured topics. If every configured topic is one of the five the
  service knows, the active handlers are the known ones restricted to the configured topics;
  otherwise New fails and names the first unknown topic.
\<close>

theorem rs_New_topics:
  "rs_New m topics =
    (case find (\<lambda>t. t \<notin> {''consignment.payment.captured'', ''reservation.capacity.release'',
        ''reservation.capacity.confirm'', ''reservation.expired'', ''reservation.capacity.failed''}) topics of
       Some t \<Rightarrow> Inl (Errorf (''no event handler for topic: '' @ t) [])
     | None \<Rightarrow> Inr (rs_handlers m |` set topics))"
proof -
  have "(rs_handlers m t = None) =
      (t \<notin> {''consignment.payment.captured'', ''reservation.capacity.release'',
        ''reservation.capacity.confirm'', ''reservation.expired'', ''reservation.capacity.failed''})" for t
    by (simp add: rs_handlers_def rs_topic_defs)
  then show ?thesis
    by (simp add: rs_New_def assign_handlers_result restrict_map_def fun_eq_iff split: option.splits)
qed

section \<open>The cache\<close>

text \<open>
  What was stored is read back. After a successful Store, a read before the data entry's
  deadline returns the stored reservation and never reports it as not found (it can only fail for
  another reason).
\<close>

theorem store_then_get:
  assumes ok: "redis_ok (c, v)" and store: "cache_Store c i info w = (Inr u, w1)"
    and between: "rv_store v w2 = rv_store v w1"
    and get: "cache_GetData c i w2 = (r, w3)"
    and in_time: "rv_now v w3 < rv_now v w + c_reservationDataTTL c"
  shows "(\<forall>x. r = Inr x \<longrightarrow> x = info) \<and>
    r \<noteq> Inl (Errorf (''reservation '' @ i @ '' not found'') [rd_Nil (c_client c)])"
proof -
  obtain data t2 where data: "Marshal (c_json c) info = Inr data" and t2: "rv_now v w \<le> t2"
    "rv_store v w1 (data_key i) = Some (data, t2 + c_reservationDataTTL c)" by (rule cache_Store_stored[OF ok store])
  obtain q w4 where g: "rd_Get (c_client c) (data_key i) w2 = (q, w4)" by fastforce
  have w4: "w3 = w4" using get g by (auto simp: cache_GetData_def split: sum.splits if_splits)
  obtain t where t: "t \<le> rv_now v w4" "\<And>val. q = Inr val \<Longrightarrow> live_at t (rv_store v w2) (data_key i) = Some val"
    "q = Inl (rd_Nil (c_client c)) \<Longrightarrow> live_at t (rv_store v w2) (data_key i) = None"
    by (rule get_outcome[OF ok g]) (rule that)
  have live: "live_at t (rv_store v w2) (data_key i) = Some data"
    using t(1) t2 in_time w4 between by (simp add: live_at_def)
  have "Unmarshal (c_json c) data = Inr info" using codec_okD[OF redis_okD(7)[OF ok] data] .
  with live t(2,3) get g show ?thesis by (cases q) (auto simp: cache_GetData_def split: if_splits)
qed

text \<open>The memory system with nothing stored, and its cache after the sample reservation's identifier has expired.\<close>

definition empty_rmem :: rmem where
  "empty_rmem = sample_rmem\<lparr>rx_redis := []\<rparr>"

definition expired_rmem :: rmem where
  "expired_rmem = sample_rmem\<lparr>rx_now := 700\<rparr>"

theorem store_then_get_witness:
  "fst (cache_GetData mem_cache ''1'' (snd (cache_Store mem_cache ''1'' sample_info empty_rmem))) = Inr sample_info"
proof -
  obtain w1 where store: "cache_Store mem_cache ''1'' sample_info empty_rmem = (Inr (), w1)" "rx_now w1 = 0"
    by (simp add: cache_Store_def mem_cache_def mem_redis_def table_codec_def empty_rmem_def sample_rmem_def)
  obtain x w3 where get: "cache_GetData mem_cache ''1'' w1 = (Inr x, w3)" "rx_now w3 = 0"
    using store
    by (auto simp: cache_Store_def cache_GetData_def mem_cache_def mem_redis_def table_codec_def empty_rmem_def
        sample_rmem_def mx_live_def live_at_def)
  from store_then_get[OF mem_redis_ok store(1) _ get(1)] store get
  show ?thesis by (simp add: mem_rv_def mem_cache_def empty_rmem_def sample_rmem_def)
qed

text \<open>
  A refresh does not extend the reservation's data. Refresh sets a new deadline on the
  identifier key only; the data entry keeps its old one. From the data deadline until the new
  identifier deadline the reservation still counts as active while its data is gone, and every
  event for it that has not passed the cache check - a captured payment included - is dropped as
  a duplicate (first_event_wins states what such an event does).
\<close>

theorem refresh_keeps_data_deadline:
  assumes ok: "redis_ok (c, v)" and run: "cache_Refresh c i w = (Inr True, w')"
  shows "\<exists>t. rv_now v w \<le> t \<and> t \<le> rv_now v w' \<and>
    rv_store v w' (data_key i) = rv_store v w (data_key i) \<and>
    (\<forall>u val d. rv_store v w (data_key i) = Some (val, d) \<and> d \<le> u \<and> u < t + c_reservationTTL c \<longrightarrow>
       live_at u (rv_store v w') (id_key i) \<noteq> None \<and> live_at u (rv_store v w') (data_key i) = None)"
proof -
  obtain q w1 where e: "rd_Expire (c_client c) (id_key i) (c_reservationTTL c) w = (q, w1)" by fastforce
  with run have q: "q = Inr True" "w' = w1" by (auto simp: cache_Refresh_def split: sum.splits)
  obtain t where t: "rv_now v w \<le> t" "t \<le> rv_now v w1"
    and st: "\<exists>val. rv_store v w1 = (rv_store v w)(id_key i \<mapsto> (val, t + c_reservationTTL c))"
    by (rule expire_outcome[OF ok e]) (use q that in blast)
  then show ?thesis using q by (intro exI[of _ t]) (auto simp: live_at_def)
qed

definition late_rmem :: rmem where
  "late_rmem = sample_rmem\<lparr>rx_redis := [(id_key ''1'', '''', 1500), (data_key ''1'', ''info'', 1800)], rx_now := 1400\<rparr>"

theorem refresh_keeps_data_deadline_witness:
  "let w' = snd (cache_Refresh mem_cache ''1'' late_rmem) in
     live_at 1900 (rv_store mem_rv w') (id_key ''1'') \<noteq> None \<and> live_at 1900 (rv_store mem_rv w') (data_key ''1'') = None"
proof -
  obtain w' where run: "cache_Refresh mem_cache ''1'' late_rmem = (Inr True, w')"
    by (simp add: cache_Refresh_def mem_cache_def mem_redis_def mx_live_def live_at_def late_rmem_def)
  have "rv_store mem_rv late_rmem (data_key ''1'') = Some (''info'', 1800)"
    "rv_now mem_rv late_rmem = 1400" "c_reservationTTL mem_cache = 600"
    by (simp_all add: mem_rv_def late_rmem_def mem_cache_def)
  with refresh_keeps_data_deadline[OF mem_redis_ok run] run show ?thesis by auto
qed

text \<open>
  C26. GetExpired returns and finds exactly the expired reservations. On a well-formed cache the
  call terminates, and a successful one returns only reservations whose data was live when it
  started and whose identifier is gone when it ends, and every reservation whose data is still
  live at its end and whose identifier was gone at its start - also while keys expire during it.
\<close>

theorem GetExpired_exact:
  assumes ok: "redis_ok (c, v)" and wf: "cache_wf c (rv_store v w)"
  shows "\<exists>r w'. cache_GetExpired c w = Some (r, w') \<and>
    (\<forall>infos info. r = Inr infos \<longrightarrow>
      (info \<in> set infos \<longrightarrow> stored_live c (rv_now v w) (rv_store v w) info \<and>
         \<not> id_live c (rv_now v w') (rv_store v w) info) \<and>
      (stored_live c (rv_now v w') (rv_store v w) info \<and> \<not> id_live c (rv_now v w) (rv_store v w) info \<longrightarrow>
         info \<in> set infos))"
proof -
  from GetExpired_terminates[OF ok] obtain r w' where run: "cache_GetExpired c w = Some (r, w')" by blast
  with GetExpired_result[OF ok wf, of _ w'] show ?thesis by blast
qed

lemma uuid_digits [simp]: "uuid_String mem_uuid 1 = ''1''" "uuid_String mem_uuid 2 = ''2''" "uuid_String mem_uuid 3 = ''3''"
proof -
  have "char_of (49::nat) = CHR ''1''" "char_of (50::nat) = CHR ''2''" "char_of (51::nat) = CHR ''3''" by code_simp+
  then show "uuid_String mem_uuid 1 = ''1''" "uuid_String mem_uuid 2 = ''2''" "uuid_String mem_uuid 3 = ''3''"
    by (simp_all add: mem_uuid_def nat_digits.simps digit_char_def)
qed

lemma sample_info_id [simp]: "info_Id sample_info = 1" by (simp add: sample_info_def)

lemma mem_cache_select [simp]:
  "c_client mem_cache = mem_redis" "c_uuid mem_cache = mem_uuid" "c_json mem_cache = table_codec [(''info'', sample_info)]"
  by (simp_all add: mem_cache_def)

lemma expired_store: "rv_store mem_rv expired_rmem = [id_key ''1'' \<mapsto> ('''', 600), data_key ''1'' \<mapsto> (''info'', 1800)]"
  by (simp add: mem_rv_def expired_rmem_def sample_rmem_def fun_upd_twist)

lemma expired_wf: "cache_wf mem_cache (rv_store mem_rv expired_rmem)"
  by (auto simp: cache_wf_def expired_store table_codec_def split: if_splits)

lemma expired_sample:
  "stored_live mem_cache 700 (rv_store mem_rv expired_rmem) sample_info"
  "\<not> id_live mem_cache 700 (rv_store mem_rv expired_rmem) sample_info"
  by (simp_all add: stored_live_def id_live_def live_at_def expired_store table_codec_def)

lemma expired_scan:
  "scan_keys mem_redis ''reservation:*'' 0 [] expired_rmem = Some (Inr [], expired_rmem)"
  "scan_keys mem_redis ''reservation_data:*'' 0 [] expired_rmem = Some (Inr [data_key ''1''], expired_rmem)"
proof -
  have keys: "mx_keys ''reservation:*'' expired_rmem = []" "mx_keys ''reservation_data:*'' expired_rmem = [data_key ''1'']"
    by (simp_all add: mx_keys_def mx_live_def live_at_def expired_rmem_def sample_rmem_def glob_keys)
  show "scan_keys mem_redis ''reservation:*'' 0 [] expired_rmem = Some (Inr [], expired_rmem)"
    "scan_keys mem_redis ''reservation_data:*'' 0 [] expired_rmem = Some (Inr [data_key ''1''], expired_rmem)"
    by (subst scan_keys.simps, simp add: mem_scan_call keys, subst scan_keys.simps, simp add: mem_scan_call keys)+
qed

lemma expired_run: "cache_GetExpired mem_cache expired_rmem = Some (Inr [sample_info], expired_rmem)"
proof -
  have "rd_MGet mem_redis [data_key ''1''] expired_rmem = (Inr [Some ''info''], expired_rmem)"
    by (simp add: mem_redis_def mx_live_def live_at_def expired_rmem_def sample_rmem_def)
  then show ?thesis by (simp add: cache_GetExpired_def expired_scan table_codec_def)
qed

theorem GetExpired_exact_witness:
  "case cache_GetExpired mem_cache expired_rmem of Some (Inr infos, w') \<Rightarrow> sample_info \<in> set infos | _ \<Rightarrow> False"
proof -
  have "rv_now mem_rv expired_rmem = 700" by (simp add: mem_rv_def expired_rmem_def)
  with GetExpired_exact[OF mem_redis_ok expired_wf] expired_sample show ?thesis by (auto simp: expired_run)
qed




end
