(* ===== verification/Reservation_Server.thy ===== *)
theory Reservation_Server
  imports Reservation_System
begin

text \<open>
  \<open>cmd/reservation-service/server/handler.go\<close>: the gRPC handlers of the reservation service. They
  reserve capacity with the vessel service and cache the reservation, and release, refresh or
  confirm a cached one. A panic (a nil vessel in the vessel service's answer is dereferenced) is
  the result \<open>None\<close>. The second half states what the handlers do on the system of
  \<open>Reservation_System\<close>: the reserve call, retried, is exactly-once too.
\<close>

section \<open>Messages and the handler\<close>

record ReserveCapacityRequest =
  rcr_ConsignmentId :: string
  rcr_Weight :: int32
  rcr_NumberOfContainers :: int32

record ReservationResponse =
  rres_Id :: string
  rres_Reserved :: bool
  rres_VesselId :: string

record CapacityActionRequest =
  car_Id :: string

text \<open>
  \<open>uuid.New\<close> reads random bytes of the world. The closures passed to \<open>backoff.Retry\<close> return an
  error only; the one of \<open>ReserveCapacity\<close> also leaves the last response in a variable, which is
  the value of its successful run here. \<open>gh_Nil\<close> is \<open>redis.Nil\<close>.
\<close>

record 'w GRPCHandler =
  gh_vesselCli :: "'w VesselClient"
  gh_cache :: "'w ReservationCache"
  gh_NewUUID :: "'w \<Rightarrow> UUID \<times> 'w"
  gh_uuid :: uuid_lib
  gh_RetryReserve :: "('w \<Rightarrow> (goerr + PbVesselResponse) \<times> 'w) \<Rightarrow> 'w \<Rightarrow> (goerr + PbVesselResponse) \<times> 'w"
  gh_Retry :: "('w \<Rightarrow> (goerr + unit) \<times> 'w) \<Rightarrow> 'w \<Rightarrow> (goerr + unit) \<times> 'w"
  gh_Nil :: goerr

text \<open>\<open>status.FromError\<close> followed by \<open>Code()\<close>: the first status error in the chain.\<close>

fun status_code :: "goerr \<Rightarrow> code option" where
  "status_code (ErrNew m) = None"
| "status_code (StatusErr c m) = Some c"
| "status_code (Errorf m es) = foldr (\<lambda>e c. if status_code e = None then c else status_code e) es None"
| "status_code (PermanentErr e) = status_code e"

section \<open>Handlers\<close>

definition reserve_attempt :: "'w GRPCHandler \<Rightarrow> PbSpecification \<Rightarrow> 'w \<Rightarrow> (goerr + PbVesselResponse) \<times> 'w" where
  "reserve_attempt h spec w =
    (case vc_ReserveCapacity (gh_vesselCli h) spec w of
       (Inl err, w1) \<Rightarrow>
         if status_code err = Some NotFound then (Inl (PermanentErr err), w1) else (Inl err, w1)
     | (Inr res, w1) \<Rightarrow> (Inr res, w1))"

definition reserve_spec :: "'w GRPCHandler \<Rightarrow> UUID \<Rightarrow> ReserveCapacityRequest \<Rightarrow> PbSpecification" where
  "reserve_spec h reservationID req = \<lparr>
     pbs_Weight = rcr_Weight req,
     pbs_NumberOfContainers = rcr_NumberOfContainers req,
     pbs_ReservationId = uuid_String (gh_uuid h) reservationID\<rparr>"

text \<open>The compensating call after a failed \<open>Store\<close>.\<close>

definition compensation :: "'w GRPCHandler \<Rightarrow> UUID \<Rightarrow> PbVessel \<Rightarrow> ReserveCapacityRequest \<Rightarrow> PbCapacityRequest" where
  "compensation h reservationID vessel req = \<lparr>
     pbr_VesselId = pbv_Id vessel,
     pbr_Weight = rcr_Weight req,
     pbr_NumberOfContainers = rcr_NumberOfContainers req,
     pbr_ReservationId = uuid_String (gh_uuid h) reservationID\<rparr>"

text \<open>From the cache entry to the end of \<open>ReserveCapacity\<close>.\<close>

definition cache_reservation ::
  "'w GRPCHandler \<Rightarrow> UUID \<Rightarrow> UUID \<Rightarrow> UUID \<Rightarrow> PbVessel \<Rightarrow> ReserveCapacityRequest \<Rightarrow> 'w \<Rightarrow> (goerr + ReservationResponse) \<times> 'w" where
  "cache_reservation h reservationID vesselID consignmentID vessel req w =
    (case rc_Store (gh_cache h) (uuid_String (gh_uuid h) reservationID)
        \<lparr>info_Id = reservationID, info_VesselID = vesselID, info_ConsignmentID = consignmentID,
         info_NumberOfContainers = int_of_int32 (rcr_NumberOfContainers req),
         info_Weight = int_of_int32 (rcr_Weight req)\<rparr> w of
       (Inl err, w1) \<Rightarrow>
         (case gh_Retry h (vc_ReleaseCapacity (gh_vesselCli h) (compensation h reservationID vessel req)) w1 of
            (_, w2) \<Rightarrow> (Inl (Errorf ''failed to cache reservation'' [err]), w2))
     | (Inr _, w1) \<Rightarrow>
         (Inr \<lparr>rres_Id = uuid_String (gh_uuid h) reservationID, rres_Reserved = True,
           rres_VesselId = uuid_String (gh_uuid h) vesselID\<rparr>, w1))"

definition rs_ReserveCapacity ::
  "'w GRPCHandler \<Rightarrow> ReserveCapacityRequest \<Rightarrow> 'w \<Rightarrow> (goerr + ReservationResponse) option \<times> 'w" where
  "rs_ReserveCapacity h req w =
    (case gh_NewUUID h w of (reservationID, w0) \<Rightarrow>
      (case gh_RetryReserve h (reserve_attempt h (reserve_spec h reservationID req)) w0 of
         (Inl err, w1) \<Rightarrow> (Some (Inl (Errorf ''vessel ReserveCapacity failed'' [err])), w1)
       | (Inr res, w1) \<Rightarrow>
         (case rsp_Vessel res of
            None \<Rightarrow> (None, w1)
          | Some vessel \<Rightarrow>
            (case uuid_Parse (gh_uuid h) (pbv_Id vessel) of
               Inl err \<Rightarrow> (Some (Inl (Errorf ''failed to convert vessel ID to uuid'' [err])), w1)
             | Inr vesselID \<Rightarrow>
               (case uuid_Parse (gh_uuid h) (rcr_ConsignmentId req) of
                  Inl err \<Rightarrow> (Some (Inl (Errorf ''failed to convert consignment ID to uuid'' [err])), w1)
                | Inr consignmentID \<Rightarrow>
                  (case cache_reservation h reservationID vesselID consignmentID vessel req w1 of
                     (r, w2) \<Rightarrow> (Some r, w2)))))))"

definition info_request :: "'w GRPCHandler \<Rightarrow> ReservationInfo \<Rightarrow> PbCapacityRequest" where
  "info_request h reservation = \<lparr>
     pbr_VesselId = uuid_String (gh_uuid h) (info_VesselID reservation),
     pbr_Weight = int32_of_int (info_Weight reservation),
     pbr_NumberOfContainers = int32_of_int (info_NumberOfContainers reservation),
     pbr_ReservationId = uuid_String (gh_uuid h) (info_Id reservation)\<rparr>"

definition get_data_error :: "'w GRPCHandler \<Rightarrow> goerr \<Rightarrow> goerr" where
  "get_data_error h err =
    (if errors_is err (gh_Nil h) then StatusErr NotFound ''reservation not found''
     else StatusErr Internal ''failed to get reservation'')"

definition rs_ReleaseCapacity :: "'w GRPCHandler \<Rightarrow> CapacityActionRequest \<Rightarrow> 'w \<Rightarrow> (goerr + unit) \<times> 'w" where
  "rs_ReleaseCapacity h req w =
    (case rc_GetData (gh_cache h) (car_Id req) w of
       (Inl err, w1) \<Rightarrow> (Inl (get_data_error h err), w1)
     | (Inr reservation, w1) \<Rightarrow>
       (case vc_ReleaseCapacity (gh_vesselCli h) (info_request h reservation) w1 of
          (Inl err, w2) \<Rightarrow> (Inl (Errorf ''vessel ReleaseCapacity failed'' [err]), w2)
        | (Inr _, w2) \<Rightarrow>
          (let i = uuid_String (gh_uuid h) (info_Id reservation);
               w3 = snd (rc_DeleteData (gh_cache h) i w2);
               w4 = snd (rc_DeleteID (gh_cache h) i w3)
           in (Inr (), w4))))"

definition rs_RefreshReservation :: "'w GRPCHandler \<Rightarrow> CapacityActionRequest \<Rightarrow> 'w \<Rightarrow> (goerr + unit) \<times> 'w" where
  "rs_RefreshReservation h req w =
    (case rc_Refresh (gh_cache h) (car_Id req) w of
       (Inl err, w1) \<Rightarrow> (Inl (StatusErr Internal ''failed to refresh reservation''), w1)
     | (Inr refreshed, w1) \<Rightarrow>
         if \<not> refreshed then (Inl (StatusErr NotFound ''reservation expired''), w1) else (Inr (), w1))"

text \<open>The deletion that must not fail is retried; its answer is not looked at.\<close>

definition delete_data_attempt :: "'w GRPCHandler \<Rightarrow> string \<Rightarrow> 'w \<Rightarrow> (goerr + unit) \<times> 'w" where
  "delete_data_attempt h i w =
    (case rc_DeleteData (gh_cache h) i w of (Inl err, w1) \<Rightarrow> (Inl err, w1) | (Inr _, w1) \<Rightarrow> (Inr (), w1))"

definition rs_ConfirmCapacity :: "'w GRPCHandler \<Rightarrow> CapacityActionRequest \<Rightarrow> 'w \<Rightarrow> (goerr + unit) \<times> 'w" where
  "rs_ConfirmCapacity h req w =
    (case rc_GetData (gh_cache h) (car_Id req) w of
       (Inl err, w1) \<Rightarrow> (Inl (get_data_error h err), w1)
     | (Inr reservation, w1) \<Rightarrow>
       (case vc_ConfirmCapacity (gh_vesselCli h) (info_request h reservation) w1 of
          (Inl err, w2) \<Rightarrow> (Inl (Errorf ''vessel ConfirmCapacity failed'' [err]), w2)
        | (Inr _, w2) \<Rightarrow>
          (let i = uuid_String (gh_uuid h) (info_Id reservation);
               w3 = snd (gh_Retry h (delete_data_attempt h i) w2);
               w4 = snd (rc_DeleteID (gh_cache h) i w3)
           in (Inr (), w4))))"

end
