(* ===== verification/Server_Contract.thy ===== *)
theory Server_Contract
  imports Reservation_Server
begin

text \<open>
  What the gRPC handlers of the reservation service do on the wired system: the reserve call and
  its retries hold capacity for the fresh reservation at most once, and the answer names the
  vessel that holds it.
\<close>

section \<open>The server\<close>

text \<open>The handler on a system of \<open>Reservation_System\<close>; \<open>sv_rpc\<close> is the transport of the reserve call.\<close>

record 'w rs_server =
  sv_sys :: "'w rs_system"
  sv_h :: "'w GRPCHandler"
  sv_rpc :: "('w \<Rightarrow> (goerr + PbVesselResponse) \<times> 'w) \<Rightarrow> 'w \<Rightarrow> (goerr + PbVesselResponse) \<times> 'w"

abbreviation sv_cap :: "'w rs_server \<Rightarrow> 'w \<Rightarrow> vdb" where
  "sv_cap s \<equiv> committed (sy_vv (sv_sys s))"

abbreviation sv_store :: "'w rs_server \<Rightarrow> 'w \<Rightarrow> redis_store" where
  "sv_store s \<equiv> rv_store (sy_rv (sv_sys s))"

definition server_wired :: "'w rs_server \<Rightarrow> bool" where
  "server_wired s \<longleftrightarrow>
     gh_cache (sv_h s) = redis_cache (sy_cache (sv_sys s)) \<and>
     gh_uuid (sv_h s) = c_uuid (sy_cache (sv_sys s)) \<and>
     gh_Nil (sv_h s) = rd_Nil (c_client (sy_cache (sv_sys s))) \<and>
     vc_ReserveCapacity (gh_vesselCli (sv_h s)) =
       (\<lambda>q. sv_rpc s (vessel_ReserveCapacity (mongo_repository (sy_mongo (sv_sys s))) q)) \<and>
     vc_ReleaseCapacity (gh_vesselCli (sv_h s)) =
       (\<lambda>q. sy_rpc (sv_sys s) (vessel_ReleaseCapacity (mongo_repository (sy_mongo (sv_sys s))) q)) \<and>
     vc_ConfirmCapacity (gh_vesselCli (sv_h s)) =
       (\<lambda>q. sy_rpc (sv_sys s) (vessel_ConfirmCapacity (mongo_repository (sy_mongo (sv_sys s))) q))"

definition server_independent :: "'w rs_server \<Rightarrow> bool" where
  "server_independent s \<longleftrightarrow>
     (\<forall>w i w'. gh_NewUUID (sv_h s) w = (i, w') \<longrightarrow> cache_idle (sv_sys s) w w' \<and> vessels_idle (sv_sys s) w w') \<and>
     (\<forall>q w r w'. vessel_ReserveCapacity (mongo_repository (sy_mongo (sv_sys s))) q w = (r, w') \<longrightarrow> cache_idle (sv_sys s) w w') \<and>
     (\<forall>k val ttl w r w'. rd_Set (c_client (sy_cache (sv_sys s))) k val ttl w = (r, w') \<longrightarrow> vessels_idle (sv_sys s) w w') \<and>
     (\<forall>k w r w'. rd_Get (c_client (sy_cache (sv_sys s))) k w = (r, w') \<longrightarrow> vessels_idle (sv_sys s) w w')"

definition server_ok :: "'w rs_server \<Rightarrow> bool" where
  "server_ok s \<longleftrightarrow> sys_ok (sv_sys s) \<and> transport_ok (sv_rpc s) \<and> retry_within 3 (gh_Retry (sv_h s)) \<and>
     retry_within 3 (gh_RetryReserve (sv_h s)) \<and> server_wired s \<and> server_independent s"

lemma server_okD:
  assumes "server_ok s"
  shows "sys_ok (sv_sys s)" "transport_ok (sv_rpc s)" "retry_within 3 (gh_Retry (sv_h s))"
    "retry_within 3 (gh_RetryReserve (sv_h s))" "server_wired s" "server_independent s"
  using assms by (simp_all add: server_ok_def)

lemma server_wiredD:
  assumes "server_ok s"
  shows "gh_cache (sv_h s) = redis_cache (sy_cache (sv_sys s))" "gh_uuid (sv_h s) = c_uuid (sy_cache (sv_sys s))"
    "gh_Nil (sv_h s) = rd_Nil (c_client (sy_cache (sv_sys s)))"
    "vc_ReserveCapacity (gh_vesselCli (sv_h s)) q = sv_rpc s (vessel_ReserveCapacity (mongo_repository (sy_mongo (sv_sys s))) q)"
    "vc_ReleaseCapacity (gh_vesselCli (sv_h s)) p = sy_rpc (sv_sys s) (vessel_ReleaseCapacity (mongo_repository (sy_mongo (sv_sys s))) p)"
    "vc_ConfirmCapacity (gh_vesselCli (sv_h s)) p = sy_rpc (sv_sys s) (vessel_ConfirmCapacity (mongo_repository (sy_mongo (sv_sys s))) p)"
  using server_okD(5)[OF assms] by (simp_all add: server_wired_def)

lemma server_independentD:
  assumes "server_ok s"
  shows "gh_NewUUID (sv_h s) w = (i, w') \<Longrightarrow> cache_idle (sv_sys s) w w' \<and> vessels_idle (sv_sys s) w w'"
    and "vessel_ReserveCapacity (mongo_repository (sy_mongo (sv_sys s))) q w = (r, w') \<Longrightarrow> cache_idle (sv_sys s) w w'"
    and "rd_Set (c_client (sy_cache (sv_sys s))) k val ttl w = (u, w') \<Longrightarrow> vessels_idle (sv_sys s) w w'"
    and "rd_Get (c_client (sy_cache (sv_sys s))) k w = (b, w') \<Longrightarrow> vessels_idle (sv_sys s) w w'"
  using server_okD(6)[OF assms] unfolding server_independent_def by - metis+

section \<open>Reserving, with its retries\<close>

text \<open>Vessel \<open>vid\<close> holds the reservation of \<open>spec\<close> in \<open>d'\<close>, which nobody held in \<open>d\<close>.\<close>

definition held_on :: "Specification \<Rightarrow> vdb \<Rightarrow> string \<Rightarrow> vdb \<Rightarrow> bool" where
  "held_on spec d vid d' \<longleftrightarrow> (\<exists>i t. i < length (vessels_of d) \<and> reserve_filter spec (vessels_of d ! i) \<and>
     ID (vessels_of d ! i) = vid \<and> \<not> recorded d (spec_ReservationID spec) opReserve \<and>
     d' = add_op (put_vessel d i (reserve_update spec)) (capacity_operation (spec_ReservationID spec) opReserve vid t))"

lemma held_step: "cap_step (Reserve spec) d d' \<longleftrightarrow> (\<exists>vid. held_on spec d vid d')"
  by (auto simp: held_on_def elim!: cap_reserveE intro: cap_step.reserve)

lemma held_marked: "held_on spec d vid d' \<Longrightarrow> call_marked (Reserve spec) d'"
  by (auto simp: held_on_def call_marked_def)

lemma held_once:
  assumes "held_on spec d vid d'" "op \<in> set (ops_of d')" "is_op (spec_ReservationID spec) opReserve op"
  shows "op_VesselID op = vid"
  using assms by (auto simp: held_on_def recorded_def list_ex_iff)

lemma reserved_held:
  assumes "cap_step (Reserve spec) d d'" "reserved_on spec v d d'"
  shows "held_on spec d (ID v) d'"
proof -
  from assms(1) obtain vid where held: "held_on spec d vid d'" by (auto simp: held_step)
  then have "op_VesselID (hd (ops_of d')) = vid" by (auto simp: held_on_def)
  moreover from assms(2) have "op_VesselID (hd (ops_of d')) = ID v" by (auto simp: reserved_on_def)
  ultimately show ?thesis using held by simp
qed

text \<open>One call of the vessel service's handler.\<close>

definition names_holder :: "PbSpecification \<Rightarrow> (goerr + PbVesselResponse) \<Rightarrow> vdb \<Rightarrow> vdb \<Rightarrow> bool" where
  "names_holder q r d d' \<longleftrightarrow>
     (d' = d \<or> cap_step (Reserve (MarshalSpecification q)) d d') \<and>
     (\<forall>res. r = Inr res \<longrightarrow> (\<exists>v. rsp_Vessel res = Some v \<and>
        (held_on (MarshalSpecification q) d (pbv_Id v) d' \<or>
         d' = d \<and> (\<exists>op \<in> set (ops_of d). is_op (pbs_ReservationId q) opReserve op \<and> op_VesselID op = pbv_Id v))))"

lemma vessel_Reserve_outcome:
  assumes ok: "mongo_ok (R, V)" and run: "vessel_ReserveCapacity (mongo_repository R) q w = (r, w')"
  shows "names_holder q r (committed V w) (committed V w')"
proof -
  obtain r0 w0 where repo: "repo_ReserveCapacity R (MarshalSpecification q) w = (r0, w0)" by fastforce
  note out = repo_ReserveCapacity_outcome[OF ok repo]
  have w0: "w0 = w'" using run repo by (auto simp: vessel_ReserveCapacity_def mongo_repository_def split: sum.splits if_splits)
  show ?thesis
  proof (cases r0)
    case (Inl e)
    with run repo have "\<exists>e'. r = Inl e'" by (auto simp: vessel_ReserveCapacity_def mongo_repository_def split: if_splits)
    with out Inl w0 show ?thesis by (auto simp: names_holder_def reserve_outcome_def)
  next
    case (Inr v)
    with run repo have r: "r = Inr \<lparr>rsp_Vessel = Some (UnmarshalVessel v), rsp_Created = False\<rparr>"
      by (simp add: vessel_ReserveCapacity_def mongo_repository_def)
    have id: "pbv_Id (UnmarshalVessel v) = ID v" "spec_ReservationID (MarshalSpecification q) = pbs_ReservationId q"
      by (simp_all add: UnmarshalVessel_def MarshalSpecification_def)
    from out Inr consider (old) "committed V w0 = committed V w"
        "\<exists>op \<in> set (ops_of (committed V w)). is_op (pbs_ReservationId q) opReserve op \<and> ID v = op_VesselID op"
      | (new) "cap_step (Reserve (MarshalSpecification q)) (committed V w) (committed V w0)"
        "reserved_on (MarshalSpecification q) v (committed V w) (committed V w0)"
      by (auto simp: reserve_outcome_def id)
    then show ?thesis
    proof cases
      case old
      then show ?thesis by (auto simp: names_holder_def r id w0)
    next
      case new
      from new(1) reserved_held[OF new] show ?thesis by (simp add: names_holder_def r id w0)
    qed
  qed
qed

lemma names_holder_marked:
  assumes "names_holder q (Inr res) d d'"
  shows "call_marked (Reserve (MarshalSpecification q)) d'"
proof -
  from assms obtain v :: PbVessel where "held_on (MarshalSpecification q) d (pbv_Id v) d' \<or>
      d' = d \<and> (\<exists>op \<in> set (ops_of d). is_op (pbs_ReservationId q) opReserve op \<and> op_VesselID op = pbv_Id v)"
    unfolding names_holder_def by blast
  moreover have "spec_ReservationID (MarshalSpecification q) = pbs_ReservationId q" by (simp add: MarshalSpecification_def)
  ultimately show ?thesis
    by (elim disjE) (erule held_marked, auto simp: call_marked_def recorded_def list_ex_iff)
qed

text \<open>The same through the transport, and through the closure that makes a missing vessel permanent.\<close>

lemma reserve_attempt_outcome:
  assumes ok: "server_ok s" and run: "reserve_attempt (sv_h s) q w = (r, w')"
  shows "names_holder q r (sv_cap s w) (sv_cap s w')" and "sv_store s w' = sv_store s w"
proof -
  let ?f = "vessel_ReserveCapacity (mongo_repository (sy_mongo (sv_sys s))) q"
  obtain r1 where rpc: "sv_rpc s ?f w = (r1, w')" "r = r1 \<or> (\<exists>e e'. r1 = Inl e \<and> r = Inl e')"
    using run by (auto simp: reserve_attempt_def server_wiredD[OF ok] split: prod.splits sum.splits if_splits)
  have lost: "names_holder q (Inl e) d d'" if "names_holder q r0 d d'" for e r0 d d'
    using that by (simp add: names_holder_def)
  have "names_holder q r (sv_cap s w) (sv_cap s w') \<and> sv_store s w' = sv_store s w"
    using server_okD(2)[OF ok] rpc(1)
  proof (rule transport_cases)
    fix r0 assume f: "?f w = (r0, w')" and r1: "r1 = r0 \<or> (\<exists>e. r1 = Inl e)"
    from vessel_Reserve_outcome[OF sys_okD(3)[OF server_okD(1)[OF ok]] f]
    have "names_holder q r0 (sv_cap s w) (sv_cap s w')" .
    then have "names_holder q r (sv_cap s w) (sv_cap s w')" using r1 rpc(2) lost by blast
    with server_independentD(2)[OF ok f] show ?thesis by (simp add: cache_idle_def)
  next
    assume "w' = w" "\<exists>e. r1 = Inl e"
    with rpc(2) show ?thesis by (auto simp: names_holder_def)
  qed
  then show "names_holder q r (sv_cap s w) (sv_cap s w')" "sv_store s w' = sv_store s w" by simp_all
qed

interpretation rpc_reserve: exactly_once server_ok "\<lambda>s. reserve_attempt (sv_h s)" sv_cap
  "\<lambda>q. call_marked (Reserve (MarshalSpecification q))" "\<lambda>q. cap_step (Reserve (MarshalSpecification q))"
proof unfold_locales
  fix s :: "'a rs_server" and q w r w' res
  assume ok: "server_ok s"
  show "sv_cap s w' = sv_cap s w \<or> cap_step (Reserve (MarshalSpecification q)) (sv_cap s w) (sv_cap s w')"
    if "reserve_attempt (sv_h s) q w = (r, w')"
    using reserve_attempt_outcome(1)[OF ok that] by (simp add: names_holder_def)
  show "call_marked (Reserve (MarshalSpecification q)) (sv_cap s w')" if "reserve_attempt (sv_h s) q w = (Inr res, w')"
    by (rule names_holder_marked[OF reserve_attempt_outcome(1)[OF ok that]])
qed (simp_all add: cap_step_fresh cap_step_marks)

text \<open>The retry loop, for a reservation nobody holds yet.\<close>

lemma reserve_retry_outcome:
  assumes ok: "server_ok s" and run: "gh_RetryReserve (sv_h s) (reserve_attempt (sv_h s) q) w = (r, w')"
    and fresh: "\<not> recorded (sv_cap s w) (pbs_ReservationId q) opReserve"
  shows "sv_cap s w' = sv_cap s w \<or> cap_step (Reserve (MarshalSpecification q)) (sv_cap s w) (sv_cap s w')"
    and "sv_store s w' = sv_store s w"
    and "r = Inr res \<Longrightarrow> \<exists>v. rsp_Vessel res = Some v \<and> held_on (MarshalSpecification q) (sv_cap s w) (pbv_Id v) (sv_cap s w')"
proof -
  show "sv_cap s w' = sv_cap s w \<or> cap_step (Reserve (MarshalSpecification q)) (sv_cap s w) (sv_cap s w')"
    by (rule rpc_reserve.retry_at_most_once[OF ok server_okD(4)[OF ok] run])
  show "sv_store s w' = sv_store s w"
    by (rule retry_keeps[OF server_okD(4)[OF ok] _ _ run, where P = "\<lambda>w w'. sv_store s w' = sv_store s w"])
      (simp_all add: reserve_attempt_outcome(2)[OF ok])
  let ?d = "sv_cap s w" and ?q = "MarshalSpecification q"
  let ?I = "\<lambda>w1. sv_cap s w1 = ?d \<or> (\<exists>vid. held_on ?q ?d vid (sv_cap s w1))"
  have rid: "spec_ReservationID ?q = pbs_ReservationId q" by (simp add: MarshalSpecification_def)
  have keep: "?I w2" if "?I w1" "reserve_attempt (sv_h s) q w1 = (r1, w2)" for w1 r1 w2
  proof -
    have "sv_cap s w2 = sv_cap s w1 \<or> cap_step (Reserve ?q) (sv_cap s w1) (sv_cap s w2)"
      using reserve_attempt_outcome(1)[OF ok that(2)] by (simp add: names_holder_def)
    moreover have "\<not> cap_step (Reserve ?q) (sv_cap s w1) (sv_cap s w2)" if "held_on ?q ?d vid (sv_cap s w1)" for vid
      using held_marked[OF that] cap_step_fresh[of "Reserve ?q" "sv_cap s w1"] by blast
    ultimately show ?thesis using that(1) held_step[of ?q ?d] by metis
  qed
  have done1: "\<exists>v. rsp_Vessel res = Some v \<and> held_on ?q ?d (pbv_Id v) (sv_cap s w2)"
    if I: "?I w1" and att: "reserve_attempt (sv_h s) q w1 = (Inr res, w2)" for w1 res w2
  proof -
    from reserve_attempt_outcome(1)[OF ok att] obtain v where v: "rsp_Vessel res = Some v"
      and held: "held_on ?q (sv_cap s w1) (pbv_Id v) (sv_cap s w2) \<or> sv_cap s w2 = sv_cap s w1 \<and>
        (\<exists>op \<in> set (ops_of (sv_cap s w1)). is_op (pbs_ReservationId q) opReserve op \<and> op_VesselID op = pbv_Id v)"
      by (auto simp: names_holder_def)
    have "held_on ?q ?d (pbv_Id v) (sv_cap s w2)"
    proof (cases "sv_cap s w1 = ?d")
      case True
      with held fresh show ?thesis by (auto simp: recorded_def list_ex_iff)
    next
      case False
      with I obtain vid where h: "held_on ?q ?d vid (sv_cap s w1)" by blast
      then have "recorded (sv_cap s w1) (pbs_ReservationId q) opReserve"
        using held_marked[OF h] rid by (simp add: call_marked_def)
      with held rid held_once[OF h] have "sv_cap s w2 = sv_cap s w1" "pbv_Id v = vid"
        by (auto simp: held_on_def)
      with h show ?thesis by simp
    qed
    with v show ?thesis by blast
  qed
  assume "r = Inr res"
  with run have run': "gh_RetryReserve (sv_h s) (reserve_attempt (sv_h s) q) w = (Inr res, w')" by simp
  from server_okD(4)[OF ok] obtain k where
    "gh_RetryReserve (sv_h s) (reserve_attempt (sv_h s) q) w = attempts k (reserve_attempt (sv_h s) q) w"
    by (rule retry_withinE)
  with run' have "attempts k (reserve_attempt (sv_h s) q) w = (Inr res, w')" by simp
  note att = this
  show "\<exists>v. rsp_Vessel res = Some v \<and> held_on ?q ?d (pbv_Id v) (sv_cap s w')"
  proof (rule attempts_success[where I = ?I and Q = "\<lambda>res w2. \<exists>v. rsp_Vessel res = Some v \<and> held_on ?q ?d (pbv_Id v) (sv_cap s w2)",
      OF _ _ _ att])
    show "?I w" by simp
  qed (erule (1) keep, erule (1) done1)
qed

end
