(* ===== verification/Server_Memory.thy ===== *)
theory Server_Memory
  imports Server_Contract Reservation_Properties
begin

text \<open>
  The gRPC handlers on the in-memory system of \<open>Reservation_Memory\<close>: what the witnesses of their
  properties run.
\<close>

definition mem_handler :: "rmem GRPCHandler" where
  "mem_handler = \<lparr>
     gh_vesselCli = rm_vesselCli mem_mgr\<lparr>vc_ReserveCapacity :=
       (\<lambda>q. mem_rpc (vessel_ReserveCapacity (mongo_repository sys_mongo) q))\<rparr>,
     gh_cache = redis_cache mem_cache,
     gh_NewUUID = (\<lambda>w. (1, w)),
     gh_uuid = mem_uuid,
     gh_RetryReserve = attempts 3,
     gh_Retry = attempts 3,
     gh_Nil = ErrNew ''redis: nil''\<rparr>"

definition mem_server :: "rmem rs_server" where
  "mem_server = \<lparr>sv_sys = mem_sys, sv_h = mem_handler, sv_rpc = mem_rpc\<rparr>"

lemma mem_server_select [simp]: "sv_sys mem_server = mem_sys" "sv_h mem_server = mem_handler"
  by (simp_all add: mem_server_def)

lemma mem_handler_select [simp]:
  "vc_ReserveCapacity (gh_vesselCli mem_handler) = (\<lambda>q. mem_rpc (vessel_ReserveCapacity (mongo_repository sys_mongo) q))"
  "vc_ReleaseCapacity (gh_vesselCli mem_handler) = (\<lambda>q. mem_rpc (vessel_ReleaseCapacity (mongo_repository sys_mongo) q))"
  "vc_ConfirmCapacity (gh_vesselCli mem_handler) = (\<lambda>q. mem_rpc (vessel_ConfirmCapacity (mongo_repository sys_mongo) q))"
  "gh_cache mem_handler = redis_cache mem_cache" "gh_NewUUID mem_handler w = (1, w)" "gh_uuid mem_handler = mem_uuid"
  "gh_RetryReserve mem_handler = attempts 3" "gh_Retry mem_handler = attempts 3"
  by (simp_all add: mem_handler_def mem_mgr_def)

lemma mem_repository_select [simp]:
  "ri_ReserveCapacity (mongo_repository R) = repo_ReserveCapacity R"
  "ri_ReleaseCapacity (mongo_repository R) = repo_ReleaseCapacity R"
  "ri_ConfirmCapacity (mongo_repository R) = repo_ConfirmCapacity R"
  by (simp_all add: mongo_repository_def)

lemma reserve_body_only: "reserve_body sys_mongo q w1 = (r, w2) \<Longrightarrow> only_mongo w w1 \<Longrightarrow> only_mongo w w2"
  unfolding reserve_body_def sys_mongo_def
  by (auto simp: Let_def split: prod.splits sum.splits if_splits) (blast intro: only_mongo_put in_mongo_only)+

lemma vessel_Reserve_only: "vessel_ReserveCapacity (mongo_repository sys_mongo) q w = (r, w') \<Longrightarrow> only_mongo w w'"
  by (auto simp: vessel_ReserveCapacity_def mongo_repository_def repo_ReserveCapacity_def
      sys_start_session split: prod.splits sum.splits if_splits dest: reserve_body_only intro: only_mongo_refl)

lemma mem_server_independent: "server_independent mem_server"
  unfolding server_independent_def
  using only_mongo_idle[OF vessel_Reserve_only]
  by (auto simp: mem_handler_def mem_cache_def mem_redis_def mem_sys_def cache_idle_def vessels_idle_def sys_vv_def
      split: option.splits)

lemma mem_server_ok: "server_ok mem_server"
proof -
  have "transport_ok mem_rpc" by (auto simp: transport_ok_def mem_rpc_def)
  moreover have "server_wired mem_server"
    by (simp add: server_wired_def mem_server_def mem_handler_def mem_mgr_def mem_sys_def mem_cache_def mem_redis_def)
  ultimately show ?thesis
    using mem_sys_ok mem_server_independent
    by (simp add: server_ok_def mem_server_def mem_handler_def retry_within_attempts)
qed

text \<open>A fleet of one vessel with a UUID, nothing reserved and nothing cached; and two requests.\<close>

definition free_db :: vdb where
  "free_db = \<lparr>vessels_of = [sample_vessel\<lparr>ID := ''2''\<rparr>], ops_of = []\<rparr>"

definition free_rmem :: rmem where
  "free_rmem = sample_rmem\<lparr>rx_redis := [], rx_mongo := \<lparr>m_db = free_db, m_tx = free_db, m_commit_lost = False\<rparr>\<rparr>"

definition sample_req :: ReserveCapacityRequest where
  "sample_req = \<lparr>rcr_ConsignmentId = ''3'', rcr_Weight = 60, rcr_NumberOfContainers = 4\<rparr>"

definition held_db :: vdb where
  "held_db = add_op (put_vessel free_db 0 (\<lambda>v. v\<lparr>ReservedWeight := 60, ReservedCapacity := 4\<rparr>))
     (capacity_operation ''1'' opReserve ''2'' 0)"

definition held_rmem :: rmem where
  "held_rmem = free_rmem\<lparr>rx_mongo := \<lparr>m_db = held_db, m_tx = held_db, m_commit_lost = False\<rparr>\<rparr>"

definition cached_rmem :: rmem where
  "cached_rmem = held_rmem\<lparr>rx_redis := [(data_key ''1'', ''info'', 1800), (id_key ''1'', '''', 600)]\<rparr>"

definition held_vessel :: Vessel where
  "held_vessel = sample_vessel\<lparr>ID := ''2'', ReservedWeight := 60, ReservedCapacity := 4\<rparr>"

lemma sample_rmem_up [simp]:
  "rx_vessel_down free_rmem = False" "rx_vessel_down held_rmem = False" "rx_vessel_down cached_rmem = False"
  "rx_mongo free_rmem = \<lparr>m_db = free_db, m_tx = free_db, m_commit_lost = False\<rparr>"
  "rx_mongo cached_rmem = \<lparr>m_db = held_db, m_tx = held_db, m_commit_lost = False\<rparr>"
  by (simp_all add: free_rmem_def held_rmem_def cached_rmem_def)

lemmas run_vessels = repo_ReserveCapacity_def reserve_body_def repo_ReleaseCapacity_def release_body_def
  repo_ConfirmCapacity_def confirm_body_def sys_mongo_def in_mongo_def mem_defs sample_vessel_def reserve_filter_def
  reserve_update_def release_update_def confirm_update_def put_vessel_def add_op_def recorded_def capacity_operation_def has_id_def
  is_op_def opReserve_def opRelease_def opConfirm_def

section \<open>Reserving\<close>

lemma sample_reserve_spec: "MarshalSpecification (reserve_spec mem_handler 1 sample_req) =
    \<lparr>spec_ReservationID = ''1'', spec_Weight = 60, spec_NumberOfContainers = 4\<rparr>"
  by (simp add: MarshalSpecification_def reserve_spec_def sample_req_def int_of_int32_def)

lemma free_repo: "repo_ReserveCapacity sys_mongo \<lparr>spec_ReservationID = ''1'', spec_Weight = 60, spec_NumberOfContainers = 4\<rparr> free_rmem =
    (Inr held_vessel, held_rmem)"
  by (simp add: run_vessels free_db_def held_db_def held_rmem_def held_vessel_def)

lemma free_reserve:
  "gh_RetryReserve mem_handler (reserve_attempt mem_handler (reserve_spec mem_handler 1 sample_req)) free_rmem =
    (Inr \<lparr>rsp_Vessel = Some (UnmarshalVessel held_vessel), rsp_Created = False\<rparr>, held_rmem)"
  by (simp add: numeral_3_eq_3 reserve_attempt_def mem_rpc_def vessel_ReserveCapacity_def sample_reserve_spec free_repo)

lemma mem_parse [simp]:
  "uuid_Parse mem_uuid ''1'' = Inr 1" "uuid_Parse mem_uuid ''2'' = Inr 2" "uuid_Parse mem_uuid ''3'' = Inr 3"
  using uuid_okD[OF mem_uuid_ok, of 1] uuid_okD[OF mem_uuid_ok, of 2] uuid_okD[OF mem_uuid_ok, of 3] by simp_all

lemma mem_parse_empty: "\<exists>e. uuid_Parse mem_uuid '''' = Inl e"
  using nat_digits_nonempty[of "parse_digits ''''"] by (simp add: mem_uuid_def)

lemma free_run: "rs_ReserveCapacity mem_handler sample_req free_rmem =
    (Some (Inr \<lparr>rres_Id = ''1'', rres_Reserved = True, rres_VesselId = ''2''\<rparr>), cached_rmem)"
proof -
  have "rc_Store (redis_cache mem_cache) ''1'' sample_info held_rmem = (Inr (), cached_rmem)"
    by (simp add: redis_cache_def cache_Store_def mem_redis_def table_codec_def cached_rmem_def held_rmem_def free_rmem_def sample_rmem_def)
      (simp add: mem_cache_def)
  moreover have "\<lparr>info_Id = 1, info_VesselID = 2, info_ConsignmentID = 3, info_NumberOfContainers = int_of_int32 4,
      info_Weight = int_of_int32 60\<rparr> = sample_info"
    by (simp add: sample_info_def int_of_int32_def)
  moreover have "pbv_Id (UnmarshalVessel held_vessel) = ''2''" by (simp add: UnmarshalVessel_def held_vessel_def)
  moreover have "rcr_ConsignmentId sample_req = ''3''" "rcr_Weight sample_req = 60" "rcr_NumberOfContainers sample_req = 4"
    by (simp_all add: sample_req_def)
  ultimately show ?thesis
    using free_reserve by (simp add: rs_ReserveCapacity_def cache_reservation_def)
qed

section \<open>Releasing and confirming\<close>

definition sample_action :: PbCapacityRequest where
  "sample_action = \<lparr>pbr_VesselId = ''2'', pbr_Weight = 60, pbr_NumberOfContainers = 4, pbr_ReservationId = ''1''\<rparr>"

lemma cached_get: "rc_GetData (redis_cache mem_cache) ''1'' cached_rmem = (Inr sample_info, cached_rmem)"
  by (simp add: redis_cache_def cache_GetData_def mem_redis_def mx_live_def live_at_def table_codec_def cached_rmem_def
      held_rmem_def free_rmem_def sample_rmem_def)

lemma sample_info_request: "info_request mem_handler sample_info = sample_action"
  by (simp add: info_request_def sample_info_def sample_action_def int32_of_int_def)

lemma cached_release: "\<exists>w. mem_rpc (vessel_ReleaseCapacity (mongo_repository sys_mongo) sample_action) cached_rmem = (Inr (), w)"
  by (simp add: mem_rpc_def vessel_ReleaseCapacity_def sample_action_def MarshalCapacityRequest_def run_vessels
      held_db_def free_db_def)

lemma cached_confirm: "\<exists>w. mem_rpc (vessel_ConfirmCapacity (mongo_repository sys_mongo) sample_action) cached_rmem = (Inr (), w)"
  by (simp add: mem_rpc_def vessel_ConfirmCapacity_def sample_action_def MarshalCapacityRequest_def run_vessels
      held_db_def free_db_def)

lemma release_run: "\<exists>w. rs_ReleaseCapacity mem_handler \<lparr>car_Id = ''1''\<rparr> cached_rmem = (Inr (), w)"
  using cached_release by (auto simp: rs_ReleaseCapacity_def cached_get sample_info_request Let_def)

lemma confirm_run: "\<exists>w. rs_ConfirmCapacity mem_handler \<lparr>car_Id = ''1''\<rparr> cached_rmem = (Inr (), w)"
  using cached_confirm by (auto simp: rs_ConfirmCapacity_def cached_get sample_info_request Let_def)

end
