(* ===== verification/Server_Properties.thy ===== *)
theory Server_Properties
  imports Server_Memory
begin

text \<open>
  The properties of the reservation service's gRPC handlers: what ReserveCapacity leaves behind on
  every branch, that a released reservation restores the fleet, that a bad consignment id leaks
  capacity, and what a confirmation leaves in the cache.
\<close>

section \<open>Steps of the handlers\<close>

lemma release_call:
  assumes ok: "server_ok s" and run: "vc_ReleaseCapacity (gh_vesselCli (sv_h s)) q w = (r, w')"
  shows "sv_cap s w' = sv_cap s w \<or> cap_step (Release (MarshalCapacityRequest q)) (sv_cap s w) (sv_cap s w')"
    and "r = Inr u \<Longrightarrow> call_marked (Release (MarshalCapacityRequest q)) (sv_cap s w')"
  using rpc_release.run_step[OF server_okD(1)[OF ok]] rpc_release.run_marked[OF server_okD(1)[OF ok]] run
  by (auto simp: server_wiredD[OF ok])

lemma release_retried:
  assumes ok: "server_ok s" and run: "gh_Retry (sv_h s) (vc_ReleaseCapacity (gh_vesselCli (sv_h s)) q) w = (r, w')"
  shows "sv_cap s w' = sv_cap s w \<or> cap_step (Release (MarshalCapacityRequest q)) (sv_cap s w) (sv_cap s w')"
  using rpc_release.retry_at_most_once[OF server_okD(1)[OF ok] server_okD(3)[OF ok]] run
  by (simp add: server_wiredD[OF ok])

lemma Store_cap:
  assumes ok: "server_ok s" and run: "rc_Store (gh_cache (sv_h s)) i info w = (r, w')"
  shows "sv_cap s w' = sv_cap s w"
proof -
  have set_cap: "sv_cap s w' = sv_cap s w" if "rd_Set (c_client (sy_cache (sv_sys s))) k val ttl w = (u, w')" for k val ttl w u w'
    using server_independentD(3)[OF ok that] by (simp add: vessels_idle_def)
  show ?thesis using run
    by (auto simp: server_wiredD[OF ok] redis_cache_def cache_Store_def split: prod.splits sum.splits dest!: set_cap)
qed

lemma GetData_cap:
  assumes ok: "server_ok s" and run: "rc_GetData (gh_cache (sv_h s)) i w = (r, w')"
  shows "sv_cap s w' = sv_cap s w"
proof -
  have "sv_cap s w' = sv_cap s w" if "rd_Get (c_client (sy_cache (sv_sys s))) k w = (u, w')" for k w u w'
    using server_independentD(4)[OF ok that] by (simp add: vessels_idle_def)
  with run show ?thesis
    by (auto simp: server_wiredD[OF ok] redis_cache_def cache_GetData_def split: prod.splits sum.splits if_splits)
qed

lemma Del_cap:
  assumes ok: "server_ok s"
  shows "rc_DeleteData (gh_cache (sv_h s)) i w = (r, w') \<Longrightarrow> sv_cap s w' = sv_cap s w"
    and "rc_DeleteID (gh_cache (sv_h s)) i w = (r, w') \<Longrightarrow> sv_cap s w' = sv_cap s w"
proof -
  have del: "sv_cap s w' = sv_cap s w" if "rd_Del (c_client (sy_cache (sv_sys s))) k w = (u, w')" for k w u w'
    using independentD(1)[OF server_okD(1)[OF ok] that] by (simp add: vessels_idle_def)
  show "rc_DeleteData (gh_cache (sv_h s)) i w = (r, w') \<Longrightarrow> sv_cap s w' = sv_cap s w"
    by (auto simp: server_wiredD[OF ok] redis_cache_def cache_DeleteData_def split: prod.splits sum.splits dest: del)
  show "rc_DeleteID (gh_cache (sv_h s)) i w = (r, w') \<Longrightarrow> sv_cap s w' = sv_cap s w"
    by (auto simp: server_wiredD[OF ok] redis_cache_def cache_DeleteID_def split: prod.splits sum.splits dest: del)
qed

text \<open>The reservation a call creates, as the vessel service and as the cache see it.\<close>

abbreviation reserve_call :: "'w rs_server \<Rightarrow> UUID \<Rightarrow> ReserveCapacityRequest \<Rightarrow> Specification" where
  "reserve_call s rid req \<equiv> MarshalSpecification (reserve_spec (sv_h s) rid req)"

definition reserved_info :: "UUID \<Rightarrow> UUID \<Rightarrow> UUID \<Rightarrow> ReserveCapacityRequest \<Rightarrow> ReservationInfo" where
  "reserved_info rid vid cid req = \<lparr>info_Id = rid, info_VesselID = vid, info_ConsignmentID = cid,
     info_NumberOfContainers = int_of_int32 (rcr_NumberOfContainers req), info_Weight = int_of_int32 (rcr_Weight req)\<rparr>"

definition cached :: "'w rs_server \<Rightarrow> 'w \<Rightarrow> string \<Rightarrow> ReservationInfo \<Rightarrow> bool" where
  "cached s w i info \<longleftrightarrow> (\<exists>data d. sv_store s w (data_key i) = Some (data, d) \<and>
     Unmarshal (c_json (sy_cache (sv_sys s))) data = Inr info)"

lemma cache_reservation_outcome:
  assumes ok: "server_ok s" and run: "cache_reservation (sv_h s) rid vid cid v req w = (r, w')"
  shows "r = Inr resp \<Longrightarrow> sv_cap s w' = sv_cap s w \<and> cached s w' (uuid_String (gh_uuid (sv_h s)) rid) (reserved_info rid vid cid req) \<and>
      resp = \<lparr>rres_Id = uuid_String (gh_uuid (sv_h s)) rid, rres_Reserved = True, rres_VesselId = uuid_String (gh_uuid (sv_h s)) vid\<rparr>"
    and "r = Inl e \<Longrightarrow> sv_cap s w' = sv_cap s w \<or>
      cap_step (Release (MarshalCapacityRequest (compensation (sv_h s) rid v req))) (sv_cap s w) (sv_cap s w')"
proof -
  let ?i = "uuid_String (gh_uuid (sv_h s)) rid"
  obtain q w1 where st: "rc_Store (gh_cache (sv_h s)) ?i (reserved_info rid vid cid req) w = (q, w1)" by fastforce
  note same = Store_cap[OF ok st] and R = sys_okD(1)[OF server_okD(1)[OF ok]]
  show "sv_cap s w' = sv_cap s w \<and> cached s w' ?i (reserved_info rid vid cid req) \<and>
      resp = \<lparr>rres_Id = ?i, rres_Reserved = True, rres_VesselId = uuid_String (gh_uuid (sv_h s)) vid\<rparr>" if "r = Inr resp"
  proof -
    from run st that obtain u where q: "q = Inr u" "w' = w1"
      "resp = \<lparr>rres_Id = ?i, rres_Reserved = True, rres_VesselId = uuid_String (gh_uuid (sv_h s)) vid\<rparr>"
      by (auto simp: cache_reservation_def reserved_info_def split: sum.splits prod.splits)
    with st have store: "cache_Store (sy_cache (sv_sys s)) ?i (reserved_info rid vid cid req) w = (Inr u, w1)"
      by (simp add: server_wiredD(1)[OF ok] redis_cache_def)
    show ?thesis
      by (rule cache_Store_stored[OF R store])
        (use q same in \<open>auto simp: cached_def intro: codec_okD[OF redis_okD(7)[OF R]]\<close>)
  qed
  show "sv_cap s w' = sv_cap s w \<or>
      cap_step (Release (MarshalCapacityRequest (compensation (sv_h s) rid v req))) (sv_cap s w) (sv_cap s w')" if "r = Inl e"
  proof -
    obtain q2 w2 where rel: "gh_Retry (sv_h s) (vc_ReleaseCapacity (gh_vesselCli (sv_h s)) (compensation (sv_h s) rid v req)) w1 = (q2, w2)"
      by fastforce
    with run st that have "w' = w2" by (auto simp: cache_reservation_def reserved_info_def split: sum.splits)
    with release_retried[OF ok rel] same show ?thesis by simp
  qed
qed

text \<open>The three ways a call of ReserveCapacity ends, for an id nobody has used.\<close>

lemma server_reserve_cases:
  assumes ok: "server_ok s" and new: "gh_NewUUID (sv_h s) w = (rid, w0)"
    and fresh: "\<not> recorded (sv_cap s w) (uuid_String (gh_uuid (sv_h s)) rid) opReserve"
    and run: "rs_ReserveCapacity (sv_h s) req w = (r, w')"
  obtains (refused) e where "r = Some (Inl e)"
      "sv_cap s w' = sv_cap s w \<or> cap_step (Reserve (reserve_call s rid req)) (sv_cap s w) (sv_cap s w')"
  | (compensated) e d v where "r = Some (Inl e)" "cap_step (Reserve (reserve_call s rid req)) (sv_cap s w) d"
      "sv_cap s w' = d \<or> cap_step (Release (MarshalCapacityRequest (compensation (sv_h s) rid v req))) d (sv_cap s w')"
  | (reserved) resp v vid cid where "r = Some (Inr resp)" "held_on (reserve_call s rid req) (sv_cap s w) v (sv_cap s w')"
      "uuid_Parse (gh_uuid (sv_h s)) v = Inr vid" "uuid_Parse (gh_uuid (sv_h s)) (rcr_ConsignmentId req) = Inr cid"
      "rres_Id resp = uuid_String (gh_uuid (sv_h s)) rid" "cached s w' (rres_Id resp) (reserved_info rid vid cid req)"
proof -
  let ?h = "sv_h s" and ?q = "reserve_spec (sv_h s) rid req"
  have d0: "sv_cap s w0 = sv_cap s w" using server_independentD(1)[OF ok new] by (simp add: vessels_idle_def)
  obtain r1 w1 where ret: "gh_RetryReserve ?h (reserve_attempt ?h ?q) w0 = (r1, w1)" by fastforce
  have rid: "pbs_ReservationId ?q = uuid_String (gh_uuid ?h) rid" by (simp add: reserve_spec_def)
  note out = reserve_retry_outcome[OF ok ret, unfolded d0 rid, OF fresh]
  show thesis
  proof (cases r1)
    case (Inl e)
    with run new ret have "r = Some (Inl (Errorf ''vessel ReserveCapacity failed'' [e]))" "w' = w1"
      by (simp_all add: rs_ReserveCapacity_def)
    with out(1) refused show thesis by blast
  next
    case (Inr res)
    from out(3)[OF Inr] obtain v where v: "rsp_Vessel res = Some v"
      and held: "held_on (reserve_call s rid req) (sv_cap s w) (pbv_Id v) (sv_cap s w1)" by blast
    then have step: "cap_step (Reserve (reserve_call s rid req)) (sv_cap s w) (sv_cap s w1)" by (auto simp: held_step)
    show thesis
    proof (cases "\<exists>vid cid. uuid_Parse (gh_uuid ?h) (pbv_Id v) = Inr vid \<and> uuid_Parse (gh_uuid ?h) (rcr_ConsignmentId req) = Inr cid")
      case False
      with run new ret Inr v obtain e where "r = Some (Inl e)" "w' = w1"
        by (auto simp: rs_ReserveCapacity_def split: sum.splits)
      with step refused show thesis by blast
    next
      case True
      then obtain vid cid where ids: "uuid_Parse (gh_uuid ?h) (pbv_Id v) = Inr vid"
        "uuid_Parse (gh_uuid ?h) (rcr_ConsignmentId req) = Inr cid" by blast
      obtain q w2 where cr: "cache_reservation ?h rid vid cid v req w1 = (q, w2)" by fastforce
      with run new ret Inr v ids have r: "r = Some q" "w' = w2" by (simp_all add: rs_ReserveCapacity_def)
      note res = cache_reservation_outcome[OF ok cr]
      show thesis
      proof (cases q)
        case (Inl e)
        with compensated[OF _ step] r res(2)[OF Inl] show thesis by blast
      next
        case (Inr resp)
        with res(1)[OF Inr] r held have "held_on (reserve_call s rid req) (sv_cap s w) (pbv_Id v) (sv_cap s w')" by simp
        from reserved[OF _ this ids, of resp] res(1)[OF Inr] r Inr show thesis by simp
      qed
    qed
  qed
qed

section \<open>Properties\<close>

text \<open>
  C22. What ReserveCapacity leaves behind. For a reservation id nobody has used, the handler never
  panics; when it succeeds, one vessel with room holds exactly the requested amounts for the id
  it returns, and the cache holds that vessel, the consignment and the same amounts under the
  id; when it fails, the fleet is unchanged, or the capacity is held by one reserve step, or held
  and given back by the compensating release.
\<close>

theorem server_reserve_outcome:
  assumes ok: "server_ok s" and new: "gh_NewUUID (sv_h s) w = (rid, w0)"
    and fresh: "\<not> recorded (sv_cap s w) (uuid_String (gh_uuid (sv_h s)) rid) opReserve"
    and run: "rs_ReserveCapacity (sv_h s) req w = (r, w')"
  shows "r \<noteq> None \<and>
    (\<forall>resp. r = Some (Inr resp) \<longrightarrow> (\<exists>v vid cid.
       held_on (reserve_call s rid req) (sv_cap s w) v (sv_cap s w') \<and>
       uuid_Parse (gh_uuid (sv_h s)) v = Inr vid \<and> uuid_Parse (gh_uuid (sv_h s)) (rcr_ConsignmentId req) = Inr cid \<and>
       rres_Id resp = uuid_String (gh_uuid (sv_h s)) rid \<and>
       cached s w' (rres_Id resp) (reserved_info rid vid cid req))) \<and>
    (\<forall>e. r = Some (Inl e) \<longrightarrow> sv_cap s w' = sv_cap s w \<or>
       cap_step (Reserve (reserve_call s rid req)) (sv_cap s w) (sv_cap s w') \<or>
       (\<exists>d v. cap_step (Reserve (reserve_call s rid req)) (sv_cap s w) d \<and>
          cap_step (Release (MarshalCapacityRequest (compensation (sv_h s) rid v req))) d (sv_cap s w')))"
  by (rule server_reserve_cases[OF ok new fresh run]) auto

lemma free_fresh:
  "\<not> recorded (sv_cap mem_server free_rmem) i k" "committed sys_vv free_rmem = free_db"
  by (simp_all add: sys_vv_def recorded_def free_db_def)

theorem server_reserve_outcome_witness:
  "\<exists>v vid cid. held_on (reserve_call mem_server 1 sample_req) free_db v (sv_cap mem_server cached_rmem) \<and>
     cached mem_server cached_rmem ''1'' (reserved_info 1 vid cid sample_req)"
proof -
  from free_run have run: "rs_ReserveCapacity (sv_h mem_server) sample_req free_rmem =
    (Some (Inr \<lparr>rres_Id = ''1'', rres_Reserved = True, rres_VesselId = ''2''\<rparr>), cached_rmem)" by simp
  from server_reserve_outcome[OF mem_server_ok _ free_fresh(1) run, of 1 free_rmem] show ?thesis
    by (auto simp: free_fresh(2))
qed

text \<open>
  C21. A reservation that is released leaves the fleet as it was. When ReserveCapacity succeeded for
  a new id and ReleaseCapacity of the returned id succeeds later - with nothing in between that
  touches the vessels or the cached entry - every vessel has the counters it had before the
  reservation: the amounts that went through the messages, the cache and back are the same. Vessel
  ids are distinct, and printed the way they parse.
\<close>

theorem reserve_then_release:
  assumes ok: "server_ok s" and new: "gh_NewUUID (sv_h s) w = (rid, w0)"
    and fresh: "\<not> recorded (sv_cap s w) (uuid_String (gh_uuid (sv_h s)) rid) opReserve"
      "\<not> recorded (sv_cap s w) (uuid_String (gh_uuid (sv_h s)) rid) opRelease"
    and ids: "distinct (map ID (vessels_of (sv_cap s w)))"
    and canonical: "\<forall>v vid. v \<in> set (vessels_of (sv_cap s w)) \<and> uuid_Parse (gh_uuid (sv_h s)) (ID v) = Inr vid \<longrightarrow>
      uuid_String (gh_uuid (sv_h s)) vid = ID v"
    and reserved: "rs_ReserveCapacity (sv_h s) req w = (Some (Inr resp), w1)"
    and between: "sv_cap s w2 = sv_cap s w1" "sv_store s w2 (data_key (rres_Id resp)) = sv_store s w1 (data_key (rres_Id resp))"
    and released: "rs_ReleaseCapacity (sv_h s) \<lparr>car_Id = rres_Id resp\<rparr> w2 = (Inr u, w3)"
  shows "vessels_of (sv_cap s w3) = vessels_of (sv_cap s w)"
proof -
  let ?h = "sv_h s" and ?d = "sv_cap s w"
  note R = sys_okD(1)[OF server_okD(1)[OF ok]]
  obtain v vid cid where
    held: "held_on (reserve_call s rid req) ?d v (sv_cap s w1)" and parse: "uuid_Parse (gh_uuid ?h) v = Inr vid"
    and id: "rres_Id resp = uuid_String (gh_uuid ?h) rid"
    and entry: "cached s w1 (rres_Id resp) (reserved_info rid vid cid req)"
    by (rule server_reserve_cases[OF ok new fresh(1) reserved]) simp_all
  from held obtain i t where i: "i < length (vessels_of ?d)" "ID (vessels_of ?d ! i) = v"
    and d1: "sv_cap s w1 = add_op (put_vessel ?d i (reserve_update (reserve_call s rid req)))
      (capacity_operation (uuid_String (gh_uuid ?h) rid) opReserve v t)"
    by (auto simp: held_on_def MarshalSpecification_def reserve_spec_def)
  obtain q wa where get: "rc_GetData (gh_cache ?h) (rres_Id resp) w2 = (q, wa)" by fastforce
  from released get obtain info where info: "q = Inr info" by (cases q) (auto simp: rs_ReleaseCapacity_def)
  obtain q2 wb where call: "vc_ReleaseCapacity (gh_vesselCli ?h) (info_request ?h info) wa = (q2, wb)" by fastforce
  with released get info obtain u2 where q2: "q2 = Inr u2" by (cases q2) (auto simp: rs_ReleaseCapacity_def)
  have w3: "sv_cap s w3 = sv_cap s wb"
    using released get info call q2 Del_cap[OF ok]
    by (auto simp: rs_ReleaseCapacity_def Let_def) (metis prod.collapse)
  have "info = reserved_info rid vid cid req"
    by (rule cache_GetData_value[OF R, of "rres_Id resp" w2 info wa])
      (use get info entry between(2) in \<open>auto simp: server_wiredD(1)[OF ok] redis_cache_def cached_def\<close>)
  then have creq: "MarshalCapacityRequest (info_request ?h info) =
      \<lparr>req_ReservationID = uuid_String (gh_uuid ?h) rid, req_VesselID = v,
       req_Weight = int_of_int32 (rcr_Weight req), req_NumberOfContainers = int_of_int32 (rcr_NumberOfContainers req)\<rparr>"
    using canonical parse i nth_mem[OF i(1)]
    by (auto simp: MarshalCapacityRequest_def info_request_def reserved_info_def)
  have wa: "sv_cap s wa = sv_cap s w1" using GetData_cap[OF ok get] between(1) by simp
  have "\<not> call_marked (Release (MarshalCapacityRequest (info_request ?h info))) (sv_cap s wa)"
    using fresh(2) by (simp add: wa d1 creq call_marked_def opReserve_def opRelease_def)
  then have "cap_step (Release (MarshalCapacityRequest (info_request ?h info))) (sv_cap s w1) (sv_cap s wb)"
    using release_call[OF ok call] q2 wa by metis
  then obtain j where j: "j < length (vessels_of (sv_cap s w1))" "ID (vessels_of (sv_cap s w1) ! j) = v"
    and wb: "vessels_of (sv_cap s wb) = (vessels_of (sv_cap s w1))
      [j := release_update (MarshalCapacityRequest (info_request ?h info)) (vessels_of (sv_cap s w1) ! j)]"
    by (auto simp: has_id_def creq elim!: cap_releaseE)
  have "j = i"
    using j i d1 nth_eq_iff_index_eq[OF ids, of j i] by (simp add: nth_list_update split: if_splits)
  then show ?thesis using w3 wb d1 i(1)
    by (simp add: creq release_update_def reserve_update_def MarshalSpecification_def reserve_spec_def)
qed

theorem reserve_then_release_witness:
  "vessels_of (sv_cap mem_server (snd (rs_ReleaseCapacity mem_handler \<lparr>car_Id = ''1''\<rparr>
     (snd (rs_ReserveCapacity mem_handler sample_req free_rmem))))) = vessels_of free_db"
proof -
  from release_run obtain w where rel: "rs_ReleaseCapacity mem_handler \<lparr>car_Id = ''1''\<rparr> cached_rmem = (Inr (), w)" ..
  have ids: "distinct (map ID (vessels_of (sv_cap mem_server free_rmem)))"
    and canonical: "\<forall>v vid. v \<in> set (vessels_of (sv_cap mem_server free_rmem)) \<and>
      uuid_Parse (gh_uuid (sv_h mem_server)) (ID v) = Inr vid \<longrightarrow> uuid_String (gh_uuid (sv_h mem_server)) vid = ID v"
    by (simp_all add: free_fresh(2)) (simp_all add: free_db_def)
  have run: "rs_ReserveCapacity (sv_h mem_server) sample_req free_rmem =
      (Some (Inr \<lparr>rres_Id = ''1'', rres_Reserved = True, rres_VesselId = ''2''\<rparr>), cached_rmem)"
    and new: "gh_NewUUID (sv_h mem_server) free_rmem = (1, free_rmem)"
    and rel': "rs_ReleaseCapacity (sv_h mem_server) \<lparr>car_Id = rres_Id \<lparr>rres_Id = ''1'', rres_Reserved = True, rres_VesselId = ''2''\<rparr>\<rparr>
      cached_rmem = (Inr (), w)"
    using free_run rel by simp_all
  from reserve_then_release[OF mem_server_ok new free_fresh(1) free_fresh(1) ids canonical run refl refl rel']
  show ?thesis by (simp add: free_run rel free_fresh(2))
qed

text \<open>
  A consignment id that is no UUID leaks capacity. The handler parses the ids only after the
  vessel service has reserved, and returns without the compensating release: the call fails, a
  vessel holds the capacity, and nothing was written to the cache - so neither a client, who never
  learns the id, nor the clean-up job, which only sees cached reservations, gives it back.
\<close>

theorem bad_consignment_id_leaks:
  assumes ok: "server_ok s" and new: "gh_NewUUID (sv_h s) w = (rid, w0)"
    and fresh: "\<not> recorded (sv_cap s w) (uuid_String (gh_uuid (sv_h s)) rid) opReserve"
    and bad: "uuid_Parse (gh_uuid (sv_h s)) (rcr_ConsignmentId req) = Inl e"
    and room: "gh_RetryReserve (sv_h s) (reserve_attempt (sv_h s) (reserve_spec (sv_h s) rid req)) w0 = (Inr res, w1)"
  shows "\<exists>e'. rs_ReserveCapacity (sv_h s) req w = (Some (Inl e'), w1) \<and>
    (\<exists>v. held_on (reserve_call s rid req) (sv_cap s w) v (sv_cap s w1)) \<and> sv_store s w1 = sv_store s w"
proof -
  let ?q = "reserve_spec (sv_h s) rid req"
  have rid: "pbs_ReservationId ?q = uuid_String (gh_uuid (sv_h s)) rid" by (simp add: reserve_spec_def)
  from server_independentD(1)[OF ok new] have w0: "sv_cap s w0 = sv_cap s w" "sv_store s w0 = sv_store s w"
    by (simp_all add: vessels_idle_def cache_idle_def)
  note out = reserve_retry_outcome[OF ok room, unfolded w0 rid, OF fresh]
  from out(3)[OF refl] obtain v where v: "rsp_Vessel res = Some v"
    and held: "held_on (reserve_call s rid req) (sv_cap s w) (pbv_Id v) (sv_cap s w1)" by blast
  from new room v bad have "\<exists>e'. rs_ReserveCapacity (sv_h s) req w = (Some (Inl e'), w1)"
    by (simp add: rs_ReserveCapacity_def split: sum.splits)
  with held out(2) show ?thesis by blast
qed

theorem bad_consignment_id_leaks_witness:
  "\<exists>e v. rs_ReserveCapacity mem_handler (sample_req\<lparr>rcr_ConsignmentId := ''''\<rparr>) free_rmem = (Some (Inl e), held_rmem) \<and>
     held_on (reserve_call mem_server 1 (sample_req\<lparr>rcr_ConsignmentId := ''''\<rparr>)) free_db v (sv_cap mem_server held_rmem)"
proof -
  let ?req = "sample_req\<lparr>rcr_ConsignmentId := ''''\<rparr>"
  have spec: "reserve_spec mem_handler 1 ?req = reserve_spec mem_handler 1 sample_req" by (simp add: reserve_spec_def)
  from mem_parse_empty obtain e where "uuid_Parse (gh_uuid (sv_h mem_server)) (rcr_ConsignmentId ?req) = Inl e" by auto
  from bad_consignment_id_leaks[OF mem_server_ok _ free_fresh(1) this, of 1 free_rmem] free_reserve spec
  show ?thesis by (auto simp: free_fresh(2))
qed

text \<open>
  A successful confirmation is recorded, and protected from the clean-up job unless the cache
  refused four times. When ConfirmCapacity returns nil, the confirm operation of the cached
  reservation is recorded with the vessel service, and either the reservation's data is gone -
  GetExpired cannot find it, so the job never releases it - or every attempt to delete it failed,
  which is only logged.
\<close>

theorem confirm_protects:
  assumes ok: "server_ok s" and run: "rs_ConfirmCapacity (sv_h s) req w = (Inr u, w')"
  shows "\<exists>info w1 w2. rc_GetData (gh_cache (sv_h s)) (car_Id req) w = (Inr info, w1) \<and>
    vc_ConfirmCapacity (gh_vesselCli (sv_h s)) (info_request (sv_h s) info) w1 = (Inr (), w2) \<and>
    call_marked (Confirm (MarshalCapacityRequest (info_request (sv_h s) info))) (sv_cap s w') \<and>
    (uuid_String (gh_uuid (sv_h s)) (info_Id info) \<notin> cache_data (sy_cache (sv_sys s), sy_rv (sv_sys s)) w' \<or>
     (\<exists>e. fst (gh_Retry (sv_h s) (delete_data_attempt (sv_h s) (uuid_String (gh_uuid (sv_h s)) (info_Id info))) w2) = Inl e))"
proof -
  let ?h = "sv_h s" and ?has = "cache_data (sy_cache (sv_sys s), sy_rv (sv_sys s))"
  note R = sys_okD(1)[OF server_okD(1)[OF ok]] and C = server_wiredD(1)[OF ok]
  obtain q w1 where get: "rc_GetData (gh_cache ?h) (car_Id req) w = (q, w1)" by fastforce
  from run get obtain info where info: "q = Inr info" by (cases q) (auto simp: rs_ConfirmCapacity_def)
  let ?i = "uuid_String (gh_uuid ?h) (info_Id info)"
  obtain q2 w2 where call: "vc_ConfirmCapacity (gh_vesselCli ?h) (info_request ?h info) w1 = (q2, w2)" by fastforce
  with run get info obtain u2 where q2: "q2 = Inr u2" by (cases q2) (auto simp: rs_ConfirmCapacity_def)
  obtain q3 w3 where del: "gh_Retry ?h (delete_data_attempt ?h ?i) w2 = (q3, w3)" by fastforce
  obtain q4 w4 where del2: "rc_DeleteID (gh_cache ?h) ?i w3 = (q4, w4)" by fastforce
  have w': "w' = w4" using run get info call q2 del del2 by (simp add: rs_ConfirmCapacity_def Let_def)
  have att: "sv_cap s wb = sv_cap s wa" if "delete_data_attempt ?h ?i wa = (r, wb)" for wa r wb
    using that Del_cap(1)[OF ok] by (auto simp: delete_data_attempt_def split: prod.splits sum.splits)
  have "sv_cap s w3 = sv_cap s w2"
    by (rule retry_keeps[OF server_okD(3)[OF ok] _ _ del, where P = "\<lambda>w w'. sv_cap s w' = sv_cap s w"]) (simp_all add: att)
  with Del_cap(2)[OF ok del2] have "sv_cap s w' = sv_cap s w2" by (simp add: w')
  moreover have "call_marked (Confirm (MarshalCapacityRequest (info_request ?h info))) (sv_cap s w2)"
    using rpc_confirm.run_marked[OF server_okD(1)[OF ok]] call q2 by (simp add: server_wiredD[OF ok])
  moreover have "?i \<notin> ?has w'" if "q3 = Inr x" for x
  proof -
    from server_okD(3)[OF ok] obtain k where "gh_Retry ?h (delete_data_attempt ?h ?i) w2 = attempts k (delete_data_attempt ?h ?i) w2"
      by (rule retry_withinE)
    with del that have att: "attempts k (delete_data_attempt ?h ?i) w2 = (Inr x, w3)" by simp
    have "?i \<notin> ?has w3"
      by (rule attempts_success[where I = "\<lambda>_. True" and Q = "\<lambda>_ w. ?i \<notin> ?has w", OF _ _ _ att])
        (use redis.delete_data_gone[OF R, unfolded fst_conv] in \<open>auto simp: delete_data_attempt_def C split: prod.splits sum.splits\<close>)
    moreover have "?has w4 \<subseteq> ?has w3" using redis.delete_id[OF R, unfolded fst_conv] del2 by (simp add: C)
    ultimately show ?thesis by (auto simp: w')
  qed
  ultimately show ?thesis using get info call q2 del by (cases q3) (auto intro!: exI[of _ info] exI[of _ w1] exI[of _ w2])
qed

theorem confirm_protects_witness:
  "recorded (sv_cap mem_server (snd (rs_ConfirmCapacity mem_handler \<lparr>car_Id = ''1''\<rparr> cached_rmem))) ''1'' opConfirm"
proof -
  from confirm_run obtain w where run: "rs_ConfirmCapacity mem_handler \<lparr>car_Id = ''1''\<rparr> cached_rmem = (Inr (), w)" ..
  with confirm_protects[OF mem_server_ok, of "\<lparr>car_Id = ''1''\<rparr>" cached_rmem] show ?thesis
    by (auto simp: cached_get sample_info_request sample_action_def MarshalCapacityRequest_def call_marked_def)
qed

text \<open>
  RefreshReservation says "expired" exactly when it is. It returns nil only for a reservation
  whose identifier was live during the call, and then the identifier gets the full lifetime again;
  the NotFound error means the identifier was gone, and nothing changes; any other outcome is the
  Internal error.
\<close>

theorem refresh_outcome:
  assumes ok: "server_ok s" and run: "rs_RefreshReservation (sv_h s) req w = (r, w')"
  shows "\<exists>t. rv_now (sy_rv (sv_sys s)) w \<le> t \<and> t \<le> rv_now (sy_rv (sv_sys s)) w' \<and>
    (case r of
       Inr _ \<Rightarrow> live_at t (sv_store s w) (id_key (car_Id req)) \<noteq> None \<and>
         (\<exists>val. sv_store s w' = (sv_store s w)
            (id_key (car_Id req) \<mapsto> (val, t + c_reservationTTL (sy_cache (sv_sys s)))))
     | Inl e \<Rightarrow> e = StatusErr Internal ''failed to refresh reservation'' \<or>
         e = StatusErr NotFound ''reservation expired'' \<and>
         live_at t (sv_store s w) (id_key (car_Id req)) = None \<and> sv_store s w' = sv_store s w)"
proof -
  let ?c = "sy_cache (sv_sys s)"
  obtain q w1 where e: "rd_Expire (c_client ?c) (id_key (car_Id req)) (c_reservationTTL ?c) w = (q, w1)" by fastforce
  have r: "w' = w1" "r = (case q of Inl _ \<Rightarrow> Inl (StatusErr Internal ''failed to refresh reservation'')
      | Inr b \<Rightarrow> if b then Inr () else Inl (StatusErr NotFound ''reservation expired''))"
    using run e by (auto simp: rs_RefreshReservation_def server_wiredD(1)[OF ok] redis_cache_def cache_Refresh_def split: sum.splits if_splits)
  obtain t where t: "rv_now (sy_rv (sv_sys s)) w \<le> t" "t \<le> rv_now (sy_rv (sv_sys s)) w1"
    "sv_store s w1 = sv_store s w \<or> (\<exists>val. live_at t (sv_store s w) (id_key (car_Id req)) = Some val \<and>
       sv_store s w1 = (sv_store s w)(id_key (car_Id req) \<mapsto> (val, t + c_reservationTTL ?c)))"
    "\<And>b. q = Inr b \<Longrightarrow> b \<longleftrightarrow> live_at t (sv_store s w) (id_key (car_Id req)) \<noteq> None"
    "q = Inr True \<Longrightarrow> \<exists>val. sv_store s w1 = (sv_store s w)(id_key (car_Id req) \<mapsto> (val, t + c_reservationTTL ?c))"
    by (rule expire_outcome[OF sys_okD(1)[OF server_okD(1)[OF ok]] e]) (rule that)
  then show ?thesis unfolding r by (intro exI[of _ t]) (auto split: sum.splits)
qed

theorem refresh_outcome_witness:
  "\<exists>t. live_at t (sv_store mem_server cached_rmem) (id_key ''1'') \<noteq> None"
proof -
  obtain w where run: "rs_RefreshReservation (sv_h mem_server) \<lparr>car_Id = ''1''\<rparr> cached_rmem = (Inr (), w)"
    by (simp add: rs_RefreshReservation_def redis_cache_def cache_Refresh_def mem_redis_def mx_live_def live_at_def
        cached_rmem_def held_rmem_def free_rmem_def sample_rmem_def)
  from refresh_outcome[OF mem_server_ok run] show ?thesis by auto
qed

end
