(* ===== verification/Outbox_Properties.thy ===== *)
theory Outbox_Properties
  imports Reservation_Memory
begin

text \<open>
  The properties of the reservation service's outbox: events are handed to one publisher at a time,
  until the database's clock passes the lease, whatever the instances do to the table meanwhile; and
  nothing is marked published that Kafka has not acknowledged. The publisher contract is
  interpreted on the PostgreSQL repository and the Kafka producer.
\<close>

section \<open>The publisher of the reservation service\<close>

record 'w pub_system =
  pb_db :: "'w PgPool"
  pb_pv :: "'w pgview"
  pb_producer :: "'w ProducerClient"
  pb_CtxErr :: "'w \<Rightarrow> goerr option"
  pb_Now :: "'w \<Rightarrow> time"
  pb_sent :: "'w \<Rightarrow> (string \<times> string \<times> bytes) set"

definition pub_mgr :: "'w pub_system \<Rightarrow> (OutboxEvent, 'w) OutboxManager" where
  "pub_mgr s = \<lparr>om_outbox = postgres_outbox (pb_db s), om_Produce = Produce (pb_producer s),
     om_CtxErr = pb_CtxErr s, om_Now = pb_Now s\<rparr>"

text \<open>The broker and the database are different servers.\<close>

definition producer_ok :: "'w pub_system \<Rightarrow> bool" where
  "producer_ok s \<longleftrightarrow> producer_law (pb_producer s) (pb_sent s) (pv_rows (pb_pv s))"

definition db_keeps_sent :: "'w pub_system \<Rightarrow> bool" where
  "db_keeps_sent s \<longleftrightarrow>
     (\<forall>p f w r w'. pg_Update (pb_db s) p f w = (r, w') \<longrightarrow> pb_sent s w' = pb_sent s w) \<and>
     (\<forall>w r w'. pg_Begin (pb_db s) w = (r, w') \<longrightarrow> pb_sent s w' = pb_sent s w) \<and>
     (\<forall>p key w r w'. pg_Query (pb_db s) p key w = (r, w') \<longrightarrow> pb_sent s w' = pb_sent s w) \<and>
     (\<forall>p f w r w'. pg_TxUpdate (pb_db s) p f w = (r, w') \<longrightarrow> pb_sent s w' = pb_sent s w) \<and>
     (\<forall>w r w'. pg_Commit (pb_db s) w = (r, w') \<longrightarrow> pb_sent s w' = pb_sent s w) \<and>
     (\<forall>w. pb_sent s (pg_Rollback (pb_db s) w) = pb_sent s w)"

definition pub_ok :: "'w pub_system \<Rightarrow> bool" where
  "pub_ok s \<longleftrightarrow> pg_ok (pb_db s, pb_pv s) \<and> producer_ok s \<and> db_keeps_sent s"

lemma pub_produce:
  assumes "pub_ok s" "Produce (pb_producer s) t k x hds w = (r, w')"
  shows "pb_sent s w \<subseteq> pb_sent s w'" "pv_rows (pb_pv s) w' = pv_rows (pb_pv s) w"
    "r = Inr () \<Longrightarrow> (t, k, x) \<in> pb_sent s w'"
proof -
  from assms(1) have "producer_law (pb_producer s) (pb_sent s) (pv_rows (pb_pv s))" by (simp add: pub_ok_def producer_ok_def)
  from Produce_law[OF this assms(2)] show "pb_sent s w \<subseteq> pb_sent s w'" "pv_rows (pb_pv s) w' = pv_rows (pb_pv s) w"
    "r = Inr () \<Longrightarrow> (t, k, x) \<in> pb_sent s w'" .
qed

lemma pub_db_sent:
  assumes "pub_ok s"
  shows "db_MarkPublished (pb_db s) i w = (r, w') \<Longrightarrow> pb_sent s w' = pb_sent s w"
    and "db_GetPendingEvents (pb_db s) l w = (r', w') \<Longrightarrow> pb_sent s w' = pb_sent s w"
proof -
  from assms have K: "db_keeps_sent s" by (simp add: pub_ok_def)
  show "db_MarkPublished (pb_db s) i w = (r, w') \<Longrightarrow> pb_sent s w' = pb_sent s w"
    using K unfolding db_keeps_sent_def db_MarkPublished_def
    by (auto split: prod.splits sum.splits if_splits)
  have rb: "pb_sent s (pg_Rollback (pb_db s) x) = pb_sent s x" for x using K by (simp add: db_keeps_sent_def)
  have bg: "pb_sent s y = pb_sent s x" if "pg_Begin (pb_db s) x = (r, y)" for r x y
    using K that by (simp add: db_keeps_sent_def)
  have qu: "pb_sent s y = pb_sent s x" if "pg_Query (pb_db s) p key x = (r, y)" for p key r x y
    using K that unfolding db_keeps_sent_def by metis
  have up: "pb_sent s y = pb_sent s x" if "pg_TxUpdate (pb_db s) p f x = (r, y)" for p f r x y
    using K that unfolding db_keeps_sent_def by metis
  have cm: "pb_sent s y = pb_sent s x" if "pg_Commit (pb_db s) x = (r, y)" for r x y
    using K that unfolding db_keeps_sent_def by metis
  have body: "pb_sent s y = pb_sent s x" if "claim_body (pb_db s) l x = (r, y)" for r x y
    using that
  proof (cases rule: claim_body_cases)
    case (early q) then show ?thesis using qu by blast
  next
    case (update rs w1 es e) then show ?thesis using qu up by metis
  next
    case (commit rs w1 es n w2 c) then show ?thesis using qu up cm by metis
  qed
  show "db_GetPendingEvents (pb_db s) l w = (r', w') \<Longrightarrow> pb_sent s w' = pb_sent s w"
  proof -
    assume run: "db_GetPendingEvents (pb_db s) l w = (r', w')"
    obtain r0 w0 where b: "pg_Begin (pb_db s) w = (r0, w0)" by fastforce
    show "pb_sent s w' = pb_sent s w"
    proof (cases r0)
      case (Inl e)
      with run b bg[OF b] show ?thesis by (simp add: db_GetPendingEvents_def)
    next
      case (Inr u)
      obtain r1 w1 where c: "claim_body (pb_db s) l w0 = (r1, w1)" by fastforce
      with run b Inr have "w' = pg_Rollback (pb_db s) w1" by (simp add: db_GetPendingEvents_def)
      with rb bg[OF b] body[OF c] show ?thesis by simp
    qed
  qed
qed

interpretation pub: outbox_publisher pub_ok "\<lambda>s. postgres_outbox (pb_db s)" "\<lambda>s. pg_rows (pb_db s, pb_pv s)" pub_mgr pb_sent
proof unfold_locales
  fix s :: "'a pub_system" and e :: OutboxEvent and w w' i l es u t k p hds
    and r :: "goerr + unit" and r' :: "goerr + OutboxEvent list"
  show "om_outbox (pub_mgr s) = postgres_outbox (pb_db s)" by (simp add: pub_mgr_def)
  assume ok: "pub_ok s"
  then have D: "pg_ok (pb_db s, pb_pv s)" by (simp add: pub_ok_def)
  let ?rows = "pg_rows (pb_db s, pb_pv s)"
  show "ob_CreateEvent (postgres_outbox (pb_db s)) e w = (r, w') \<Longrightarrow>
      ?rows w' = ?rows w \<or> (\<exists>i. i \<notin> row_id ` set (?rows w) \<and> ?rows w' = ?rows w @ [new_row i e])"
    using pg.create[OF D] by simp
  show "ob_CreateEvent (postgres_outbox (pb_db s)) e w = (Inr u, w') \<Longrightarrow> pending_for (oe_Topic e) (oe_Key e) (?rows w')"
    using pg.create_pending[OF D] by simp
  show "ob_MarkPublished (postgres_outbox (pb_db s)) i w = (r, w') \<Longrightarrow>
      ?rows w' = ?rows w \<or> ?rows w' = map (mark_row i) (?rows w)"
    using pg.mark[OF D] by simp
  show "ob_MarkPublished (postgres_outbox (pb_db s)) i w = (Inr u, w') \<Longrightarrow> ?rows w' = map (mark_row i) (?rows w)"
    using pg.mark_done[OF D] by simp
  show "ob_GetPendingEvents (postgres_outbox (pb_db s)) l w = (r', w') \<Longrightarrow> ?rows w' = ?rows w"
    using pg.pending_rows[OF D] by simp
  show "ob_GetPendingEvents (postgres_outbox (pb_db s)) l w = (Inr es, w') \<Longrightarrow> e \<in> set es \<Longrightarrow> event_row e \<in> set (?rows w)"
    using pg.pending_events[OF D] by simp
  show "distinct (map row_id (?rows w))"
    using D by (simp add: pg_ok_def pg_rows_def abs_row_def comp_def)
  show "om_Produce (pub_mgr s) t k p hds w = (r, w') \<Longrightarrow> ?rows w' = ?rows w"
    using pub_produce(2)[OF ok] by (simp add: pub_mgr_def pg_rows_def)
  show "om_Produce (pub_mgr s) t k p hds w = (r, w') \<Longrightarrow>
      pb_sent s w \<subseteq> pb_sent s w' \<and> (r = Inr () \<longrightarrow> (t, k, p) \<in> pb_sent s w')"
    using pub_produce(1,3)[OF ok, of t k p hds w r w'] by (simp add: pub_mgr_def)
  show "ob_MarkPublished (postgres_outbox (pb_db s)) i w = (r, w') \<Longrightarrow> pb_sent s w' = pb_sent s w"
    using pub_db_sent(1)[OF ok] by (simp add: postgres_outbox_def)
  show "ob_GetPendingEvents (postgres_outbox (pb_db s)) l w = (r', w') \<Longrightarrow> pb_sent s w' = pb_sent s w"
    using pub_db_sent(2)[OF ok] by (simp add: postgres_outbox_def)
qed

section \<open>Sample runs\<close>

text \<open>One pending row; a producer whose broker takes every message.\<close>

definition pending_row :: pg_row where
  "pending_row = \<lparr>pgr_id = 7, pgr_topic = ''t'', pgr_key = ''k'', pgr_payload = ''p'', pgr_trace = [],
     pgr_created = 0, pgr_published = None, pgr_until = None\<rparr>"

definition pending_rmem :: rmem where
  "pending_rmem = \<lparr>rx_redis = [], rx_now = 0, rx_rows = [pending_row], rx_tx = [],
     rx_mongo = sample_world, rx_sent = [], rx_del_lost = False, rx_outbox_down = False, rx_vessel_down = False\<rparr>"

definition mem_producer :: "rmem ProducerClient" where
  "mem_producer = \<lparr>kp_Produce = \<lambda>t k x hds w. (Inr (), w\<lparr>rx_sent := (t, k, x) # rx_sent w\<rparr>),
     kp_Select = \<lambda>w. (DeliveryReport None, w), kp_ErrorCode = \<lambda>_. None\<rparr>"

definition mem_pub :: "rmem pub_system" where
  "mem_pub = \<lparr>pb_db = mem_pg, pb_pv = mem_pv, pb_producer = mem_producer, pb_CtxErr = \<lambda>_. None, pb_Now = rx_now,
     pb_sent = \<lambda>w. set (rx_sent w)\<rparr>"

lemma mem_pub_ok: "pub_ok mem_pub"
proof -
  have "producer_ok mem_pub"
    by (auto simp: producer_ok_def producer_law_def mem_pub_def mem_producer_def mem_pv_def mx_valid_def)
  moreover have "db_keeps_sent mem_pub"
    by (auto simp: db_keeps_sent_def mem_pub_def mem_pg_def Let_def split: if_splits)
  ultimately show ?thesis using mem_pg_ok by (simp add: pub_ok_def mem_pub_def)
qed

definition leased_rmem :: "time \<Rightarrow> rmem" where
  "leased_rmem u = pending_rmem\<lparr>rx_rows := [pending_row\<lparr>pgr_until := Some u\<rparr>], rx_tx := [pending_row\<lparr>pgr_until := Some u\<rparr>]\<rparr>"

lemma pending_claim: "db_GetPendingEvents mem_pg u pending_rmem = (Inr [scan_row pending_row], leased_rmem u)"
  by (simp add: db_GetPendingEvents_def claim_body_def mem_pg_def mem_pv_def mx_valid_def pending_rmem_def pending_row_def
      leased_rmem_def claimable_def where_set_def scan_row_def)

lemma pending_claim_again: "db_GetPendingEvents mem_pg l (leased_rmem 30) = (Inr [], leased_rmem 30)"
  by (simp add: db_GetPendingEvents_def claim_body_def mem_pg_def mem_pv_def mx_valid_def pending_rmem_def pending_row_def
      leased_rmem_def claimable_def)

definition published_row :: pg_row where
  "published_row = pending_row\<lparr>pgr_until := Some outboxLeaseDuration, pgr_published := Some 0\<rparr>"

definition published_rmem :: rmem where
  "published_rmem = (leased_rmem outboxLeaseDuration)\<lparr>rx_rows := [published_row], rx_sent := [(''t'', ''k'', ''p'')]\<rparr>"

lemma pending_publish: "publishOutbox (pub_mgr mem_pub) pending_rmem = (Inr (), published_rmem)"
  by (simp add: publishOutbox_def pub_mgr_def mem_pub_def postgres_outbox_def pending_claim)
     (simp add: scan_row_def pending_row_def Produce_def mem_producer_def db_MarkPublished_def mem_pg_def
        publishCtx_Err_def outboxPublishDeadline_def leased_rmem_def mx_valid_def where_set_def pending_rmem_def published_rmem_def published_row_def)

section \<open>Properties\<close>

text \<open>
  C10. The outbox publisher delivers before it marks. Whatever fails in a pass of publishOutbox -
  the claim, the deadline, a delivery, the broker, the mark - no row is lost or altered, and a row
  that is marked published after the pass was marked before or its topic, key and payload have
  been acknowledged by Kafka: every event is delivered at least once.
\<close>

theorem publisher_at_least_once:
  assumes "pub_ok s" and "publishOutbox (pub_mgr s) w = (r, w')"
  shows "\<exists>f. pg_rows (pb_db s, pb_pv s) w' = map f (pg_rows (pb_db s, pb_pv s) w) \<and>
    (\<forall>row \<in> set (pg_rows (pb_db s, pb_pv s) w).
       row_id (f row) = row_id row \<and> row_message (f row) = row_message row \<and>
       (row_published row \<longrightarrow> row_published (f row)) \<and>
       (row_published (f row) \<longrightarrow> row_published row \<or> row_message row \<in> pb_sent s w'))"
  using pub.publishOutbox_delivered[OF assms] unfolding pub.delivered_first_def by blast

theorem publisher_at_least_once_witness:
  "\<exists>row. pg_rows (mem_pg, mem_pv) (snd (publishOutbox (pub_mgr mem_pub) pending_rmem)) = [row] \<and>
     row_published row \<and> row_message row \<in> pb_sent mem_pub (snd (publishOutbox (pub_mgr mem_pub) pending_rmem))"
proof -
  obtain f where f: "pg_rows (mem_pg, mem_pv) published_rmem = map f (pg_rows (mem_pg, mem_pv) pending_rmem)"
    "\<forall>row \<in> set (pg_rows (mem_pg, mem_pv) pending_rmem). row_message (f row) = row_message row \<and>
       (row_published (f row) \<longrightarrow> row_published row \<or> row_message row \<in> pb_sent mem_pub published_rmem)"
    using publisher_at_least_once[OF mem_pub_ok pending_publish] by (auto simp: mem_pub_def)
  have rows: "pg_rows (mem_pg, mem_pv) pending_rmem = [abs_row pending_row]"
    "pg_rows (mem_pg, mem_pv) published_rmem = [abs_row published_row]"
    by (simp_all add: pg_rows_def mem_pv_def mx_valid_def pending_rmem_def published_rmem_def)
  have fr: "f (abs_row pending_row) = abs_row published_row" using f(1) rows by simp
  have "row_message (abs_row pending_row) \<in> pb_sent mem_pub published_rmem"
    using f(2) fr by (simp add: rows) (simp add: abs_row_def published_row_def pending_row_def)
  moreover have "row_message (abs_row published_row) = row_message (abs_row pending_row)" "row_published (abs_row published_row)"
    by (simp_all add: abs_row_def published_row_def row_message_def)
  ultimately show ?thesis by (simp add: pending_publish rows)
qed

section \<open>Leases\<close>

text \<open>
  What happens to the table between two claims: calls of any instance of the service - events
  created, events marked, other claims, each with any answer - and steps that leave the table alone,
  in any order and number. The database's clock does not go back.
\<close>

inductive table_steps :: "'w PgPool \<Rightarrow> 'w pgview \<Rightarrow> 'w \<Rightarrow> 'w \<Rightarrow> bool" for db :: "'w PgPool" and v :: "'w pgview" where
  steps_none: "table_steps db v w w"
| steps_create: "table_steps db v w x \<Longrightarrow> db_CreateEvent db e x = (r, y) \<Longrightarrow> pv_now v x \<le> pv_now v y \<Longrightarrow> table_steps db v w y"
| steps_mark: "table_steps db v w x \<Longrightarrow> db_MarkPublished db i x = (r, y) \<Longrightarrow> pv_now v x \<le> pv_now v y \<Longrightarrow> table_steps db v w y"
| steps_claim: "table_steps db v w x \<Longrightarrow> db_GetPendingEvents db l x = (q, y) \<Longrightarrow> table_steps db v w y"
| steps_other: "table_steps db v w x \<Longrightarrow> pv_rows v y = pv_rows v x \<Longrightarrow> pv_now v x \<le> pv_now v y \<Longrightarrow> table_steps db v w y"

text \<open>
  Rows held until \<open>u\<close>: they are in the table, and as long as the database's clock has not passed
  \<open>u\<close>, each is published or has a lease of \<open>u\<close>. No step takes that away.
\<close>

definition held_row :: "time \<Rightarrow> pg_row \<Rightarrow> bool" where
  "held_row u r \<longleftrightarrow> pgr_published r \<noteq> None \<or> pgr_until r = Some u"

definition held_until :: "time \<Rightarrow> UUID set \<Rightarrow> time \<Rightarrow> pg_row list \<Rightarrow> bool" where
  "held_until u ids now rs \<longleftrightarrow> ids \<subseteq> pgr_id ` set rs \<and>
     (now \<le> u \<longrightarrow> (\<forall>r \<in> set rs. pgr_id r \<in> ids \<longrightarrow> held_row u r))"

lemma held_row_not_claimable: "held_row u r \<Longrightarrow> t \<le> u \<Longrightarrow> \<not> claimable t r"
  by (auto simp: held_row_def claimable_def)

lemma held_later: "held_until u ids now rs \<Longrightarrow> now \<le> now' \<Longrightarrow> held_until u ids now' rs"
  by (simp add: held_until_def)

lemma where_set_ids: "(\<And>r. pgr_id (f r) = pgr_id r) \<Longrightarrow> pgr_id ` set (where_set p f rs) = pgr_id ` set rs"
proof -
  assume "\<And>r. pgr_id (f r) = pgr_id r"
  then have "pgr_id (if p r then f r else r) = pgr_id r" for r by simp
  then show ?thesis unfolding where_set_def list.set_map image_image by (simp only:)
qed

lemma held_update:
  assumes "held_until u ids now rs"
    and "\<And>r. pgr_id (f r) = pgr_id r" "\<And>r. r \<in> set rs \<Longrightarrow> pgr_id r \<in> ids \<Longrightarrow> now \<le> u \<Longrightarrow> p r \<Longrightarrow> held_row u r \<Longrightarrow> held_row u (f r)"
  shows "held_until u ids now (where_set p f rs)"
  using assms where_set_ids[of f p rs] by (auto simp: held_until_def where_set_def)

lemma held_lease:
  assumes "held_until u ids now rs" "leases_claimable now rs rs'"
  shows "held_until u ids now rs'"
proof -
  from assms(2) obtain t ids' u' where t: "t \<le> now" "\<forall>r \<in> set rs. pgr_id r \<in> ids' \<longrightarrow> claimable t r"
    and rs': "rs' = where_set (\<lambda>r. pgr_id r \<in> ids') (\<lambda>r. r\<lparr>pgr_until := u'\<rparr>) rs" unfolding leases_claimable_def by blast
  show ?thesis
    unfolding rs' by (rule held_update[OF assms(1)]) (use t held_row_not_claimable[of u _ t] in auto)
qed

lemma held_created:
  assumes "held_until u ids now rs" "rs' = rs \<or> (\<exists>tc. inserted tp k p tc rs rs')"
  shows "held_until u ids now rs'"
  using assms(2)
proof (elim disjE exE)
  fix tc assume "inserted tp k p tc rs rs'"
  then obtain x where "rs' = rs @ [x]" "pgr_id x \<notin> pgr_id ` set rs" by (auto simp: inserted_def)
  moreover from assms(1) this(2) have "pgr_id x \<notin> ids" by (auto simp: held_until_def)
  ultimately show ?thesis using assms(1) by (auto simp: held_until_def)
qed (use assms(1) in simp)

lemma table_steps_hold:
  assumes ok: "pg_ok (db, v)"
  shows "table_steps db v w w' \<Longrightarrow> held_until u ids (pv_now v w) (pv_rows v w) \<Longrightarrow> held_until u ids (pv_now v w') (pv_rows v w')"
proof (induction rule: table_steps.induct)
  case (steps_create w x e r y)
  then show ?case using held_created[OF held_later] db_CreateEvent_outcome(1)[OF ok, of e x r y] by blast
next
  case (steps_mark w x i r y)
  from db_MarkPublished_rows[OF ok steps_mark(2)] obtain p t where
    rows: "pv_rows v y = where_set p (\<lambda>r. r\<lparr>pgr_published := Some t\<rparr>) (pv_rows v x)" by blast
  from held_later[OF steps_mark(4)[OF steps_mark(5)] steps_mark(3)] show ?case
    unfolding rows by (rule held_update) (simp_all add: held_row_def)
next
  case (steps_claim w x l q y)
  from held_later[OF steps_claim(3)[OF steps_claim(4)] db_GetPendingEvents_outcome(2)[OF ok steps_claim(2)]]
    db_GetPendingEvents_leases[OF ok steps_claim(2)] show ?case by (rule held_lease)
next
  case (steps_other w x y)
  then show ?case using held_later by simp
qed

text \<open>
  C29. An event has one publisher at a time. After a claim handed out events, a second claim - after
  anything the instances of the service did to the table in between - hands out none of them, unless
  by its end the database's clock (the NOW() of the query) has passed the lease of the first: the
  time its instance's clock showed when it wrote the lease, at or after its call, plus the duration.
  The lease is the value the first claim left in processing_until of exactly its rows; nothing is
  assumed of how the two clocks compare.
\<close>

theorem lease_excludes:
  assumes ok: "pg_ok (db, v)" and first: "db_GetPendingEvents db l w = (Inr es, w1)"
    and between: "table_steps db v w1 w2"
    and second: "db_GetPendingEvents db l' w2 = (Inr es', w3)"
  shows "oe_Id ` set es \<inter> oe_Id ` set es' = {} \<or>
    (\<exists>wl. pv_now v w \<le> pv_now v wl \<and> pg_Now db wl + l < pv_now v w3 \<and>
       pv_rows v w1 = where_set (\<lambda>r. pgr_id r \<in> oe_Id ` set es)
         (\<lambda>r. r\<lparr>pgr_until := Some (pg_Now db wl + l)\<rparr>) (pv_rows v w))"
proof (cases "es = []")
  case False
  from db_GetPendingEvents_outcome(4)[OF ok first refl False] obtain wl where
    wl: "pv_now v w \<le> pv_now v wl" and rows: "pv_rows v w1 = where_set (\<lambda>r. pgr_id r \<in> oe_Id ` set es)
      (\<lambda>r. r\<lparr>pgr_until := Some (pg_Now db wl + l)\<rparr>) (pv_rows v w)" by blast
  let ?u = "pg_Now db wl + l"
  show ?thesis
  proof (cases "?u < pv_now v w3")
    case False
    from db_GetPendingEvents_outcome(3)[OF ok first refl] have "oe_Id ` set es \<subseteq> pgr_id ` set (pv_rows v w)"
      by (force simp: scan_row_def)
    then have "held_until ?u (oe_Id ` set es) (pv_now v w1) (pv_rows v w1)"
      using where_set_ids[of "\<lambda>r. r\<lparr>pgr_until := Some ?u\<rparr>" "\<lambda>r. pgr_id r \<in> oe_Id ` set es" "pv_rows v w"]
      by (auto simp: rows held_until_def where_set_def held_row_def)
    from table_steps_hold[OF ok between this] db_GetPendingEvents_outcome(2)[OF ok second] False
    have held: "\<And>r. r \<in> set (pv_rows v w2) \<Longrightarrow> pgr_id r \<in> oe_Id ` set es \<Longrightarrow> held_row ?u r" by (simp add: held_until_def)
    from db_GetPendingEvents_outcome(3)[OF ok second refl] obtain t where
      t: "t \<le> pv_now v w3" "\<And>e. e \<in> set es' \<Longrightarrow> \<exists>x \<in> set (pv_rows v w2). claimable t x \<and> e = scan_row x" by blast
    have "oe_Id e \<notin> oe_Id ` set es" if "e \<in> set es'" for e
      using t(2)[OF that] held held_row_not_claimable[of ?u _ t] t(1) False by (force simp: scan_row_def)
    then have "i \<notin> oe_Id ` set es" if "i \<in> oe_Id ` set es'" for i using that by auto
    then show ?thesis unfolding disjoint_iff by blast
  qed (use wl rows in blast)
qed simp

text \<open>Between two claims an event is created: the second claim gets that one, and only that one.\<close>

definition second_row :: pg_row where
  "second_row = \<lparr>pgr_id = 1, pgr_topic = ''t2'', pgr_key = ''k2'', pgr_payload = ''p2'', pgr_trace = [],
     pgr_created = 0, pgr_published = None, pgr_until = None\<rparr>"

definition two_rows_rmem :: rmem where
  "two_rows_rmem = (leased_rmem 30)\<lparr>rx_rows := [pending_row\<lparr>pgr_until := Some 30\<rparr>, second_row]\<rparr>"

lemma second_event: "db_CreateEvent mem_pg (outbox_event ''t2'' ''k2'' ''p2'') (leased_rmem 30) = (Inr (), two_rows_rmem)"
  by (simp add: db_CreateEvent_def outbox_event_def mem_pg_def mx_valid_def leased_rmem_def pending_rmem_def pg_pending_def
      mx_row_def two_rows_rmem_def pending_row_def second_row_def)

lemma second_claim: "fst (db_GetPendingEvents mem_pg 30 two_rows_rmem) = Inr [scan_row second_row]"
  by (simp add: db_GetPendingEvents_def claim_body_def mem_pg_def mem_pv_def mx_valid_def two_rows_rmem_def leased_rmem_def
      pending_rmem_def pending_row_def second_row_def claimable_def where_set_def scan_row_def)

lemma second_claim_now: "pv_now mem_pv (snd (db_GetPendingEvents mem_pg 30 two_rows_rmem)) = 0"
  by (simp add: db_GetPendingEvents_def claim_body_def mem_pg_def mem_pv_def mx_valid_def two_rows_rmem_def leased_rmem_def
      pending_rmem_def pending_row_def second_row_def claimable_def where_set_def scan_row_def)

theorem lease_excludes_witness:
  "oe_Id (scan_row second_row) \<noteq> oe_Id (scan_row pending_row) \<and>
   fst (db_GetPendingEvents mem_pg 30 (snd (db_CreateEvent mem_pg (outbox_event ''t2'' ''k2'' ''p2'')
     (snd (db_GetPendingEvents mem_pg 30 pending_rmem))))) = Inr [scan_row second_row]"
proof -
  obtain w3 where again: "db_GetPendingEvents mem_pg 30 two_rows_rmem = (Inr [scan_row second_row], w3)"
    using second_claim by (metis prod.collapse)
  have "table_steps mem_pg mem_pv (leased_rmem 30) (leased_rmem 30)"
    by (rule steps_claim[OF steps_none pending_claim_again])
  then have steps: "table_steps mem_pg mem_pv (leased_rmem 30) two_rows_rmem"
    by (rule steps_create[OF _ second_event]) (simp add: mem_pv_def two_rows_rmem_def)
  from lease_excludes[OF mem_pg_ok pending_claim steps again]
  have "oe_Id (scan_row pending_row) \<noteq> oe_Id (scan_row second_row)"
  proof (elim disjE exE conjE)
    fix wl assume late: "pg_Now mem_pg wl + 30 < pv_now mem_pv w3" and
      now: "pv_now mem_pv pending_rmem \<le> pv_now mem_pv wl"
    have "pv_now mem_pv w3 = 0" using second_claim_now again by simp
    with late now have False by (simp add: mem_pg_def mem_pv_def pending_rmem_def)
    then show ?thesis ..
  qed simp
  then show ?thesis by (simp add: pending_claim second_event second_claim)
qed

end
