(* ===== verification/Payment.thy ===== *)
theory Payment
  imports Exactly_Once
begin

text \<open>
  \<open>cmd/payment-service/handler.go\<close>: the in-memory payment provider. Every handler holds the
  mutex for all of its reads and writes of the map, so a handler is one function from the map to
  a result and a map; concurrent calls are sequences of such steps. What the code leaves to
  others is an argument: the identifier \<open>uuid.NewString\<close> returns, and the order in which Go
  ranges over the map.
\<close>

section \<open>State\<close>

datatype paymentStatus = statusAuthorised | statusCaptured | statusRefunded | statusVoided

record payment =
  pay_id :: string
  pay_consignmentID :: string
  pay_amount :: "64 word"
  pay_currency :: string
  pay_status :: paymentStatus
  pay_captureID :: string

text \<open>The map is keyed by the authorisation id; each entry is a pointer of its own.\<close>

type_synonym payments = "string \<rightharpoonup> payment"

text \<open>\<open>%d\<close> of a status is its \<open>iota\<close> value.\<close>

fun iota_of :: "paymentStatus \<Rightarrow> int" where
  "iota_of statusAuthorised = 0"
| "iota_of statusCaptured = 1"
| "iota_of statusRefunded = 2"
| "iota_of statusVoided = 3"

definition set_pay_status :: "string \<Rightarrow> payment \<Rightarrow> paymentStatus \<Rightarrow> payments \<Rightarrow> payments" where
  "set_pay_status a p s m = m(a \<mapsto> p\<lparr>pay_status := s\<rparr>)"

section \<open>Messages\<close>

datatype PbPaymentStatus = AUTHORISED | CAPTURED | REFUNDED | VOIDED

record AuthoriseRequest =
  areq_ConsignmentId :: string
  areq_Amount :: "64 word"
  areq_Currency :: string
  areq_IdempotencyKey :: string

record AuthoriseResponse =
  arsp_AuthId :: string
  arsp_Status :: PbPaymentStatus

record CaptureRequest =
  creq_AuthId :: string
  creq_IdempotencyKey :: string

record CaptureResponse =
  crsp_PaymentId :: string
  crsp_Status :: PbPaymentStatus

record RefundRequest =
  rreq_PaymentId :: string
  rreq_IdempotencyKey :: string

record RefundResponse =
  rrsp_RefundId :: string
  rrsp_Status :: PbPaymentStatus

record VoidRequest =
  vreq_AuthId :: string

record VoidResponse =
  vrsp_Status :: PbPaymentStatus

section \<open>Handlers\<close>

definition pay_Authorise ::
  "string \<Rightarrow> AuthoriseRequest \<Rightarrow> payments \<Rightarrow> (goerr + AuthoriseResponse) \<times> payments" where
  "pay_Authorise authID req m =
    (Inr \<lparr>arsp_AuthId = authID, arsp_Status = AUTHORISED\<rparr>,
     m(authID \<mapsto> \<lparr>pay_id = authID, pay_consignmentID = areq_ConsignmentId req,
        pay_amount = areq_Amount req, pay_currency = areq_Currency req,
        pay_status = statusAuthorised, pay_captureID = ''''\<rparr>))"

definition pay_Capture :: "CaptureRequest \<Rightarrow> payments \<Rightarrow> (goerr + CaptureResponse) \<times> payments" where
  "pay_Capture req m =
    (case m (creq_AuthId req) of
      None \<Rightarrow> (Inl (StatusErr NotFound (''authorisation '' @ creq_AuthId req @ '' not found'')), m)
    | Some p \<Rightarrow>
        if pay_status p = statusCaptured then
          (Inr \<lparr>crsp_PaymentId = pay_captureID p, crsp_Status = CAPTURED\<rparr>, m)
        else if pay_status p \<noteq> statusAuthorised then
          (Inl (StatusErr FailedPrecondition
             (''payment is in status '' @ fmt_int (iota_of (pay_status p)) @ '', cannot capture'')), m)
        else
          (let p' = p\<lparr>pay_status := statusCaptured, pay_captureID := creq_IdempotencyKey req\<rparr> in
           (Inr \<lparr>crsp_PaymentId = pay_captureID p', crsp_Status = CAPTURED\<rparr>, m(creq_AuthId req \<mapsto> p'))))"

text \<open>
  \<open>for _, v := range h.payments\<close> with its early \<open>break\<close>: the first entry, in the order the
  iteration happens to take, whose capture id is the requested one.
\<close>

fun find_captured :: "string list \<Rightarrow> string \<Rightarrow> payments \<Rightarrow> (string \<times> payment) option" where
  "find_captured [] pid m = None"
| "find_captured (a # as) pid m =
    (case m a of
      Some v \<Rightarrow> if pay_captureID v = pid then Some (a, v) else find_captured as pid m
    | None \<Rightarrow> find_captured as pid m)"

definition pay_Refund ::
  "string list \<Rightarrow> RefundRequest \<Rightarrow> payments \<Rightarrow> (goerr + RefundResponse) \<times> payments" where
  "pay_Refund order req m =
    (case find_captured order (rreq_PaymentId req) m of
      None \<Rightarrow> (Inl (StatusErr NotFound (''payment '' @ rreq_PaymentId req @ '' not found'')), m)
    | Some (a, p) \<Rightarrow>
        if pay_status p = statusRefunded then
          (Inr \<lparr>rrsp_RefundId = rreq_IdempotencyKey req, rrsp_Status = REFUNDED\<rparr>, m)
        else if pay_status p \<noteq> statusCaptured then
          (Inl (StatusErr FailedPrecondition
             (''payment is in status '' @ fmt_int (iota_of (pay_status p)) @ '', cannot refund'')), m)
        else
          (Inr \<lparr>rrsp_RefundId = rreq_IdempotencyKey req, rrsp_Status = REFUNDED\<rparr>,
           set_pay_status a p statusRefunded m))"

definition pay_Void :: "VoidRequest \<Rightarrow> payments \<Rightarrow> (goerr + VoidResponse) \<times> payments" where
  "pay_Void req m =
    (case m (vreq_AuthId req) of
      None \<Rightarrow> (Inl (StatusErr NotFound (''authorisation '' @ vreq_AuthId req @ '' not found'')), m)
    | Some p \<Rightarrow>
        if pay_status p = statusVoided then (Inr \<lparr>vrsp_Status = VOIDED\<rparr>, m)
        else if pay_status p \<noteq> statusAuthorised then
          (Inl (StatusErr FailedPrecondition
             (''payment is in status '' @ fmt_int (iota_of (pay_status p)) @ '', cannot void'')), m)
        else (Inr \<lparr>vrsp_Status = VOIDED\<rparr>, set_pay_status (vreq_AuthId req) p statusVoided m))"

section \<open>Calls in any order\<close>

text \<open>
  One call of a client. An authorisation gets a fresh identifier (what \<open>uuid.NewString\<close>
  documents), a refund sees the entries of the map in some order.
\<close>

definition ranges_over :: "string list \<Rightarrow> payments \<Rightarrow> bool" where
  "ranges_over order m \<longleftrightarrow> distinct order \<and> set order = dom m"

inductive pay_step :: "payments \<Rightarrow> payments \<Rightarrow> bool" where
  authorise: "a \<notin> dom m \<Longrightarrow> pay_Authorise a req m = (r, m') \<Longrightarrow> pay_step m m'"
| capture: "pay_Capture creq m = (r, m') \<Longrightarrow> pay_step m m'"
| refund: "ranges_over order m \<Longrightarrow> pay_Refund order rreq m = (r, m') \<Longrightarrow> pay_step m m'"
| void: "pay_Void vreq m = (r, m') \<Longrightarrow> pay_step m m'"

text \<open>Any sequence of calls.\<close>

inductive pay_run :: "payments \<Rightarrow> payments \<Rightarrow> bool" where
  none: "pay_run m m"
| more: "pay_run m m1 \<Longrightarrow> pay_step m1 m2 \<Longrightarrow> pay_run m m2"

text \<open>The abstract life of one payment.\<close>

fun may_become :: "paymentStatus \<Rightarrow> paymentStatus \<Rightarrow> bool" where
  "may_become statusAuthorised s = True"
| "may_become statusCaptured s = (s = statusCaptured \<or> s = statusRefunded)"
| "may_become statusRefunded s = (s = statusRefunded)"
| "may_become statusVoided s = (s = statusVoided)"

text \<open>
  What a run may do to one payment: its identity and amount stay, its status only advances, and
  the capture id is fixed once the payment has left the authorised state.
\<close>

definition pay_advances :: "payment \<Rightarrow> payment \<Rightarrow> bool" where
  "pay_advances p p' \<longleftrightarrow>
     pay_id p' = pay_id p \<and> pay_consignmentID p' = pay_consignmentID p \<and>
     pay_amount p' = pay_amount p \<and> pay_currency p' = pay_currency p \<and>
     may_become (pay_status p) (pay_status p') \<and>
     (pay_status p \<noteq> statusAuthorised \<longrightarrow> pay_captureID p' = pay_captureID p)"

lemma may_become_refl [simp]: "may_become s s"
  by (cases s) simp_all

lemma may_become_trans: "may_become r s \<Longrightarrow> may_become s t \<Longrightarrow> may_become r t"
  by (cases r; cases s; cases t) simp_all

lemma may_become_authorised: "may_become s statusAuthorised \<Longrightarrow> s = statusAuthorised"
  by (cases s) simp_all

lemma pay_advances_refl [simp]: "pay_advances p p"
  by (simp add: pay_advances_def)

lemma pay_advances_trans: "pay_advances p q \<Longrightarrow> pay_advances q r \<Longrightarrow> pay_advances p r"
  unfolding pay_advances_def by (metis may_become_trans may_become_authorised)

lemma find_captured_Some:
  "find_captured order pid m = Some (a, p) \<Longrightarrow> a \<in> set order \<and> m a = Some p \<and> pay_captureID p = pid"
  by (induction order) (auto split: option.splits if_splits)

lemma find_captured_None:
  "find_captured order pid m = None \<longleftrightarrow> (\<forall>a \<in> set order. \<forall>p. m a = Some p \<longrightarrow> pay_captureID p \<noteq> pid)"
  by (induction order) (auto split: option.splits)

text \<open>Changing the status of the entry a search found does not change what the search finds.\<close>

lemma find_captured_update:
  "find_captured order pid m = Some (a, p) \<Longrightarrow> pay_captureID p' = pid \<Longrightarrow>
   find_captured order pid (m(a \<mapsto> p')) = Some (a, p')"
  by (induction order) (auto split: option.splits if_splits)

lemma pay_step_advances:
  assumes "pay_step m m'" "m a = Some p"
  shows "\<exists>p'. m' a = Some p' \<and> pay_advances p p'"
  using assms
proof (induction rule: pay_step.induct)
  case (refund order m rreq r m')
  show ?case
  proof (cases "find_captured order (rreq_PaymentId rreq) m")
    case None
    with refund show ?thesis by (auto simp: pay_Refund_def)
  next
    case (Some bp)
    obtain b q where bq: "bp = (b, q)" by (cases bp)
    with Some have "m b = Some q" using find_captured_Some by metis
    with Some bq refund show ?thesis
      by (cases "a = b") (auto simp: pay_Refund_def set_pay_status_def pay_advances_def split: if_splits)
  qed
qed (auto simp: pay_Authorise_def pay_Capture_def pay_Void_def set_pay_status_def pay_advances_def Let_def
    split: option.splits if_splits)

lemma pay_run_advances:
  assumes "pay_run m m'" "m a = Some p"
  obtains p' where "m' a = Some p'" "pay_advances p p'"
proof -
  have "\<exists>p'. m' a = Some p' \<and> pay_advances p p'" using assms
    by (induction rule: pay_run.induct) (auto dest: pay_step_advances intro: pay_advances_trans)
  with that show thesis by blast
qed

section \<open>Capturing and voiding take effect once\<close>

definition captured :: "CaptureRequest \<Rightarrow> payments \<Rightarrow> bool" where
  "captured req m \<longleftrightarrow> (\<exists>p. m (creq_AuthId req) = Some p \<and> pay_status p = statusCaptured)"

definition voided :: "VoidRequest \<Rightarrow> payments \<Rightarrow> bool" where
  "voided req m \<longleftrightarrow> (\<exists>p. m (vreq_AuthId req) = Some p \<and> pay_status p = statusVoided)"

definition capture_effect :: "CaptureRequest \<Rightarrow> payments \<Rightarrow> payments \<Rightarrow> bool" where
  "capture_effect req m m' \<longleftrightarrow> (\<exists>p. m (creq_AuthId req) = Some p \<and> pay_status p = statusAuthorised \<and>
     m' = m(creq_AuthId req \<mapsto> p\<lparr>pay_status := statusCaptured, pay_captureID := creq_IdempotencyKey req\<rparr>))"

definition void_effect :: "VoidRequest \<Rightarrow> payments \<Rightarrow> payments \<Rightarrow> bool" where
  "void_effect req m m' \<longleftrightarrow> (\<exists>p. m (vreq_AuthId req) = Some p \<and> pay_status p = statusAuthorised \<and>
     m' = m(vreq_AuthId req \<mapsto> p\<lparr>pay_status := statusVoided\<rparr>))"

lemma capture_captured:
  assumes "pay_Capture req m = (Inr c, m')"
  obtains p where "m' (creq_AuthId req) = Some p" "pay_status p = statusCaptured"
    "c = \<lparr>crsp_PaymentId = pay_captureID p, crsp_Status = CAPTURED\<rparr>"
proof -
  from assms have "\<exists>p. m' (creq_AuthId req) = Some p \<and> pay_status p = statusCaptured \<and>
    c = \<lparr>crsp_PaymentId = pay_captureID p, crsp_Status = CAPTURED\<rparr>"
    by (auto simp: pay_Capture_def Let_def split: option.splits if_splits)
  with that show thesis by blast
qed

lemma void_voided:
  assumes "pay_Void req m = (Inr v, m')"
  obtains p where "m' (vreq_AuthId req) = Some p" "pay_status p = statusVoided"
proof -
  from assms have "\<exists>p. m' (vreq_AuthId req) = Some p \<and> pay_status p = statusVoided"
    by (auto simp: pay_Void_def set_pay_status_def split: option.splits if_splits)
  with that show thesis by blast
qed

interpretation pay_capture: exactly_once "\<lambda>_ :: unit. True" "\<lambda>_. pay_Capture" "\<lambda>_ m. m"
  captured capture_effect
proof unfold_locales
  show "pay_Capture q w = (Inr a, w') \<Longrightarrow> captured q w'" for q w a w'
    by (erule capture_captured) (simp add: captured_def)
qed (auto simp: pay_Capture_def captured_def capture_effect_def Let_def split: option.splits if_splits)

interpretation pay_void: exactly_once "\<lambda>_ :: unit. True" "\<lambda>_. pay_Void" "\<lambda>_ m. m"
  voided void_effect
proof unfold_locales
  show "pay_Void q w = (Inr a, w') \<Longrightarrow> voided q w'" for q w a w'
    by (erule void_voided) (simp add: voided_def)
qed (auto simp: pay_Void_def voided_def void_effect_def set_pay_status_def split: option.splits if_splits)

section \<open>Properties\<close>

text \<open>Concrete data for the witnesses.\<close>

definition sample_areq :: AuthoriseRequest where
  "sample_areq = \<lparr>areq_ConsignmentId = ''c'', areq_Amount = 5, areq_Currency = ''GBP'', areq_IdempotencyKey = ''c''\<rparr>"

definition sample_creq :: "string \<Rightarrow> string \<Rightarrow> CaptureRequest" where
  "sample_creq a k = \<lparr>creq_AuthId = a, creq_IdempotencyKey = k\<rparr>"

definition sample_payments :: payments where
  "sample_payments = snd (pay_Authorise ''a'' sample_areq Map.empty)"

definition sample_captured :: payments where
  "sample_captured = snd (pay_Capture (sample_creq ''a'' ''k'') sample_payments)"

definition sample_payment :: payment where
  "sample_payment = \<lparr>pay_id = ''a'', pay_consignmentID = ''c'', pay_amount = 5,
     pay_currency = ''GBP'', pay_status = statusCaptured, pay_captureID = ''k''\<rparr>"

lemma sample_payments_eq:
  "sample_payments = [''a'' \<mapsto> sample_payment\<lparr>pay_status := statusAuthorised, pay_captureID := ''''\<rparr>]"
  "sample_captured = [''a'' \<mapsto> sample_payment]"
  by (simp_all add: sample_captured_def sample_payments_def sample_payment_def pay_Authorise_def
      pay_Capture_def sample_areq_def sample_creq_def)

definition sample_refunded :: payments where
  "sample_refunded = [''a'' \<mapsto> sample_payment\<lparr>pay_status := statusRefunded\<rparr>]"

lemma sample_payment_run: "pay_run sample_captured sample_captured"
  "pay_run sample_captured sample_refunded"
proof -
  show none: "pay_run sample_captured sample_captured" by (rule pay_run.none)
  have "pay_Refund [''a''] \<lparr>rreq_PaymentId = ''k'', rreq_IdempotencyKey = ''i''\<rparr> sample_captured =
      (Inr \<lparr>rrsp_RefundId = ''i'', rrsp_Status = REFUNDED\<rparr>, sample_refunded)"
    by (simp add: pay_Refund_def sample_payments_eq sample_payment_def sample_refunded_def set_pay_status_def)
  then have "pay_step sample_captured sample_refunded"
    by (rule pay_step.refund[rotated]) (simp add: ranges_over_def sample_payments_eq)
  with none show "pay_run sample_captured sample_refunded" by (rule pay_run.more)
qed

text \<open>
  C9. A payment lives a one-way life. Whatever sequence of calls the service gets, an existing
  payment keeps its identity, consignment, amount and currency; a captured payment can only stay
  captured or be refunded, a refunded or voided one never changes status again, and the capture
  id of a payment that has left the authorised state is never rewritten.
\<close>

theorem payment_lifecycle:
  assumes "pay_run m m'" and "m a = Some p"
  shows "\<exists>p'. m' a = Some p' \<and>
    pay_id p' = pay_id p \<and> pay_consignmentID p' = pay_consignmentID p \<and>
    pay_amount p' = pay_amount p \<and> pay_currency p' = pay_currency p \<and>
    (pay_status p = statusCaptured \<longrightarrow> pay_status p' \<in> {statusCaptured, statusRefunded}) \<and>
    (pay_status p \<in> {statusRefunded, statusVoided} \<longrightarrow> pay_status p' = pay_status p) \<and>
    (pay_status p \<noteq> statusAuthorised \<longrightarrow> pay_captureID p' = pay_captureID p)"
proof -
  from assms obtain p' where "m' a = Some p'" "pay_advances p p'" by (rule pay_run_advances)
  then show ?thesis by (cases "pay_status p") (auto simp: pay_advances_def)
qed

theorem payment_lifecycle_witness:
  "\<exists>p'. sample_refunded ''a'' = Some p' \<and> pay_amount p' = 5 \<and>
    pay_status p' \<in> {statusCaptured, statusRefunded} \<and> pay_captureID p' = ''k''"
  using payment_lifecycle[OF sample_payment_run(2), of "''a''" sample_payment]
  by (auto simp: sample_payments_eq sample_payment_def)

text \<open>
  Capture returns one payment id for ever. After a capture of an authorisation succeeded,
  whatever calls come in between, another successful capture of it returns the same payment id,
  even under a different idempotency key, and changes nothing.
\<close>

theorem capture_id_stable:
  assumes first: "pay_Capture req m = (Inr rsp, m1)"
    and between: "pay_run m1 m2"
    and again: "creq_AuthId req' = creq_AuthId req" "pay_Capture req' m2 = (Inr rsp', m3)"
  shows "rsp' = rsp \<and> m3 = m2"
proof -
  from first obtain p where p: "m1 (creq_AuthId req) = Some p" "pay_status p = statusCaptured"
    "rsp = \<lparr>crsp_PaymentId = pay_captureID p, crsp_Status = CAPTURED\<rparr>"
    by (rule capture_captured)
  from pay_run_advances[OF between p(1)] obtain p' where
    p': "m2 (creq_AuthId req) = Some p'" "pay_advances p p'" .
  with p again show ?thesis
    by (auto simp: pay_Capture_def pay_advances_def split: if_splits)
qed

theorem capture_id_stable_witness:
  "pay_Capture (sample_creq ''a'' ''other'') sample_captured =
     (Inr \<lparr>crsp_PaymentId = ''k'', crsp_Status = CAPTURED\<rparr>, sample_captured)"
proof -
  have first: "pay_Capture (sample_creq ''a'' ''k'') sample_payments =
      (Inr \<lparr>crsp_PaymentId = ''k'', crsp_Status = CAPTURED\<rparr>, sample_captured)"
    by (simp add: pay_Capture_def sample_payments_eq sample_creq_def sample_payment_def)
  obtain rsp m3 where again: "pay_Capture (sample_creq ''a'' ''other'') sample_captured = (Inr rsp, m3)"
    by (simp add: pay_Capture_def sample_payments_eq sample_creq_def sample_payment_def)
  have "creq_AuthId (sample_creq ''a'' ''other'') = creq_AuthId (sample_creq ''a'' ''k'')"
    by (simp add: sample_creq_def)
  from capture_id_stable[OF first sample_payment_run(1) this again] again show ?thesis by simp
qed

text \<open>
  Capture and void exclude each other. Once a void of an authorisation succeeded, no later
  capture of it succeeds, and once a capture succeeded no later void does, whatever calls come in
  between: the money of a payment is never both released and taken.
\<close>

theorem void_excludes_capture:
  assumes "pay_run m1 m2" and "vreq_AuthId vreq = creq_AuthId req"
  shows "(pay_Void vreq m = (Inr v, m1) \<longrightarrow> (\<exists>e. pay_Capture req m2 = (Inl e, m2))) \<and>
    (pay_Capture req m = (Inr c, m1) \<longrightarrow> (\<exists>e. pay_Void vreq m2 = (Inl e, m2)))"
proof (intro conjI impI)
  assume "pay_Void vreq m = (Inr v, m1)"
  then obtain p where p: "m1 (vreq_AuthId vreq) = Some p" "pay_status p = statusVoided"
    by (rule void_voided)
  from pay_run_advances[OF assms(1) p(1)] obtain p' where
    "m2 (vreq_AuthId vreq) = Some p'" "pay_advances p p'" .
  with p assms(2) show "\<exists>e. pay_Capture req m2 = (Inl e, m2)"
    by (simp add: pay_Capture_def pay_advances_def)
next
  assume "pay_Capture req m = (Inr c, m1)"
  then obtain p where p: "m1 (creq_AuthId req) = Some p" "pay_status p = statusCaptured"
    by (rule capture_captured)
  from pay_run_advances[OF assms(1) p(1)] obtain p' where
    "m2 (creq_AuthId req) = Some p'" "pay_advances p p'" .
  with p assms(2) show "\<exists>e. pay_Void vreq m2 = (Inl e, m2)"
    by (auto simp: pay_Void_def pay_advances_def)
qed

theorem void_excludes_capture_witness:
  "\<exists>e. pay_Void \<lparr>vreq_AuthId = ''a''\<rparr> sample_refunded = (Inl e, sample_refunded)"
proof -
  have "pay_Capture (sample_creq ''a'' ''k'') sample_payments =
      (Inr \<lparr>crsp_PaymentId = ''k'', crsp_Status = CAPTURED\<rparr>, sample_captured)"
    by (simp add: pay_Capture_def sample_payments_eq sample_creq_def sample_payment_def)
  with void_excludes_capture[OF sample_payment_run(2), of "\<lparr>vreq_AuthId = ''a''\<rparr>" "sample_creq ''a'' ''k''"]
  show ?thesis by (simp add: sample_creq_def)
qed

text \<open>
  A refund finds its payment whatever order Go ranges over the map in. If one entry carries
  the requested capture id, two refunds that see the map in different orders give the same answer
  and the same map: a captured payment becomes refunded, a refunded one is reported again and
  left alone, and in every other status the call fails without a change.
\<close>

theorem refund_finds_its_payment:
  assumes "ranges_over order m" and "m a = Some p" and "pay_captureID p = rreq_PaymentId req"
    and unique: "\<forall>b q. m b = Some q \<and> pay_captureID q = rreq_PaymentId req \<longrightarrow> b = a"
  shows "pay_Refund order req m =
    (case pay_status p of
       statusCaptured \<Rightarrow> (Inr \<lparr>rrsp_RefundId = rreq_IdempotencyKey req, rrsp_Status = REFUNDED\<rparr>,
                          m(a \<mapsto> p\<lparr>pay_status := statusRefunded\<rparr>))
     | statusRefunded \<Rightarrow> (Inr \<lparr>rrsp_RefundId = rreq_IdempotencyKey req, rrsp_Status = REFUNDED\<rparr>, m)
     | s \<Rightarrow> (Inl (StatusErr FailedPrecondition
              (''payment is in status '' @ fmt_int (iota_of s) @ '', cannot refund'')), m))"
proof -
  have "find_captured order (rreq_PaymentId req) m = Some (a, p)"
  proof (cases "find_captured order (rreq_PaymentId req) m")
    case None
    with assms show ?thesis by (auto simp: find_captured_None ranges_over_def)
  next
    case (Some bq)
    obtain b q where "bq = (b, q)" by (cases bq)
    with Some find_captured_Some[of order _ m b q] unique assms(2) show ?thesis by fastforce
  qed
  then show ?thesis
    by (cases "pay_status p") (simp_all add: pay_Refund_def set_pay_status_def)
qed

theorem refund_finds_its_payment_witness:
  "pay_Refund [''a''] \<lparr>rreq_PaymentId = ''k'', rreq_IdempotencyKey = ''i''\<rparr> sample_captured =
    (Inr \<lparr>rrsp_RefundId = ''i'', rrsp_Status = REFUNDED\<rparr>, sample_refunded)"
  by (subst refund_finds_its_payment[where a = "''a''" and p = sample_payment])
    (simp_all add: ranges_over_def sample_payments_eq sample_payment_def sample_refunded_def)

text \<open>
  The idempotency key of an authorisation is ignored. Authorising the same request twice
  makes two payments of the consignment; when both are captured under one key (the capture events
  of a consignment all carry the same one) a refund of the payment id succeeds, one of the two
  stays captured, and repeating the refund over the same iteration order reports success and
  changes nothing: the customer paid twice and gets one payment back.
\<close>

theorem double_authorisation_refunds_one:
  assumes fresh: "a \<notin> dom m" "b \<notin> dom m" "a \<noteq> b"
    and unused: "\<forall>c q. m c = Some q \<longrightarrow> pay_captureID q \<noteq> k"
    and m2: "m2 = snd (pay_Authorise b req (snd (pay_Authorise a req m)))"
    and m4: "m4 = snd (pay_Capture \<lparr>creq_AuthId = b, creq_IdempotencyKey = k\<rparr>
                  (snd (pay_Capture \<lparr>creq_AuthId = a, creq_IdempotencyKey = k\<rparr> m2)))"
    and order: "ranges_over order m4"
    and refund: "pay_Refund order \<lparr>rreq_PaymentId = k, rreq_IdempotencyKey = i\<rparr> m4 = (r, m5)"
  shows "r = Inr \<lparr>rrsp_RefundId = i, rrsp_Status = REFUNDED\<rparr> \<and>
    (\<exists>c \<in> {a, b}. \<exists>p. m5 c = Some p \<and> pay_status p = statusCaptured \<and> pay_amount p = areq_Amount req) \<and>
    pay_Refund order \<lparr>rreq_PaymentId = k, rreq_IdempotencyKey = i\<rparr> m5 = (r, m5)"
proof -
  let ?rr = "\<lparr>rreq_PaymentId = k, rreq_IdempotencyKey = i\<rparr>"
  have m4_eq: "m4 = m(a \<mapsto> \<lparr>pay_id = a, pay_consignmentID = areq_ConsignmentId req, pay_amount = areq_Amount req,
        pay_currency = areq_Currency req, pay_status = statusCaptured, pay_captureID = k\<rparr>,
      b \<mapsto> \<lparr>pay_id = b, pay_consignmentID = areq_ConsignmentId req, pay_amount = areq_Amount req,
        pay_currency = areq_Currency req, pay_status = statusCaptured, pay_captureID = k\<rparr>)"
    using fresh by (auto simp: m4 m2 pay_Authorise_def pay_Capture_def)
  have only: "c = a \<or> c = b" if "m4 c = Some q" "pay_captureID q = k" for c q
    using that unused by (auto simp: m4_eq split: if_splits)
  have "a \<in> set order" "m4 a \<noteq> None" using order by (auto simp: ranges_over_def m4_eq)
  then have "find_captured order k m4 \<noteq> None"
    by (auto simp: find_captured_None m4_eq fresh)
  then obtain c p where c: "find_captured order k m4 = Some (c, p)" by auto
  from find_captured_Some[OF c] only have cab: "c = a \<or> c = b" "m4 c = Some p" by auto
  then have p: "pay_status p = statusCaptured" by (auto simp: m4_eq split: if_splits)
  have m5: "m5 = m4(c \<mapsto> p\<lparr>pay_status := statusRefunded\<rparr>)" and r: "r = Inr \<lparr>rrsp_RefundId = i, rrsp_Status = REFUNDED\<rparr>"
    using refund c p by (simp_all add: pay_Refund_def set_pay_status_def)
  have again: "find_captured order k m5 = Some (c, p\<lparr>pay_status := statusRefunded\<rparr>)"
    unfolding m5 using find_captured_update[OF c] find_captured_Some[OF c] by simp
  have "\<exists>d \<in> {a, b}. \<exists>q. m5 d = Some q \<and> pay_status q = statusCaptured \<and> pay_amount q = areq_Amount req"
    using cab(1) fresh(3) by (auto simp: m5 m4_eq)
  with r again show ?thesis by (simp add: pay_Refund_def)
qed

theorem double_authorisation_refunds_one_witness:
  "\<exists>c \<in> {''a'', ''b''}. \<exists>p. snd (pay_Refund [''b'', ''a''] \<lparr>rreq_PaymentId = ''k'', rreq_IdempotencyKey = ''i''\<rparr>
       (snd (pay_Capture (sample_creq ''b'' ''k'') (snd (pay_Capture (sample_creq ''a'' ''k'')
         (snd (pay_Authorise ''b'' sample_areq (snd (pay_Authorise ''a'' sample_areq Map.empty))))))))) c = Some p \<and>
     pay_status p = statusCaptured \<and> pay_amount p = 5"
  using double_authorisation_refunds_one[of "''a''" Map.empty "''b''" "''k''" _ sample_areq _ "[''b'', ''a'']" "''i''",
      OF _ _ _ _ refl refl _ surjective_pairing]
  by (simp add: sample_creq_def sample_areq_def ranges_over_def pay_Authorise_def pay_Capture_def insert_commute)

end
