(* ===== verification/Mongo_Driver.thy ===== *)
theory Mongo_Driver
  imports Prelude
begin

text \<open>
  What the documentation of the MongoDB driver says of the calls both collections of the consignment
  service make, stated once over a view: the list of the documents the server holds. An operation
  that answers with an error may have taken effect all the same (its answer was lost).
\<close>

definition where_update :: "('a \<Rightarrow> bool) \<Rightarrow> ('a \<Rightarrow> 'a) \<Rightarrow> 'a list \<Rightarrow> 'a list" where
  "where_update p f xs = map (\<lambda>x. if p x then f x else x) xs"

lemma where_update_sound: "x \<in> set (where_update p f xs) \<Longrightarrow> x \<in> set xs \<and> \<not> p x \<or> (\<exists>y \<in> set xs. p y \<and> x = f y)"
  by (auto simp: where_update_def)

lemma where_update_keys: "(\<And>x. k (f x) = k x) \<Longrightarrow> map k (where_update p f xs) = map k xs"
  by (simp add: where_update_def)

text \<open>\<open>UpdateOne\<close> changes one matching document and counts it; an error leaves it open whether it did.\<close>

definition update_one_ok ::
  "('w \<Rightarrow> 'a list) \<Rightarrow> (('a \<Rightarrow> bool) \<Rightarrow> ('a \<Rightarrow> 'a) \<Rightarrow> 'w \<Rightarrow> (goerr + nat) \<times> 'w) \<Rightarrow> bool" where
  "update_one_ok docs UpdateOne \<longleftrightarrow> (\<forall>p f w r w'. UpdateOne p f w = (r, w') \<longrightarrow>
     (let one = (\<exists>i < length (docs w). p (docs w ! i) \<and> docs w' = (docs w)[i := f (docs w ! i)]) in
      case r of
        Inr n \<Rightarrow> if n = 0 then docs w' = docs w else one
      | Inl e \<Rightarrow> docs w' = docs w \<or> one))"

lemma update_one_okD:
  assumes "update_one_ok docs UpdateOne" "UpdateOne p f w = (r, w')"
  shows "docs w' = docs w \<and> (\<forall>n. r = Inr n \<longrightarrow> n = 0) \<or>
    (\<exists>i < length (docs w). p (docs w ! i) \<and> docs w' = (docs w)[i := f (docs w ! i)])"
  using assms(1)[unfolded update_one_ok_def Let_def, rule_format, OF assms(2)]
  by (cases r) (auto split: if_splits)

text \<open>When the filter selects by a key that is unique, updating one document is updating where it matches.\<close>

lemma update_by_key:
  assumes "distinct (map key xs)" "i < length xs" "key (xs ! i) = k"
  shows "xs[i := f (xs ! i)] = where_update (\<lambda>x. key x = k) f xs"
proof (rule nth_equalityI)
  fix j assume "j < length (xs[i := f (xs ! i)])"
  then have "j < length xs" by simp
  with assms nth_eq_iff_index_eq[OF assms(1), of j i] show "xs[i := f (xs ! i)] ! j = where_update (\<lambda>x. key x = k) f xs ! j"
    by (auto simp: where_update_def nth_list_update)
qed (simp add: where_update_def)

lemma update_one_by_key:
  assumes "update_one_ok docs UpdateOne" "distinct (map key (docs w))"
    and "UpdateOne (\<lambda>x. key x = k) f w = (r, w')"
  shows "docs w' = docs w \<and> (\<forall>n. r = Inr n \<longrightarrow> n = 0) \<or>
    k \<in> key ` set (docs w) \<and> docs w' = where_update (\<lambda>x. key x = k) f (docs w)"
proof -
  from update_one_okD[OF assms(1), OF assms(3)] show ?thesis
  proof
    assume "\<exists>i < length (docs w). key (docs w ! i) = k \<and> docs w' = (docs w)[i := f (docs w ! i)]"
    then obtain i where i: "i < length (docs w)" "key (docs w ! i) = k" "docs w' = (docs w)[i := f (docs w ! i)]" by blast
    have "k \<in> key ` set (docs w)" using i(1,2) nth_mem by blast
    with update_by_key[OF assms(2) i(1,2)] i(3) show ?thesis by simp
  qed simp
qed

text \<open>\<open>InsertOne\<close> appends the document, whose key must be new.\<close>

definition insert_one_ok ::
  "('w \<Rightarrow> 'a list) \<Rightarrow> ('a \<Rightarrow> 'k) \<Rightarrow> ('a \<Rightarrow> 'w \<Rightarrow> (goerr + unit) \<times> 'w) \<Rightarrow> bool" where
  "insert_one_ok docs key InsertOne \<longleftrightarrow> (\<forall>x w r w'. InsertOne x w = (r, w') \<longrightarrow>
     docs w' = docs w \<and> (\<forall>u. r \<noteq> Inr u) \<or> key x \<notin> key ` set (docs w) \<and> docs w' = docs w @ [x])"

text \<open>Reads change nothing. What they return is stored and matches the filter.\<close>

definition find_one_ok ::
  "('w \<Rightarrow> 'a list) \<Rightarrow> (('a \<Rightarrow> bool) \<Rightarrow> 'w \<Rightarrow> (goerr + 'a) \<times> 'w) \<Rightarrow> bool" where
  "find_one_ok docs FindOne \<longleftrightarrow> (\<forall>p w r w'. FindOne p w = (r, w') \<longrightarrow>
     docs w' = docs w \<and> (\<forall>x. r = Inr x \<longrightarrow> x \<in> set (docs w) \<and> p x))"

definition find_all_ok ::
  "('w \<Rightarrow> 'a list) \<Rightarrow> ('w \<Rightarrow> (goerr + (goerr + 'a) list) \<times> 'w) \<Rightarrow> bool" where
  "find_all_ok docs FindAll \<longleftrightarrow> (\<forall>w r w'. FindAll w = (r, w') \<longrightarrow>
     docs w' = docs w \<and> (\<forall>xs x. r = Inr xs \<and> Inr x \<in> set xs \<longrightarrow> x \<in> set (docs w)))"

end
