(* ===== verification/Consignment_Storage.thy ===== *)
theory Consignment_Storage
  imports Mongo_Driver
begin

text \<open>
  The consignment service's own data: \<open>storage/types.go\<close>, the \<open>ConsignmentRepository\<close> interface and its
  MongoDB implementation (\<open>storage/mongo/mongo.go\<close>), the conversions between stored documents and
  messages, and \<open>WithTransaction\<close> (\<open>storage/mongo/store.go\<close>). The collection and the client are
  parameters. What callers may rely on is the locale \<open>consignment_repository\<close>.
\<close>

section \<open>Types\<close>

definition StatusPending :: string where "StatusPending = ''pending''"
definition StatusConfirmed :: string where "StatusConfirmed = ''confirmed''"
definition StatusCancelled :: string where "StatusCancelled = ''cancelled''"
definition StatusConfirmationPending :: string where "StatusConfirmationPending = ''confirmation_pending''"

lemmas status_defs = StatusPending_def StatusConfirmed_def StatusCancelled_def StatusConfirmationPending_def

lemma statuses_distinct: "distinct [StatusPending, StatusConfirmed, StatusCancelled, StatusConfirmationPending]"
  by (simp add: status_defs)

record ConsignmentUpdate =
  cu_Status :: "string option"
  cu_PaymentID :: "string option"

record Container =
  ctr_ID :: string
  ctr_CustomerID :: string
  ctr_UserID :: string

record Consignment =
  con_ID :: string
  con_Weight :: int32
  con_Description :: string
  con_Containers :: "Container list"
  con_VesselID :: string
  con_ReservationID :: string
  con_Status :: string
  con_PaymentID :: string

text \<open>
  The interface. \<open>Create\<close> writes the status through its argument, so it also returns the consignment
  as its caller sees it afterwards.
\<close>

record 'w ConsignmentRepository =
  cr_Create :: "Consignment \<Rightarrow> 'w \<Rightarrow> ((goerr + unit) \<times> Consignment) \<times> 'w"
  cr_GetByID :: "string \<Rightarrow> 'w \<Rightarrow> (goerr + Consignment) \<times> 'w"
  cr_GetAll :: "'w \<Rightarrow> (goerr + Consignment list) \<times> 'w"
  cr_UpdateStatus :: "string \<Rightarrow> string \<Rightarrow> 'w \<Rightarrow> (goerr + unit) \<times> 'w"
  cr_Update :: "string \<Rightarrow> ConsignmentUpdate \<Rightarrow> 'w \<Rightarrow> (goerr + unit) \<times> 'w"

section \<open>The MongoDB repository\<close>

text \<open>
  The calls of the collection. \<open>FindOne\<close> is followed by \<open>Decode\<close>: one error for both. \<open>Find\<close> yields
  what its cursor delivers before \<open>Next\<close> returns false; the code does not ask the cursor why it ended.
\<close>

record 'w ConsignmentCollection =
  cc_InsertOne :: "Consignment \<Rightarrow> 'w \<Rightarrow> (goerr + unit) \<times> 'w"
  cc_UpdateOne :: "(Consignment \<Rightarrow> bool) \<Rightarrow> (Consignment \<Rightarrow> Consignment) \<Rightarrow> 'w \<Rightarrow> (goerr + nat) \<times> 'w"
  cc_FindOne :: "(Consignment \<Rightarrow> bool) \<Rightarrow> 'w \<Rightarrow> (goerr + Consignment) \<times> 'w"
  cc_Find :: "'w \<Rightarrow> (goerr + (goerr + Consignment) list) \<times> 'w"
  cc_ErrNoDocuments :: goerr

definition errNotFound :: "string \<Rightarrow> goerr" where
  "errNotFound i = Errorf (''consignment '' @ i @ '' not found'') []"

definition mongo_Create :: "'w ConsignmentCollection \<Rightarrow> Consignment \<Rightarrow> 'w \<Rightarrow> ((goerr + unit) \<times> Consignment) \<times> 'w" where
  "mongo_Create repo consignment0 w =
    (let consignment = consignment0\<lparr>con_Status := StatusPending\<rparr> in
     case cc_InsertOne repo consignment w of (r, w1) \<Rightarrow> ((r, consignment), w1))"

definition mongo_UpdateStatus :: "'w ConsignmentCollection \<Rightarrow> string \<Rightarrow> string \<Rightarrow> 'w \<Rightarrow> (goerr + unit) \<times> 'w" where
  "mongo_UpdateStatus repo i status w =
    (case cc_UpdateOne repo (\<lambda>c. con_ID c = i) (\<lambda>c. c\<lparr>con_Status := status\<rparr>) w of
       (Inl err, w1) \<Rightarrow> (Inl (Errorf ''failed to update consignment status'' [err]), w1)
     | (Inr matched, w1) \<Rightarrow> if matched = 0 then (Inl (errNotFound i), w1) else (Inr (), w1))"

definition set_fields :: "ConsignmentUpdate \<Rightarrow> Consignment \<Rightarrow> Consignment" where
  "set_fields u c =
    (let c1 = (case cu_Status u of None \<Rightarrow> c | Some s \<Rightarrow> c\<lparr>con_Status := s\<rparr>) in
     case cu_PaymentID u of None \<Rightarrow> c1 | Some p \<Rightarrow> c1\<lparr>con_PaymentID := p\<rparr>)"

definition mongo_Update :: "'w ConsignmentCollection \<Rightarrow> string \<Rightarrow> ConsignmentUpdate \<Rightarrow> 'w \<Rightarrow> (goerr + unit) \<times> 'w" where
  "mongo_Update repo i u w =
    (if cu_Status u = None \<and> cu_PaymentID u = None then (Inr (), w)
     else
       (case cc_UpdateOne repo (\<lambda>c. con_ID c = i) (set_fields u) w of
          (Inl err, w1) \<Rightarrow> (Inl (Errorf ''failed to update consignment'' [err]), w1)
        | (Inr matched, w1) \<Rightarrow> if matched = 0 then (Inl (errNotFound i), w1) else (Inr (), w1)))"

definition mongo_GetByID :: "'w ConsignmentCollection \<Rightarrow> string \<Rightarrow> 'w \<Rightarrow> (goerr + Consignment) \<times> 'w" where
  "mongo_GetByID repo i w =
    (case cc_FindOne repo (\<lambda>c. con_ID c = i) w of
       (Inl err, w1) \<Rightarrow>
         if errors_is err (cc_ErrNoDocuments repo) then (Inl (errNotFound i), w1)
         else (Inl (Errorf ''failed to get consignment'' [err]), w1)
     | (Inr c, w1) \<Rightarrow> (Inr c, w1))"

fun decode_all :: "(goerr + 'a) list \<Rightarrow> goerr + 'a list" where
  "decode_all [] = Inr []"
| "decode_all (Inl err # rest) = Inl err"
| "decode_all (Inr x # rest) = (case decode_all rest of Inl err \<Rightarrow> Inl err | Inr xs \<Rightarrow> Inr (x # xs))"

definition mongo_GetAll :: "'w ConsignmentCollection \<Rightarrow> 'w \<Rightarrow> (goerr + Consignment list) \<times> 'w" where
  "mongo_GetAll repo w =
    (case cc_Find repo w of
       (Inl err, w1) \<Rightarrow>
         if errors_is err (cc_ErrNoDocuments repo) then (Inr [], w1) else (Inl err, w1)
     | (Inr cur, w1) \<Rightarrow> (decode_all cur, w1))"

definition mongo_consignments :: "'w ConsignmentCollection \<Rightarrow> 'w ConsignmentRepository" where
  "mongo_consignments repo = \<lparr>cr_Create = mongo_Create repo, cr_GetByID = mongo_GetByID repo,
     cr_GetAll = mongo_GetAll repo, cr_UpdateStatus = mongo_UpdateStatus repo, cr_Update = mongo_Update repo\<rparr>"

section \<open>Transactions\<close>

text \<open>
  The client. \<open>session.WithTransaction\<close> may run its callback several times; it ends with a commit
  or an abort. The callback's result value is always nil, so only its error is kept.
\<close>

record 'w MongoClient =
  ms_StartSession :: "'w \<Rightarrow> (goerr + unit) \<times> 'w"
  ms_WithTransaction :: "('w \<Rightarrow> (goerr + unit) \<times> 'w) \<Rightarrow> 'w \<Rightarrow> (goerr + unit) \<times> 'w"
  ms_EndSession :: "'w \<Rightarrow> 'w"

definition store_WithTransaction :: "'w MongoClient \<Rightarrow> ('w \<Rightarrow> (goerr + unit) \<times> 'w) \<Rightarrow> 'w \<Rightarrow> (goerr + unit) \<times> 'w" where
  "store_WithTransaction client fn w =
    (case ms_StartSession client w of
       (Inl err, w1) \<Rightarrow> (Inl err, w1)
     | (Inr _, w1) \<Rightarrow>
       (case ms_WithTransaction client fn w1 of (r, w2) \<Rightarrow> (r, ms_EndSession client w2)))"

section \<open>Conversions\<close>

record PbContainer =
  pbt_Id :: string
  pbt_CustomerId :: string
  pbt_Origin :: string
  pbt_UserId :: string

record PbConsignment =
  pbc_Id :: string
  pbc_Description :: string
  pbc_Weight :: int32
  pbc_Containers :: "PbContainer list"
  pbc_VesselId :: string
  pbc_Status :: string

text \<open>Elements of a repeated message field are never nil once decoded.\<close>

definition marshalContainerCollection :: "PbContainer list \<Rightarrow> Container list" where
  "marshalContainerCollection containers =
     map (\<lambda>c. \<lparr>ctr_ID = pbt_Id c, ctr_CustomerID = pbt_CustomerId c, ctr_UserID = pbt_UserId c\<rparr>) containers"

definition unmarshalContainerCollection :: "Container list \<Rightarrow> PbContainer list" where
  "unmarshalContainerCollection containers =
     map (\<lambda>c. \<lparr>pbt_Id = ctr_ID c, pbt_CustomerId = ctr_CustomerID c, pbt_Origin = '''', pbt_UserId = ctr_UserID c\<rparr>) containers"

definition MarshalConsignment :: "PbConsignment \<Rightarrow> Consignment" where
  "MarshalConsignment c = \<lparr>con_ID = pbc_Id c, con_Weight = pbc_Weight c, con_Description = pbc_Description c,
     con_Containers = marshalContainerCollection (pbc_Containers c), con_VesselID = pbc_VesselId c,
     con_ReservationID = '''', con_Status = pbc_Status c, con_PaymentID = ''''\<rparr>"

definition UnmarshalConsignment :: "Consignment \<Rightarrow> PbConsignment" where
  "UnmarshalConsignment c = \<lparr>pbc_Id = con_ID c, pbc_Description = con_Description c, pbc_Weight = con_Weight c,
     pbc_Containers = unmarshalContainerCollection (con_Containers c), pbc_VesselId = con_VesselID c,
     pbc_Status = con_Status c\<rparr>"

definition UnmarshalConsignmentCollection :: "Consignment list \<Rightarrow> PbConsignment list" where
  "UnmarshalConsignmentCollection consignments = map UnmarshalConsignment consignments"

lemma container_roundtrip: "marshalContainerCollection (unmarshalContainerCollection cs) = cs"
  by (induction cs) (simp_all add: marshalContainerCollection_def unmarshalContainerCollection_def)

lemma container_back: "unmarshalContainerCollection (marshalContainerCollection cs) = map (\<lambda>c. c\<lparr>pbt_Origin := ''''\<rparr>) cs"
  by (simp add: marshalContainerCollection_def unmarshalContainerCollection_def comp_def)

section \<open>The contract of the repository\<close>

definition set_status :: "string \<Rightarrow> string \<Rightarrow> Consignment list \<Rightarrow> Consignment list" where
  "set_status i s = where_update (\<lambda>c. con_ID c = i) (\<lambda>c. c\<lparr>con_Status := s\<rparr>)"

definition updated :: "string \<Rightarrow> ConsignmentUpdate \<Rightarrow> Consignment list \<Rightarrow> Consignment list" where
  "updated i u = where_update (\<lambda>c. con_ID c = i) (set_fields u)"

lemma set_fields_id [simp]: "con_ID (set_fields u c) = con_ID c"
  by (simp add: set_fields_def Let_def split: option.splits)

lemma updated_ids: "map con_ID (updated i u cs) = map con_ID cs" "map con_ID (set_status i s cs) = map con_ID cs"
  by (simp_all add: updated_def set_status_def where_update_keys)

lemma set_status_updated: "set_status i s = updated i \<lparr>cu_Status = Some s, cu_PaymentID = None\<rparr>"
proof -
  have "set_fields \<lparr>cu_Status = Some s, cu_PaymentID = None\<rparr> = (\<lambda>c. c\<lparr>con_Status := s\<rparr>)"
    by (simp add: fun_eq_iff set_fields_def)
  then show ?thesis by (simp add: set_status_def updated_def)
qed

lemma set_status_idem: "set_status i s (set_status i s cs) = set_status i s cs"
  by (simp add: set_status_def where_update_def)

lemma updated_in: "c \<in> set (updated i u cs) \<Longrightarrow>
    c \<in> set cs \<and> con_ID c \<noteq> i \<or> (\<exists>c0 \<in> set cs. con_ID c0 = i \<and> c = set_fields u c0)"
  unfolding updated_def by (auto dest: where_update_sound)

locale consignment_repository =
  fixes ok :: "'h \<Rightarrow> bool"
    and repo :: "'h \<Rightarrow> 'w ConsignmentRepository"
    and docs :: "'h \<Rightarrow> 'w \<Rightarrow> Consignment list"
  assumes ids: "ok h \<Longrightarrow> distinct (map con_ID (docs h w))"
    and Create: "ok h \<Longrightarrow> cr_Create (repo h) c w = ((r, c'), w') \<Longrightarrow> c' = c\<lparr>con_Status := StatusPending\<rparr> \<and>
      (docs h w' = docs h w \<and> (\<forall>u. r \<noteq> Inr u) \<or>
       con_ID c \<notin> con_ID ` set (docs h w) \<and> docs h w' = docs h w @ [c'])"
    and GetByID: "ok h \<Longrightarrow> cr_GetByID (repo h) i w = (rc, w') \<Longrightarrow> docs h w' = docs h w \<and>
      (\<forall>c. rc = Inr c \<longrightarrow> c \<in> set (docs h w) \<and> con_ID c = i)"
    and GetAll: "ok h \<Longrightarrow> cr_GetAll (repo h) w = (rl, w') \<Longrightarrow> docs h w' = docs h w \<and>
      (\<forall>cs. rl = Inr cs \<longrightarrow> set cs \<subseteq> set (docs h w))"
    and UpdateStatus: "ok h \<Longrightarrow> cr_UpdateStatus (repo h) i s w = (r, w') \<Longrightarrow>
      docs h w' = docs h w \<and> (\<forall>u. r \<noteq> Inr u) \<or> i \<in> con_ID ` set (docs h w) \<and> docs h w' = set_status i s (docs h w)"
    and Update: "ok h \<Longrightarrow> cr_Update (repo h) i u w = (r, w') \<Longrightarrow>
      docs h w' = docs h w \<and> (cu_Status u = None \<and> cu_PaymentID u = None \<or> (\<forall>x. r \<noteq> Inr x)) \<or>
      i \<in> con_ID ` set (docs h w) \<and> docs h w' = updated i u (docs h w)"

section \<open>MongoDB keeps the contract\<close>

record 'w cview =
  cv_docs :: "'w \<Rightarrow> Consignment list"

definition consignments_ok :: "'w ConsignmentCollection \<times> 'w cview \<Rightarrow> bool" where
  "consignments_ok h \<longleftrightarrow> insert_one_ok (cv_docs (snd h)) con_ID (cc_InsertOne (fst h)) \<and>
     update_one_ok (cv_docs (snd h)) (cc_UpdateOne (fst h)) \<and>
     find_one_ok (cv_docs (snd h)) (cc_FindOne (fst h)) \<and>
     find_all_ok (cv_docs (snd h)) (cc_Find (fst h)) \<and>
     (\<forall>w. distinct (map con_ID (cv_docs (snd h) w)))"

lemma consignments_okD:
  assumes "consignments_ok (c, v)"
  shows "insert_one_ok (cv_docs v) con_ID (cc_InsertOne c)" "update_one_ok (cv_docs v) (cc_UpdateOne c)"
    "find_one_ok (cv_docs v) (cc_FindOne c)" "find_all_ok (cv_docs v) (cc_Find c)" "distinct (map con_ID (cv_docs v w))"
  using assms by (auto simp: consignments_ok_def)

lemma mongo_update_outcome:
  assumes ok: "consignments_ok (c, v)" and run: "cc_UpdateOne c (\<lambda>x. con_ID x = i) f w = (r, w')"
  shows "cv_docs v w' = cv_docs v w \<and> (\<forall>n. r = Inr n \<longrightarrow> n = 0) \<or>
    i \<in> con_ID ` set (cv_docs v w) \<and> cv_docs v w' = where_update (\<lambda>x. con_ID x = i) f (cv_docs v w)"
  using update_one_by_key[OF consignments_okD(2)[OF ok] consignments_okD(5)[OF ok], OF run] .

lemma decode_all_set: "decode_all xs = Inr ys \<Longrightarrow> y \<in> set ys \<Longrightarrow> Inr y \<in> set xs"
proof (induction xs arbitrary: ys)
  case (Cons a xs)
  then show ?case by (cases a) (auto split: sum.splits)
qed simp

interpretation cons: consignment_repository consignments_ok "\<lambda>h. mongo_consignments (fst h)" "\<lambda>h. cv_docs (snd h)"
proof (unfold_locales, goal_cases)
  case (1 h w)
  then show ?case by (simp add: consignments_ok_def)
next
  case (2 h c w r c' w')
  then have ok: "insert_one_ok (cv_docs (snd h)) con_ID (cc_InsertOne (fst h))" by (simp add: consignments_ok_def)
  from 2 have "cc_InsertOne (fst h) (c\<lparr>con_Status := StatusPending\<rparr>) w = (r, w')" and c': "c' = c\<lparr>con_Status := StatusPending\<rparr>"
    by (auto simp: mongo_consignments_def mongo_Create_def Let_def split: prod.splits)
  from ok[unfolded insert_one_ok_def, rule_format, OF this(1)] c' show ?case by simp
next
  case (3 h i w rc w')
  then have ok: "find_one_ok (cv_docs (snd h)) (cc_FindOne (fst h))" by (simp add: consignments_ok_def)
  obtain r0 w0 where f: "cc_FindOne (fst h) (\<lambda>c. con_ID c = i) w = (r0, w0)" by fastforce
  with 3(2) have "w0 = w' \<and> (\<forall>c. rc = Inr c \<longrightarrow> r0 = Inr c)"
    by (auto simp: mongo_consignments_def mongo_GetByID_def split: sum.splits if_splits)
  with ok[unfolded find_one_ok_def, rule_format, OF f] show ?case by blast
next
  case (4 h w rl w')
  then have ok: "find_all_ok (cv_docs (snd h)) (cc_Find (fst h))" by (simp add: consignments_ok_def)
  obtain r0 w0 where f: "cc_Find (fst h) w = (r0, w0)" by fastforce
  with 4(2) have "w0 = w' \<and> (\<forall>cs. rl = Inr cs \<longrightarrow> cs = [] \<or> (\<exists>xs. r0 = Inr xs \<and> decode_all xs = Inr cs))"
    by (auto simp: mongo_consignments_def mongo_GetAll_def split: sum.splits if_splits)
  then have w0: "w0 = w'" and decoded: "\<And>cs y. rl = Inr cs \<Longrightarrow> y \<in> set cs \<Longrightarrow> \<exists>xs. r0 = Inr xs \<and> Inr y \<in> set xs"
    using decode_all_set by (blast, fastforce)
  from ok[unfolded find_all_ok_def, rule_format, OF f] w0
  have "cv_docs (snd h) w' = cv_docs (snd h) w" "\<And>xs y. r0 = Inr xs \<Longrightarrow> Inr y \<in> set xs \<Longrightarrow> y \<in> set (cv_docs (snd h) w)" by blast+
  with decoded show ?case by blast
next
  case (5 h i s w r w')
  obtain r0 w0 where u: "cc_UpdateOne (fst h) (\<lambda>c. con_ID c = i) (\<lambda>c. c\<lparr>con_Status := s\<rparr>) w = (r0, w0)" by fastforce
  with 5(2) have "w0 = w' \<and> ((\<forall>n. r0 = Inr n \<longrightarrow> n = 0) \<longrightarrow> (\<forall>x. r \<noteq> Inr x))"
    by (auto simp: mongo_consignments_def mongo_UpdateStatus_def split: sum.splits if_splits)
  with mongo_update_outcome[of "fst h" "snd h", OF _ u] 5(1) show ?case unfolding set_status_def by auto
next
  case (6 h i u w r w')
  show ?case
  proof (cases "cu_Status u = None \<and> cu_PaymentID u = None")
    case True
    with 6(2) show ?thesis by (simp add: mongo_consignments_def mongo_Update_def)
  next
    case False
    obtain r0 w0 where u: "cc_UpdateOne (fst h) (\<lambda>c. con_ID c = i) (set_fields u) w = (r0, w0)" by fastforce
    with 6(2) False have "w0 = w' \<and> ((\<forall>n. r0 = Inr n \<longrightarrow> n = 0) \<longrightarrow> (\<forall>x. r \<noteq> Inr x))"
      by (auto simp: mongo_consignments_def mongo_Update_def split: sum.splits if_splits)
    with mongo_update_outcome[of "fst h" "snd h", OF _ u] 6(1) show ?thesis unfolding updated_def by auto
  qed
qed

end
