(* ===== verification/Mongo_Outbox.thy ===== *)
theory Mongo_Outbox
  imports Mongo_Driver Outbox
begin

text \<open>
  \<open>cmd/consignment-service/storage/mongo/outbox.go\<close>: the consignment service's outbox collection.
  The MongoDB collection, \<open>uuid.New\<close> and the clock are parameters (\<open>OutboxMongo\<close>); \<open>mongo_outbox_ok\<close>
  states what they document. The contract \<open>outbox_repository\<close> is interpreted on it, so whatever holds
  for a client of the interface holds with either database.
\<close>

section \<open>Documents and driver\<close>

record CsOutboxEvent = OutboxEvent +
  oe_ProcessingUntil :: "time option"
  oe_ClaimID :: string

record outboxDocument =
  od_Id :: string
  od_Topic :: string
  od_Key :: string
  od_Payload :: bytes
  od_CreatedAt :: time
  od_PublishedAt :: "time option"
  od_ProcessingUntil :: "time option"
  od_ClaimID :: string
  od_TraceContext :: "(string \<times> string) list"

text \<open>
  A \<open>Find\<close> yields what its cursor delivers before \<open>Next\<close> returns false: each document decodes or
  fails to. The code does not ask the cursor why it ended.
\<close>

record 'w OutboxMongo =
  mo_InsertOne :: "outboxDocument \<Rightarrow> 'w \<Rightarrow> (goerr + unit) \<times> 'w"
  mo_UpdateOne :: "(outboxDocument \<Rightarrow> bool) \<Rightarrow> (outboxDocument \<Rightarrow> outboxDocument) \<Rightarrow> 'w \<Rightarrow> (goerr + nat) \<times> 'w"
  mo_UpdateMany :: "(outboxDocument \<Rightarrow> bool) \<Rightarrow> (outboxDocument \<Rightarrow> outboxDocument) \<Rightarrow> 'w \<Rightarrow> (goerr + nat) \<times> 'w"
  mo_Find :: "(outboxDocument \<Rightarrow> bool) \<Rightarrow> (outboxDocument \<Rightarrow> time) \<Rightarrow> 'w \<Rightarrow> (goerr + (goerr + outboxDocument) list) \<times> 'w"
  mo_IsDuplicateKeyError :: "goerr \<Rightarrow> bool"
  mo_NewUUID :: "'w \<Rightarrow> UUID \<times> 'w"
  mo_uuid :: uuid_lib
  mo_Now :: "'w \<Rightarrow> time"
  mo_Inject :: "'w \<Rightarrow> (string \<times> string) list"

section \<open>Operations\<close>

definition outbox_document :: "string \<Rightarrow> time \<Rightarrow> (string \<times> string) list \<Rightarrow> 'x OutboxEvent_scheme \<Rightarrow> outboxDocument" where
  "outbox_document i now carrier event = \<lparr>od_Id = i, od_Topic = oe_Topic event, od_Key = oe_Key event,
     od_Payload = oe_Payload event, od_CreatedAt = now, od_PublishedAt = None, od_ProcessingUntil = None,
     od_ClaimID = '''', od_TraceContext = carrier\<rparr>"

definition mongo_CreateEvent :: "'w OutboxMongo \<Rightarrow> CsOutboxEvent \<Rightarrow> 'w \<Rightarrow> (goerr + unit) \<times> 'w" where
  "mongo_CreateEvent d event w =
    (case mo_NewUUID d w of (i, w0) \<Rightarrow>
      (case mo_InsertOne d (outbox_document (uuid_String (mo_uuid d) i) (mo_Now d w0) (mo_Inject d w) event) w0 of
         (Inl err, w1) \<Rightarrow>
           if mo_IsDuplicateKeyError d err then (Inr (), w1)
           else (Inl (Errorf ''failed to create outbox event'' [err]), w1)
       | (Inr _, w1) \<Rightarrow> (Inr (), w1)))"

definition mongo_MarkPublished :: "'w OutboxMongo \<Rightarrow> UUID \<Rightarrow> 'w \<Rightarrow> (goerr + unit) \<times> 'w" where
  "mongo_MarkPublished d i w =
    (case mo_UpdateOne d (\<lambda>x. od_Id x = uuid_String (mo_uuid d) i) (\<lambda>x. x\<lparr>od_PublishedAt := Some (mo_Now d w)\<rparr>) w of
       (Inl err, w1) \<Rightarrow> (Inl (Errorf ''failed to mark outbox event as published'' [err]), w1)
     | (Inr matched, w1) \<Rightarrow>
         if matched = 0 then (Inl (Errorf (''outbox event '' @ uuid_String (mo_uuid d) i @ '' not found'') []), w1) else (Inr (), w1))"

definition unclaimed :: "time \<Rightarrow> outboxDocument \<Rightarrow> bool" where
  "unclaimed now x \<longleftrightarrow> od_PublishedAt x = None \<and>
     (case od_ProcessingUntil x of None \<Rightarrow> True | Some t \<Rightarrow> t < now)"

definition claim_document :: "string \<Rightarrow> time \<Rightarrow> outboxDocument \<Rightarrow> outboxDocument" where
  "claim_document claimID processingUntil x = x\<lparr>od_ClaimID := claimID, od_ProcessingUntil := Some processingUntil\<rparr>"

definition claimed_by :: "string \<Rightarrow> outboxDocument \<Rightarrow> bool" where
  "claimed_by claimID x \<longleftrightarrow> od_ClaimID x = claimID \<and> od_PublishedAt x = None"

definition document_event :: "UUID \<Rightarrow> outboxDocument \<Rightarrow> CsOutboxEvent" where
  "document_event i doc = \<lparr>oe_Id = i, oe_Topic = od_Topic doc, oe_Key = od_Key doc, oe_Payload = od_Payload doc,
     oe_CreatedAt = od_CreatedAt doc, oe_PublishedAt = od_PublishedAt doc, oe_TraceContext = od_TraceContext doc,
     oe_ProcessingUntil = od_ProcessingUntil doc, oe_ClaimID = od_ClaimID doc\<rparr>"

fun decode_documents :: "uuid_lib \<Rightarrow> (goerr + outboxDocument) list \<Rightarrow> goerr + CsOutboxEvent list" where
  "decode_documents u [] = Inr []"
| "decode_documents u (Inl err # rest) = Inl (Errorf ''failed to decode outbox event'' [err])"
| "decode_documents u (Inr doc # rest) =
    (case uuid_Parse u (od_Id doc) of
       Inl err \<Rightarrow> Inl (Errorf ''failed to parse outbox event id'' [err])
     | Inr i \<Rightarrow>
       (case decode_documents u rest of Inl e \<Rightarrow> Inl e | Inr events \<Rightarrow> Inr (document_event i doc # events)))"

definition mongo_GetPendingEvents :: "'w OutboxMongo \<Rightarrow> time \<Rightarrow> 'w \<Rightarrow> (goerr + CsOutboxEvent list) \<times> 'w" where
  "mongo_GetPendingEvents d lease w =
    (case mo_NewUUID d w of (c, w0) \<Rightarrow>
      (let claimID = uuid_String (mo_uuid d) c; now = mo_Now d w0; processingUntil = now + lease in
       case mo_UpdateMany d (unclaimed now) (claim_document claimID processingUntil) w0 of
         (Inl err, w1) \<Rightarrow> (Inl (Errorf ''failed to claim outbox events'' [err]), w1)
       | (Inr _, w1) \<Rightarrow>
         (case mo_Find d (claimed_by claimID) od_CreatedAt w1 of
            (Inl err, w2) \<Rightarrow> (Inl (Errorf ''failed to fetch claimed outbox events'' [err]), w2)
          | (Inr docs, w2) \<Rightarrow> (decode_documents (mo_uuid d) docs, w2))))"

definition mongo_outbox :: "'w OutboxMongo \<Rightarrow> (CsOutboxEvent, 'w) OutboxRepository" where
  "mongo_outbox d = \<lparr>ob_CreateEvent = mongo_CreateEvent d, ob_MarkPublished = mongo_MarkPublished d,
     ob_GetPendingEvents = mongo_GetPendingEvents d\<rparr>"

section \<open>What MongoDB does\<close>

record 'w moview =
  mv_docs :: "'w \<Rightarrow> outboxDocument list"

definition mo_insert_ok :: "'w OutboxMongo \<times> 'w moview \<Rightarrow> bool" where
  "mo_insert_ok h \<longleftrightarrow> (\<forall>x w r w'. mo_InsertOne (fst h) x w = (r, w') \<longrightarrow>
     (case r of
        Inr _ \<Rightarrow> od_Id x \<notin> od_Id ` set (mv_docs (snd h) w) \<and> mv_docs (snd h) w' = mv_docs (snd h) w @ [x]
      | Inl e \<Rightarrow>
          if mo_IsDuplicateKeyError (fst h) e
          then mv_docs (snd h) w' = mv_docs (snd h) w \<and> od_Id x \<in> od_Id ` set (mv_docs (snd h) w)
          else mv_docs (snd h) w' = mv_docs (snd h) w \<or>
            od_Id x \<notin> od_Id ` set (mv_docs (snd h) w) \<and> mv_docs (snd h) w' = mv_docs (snd h) w @ [x]))"

text \<open>\<open>UpdateMany\<close> is atomic per document only: when it fails, some of them may have changed.\<close>

definition mo_update_many_ok :: "'w OutboxMongo \<times> 'w moview \<Rightarrow> bool" where
  "mo_update_many_ok h \<longleftrightarrow> (\<forall>p f w r w'. mo_UpdateMany (fst h) p f w = (r, w') \<longrightarrow>
     mo_Now (fst h) w \<le> mo_Now (fst h) w' \<and>
     (case r of
        Inr n \<Rightarrow> mv_docs (snd h) w' = where_update p f (mv_docs (snd h) w)
      | Inl e \<Rightarrow> \<exists>s. mv_docs (snd h) w' = where_update (\<lambda>x. p x \<and> s x) f (mv_docs (snd h) w)))"

definition mo_find_ok :: "'w OutboxMongo \<times> 'w moview \<Rightarrow> bool" where
  "mo_find_ok h \<longleftrightarrow> (\<forall>p key w r w'. mo_Find (fst h) p key w = (r, w') \<longrightarrow>
     mv_docs (snd h) w' = mv_docs (snd h) w \<and> mo_Now (fst h) w \<le> mo_Now (fst h) w' \<and>
     (\<forall>xs x. r = Inr xs \<and> Inr x \<in> set xs \<longrightarrow> x \<in> set (mv_docs (snd h) w) \<and> p x))"

text \<open>A new UUID is one nobody has used, neither as an identifier nor as a claim.\<close>

definition mo_uuid_ok :: "'w OutboxMongo \<times> 'w moview \<Rightarrow> bool" where
  "mo_uuid_ok h \<longleftrightarrow> (\<forall>w i w'. mo_NewUUID (fst h) w = (i, w') \<longrightarrow>
     mv_docs (snd h) w' = mv_docs (snd h) w \<and> mo_Now (fst h) w \<le> mo_Now (fst h) w' \<and>
     (\<forall>x \<in> set (mv_docs (snd h) w). od_Id x \<noteq> uuid_String (mo_uuid (fst h)) i \<and> od_ClaimID x \<noteq> uuid_String (mo_uuid (fst h)) i))"

text \<open>Identifiers are distinct (the primary index) and are UUIDs, because this code wrote them.\<close>

definition mongo_outbox_ok :: "'w OutboxMongo \<times> 'w moview \<Rightarrow> bool" where
  "mongo_outbox_ok h \<longleftrightarrow> mo_insert_ok h \<and> update_one_ok (mv_docs (snd h)) (mo_UpdateOne (fst h)) \<and> mo_update_many_ok h \<and> mo_find_ok h \<and> mo_uuid_ok h \<and>
     uuid_ok (mo_uuid (fst h)) \<and>
     (\<forall>w. distinct (map od_Id (mv_docs (snd h) w)) \<and> (\<forall>x \<in> set (mv_docs (snd h) w). \<exists>i. od_Id x = uuid_String (mo_uuid (fst h)) i))"

lemma mongo_outbox_okD:
  assumes "mongo_outbox_ok (d, v)"
  shows "mo_insert_ok (d, v)" "update_one_ok (mv_docs v) (mo_UpdateOne d)" "mo_update_many_ok (d, v)" "mo_find_ok (d, v)" "mo_uuid_ok (d, v)"
    "uuid_ok (mo_uuid d)" "distinct (map od_Id (mv_docs v w))" "x \<in> set (mv_docs v w) \<Longrightarrow> \<exists>i. od_Id x = uuid_String (mo_uuid d) i"
  using assms by (auto simp: mongo_outbox_ok_def)

section \<open>The repository keeps the outbox contract\<close>

definition abs_document :: "uuid_lib \<Rightarrow> outboxDocument \<Rightarrow> outbox_row" where
  "abs_document u x = \<lparr>row_id = (case uuid_Parse u (od_Id x) of Inr i \<Rightarrow> i | Inl _ \<Rightarrow> 0), row_topic = od_Topic x,
     row_key = od_Key x, row_payload = od_Payload x, row_published = (od_PublishedAt x \<noteq> None)\<rparr>"

definition mo_rows :: "'w OutboxMongo \<times> 'w moview \<Rightarrow> 'w \<Rightarrow> outbox_row list" where
  "mo_rows h w = map (abs_document (mo_uuid (fst h))) (mv_docs (snd h) w)"

lemma abs_document_id: "uuid_ok u \<Longrightarrow> od_Id x = uuid_String u i \<Longrightarrow> row_id (abs_document u x) = i"
  by (simp add: abs_document_def uuid_okD)

lemma abs_claim: "abs_document u (claim_document c t x) = abs_document u x"
  by (simp add: abs_document_def claim_document_def)

lemma where_update_claim: "map (abs_document u) (where_update p (claim_document c t) xs) = map (abs_document u) xs"
  by (simp add: where_update_def abs_claim)

text \<open>Marking the one document with an identifier is marking the row.\<close>

lemma mark_document:
  assumes ok: "mongo_outbox_ok (d, v)" and i: "k < length (mv_docs v w)" "od_Id (mv_docs v w ! k) = uuid_String (mo_uuid d) i"
    and upd: "mv_docs v w' = (mv_docs v w)[k := (mv_docs v w ! k)\<lparr>od_PublishedAt := Some t\<rparr>]"
  shows "mo_rows (d, v) w' = map (mark_row i) (mo_rows (d, v) w)"
proof (rule nth_equalityI)
  show "length (mo_rows (d, v) w') = length (map (mark_row i) (mo_rows (d, v) w))" by (simp add: mo_rows_def upd)
  fix j assume "j < length (mo_rows (d, v) w')"
  then have j: "j < length (mv_docs v w)" by (simp add: mo_rows_def upd)
  from mongo_outbox_okD(8)[OF ok nth_mem[OF j]] obtain n where n: "od_Id (mv_docs v w ! j) = uuid_String (mo_uuid d) n" ..
  have id: "row_id (abs_document (mo_uuid d) (mv_docs v w ! j)) = n" by (rule abs_document_id[OF mongo_outbox_okD(6)[OF ok] n])
  have "n = i \<longleftrightarrow> j = k"
    using n i uuid_String_inject[OF mongo_outbox_okD(6)[OF ok]] nth_eq_iff_index_eq[OF mongo_outbox_okD(7)[OF ok, of w], of j k] j
    by auto
  then show "mo_rows (d, v) w' ! j = map (mark_row i) (mo_rows (d, v) w) ! j"
    using j i(1) id by (auto simp: mo_rows_def upd mark_row_def nth_list_update) (simp_all add: abs_document_def)
qed

lemma mongo_CreateEvent_outcome:
  assumes ok: "mongo_outbox_ok (d, v)" and run: "mongo_CreateEvent d e w = (r, w')"
  shows "mo_rows (d, v) w' = mo_rows (d, v) w \<and> (\<forall>u. r \<noteq> Inr u) \<or>
    (\<exists>i. i \<notin> row_id ` set (mo_rows (d, v) w) \<and> mo_rows (d, v) w' = mo_rows (d, v) w @ [new_row i e])"
proof -
  obtain i w0 where n: "mo_NewUUID d w = (i, w0)" by fastforce
  define x where "x = outbox_document (uuid_String (mo_uuid d) i) (mo_Now d w0) (mo_Inject d w) e"
  obtain q w1 where ins: "mo_InsertOne d x w0 = (q, w1)" by fastforce
  from mongo_outbox_okD(5)[OF ok, unfolded mo_uuid_ok_def fst_conv snd_conv, rule_format, OF n]
  have docs0: "mv_docs v w0 = mv_docs v w" and fresh: "\<And>x. x \<in> set (mv_docs v w) \<Longrightarrow> od_Id x \<noteq> uuid_String (mo_uuid d) i" by auto
  have id_x: "od_Id x = uuid_String (mo_uuid d) i" by (simp add: x_def outbox_document_def)
  have id: "row_id (abs_document (mo_uuid d) x) = i" by (rule abs_document_id[OF mongo_outbox_okD(6)[OF ok] id_x])
  have i_new: "i \<notin> row_id ` set (mo_rows (d, v) w)"
  proof
    assume "i \<in> row_id ` set (mo_rows (d, v) w)"
    then obtain y where y: "y \<in> set (mv_docs v w)" "i = row_id (abs_document (mo_uuid d) y)" by (auto simp: mo_rows_def)
    from mongo_outbox_okD(8)[OF ok y(1)] obtain j where "od_Id y = uuid_String (mo_uuid d) j" ..
    with y(2) abs_document_id[OF mongo_outbox_okD(6)[OF ok] this] fresh[OF y(1)] show False by simp
  qed
  have row: "abs_document (mo_uuid d) x = new_row i e"
    using id by (simp add: abs_document_def new_row_def event_row_def x_def outbox_document_def)
  have no_dup: "od_Id x \<notin> od_Id ` set (mv_docs v w0)" unfolding docs0 id_x using fresh by fastforce
  note law = mongo_outbox_okD(1)[OF ok, unfolded mo_insert_ok_def fst_conv snd_conv, rule_format, OF ins]
  have step: "mongo_CreateEvent d e w = (case q of Inl err \<Rightarrow>
      if mo_IsDuplicateKeyError d err then (Inr (), w1) else (Inl (Errorf ''failed to create outbox event'' [err]), w1)
    | Inr _ \<Rightarrow> (Inr (), w1))"
    using n ins by (simp add: mongo_CreateEvent_def x_def split: sum.split)
  show ?thesis
  proof (cases q)
    case (Inl err)
    with law no_dup have nd: "\<not> mo_IsDuplicateKeyError d err" by auto
    with law Inl have "mv_docs v w1 = mv_docs v w \<or> mv_docs v w1 = mv_docs v w @ [x]" by (auto simp: docs0)
    then have "mo_rows (d, v) w1 = mo_rows (d, v) w \<or> mo_rows (d, v) w1 = mo_rows (d, v) w @ [new_row i e]"
      using row by (auto simp: mo_rows_def)
    moreover have "w' = w1" "\<forall>u. r \<noteq> Inr u" using run step Inl nd by auto
    ultimately show ?thesis using i_new by blast
  next
    case (Inr u)
    with law have "mv_docs v w1 = mv_docs v w @ [x]" by (simp add: docs0)
    moreover have "w' = w1" using run step Inr by simp
    ultimately have "mo_rows (d, v) w' = mo_rows (d, v) w @ [new_row i e]" by (simp add: mo_rows_def row)
    with i_new show ?thesis by blast
  qed
qed

lemma mongo_MarkPublished_outcome:
  assumes ok: "mongo_outbox_ok (d, v)" and run: "mongo_MarkPublished d i w = (r, w')"
  shows "mo_rows (d, v) w' = mo_rows (d, v) w \<and> (\<forall>u. r \<noteq> Inr u) \<or>
    mo_rows (d, v) w' = map (mark_row i) (mo_rows (d, v) w)"
proof -
  obtain q w1 where u: "mo_UpdateOne d (\<lambda>x. od_Id x = uuid_String (mo_uuid d) i)
      (\<lambda>x. x\<lparr>od_PublishedAt := Some (mo_Now d w)\<rparr>) w = (q, w1)" by fastforce
  note law = update_one_okD[OF mongo_outbox_okD(2)[OF ok], OF u]
  have w': "w' = w1" and r: "(\<exists>u. r = Inr u) \<Longrightarrow> (\<exists>n. q = Inr n \<and> n \<noteq> 0)"
    using run u by (auto simp: mongo_MarkPublished_def split: sum.splits if_splits)
  from law show ?thesis
  proof
    assume "mv_docs v w1 = mv_docs v w \<and> (\<forall>n. q = Inr n \<longrightarrow> n = 0)"
    with r w' show ?thesis by (auto simp: mo_rows_def)
  next
    assume "\<exists>k < length (mv_docs v w). od_Id (mv_docs v w ! k) = uuid_String (mo_uuid d) i \<and>
        mv_docs v w1 = (mv_docs v w)[k := (mv_docs v w ! k)\<lparr>od_PublishedAt := Some (mo_Now d w)\<rparr>]"
    then show ?thesis unfolding w' using mark_document[OF ok] by blast
  qed
qed

text \<open>What a claim hands out are documents it has stamped with its own identifier.\<close>

lemma decode_documents_events:
  "decode_documents u xs = Inr es \<Longrightarrow> e \<in> set es \<Longrightarrow>
    \<exists>doc i. Inr doc \<in> set xs \<and> uuid_Parse u (od_Id doc) = Inr i \<and> e = document_event i doc"
proof (induction xs arbitrary: es)
  case (Cons a xs)
  then obtain doc i es' where a: "a = Inr doc" "uuid_Parse u (od_Id doc) = Inr i" "decode_documents u xs = Inr es'"
    "es = document_event i doc # es'"
    by (cases a) (auto split: sum.splits)
  show ?case
  proof (cases "e = document_event i doc")
    case True
    with a show ?thesis by auto
  next
    case False
    with a Cons.prems have "e \<in> set es'" by simp
    from Cons.IH[OF a(3) this] show ?thesis by auto
  qed
qed simp

lemma mongo_GetPendingEvents_cases [consumes 1, case_names claim find claimed]:
  assumes "mongo_GetPendingEvents d l w = (r, w')"
  obtains (claim) c w0 e where "mo_NewUUID d w = (c, w0)"
      "mo_UpdateMany d (unclaimed (mo_Now d w0)) (claim_document (uuid_String (mo_uuid d) c) (mo_Now d w0 + l)) w0 = (Inl e, w')"
      "\<And>es. r \<noteq> Inr es"
  | (find) c w0 n w1 e where "mo_NewUUID d w = (c, w0)"
      "mo_UpdateMany d (unclaimed (mo_Now d w0)) (claim_document (uuid_String (mo_uuid d) c) (mo_Now d w0 + l)) w0 = (Inr n, w1)"
      "mo_Find d (claimed_by (uuid_String (mo_uuid d) c)) od_CreatedAt w1 = (Inl e, w')" "\<And>es. r \<noteq> Inr es"
  | (claimed) c w0 n w1 docs where "mo_NewUUID d w = (c, w0)"
      "mo_UpdateMany d (unclaimed (mo_Now d w0)) (claim_document (uuid_String (mo_uuid d) c) (mo_Now d w0 + l)) w0 = (Inr n, w1)"
      "mo_Find d (claimed_by (uuid_String (mo_uuid d) c)) od_CreatedAt w1 = (Inr docs, w')"
      "r = decode_documents (mo_uuid d) docs"
  using assms unfolding mongo_GetPendingEvents_def Let_def
  by (auto split: prod.splits sum.splits)

text \<open>
  A claim changes only the lease of the rows it takes, and the events it returns are among them:
  stamped with a claim identifier nobody had, unpublished, and unclaimed before.
\<close>

lemma mongo_GetPendingEvents_outcome:
  assumes ok: "mongo_outbox_ok (d, v)" and run: "mongo_GetPendingEvents d l w = (r, w')"
  shows "mo_rows (d, v) w' = mo_rows (d, v) w"
    and "r = Inr es \<Longrightarrow> \<exists>c now. mo_Now d w \<le> now \<and> now \<le> mo_Now d w' \<and>
      mv_docs v w' = where_update (unclaimed now) (claim_document c (now + l)) (mv_docs v w) \<and>
      (\<forall>e \<in> set es. \<exists>x \<in> set (mv_docs v w). \<exists>i. unclaimed now x \<and> uuid_Parse (mo_uuid d) (od_Id x) = Inr i \<and>
         e = document_event i (claim_document c (now + l) x))"
proof -
  obtain c w0 where n: "mo_NewUUID d w = (c, w0)" by fastforce
  define now where "now = mo_Now d w0"
  define cid where "cid = uuid_String (mo_uuid d) c"
  from mongo_outbox_okD(5)[OF ok, unfolded mo_uuid_ok_def fst_conv snd_conv, rule_format, OF n]
  have docs0: "mv_docs v w0 = mv_docs v w" and t0: "mo_Now d w \<le> now"
    and fresh: "\<And>x. x \<in> set (mv_docs v w) \<Longrightarrow> od_ClaimID x \<noteq> cid" by (auto simp: now_def cid_def)
  obtain q w1 where u: "mo_UpdateMany d (unclaimed now) (claim_document cid (now + l)) w0 = (q, w1)" by fastforce
  from mongo_outbox_okD(3)[OF ok, unfolded mo_update_many_ok_def fst_conv snd_conv, rule_format, OF u]
  have t1: "now \<le> mo_Now d w1" and many: "\<And>k. q = Inr k \<Longrightarrow> mv_docs v w1 = where_update (unclaimed now) (claim_document cid (now + l)) (mv_docs v w)"
    and part: "\<exists>p. mv_docs v w1 = where_update p (claim_document cid (now + l)) (mv_docs v w)"
    by (auto simp: docs0 now_def split: sum.splits)
  have rows1: "mo_rows (d, v) w1 = mo_rows (d, v) w" using part by (auto simp: mo_rows_def where_update_claim)
  have find: "mv_docs v w' = mv_docs v w1 \<and> mo_Now d w1 \<le> mo_Now d w' \<and>
      (\<forall>xs x. f = Inr xs \<and> Inr x \<in> set xs \<longrightarrow> x \<in> set (mv_docs v w1) \<and> claimed_by cid x)"
    if "mo_Find d (claimed_by cid) od_CreatedAt w1 = (f, w')" for f
    using mongo_outbox_okD(4)[OF ok, unfolded mo_find_ok_def fst_conv snd_conv, rule_format, OF that] by blast
  show "mo_rows (d, v) w' = mo_rows (d, v) w"
    using run
  proof (cases rule: mongo_GetPendingEvents_cases)
    case (claim c' w0' e)
    with n u rows1 show ?thesis by (simp add: now_def cid_def)
  next
    case (find c' w0' k w1' e)
    with n u have "mo_Find d (claimed_by cid) od_CreatedAt w1 = (Inl e, w')" by (simp add: now_def cid_def)
    with \<open>\<And>f. mo_Find d (claimed_by cid) od_CreatedAt w1 = (f, w') \<Longrightarrow> _\<close> rows1 show ?thesis by (simp add: mo_rows_def)
  next
    case (claimed c' w0' k w1' docs)
    with n u have "mo_Find d (claimed_by cid) od_CreatedAt w1 = (Inr docs, w')" by (simp add: now_def cid_def)
    with find[OF this] rows1 show ?thesis by (simp add: mo_rows_def)
  qed
  assume r: "r = Inr es"
  from run obtain k docs where k: "q = Inr k" and f: "mo_Find d (claimed_by cid) od_CreatedAt w1 = (Inr docs, w')"
    and es: "decode_documents (mo_uuid d) docs = Inr es"
    by (cases rule: mongo_GetPendingEvents_cases) (use n u r in \<open>auto simp: now_def cid_def\<close>)
  show "\<exists>c now. mo_Now d w \<le> now \<and> now \<le> mo_Now d w' \<and>
      mv_docs v w' = where_update (unclaimed now) (claim_document c (now + l)) (mv_docs v w) \<and>
      (\<forall>e \<in> set es. \<exists>x \<in> set (mv_docs v w). \<exists>i. unclaimed now x \<and> uuid_Parse (mo_uuid d) (od_Id x) = Inr i \<and>
         e = document_event i (claim_document c (now + l) x))"
  proof (intro exI[of _ cid] exI[of _ now] conjI ballI)
    show "mo_Now d w \<le> now" "now \<le> mo_Now d w'" using t0 t1 find[OF f] by auto
    show "mv_docs v w' = where_update (unclaimed now) (claim_document cid (now + l)) (mv_docs v w)"
      using find[OF f] many[OF k] by simp
    fix e assume "e \<in> set es"
    from decode_documents_events[OF es this] obtain doc i where
      doc: "Inr doc \<in> set docs" "uuid_Parse (mo_uuid d) (od_Id doc) = Inr i" "e = document_event i doc" by blast
    with find[OF f] have "doc \<in> set (mv_docs v w1)" "claimed_by cid doc" by auto
    with many[OF k] fresh obtain y where y: "y \<in> set (mv_docs v w)" "unclaimed now y" "doc = claim_document cid (now + l) y"
      by (auto dest!: where_update_sound simp: claimed_by_def)
    with doc show "\<exists>x \<in> set (mv_docs v w). \<exists>i. unclaimed now x \<and> uuid_Parse (mo_uuid d) (od_Id x) = Inr i \<and>
        e = document_event i (claim_document cid (now + l) x)"
      by (intro bexI[OF _ y(1)] exI[of _ i]) (simp add: claim_document_def)
  qed
qed

interpretation mo: outbox_repository mongo_outbox_ok "\<lambda>h. mongo_outbox (fst h)" mo_rows
proof (unfold_locales, goal_cases)
  case (1 h e w r w')
  then show ?case using mongo_CreateEvent_outcome[of "fst h" "snd h" e w r w'] by (auto simp: mongo_outbox_def)
next
  case (2 h e w u w')
  then show ?case using mongo_CreateEvent_outcome[of "fst h" "snd h" e w "Inr u" w']
    by (auto simp: mongo_outbox_def pending_for_def new_row_def event_row_def)
next
  case (3 h i w r' w')
  then show ?case using mongo_MarkPublished_outcome[of "fst h" "snd h" i w r' w'] by (auto simp: mongo_outbox_def)
next
  case (4 h i w u w')
  then show ?case using mongo_MarkPublished_outcome[of "fst h" "snd h" i w "Inr u" w'] by (auto simp: mongo_outbox_def)
next
  case (5 h l w r'' w')
  then show ?case using mongo_GetPendingEvents_outcome(1)[of "fst h" "snd h" l w r'' w'] by (simp add: mongo_outbox_def)
next
  case (6 h l w es w' e)
  then have run: "mongo_GetPendingEvents (fst h) l w = (Inr es, w')" and ok: "mongo_outbox_ok (fst h, snd h)"
    by (simp_all add: mongo_outbox_def)
  from mongo_GetPendingEvents_outcome(2)[OF ok run refl] 6(3) obtain c now x i where
    x: "x \<in> set (mv_docs (snd h) w)" "unclaimed now x" "uuid_Parse (mo_uuid (fst h)) (od_Id x) = Inr i"
      "e = document_event i (claim_document c (now + l) x)" by blast
  then have "event_row e = abs_document (mo_uuid (fst h)) x"
    by (simp add: event_row_def document_event_def claim_document_def abs_document_def unclaimed_def)
  with x(1) show ?case by (simp add: mo_rows_def)
qed

section \<open>Identifiers, completeness\<close>

lemma document_id:
  assumes ok: "mongo_outbox_ok (d, v)" and x: "x \<in> set (mv_docs v w)" "uuid_Parse (mo_uuid d) (od_Id x) = Inr i"
  shows "od_Id x = uuid_String (mo_uuid d) i"
proof -
  from mongo_outbox_okD(8)[OF ok x(1)] obtain j where j: "od_Id x = uuid_String (mo_uuid d) j" ..
  with x(2) uuid_okD[OF mongo_outbox_okD(6)[OF ok], of j] show ?thesis by simp
qed

lemma mo_rows_distinct:
  assumes ok: "mongo_outbox_ok (d, v)"
  shows "distinct (map row_id (mo_rows (d, v) w))"
proof -
  have "row_id (abs_document (mo_uuid d) x) = row_id (abs_document (mo_uuid d) y) \<longleftrightarrow> od_Id x = od_Id y"
    if "x \<in> set (mv_docs v w)" "y \<in> set (mv_docs v w)" for x y
  proof -
    from mongo_outbox_okD(8)[OF ok that(1)] mongo_outbox_okD(8)[OF ok that(2)] obtain i j where
      ij: "od_Id x = uuid_String (mo_uuid d) i" "od_Id y = uuid_String (mo_uuid d) j" by blast
    with abs_document_id[OF mongo_outbox_okD(6)[OF ok] ij(1)] abs_document_id[OF mongo_outbox_okD(6)[OF ok] ij(2)]
      uuid_String_inject[OF mongo_outbox_okD(6)[OF ok], of i j] show ?thesis by auto
  qed
  with mongo_outbox_okD(7)[OF ok, of w] show ?thesis by (auto simp: mo_rows_def distinct_map inj_on_def)
qed

lemma unclaimed_later: "unclaimed t x \<Longrightarrow> t \<le> t' \<Longrightarrow> unclaimed t' x"
  by (auto simp: unclaimed_def split: option.splits)

lemma decode_documents_complete:
  "(\<And>x. x \<in> set xs \<Longrightarrow> \<exists>i. od_Id x = uuid_String u i) \<Longrightarrow> uuid_ok u \<Longrightarrow>
    \<exists>es. decode_documents u (map Inr xs) = Inr es \<and> oe_Id ` set es = (\<lambda>x. row_id (abs_document u x)) ` set xs"
proof (induction xs)
  case (Cons x xs)
  then obtain i es where "od_Id x = uuid_String u i" "decode_documents u (map Inr xs) = Inr es"
    "oe_Id ` set es = (\<lambda>x. row_id (abs_document u x)) ` set xs" by (meson list.set_intros)
  with Cons.prems(2) abs_document_id[of u x i] show ?case by (simp add: uuid_okD document_event_def)
qed simp

text \<open>
  When every call is answered and the cursor delivers every match, unless the context of the calls
  (\<open>ended\<close>) is over by their return, a claim returns all that was unclaimed.
\<close>

lemma pending_complete:
  assumes ok: "mongo_outbox_ok (d, v)"
    and many: "\<And>n c t x q y. mo_UpdateMany d (unclaimed n) (claim_document c t) x = (q, y) \<Longrightarrow> (\<exists>k. q = Inr k) \<or> ended y"
    and find: "\<And>p key x q y. mo_Find d p key x = (q, y) \<Longrightarrow>
      (\<exists>xs. q = Inr (map Inr xs) \<and> set xs = {x' \<in> set (mv_docs v x). p x'}) \<or> ended y"
    and run: "mongo_GetPendingEvents d l w = (r, w')"
  shows "ended w' \<or> (\<exists>es. r = Inr es \<and>
    (\<forall>x \<in> set (mv_docs v w). unclaimed (mo_Now d w) x \<longrightarrow> row_id (abs_document (mo_uuid d) x) \<in> oe_Id ` set es))"
proof -
  obtain c w0 where n: "mo_NewUUID d w = (c, w0)" by fastforce
  let ?cid = "uuid_String (mo_uuid d) c" and ?now = "mo_Now d w0"
  from mongo_outbox_okD(5)[OF ok, unfolded mo_uuid_ok_def fst_conv snd_conv, rule_format, OF n]
  have docs0: "mv_docs v w0 = mv_docs v w" and now: "mo_Now d w \<le> ?now" by auto
  obtain q1 w1 where u: "mo_UpdateMany d (unclaimed ?now) (claim_document ?cid (?now + l)) w0 = (q1, w1)" by fastforce
  obtain q2 w2 where f: "mo_Find d (claimed_by ?cid) od_CreatedAt w1 = (q2, w2)" by fastforce
  from many[OF u] find[OF f] consider e where "q1 = Inl e" "ended w1" | k where "q1 = Inr k" "ended w2"
    | k xs where "q1 = Inr k" "q2 = Inr (map Inr xs)" "set xs = {x \<in> set (mv_docs v w1). claimed_by ?cid x}"
    by (cases q1) auto
  then show ?thesis
  proof cases
    case 1
    with run n u show ?thesis by (simp add: mongo_GetPendingEvents_def)
  next
    case 2
    with run n u f show ?thesis by (auto simp: mongo_GetPendingEvents_def split: sum.splits)
  next
    case (3 k xs)
    from mongo_outbox_okD(3)[OF ok, unfolded mo_update_many_ok_def fst_conv snd_conv, rule_format, OF u] 3(1)
    have docs1: "mv_docs v w1 = where_update (unclaimed ?now) (claim_document ?cid (?now + l)) (mv_docs v w)" by (simp add: docs0)
    have ids: "\<exists>i. od_Id x = uuid_String (mo_uuid d) i" if "x \<in> set xs" for x
      using that 3(3) mongo_outbox_okD(8)[OF ok, of x w1] by auto
    from decode_documents_complete[OF ids mongo_outbox_okD(6)[OF ok]] obtain es where
      es: "decode_documents (mo_uuid d) (map Inr xs) = Inr es"
        "oe_Id ` set es = (\<lambda>x. row_id (abs_document (mo_uuid d) x)) ` set xs" by blast
    have "r = Inr es" using run n u f 3 es(1) by (simp add: mongo_GetPendingEvents_def)
    moreover have "row_id (abs_document (mo_uuid d) x) \<in> oe_Id ` set es"
      if x: "x \<in> set (mv_docs v w)" "unclaimed (mo_Now d w) x" for x
    proof -
      from unclaimed_later[OF x(2) now] have un: "unclaimed ?now x" .
      let ?x = "claim_document ?cid (?now + l) x"
      have "?x \<in> set (mv_docs v w1)" using x(1) un by (auto simp: docs1 where_update_def)
      moreover have "claimed_by ?cid ?x" using un by (simp add: claimed_by_def claim_document_def unclaimed_def)
      ultimately have "?x \<in> set xs" by (simp add: 3(3))
      then have "row_id (abs_document (mo_uuid d) ?x) \<in> oe_Id ` set es" unfolding es(2) by (rule imageI)
      then show ?thesis by (simp add: abs_claim)
    qed
    ultimately show ?thesis by blast
  qed
qed

lemma mark_succeeds:
  assumes ok: "mongo_outbox_ok (d, v)"
    and one: "\<And>k t x q y. \<exists>z \<in> set (mv_docs v x). od_Id z = k \<Longrightarrow>
      mo_UpdateOne d (\<lambda>z. od_Id z = k) (\<lambda>z. z\<lparr>od_PublishedAt := Some t\<rparr>) x = (q, y) \<Longrightarrow> (\<exists>n. q = Inr (Suc n)) \<or> ended y"
    and i: "i \<in> row_id ` set (mo_rows (d, v) w)" and run: "mongo_MarkPublished d i w = (r, w')"
  shows "r = Inr () \<or> ended w'"
proof -
  from i obtain x where x: "x \<in> set (mv_docs v w)" "i = row_id (abs_document (mo_uuid d) x)" by (auto simp: mo_rows_def)
  from mongo_outbox_okD(8)[OF ok x(1)] obtain j where j: "od_Id x = uuid_String (mo_uuid d) j" ..
  with x(2) abs_document_id[OF mongo_outbox_okD(6)[OF ok] j] have id: "od_Id x = uuid_String (mo_uuid d) i" by simp
  obtain q y where u: "mo_UpdateOne d (\<lambda>x. od_Id x = uuid_String (mo_uuid d) i)
      (\<lambda>x. x\<lparr>od_PublishedAt := Some (mo_Now d w)\<rparr>) w = (q, y)" by fastforce
  from one[OF _ u] x(1) id have "(\<exists>n. q = Inr (Suc n)) \<or> ended y" by blast
  with run u show ?thesis by (auto simp: mongo_MarkPublished_def split: sum.splits if_splits)
qed

end
