(* ===== verification/Consignment_Manager.thy ===== *)
theory Consignment_Manager
  imports Consignment_Storage Outbox Payment Mongo_Outbox
begin

text \<open>
  \<open>cmd/consignment-service/manager\<close> (\<open>event.go\<close>, \<open>manager.go\<close>): the event handlers that drive the
  confirmation saga of a consignment - capture the payment, hand over to the reservation service,
  undo a failed confirmation, cancel on an expired reservation, and close the saga. The payment
  client, \<open>backoff.Retry\<close> with the limits of \<open>backoffFn\<close>, the metrics and the codecs are fields of the
  manager record. The publisher of \<open>outbox.go\<close> is in \<open>Consignment_Outbox\<close>.
\<close>

section \<open>The manager\<close>

definition ConsignmentPaymentAuthorisedTopic :: string where "ConsignmentPaymentAuthorisedTopic = ''consignment.payment.authorised''"
definition ConsignmentConfirmationFailedTopic :: string where "ConsignmentConfirmationFailedTopic = ''consignment.confirmation.failed''"
definition ReservationExpiredTopic :: string where "ReservationExpiredTopic = ''reservation.expired''"
definition ReservationConfirmedTopic :: string where "ReservationConfirmedTopic = ''reservation.confirmed''"
definition PaymentCapturedTopic :: string where "PaymentCapturedTopic = ''consignment.payment.captured''"

lemmas cs_topic_defs = ConsignmentPaymentAuthorisedTopic_def ConsignmentConfirmationFailedTopic_def
  ReservationExpiredTopic_def ReservationConfirmedTopic_def PaymentCapturedTopic_def

definition maxRetries :: int32 where "maxRetries = 3"
definition backoffAttempts :: nat where "backoffAttempts = 3"

text \<open>The gRPC client of the payment service.\<close>

record 'w PaymentClient =
  pc_Authorise :: "AuthoriseRequest \<Rightarrow> 'w \<Rightarrow> (goerr + AuthoriseResponse) \<times> 'w"
  pc_Capture :: "CaptureRequest \<Rightarrow> 'w \<Rightarrow> (goerr + CaptureResponse) \<times> 'w"
  pc_Refund :: "RefundRequest \<Rightarrow> 'w \<Rightarrow> (goerr + RefundResponse) \<times> 'w"
  pc_Void :: "VoidRequest \<Rightarrow> 'w \<Rightarrow> (goerr + VoidResponse) \<times> 'w"

text \<open>The metrics interface; a duration is in nanoseconds, its \<open>Seconds()\<close> are floating-point.\<close>

record 'w Metrics =
  mx_ObserveSagaDuration :: "time \<Rightarrow> string \<Rightarrow> 'w \<Rightarrow> 'w"
  mx_IncSagaTotal :: "string \<Rightarrow> 'w \<Rightarrow> 'w"

text \<open>
  The closures passed to \<open>backoff.Retry\<close> return an error only; the one that captures also leaves the
  last response in a variable, which is the value of its successful run here.
\<close>

record 'w CsManager =
  cm_repository :: "'w ConsignmentRepository"
  cm_outbox :: "(CsOutboxEvent, 'w) OutboxRepository"
  cm_WithTransaction :: "('w \<Rightarrow> (goerr + unit) \<times> 'w) \<Rightarrow> 'w \<Rightarrow> (goerr + unit) \<times> 'w"
  cm_paymentCli :: "'w PaymentClient"
  cm_RetryCapture :: "('w \<Rightarrow> (goerr + CaptureResponse) \<times> 'w) \<Rightarrow> 'w \<Rightarrow> (goerr + CaptureResponse) \<times> 'w"
  cm_Retry :: "('w \<Rightarrow> (goerr + unit) \<times> 'w) \<Rightarrow> 'w \<Rightarrow> (goerr + unit) \<times> 'w"
  cm_metrics :: "'w Metrics"
  cm_Now :: "'w \<Rightarrow> time"
  cm_codecs :: event_codecs

definition cs_outbox_event :: "string \<Rightarrow> string \<Rightarrow> bytes \<Rightarrow> CsOutboxEvent" where
  "cs_outbox_event t k p = \<lparr>oe_Id = 0, oe_Topic = t, oe_Key = k, oe_Payload = p, oe_CreatedAt = zero_time,
     oe_PublishedAt = None, oe_TraceContext = [], oe_ProcessingUntil = None, oe_ClaimID = ''''\<rparr>"

section \<open>Publish functions\<close>

definition capture_failed_event :: "PaymentAuthorisedEvent \<Rightarrow> ConsignmentConfirmationFailedEvent" where
  "capture_failed_event event = zero_FailedEvent\<lparr>
     cfe_ConsignmentId := pae_ConsignmentId event,
     cfe_PaymentId := pae_PaymentId event,
     cfe_PaymentAuthId := pae_PaymentAuthId event,
     cfe_PaymentCaptured := pae_PaymentCaptured event,
     cfe_SagaStartedAt := pae_SagaStartedAt event\<rparr>"

definition publishCaptureFailedToDLQ :: "'w CsManager \<Rightarrow> PaymentAuthorisedEvent \<Rightarrow> 'w \<Rightarrow> (goerr + unit) \<times> 'w" where
  "publishCaptureFailedToDLQ m event w =
    (case Marshal (pb_ConfirmationFailed (cm_codecs m)) (capture_failed_event event) of
       Inl err \<Rightarrow> (Inl (Errorf ''failed to marshal confirmation failed event'' [err]), w)
     | Inr payload \<Rightarrow>
         ob_CreateEvent (cm_outbox m)
           (cs_outbox_event ConsignmentConfirmationFailedTopic (pae_ConsignmentId event) payload) w)"

definition authorised_key :: "PaymentAuthorisedEvent \<Rightarrow> string" where
  "authorised_key event = pae_ConsignmentId event @ ''-'' @ fmt_int (int_of_int32 (pae_RetryCount event))"

text \<open>\<open>RetryCount\<close> is an \<open>int32\<close> and is compared signed.\<close>

definition cm_publishPaymentAuthorised :: "'w CsManager \<Rightarrow> PaymentAuthorisedEvent \<Rightarrow> 'w \<Rightarrow> (goerr + unit) \<times> 'w" where
  "cm_publishPaymentAuthorised m event w =
    (if maxRetries <s pae_RetryCount event then publishCaptureFailedToDLQ m event w
     else
       (case Marshal (pb_PaymentAuthorised (cm_codecs m)) event of
          Inl err \<Rightarrow> (Inl (Errorf ''failed to marshal event'' [err]), w)
        | Inr payload \<Rightarrow>
          (case ob_CreateEvent (cm_outbox m)
                  (cs_outbox_event ConsignmentPaymentAuthorisedTopic (authorised_key event) payload) w of
             (Inl err, w1) \<Rightarrow> (Inl (Errorf ''failed to create outbox event'' [err]), w1)
           | (Inr _, w1) \<Rightarrow> (Inr (), w1))))"

definition publishPaymentCaptured :: "'w CsManager \<Rightarrow> string \<Rightarrow> string \<Rightarrow> PaymentCapturedEvent \<Rightarrow> 'w \<Rightarrow> (goerr + unit) \<times> 'w" where
  "publishPaymentCaptured m topic key event w =
    (case Marshal (pb_PaymentCaptured (cm_codecs m)) event of
       Inl err \<Rightarrow> (Inl (Errorf ''failed to marshal payment captured event'' [err]), w)
     | Inr payload \<Rightarrow> ob_CreateEvent (cm_outbox m) (cs_outbox_event topic key payload) w)"

section \<open>Payment authorised\<close>

definition capture_request :: "PaymentAuthorisedEvent \<Rightarrow> CaptureRequest" where
  "capture_request event = \<lparr>creq_AuthId = pae_PaymentAuthId event, creq_IdempotencyKey = pae_IdempotencyKey event\<rparr>"

definition captured_event :: "PaymentAuthorisedEvent \<Rightarrow> PaymentCapturedEvent" where
  "captured_event event = \<lparr>
     pce_ReservationInfo = Some \<lparr>evi_Id = pae_ReservationId event, evi_VesselId = pae_VesselId event,
       evi_ConsignmentId = '''', evi_NumberOfContainers = pae_Containers event, evi_Weight = pae_Weight event\<rparr>,
     pce_ConsignmentId = pae_ConsignmentId event,
     pce_PaymentId = pae_PaymentId event,
     pce_SagaStartedAt = pae_SagaStartedAt event\<rparr>"

text \<open>\<open>event.RetryCount++\<close>, then publish; both failure branches of the handler do this.\<close>

definition schedule_retry :: "'w CsManager \<Rightarrow> PaymentAuthorisedEvent \<Rightarrow> 'w \<Rightarrow> (goerr + unit) \<times> 'w" where
  "schedule_retry m event w =
    (case cm_publishPaymentAuthorised m (event\<lparr>pae_RetryCount := pae_RetryCount event + 1\<rparr>) w of
       (Inl err, w1) \<Rightarrow> (Inl (Errorf ''failed to schedule event retry'' [err]), w1)
     | (Inr _, w1) \<Rightarrow> (Inr (), w1))"

text \<open>The callback of the transaction.\<close>

definition captured_update :: "PaymentAuthorisedEvent \<Rightarrow> ConsignmentUpdate" where
  "captured_update event = \<lparr>cu_Status = Some StatusConfirmationPending, cu_PaymentID = Some (pae_PaymentId event)\<rparr>"

definition captured_tx :: "'w CsManager \<Rightarrow> PaymentAuthorisedEvent \<Rightarrow> 'w \<Rightarrow> (goerr + unit) \<times> 'w" where
  "captured_tx m event w =
    (case publishPaymentCaptured m PaymentCapturedTopic (pae_ConsignmentId event) (captured_event event) w of
       (Inl err, w1) \<Rightarrow> (Inl err, w1)
     | (Inr _, w1) \<Rightarrow> cr_Update (cm_repository m) (pae_ConsignmentId event) (captured_update event) w1)"

text \<open>From \<open>event.PaymentCaptured = true\<close> to the end of the handler.\<close>

definition process_captured :: "'w CsManager \<Rightarrow> PaymentAuthorisedEvent \<Rightarrow> 'w \<Rightarrow> (goerr + unit) \<times> 'w" where
  "process_captured m event0 w =
    (let event = event0\<lparr>pae_PaymentCaptured := True\<rparr> in
     case cm_WithTransaction m (captured_tx m event) w of
       (Inl txErr, w1) \<Rightarrow> schedule_retry m event w1
     | (Inr _, w1) \<Rightarrow> (Inr (), w1))"

definition process_authorised :: "'w CsManager \<Rightarrow> PaymentAuthorisedEvent \<Rightarrow> 'w \<Rightarrow> (goerr + unit) \<times> 'w" where
  "process_authorised m event0 w =
    (if pae_PaymentCaptured event0 then process_captured m event0 w
     else
       (let event = event0\<lparr>pae_IdempotencyKey := pae_ConsignmentId event0\<rparr> in
        case cm_RetryCapture m (pc_Capture (cm_paymentCli m) (capture_request event)) w of
          (Inl captureErr, w1) \<Rightarrow> schedule_retry m event w1
        | (Inr capResponse, w1) \<Rightarrow> process_captured m (event\<lparr>pae_PaymentId := crsp_PaymentId capResponse\<rparr>) w1))"

definition handlePaymentAuthorisedEvent :: "'w CsManager \<Rightarrow> 'w EventHandler" where
  "handlePaymentAuthorisedEvent m key val w =
    (case Unmarshal (pb_PaymentAuthorised (cm_codecs m)) val of
       Inl err \<Rightarrow> (Inl (Errorf ''failed to unmarshal event'' [err]), w)
     | Inr event \<Rightarrow> process_authorised m event w)"

section \<open>The end of a saga\<close>

text \<open>
  \<open>AsTime\<close> is the instant in nanoseconds since 1970; \<open>IsZero\<close> holds of the first of January of the
  year 1. \<open>time.Since\<close> saturates at the limits of a 64-bit duration.
\<close>

definition AsTime :: "Timestamp \<Rightarrow> time" where
  "AsTime ts = sint (ts_Seconds ts) * 10 ^ 9 + sint (ts_Nanos ts)"

definition time_Sub :: "time \<Rightarrow> time \<Rightarrow> time" where
  "time_Sub t u = max (- (2 ^ 63)) (min (2 ^ 63 - 1) (t - u))"

definition saga_metrics :: "'w CsManager \<Rightarrow> Timestamp option \<Rightarrow> string \<Rightarrow> 'w \<Rightarrow> 'w" where
  "saga_metrics m started status w =
    (let w1 = (case started of
                 None \<Rightarrow> w
               | Some ts \<Rightarrow>
                   if AsTime ts = zero_time then w
                   else mx_ObserveSagaDuration (cm_metrics m) (time_Sub (cm_Now m w) (AsTime ts)) status w)
     in mx_IncSagaTotal (cm_metrics m) status w1)"

definition discard :: "('w \<Rightarrow> (goerr + 'a) \<times> 'w) \<Rightarrow> 'w \<Rightarrow> (goerr + unit) \<times> 'w" where
  "discard f w = (case f w of (Inl err, w1) \<Rightarrow> (Inl err, w1) | (Inr _, w1) \<Rightarrow> (Inr (), w1))"

text \<open>Void or refund, retried; a failure is logged and otherwise ignored.\<close>

definition undo_payment :: "'w CsManager \<Rightarrow> ConsignmentConfirmationFailedEvent \<Rightarrow> 'w \<Rightarrow> 'w" where
  "undo_payment m event w =
    (if \<not> cfe_PaymentCaptured event
     then snd (cm_Retry m (discard (pc_Void (cm_paymentCli m) \<lparr>vreq_AuthId = cfe_PaymentAuthId event\<rparr>)) w)
     else snd (cm_Retry m (discard (pc_Refund (cm_paymentCli m)
       \<lparr>rreq_PaymentId = cfe_PaymentId event, rreq_IdempotencyKey = cfe_ConsignmentId event\<rparr>)) w))"

definition process_failed :: "'w CsManager \<Rightarrow> ConsignmentConfirmationFailedEvent \<Rightarrow> 'w \<Rightarrow> (goerr + unit) \<times> 'w" where
  "process_failed m event w =
    (case cr_UpdateStatus (cm_repository m) (cfe_ConsignmentId event) StatusCancelled (undo_payment m event w) of
       (Inl updateErr, w1) \<Rightarrow>
         (Inl (Errorf (''failed to cancel consignment '' @ cfe_ConsignmentId event) [updateErr]), w1)
     | (Inr _, w1) \<Rightarrow> (Inr (), saga_metrics m (cfe_SagaStartedAt event) ''cancelled'' w1))"

definition handleFailedConfirmationEvent :: "'w CsManager \<Rightarrow> 'w EventHandler" where
  "handleFailedConfirmationEvent m key val w =
    (case Unmarshal (pb_ConfirmationFailed (cm_codecs m)) val of
       Inl err \<Rightarrow> (Inl (Errorf ''failed to unmarshal event'' [err]), w)
     | Inr event \<Rightarrow> process_failed m event w)"

definition refund_consignment :: "'w CsManager \<Rightarrow> Consignment \<Rightarrow> 'w \<Rightarrow> 'w" where
  "refund_consignment m consignment w =
    (if con_PaymentID consignment = '''' then w
     else snd (cm_Retry m (discard (pc_Refund (cm_paymentCli m)
       \<lparr>rreq_PaymentId = con_PaymentID consignment, rreq_IdempotencyKey = con_ID consignment\<rparr>)) w))"

definition process_expired :: "'w CsManager \<Rightarrow> ReservationExpiredEvent \<Rightarrow> 'w \<Rightarrow> (goerr + unit) \<times> 'w" where
  "process_expired m event w =
    (case cr_GetByID (cm_repository m) (ree_ConsignmentId event) w of
       (Inl err, w1) \<Rightarrow> (Inl (Errorf (''failed to get consignment '' @ ree_ConsignmentId event) [err]), w1)
     | (Inr consignment, w1) \<Rightarrow>
         if con_Status consignment = StatusPending then
           (case cr_UpdateStatus (cm_repository m) (ree_ConsignmentId event) StatusCancelled
                   (refund_consignment m consignment w1) of
              (Inl updateErr, w2) \<Rightarrow>
                (Inl (Errorf (''failed to cancel consignment '' @ ree_ConsignmentId event) [updateErr]), w2)
            | (Inr _, w2) \<Rightarrow> (Inr (), w2))
         else (Inr (), w1))"

definition handleExpiredReservationEvent :: "'w CsManager \<Rightarrow> 'w EventHandler" where
  "handleExpiredReservationEvent m key val w =
    (case Unmarshal (pb_ReservationExpired (cm_codecs m)) val of
       Inl err \<Rightarrow> (Inl (Errorf ''failed to unmarshal event'' [err]), w)
     | Inr event \<Rightarrow> process_expired m event w)"

definition process_confirmed :: "'w CsManager \<Rightarrow> ReservationConfirmedEvent \<Rightarrow> 'w \<Rightarrow> (goerr + unit) \<times> 'w" where
  "process_confirmed m event w =
    (case cr_UpdateStatus (cm_repository m) (rce_ConsignmentId event) StatusConfirmed w of
       (Inl updateErr, w1) \<Rightarrow>
         (Inl (Errorf (''failed to confirm consignment '' @ rce_ConsignmentId event) [updateErr]), w1)
     | (Inr _, w1) \<Rightarrow> (Inr (), saga_metrics m (rce_SagaStartedAt event) ''confirmed'' w1))"

definition handleReservationConfirmedEvent :: "'w CsManager \<Rightarrow> 'w EventHandler" where
  "handleReservationConfirmedEvent m key val w =
    (case Unmarshal (pb_ReservationConfirmed (cm_codecs m)) val of
       Inl err \<Rightarrow> (Inl (Errorf ''failed to unmarshal event'' [err]), w)
     | Inr event \<Rightarrow> process_confirmed m event w)"

section \<open>Topics\<close>

definition cs_handlers :: "'w CsManager \<Rightarrow> 'w EventHandlers" where
  "cs_handlers m = [
     ConsignmentPaymentAuthorisedTopic \<mapsto> handlePaymentAuthorisedEvent m,
     ConsignmentConfirmationFailedTopic \<mapsto> handleFailedConfirmationEvent m,
     ReservationExpiredTopic \<mapsto> handleExpiredReservationEvent m,
     ReservationConfirmedTopic \<mapsto> handleReservationConfirmedEvent m]"

definition cs_New :: "'w CsManager \<Rightarrow> string list \<Rightarrow> goerr + 'w EventHandlers" where
  "cs_New m topics = assign_handlers (cs_handlers m) Map.empty topics"

end
