(* ===== verification/Consignment_Contract.thy ===== *)
theory Consignment_Contract
  imports Consignment_Manager
begin

text \<open>
  What the event handlers of the consignment service do to the three stores they touch - the
  consignments, the outbox and, over gRPC, the payments - proved once over the contracts of the
  repositories and of the payment service (the locale \<open>consignment_manager\<close>).
\<close>

section \<open>Vocabulary\<close>

text \<open>A message that waits in the outbox.\<close>

definition queued :: "string \<Rightarrow> string \<Rightarrow> bytes \<Rightarrow> outbox_row list \<Rightarrow> bool" where
  "queued t k p rs \<longleftrightarrow> (\<exists>r \<in> set rs. row_message r = (t, k, p) \<and> \<not> row_published r)"

lemma queued_new: "queued t k p (rs @ [new_row i (cs_outbox_event t k p)])"
  by (simp add: queued_def new_row_def event_row_def cs_outbox_event_def row_message_def)

lemma queued_append: "queued t k p rs \<Longrightarrow> queued t k p (rs @ new)"
  by (auto simp: queued_def)

text \<open>What a payment must look like after a successful capture, refund, or void.\<close>

definition paid :: "string \<Rightarrow> string \<Rightarrow> payments \<Rightarrow> bool" where
  "paid a pid m \<longleftrightarrow> (\<exists>p. m a = Some p \<and> pay_status p = statusCaptured \<and> pay_captureID p = pid)"

definition refund_effect :: "RefundRequest \<Rightarrow> payments \<Rightarrow> payments \<Rightarrow> bool" where
  "refund_effect req m m' \<longleftrightarrow> (\<exists>a p. m a = Some p \<and> pay_captureID p = rreq_PaymentId req \<and>
     pay_status p = statusCaptured \<and> m' = m(a \<mapsto> p\<lparr>pay_status := statusRefunded\<rparr>))"

text \<open>
  Retried refunds, whose answers may be lost, move payments with that id from captured to refunded,
  and nothing else.
\<close>

definition only_refunds :: "string \<Rightarrow> payments \<Rightarrow> payments \<Rightarrow> bool" where
  "only_refunds pid m m' \<longleftrightarrow> (\<forall>a. m' a = m a \<or>
     (\<exists>p. m a = Some p \<and> pay_captureID p = pid \<and> pay_status p = statusCaptured \<and>
        m' a = Some (p\<lparr>pay_status := statusRefunded\<rparr>)))"

lemma only_refunds_refl [simp]: "only_refunds pid m m"
  by (simp add: only_refunds_def)

lemma only_refunds_trans: "only_refunds pid x y \<Longrightarrow> only_refunds pid y z \<Longrightarrow> only_refunds pid x z"
  unfolding only_refunds_def
proof (intro allI, goal_cases)
  case (1 a)
  from 1(1)[rule_format, of a] 1(2)[rule_format, of a] show ?case by fastforce
qed

lemma refund_effect_only: "refund_effect req m m' \<Longrightarrow> only_refunds (rreq_PaymentId req) m m'"
  unfolding refund_effect_def only_refunds_def by fastforce

abbreviation refund_request :: "Consignment \<Rightarrow> RefundRequest" where
  "refund_request c \<equiv> \<lparr>rreq_PaymentId = con_PaymentID c, rreq_IdempotencyKey = con_ID c\<rparr>"

definition refunded :: "RefundRequest \<Rightarrow> payments \<Rightarrow> bool" where
  "refunded req m \<longleftrightarrow> (\<exists>a p. m a = Some p \<and> pay_captureID p = rreq_PaymentId req \<and> pay_status p = statusRefunded)"

text \<open>
  Where a retry of the authorised event ends: the event itself is queued again, or, when its retries
  are used up, a failure event is.
\<close>

definition follow_up :: "event_codecs \<Rightarrow> PaymentAuthorisedEvent \<Rightarrow> outbox_row list \<Rightarrow> bool" where
  "follow_up cs event rs \<longleftrightarrow>
     (if maxRetries <s pae_RetryCount event
      then \<exists>p. Marshal (pb_ConfirmationFailed cs) (capture_failed_event event) = Inr p \<and>
             queued ConsignmentConfirmationFailedTopic (pae_ConsignmentId event) p rs
      else \<exists>p. Marshal (pb_PaymentAuthorised cs) event = Inr p \<and>
             queued ConsignmentPaymentAuthorisedTopic (authorised_key event) p rs)"

text \<open>
  The retried event is the received one with its count advanced; it claims a captured payment only
  if there is one, and names it.
\<close>

definition retried_from :: "PaymentAuthorisedEvent \<Rightarrow> payments \<Rightarrow> PaymentAuthorisedEvent \<Rightarrow> bool" where
  "retried_from event pays e \<longleftrightarrow>
     pae_RetryCount e = pae_RetryCount event + 1 \<and>
     pae_ConsignmentId e = pae_ConsignmentId event \<and> pae_PaymentAuthId e = pae_PaymentAuthId event \<and>
     pae_ReservationId e = pae_ReservationId event \<and>
     (pae_PaymentCaptured event \<longrightarrow> pae_PaymentCaptured e \<and> pae_PaymentId e = pae_PaymentId event) \<and>
     (pae_PaymentCaptured e \<and> \<not> pae_PaymentCaptured event \<longrightarrow> paid (pae_PaymentAuthId event) (pae_PaymentId e) pays)"

text \<open>The payment has been taken and the reservation service is told to confirm.\<close>

definition handed_over :: "event_codecs \<Rightarrow> PaymentAuthorisedEvent \<Rightarrow> Consignment list \<Rightarrow> Consignment list \<Rightarrow> outbox_row list \<Rightarrow> bool" where
  "handed_over cs e cons cons' rs \<longleftrightarrow>
     pae_ConsignmentId e \<in> con_ID ` set cons \<and>
     cons' = updated (pae_ConsignmentId e) (captured_update e) cons \<and>
     (\<exists>p. Marshal (pb_PaymentCaptured cs) (captured_event e) = Inr p \<and>
        queued PaymentCapturedTopic (pae_ConsignmentId e) p rs)"

definition capture_of :: "PaymentAuthorisedEvent \<Rightarrow> CaptureRequest" where
  "capture_of e = \<lparr>creq_AuthId = pae_PaymentAuthId e, creq_IdempotencyKey = pae_ConsignmentId e\<rparr>"

lemma capture_request_key: "capture_request (e\<lparr>pae_IdempotencyKey := pae_ConsignmentId e\<rparr>) = capture_of e"
  by (simp add: capture_request_def capture_of_def)

lemma handed_over_cong:
  assumes "pae_ConsignmentId e' = pae_ConsignmentId e" "captured_event e' = captured_event e" "pae_PaymentId e' = pae_PaymentId e"
  shows "handed_over cs e' = handed_over cs e"
  using assms by (simp add: handed_over_def captured_update_def fun_eq_iff)

section \<open>The contract\<close>

text \<open>
  \<open>rows\<close> and \<open>docs\<close> are the outbox and the consignments as the database holds them, \<open>pays\<close> the payments of
  the payment service. A transaction runs its callback on the state it found, and on error leaves
  that state behind unless only the answer to its commit was lost. The law is about callbacks that
  call no other service.
\<close>

locale consignment_manager =
  consignment_repository ok "\<lambda>h. cm_repository (mgr h)" docs +
  outbox_repository ok "\<lambda>h. cm_outbox (mgr h)" rows
  for ok :: "'h \<Rightarrow> bool" and mgr :: "'h \<Rightarrow> 'w CsManager"
    and docs :: "'h \<Rightarrow> 'w \<Rightarrow> Consignment list" and rows :: "'h \<Rightarrow> 'w \<Rightarrow> outbox_row list" +
  fixes pays :: "'h \<Rightarrow> 'w \<Rightarrow> payments"
  assumes create_appends: "ok h \<Longrightarrow> ob_CreateEvent (cm_outbox (mgr h)) e w = (Inr u, w') \<Longrightarrow>
      \<exists>i. rows h w' = rows h w @ [new_row i e]"
    and outbox_frame: "ok h \<Longrightarrow> ob_CreateEvent (cm_outbox (mgr h)) e w = (r, w') \<Longrightarrow>
      docs h w' = docs h w \<and> pays h w' = pays h w"
    and get_frame: "ok h \<Longrightarrow> cr_GetByID (cm_repository (mgr h)) i w = (rc, w') \<Longrightarrow>
      rows h w' = rows h w \<and> pays h w' = pays h w"
    and status_frame: "ok h \<Longrightarrow> cr_UpdateStatus (cm_repository (mgr h)) i st w = (r, w') \<Longrightarrow>
      rows h w' = rows h w \<and> pays h w' = pays h w"
    and update_frame: "ok h \<Longrightarrow> cr_Update (cm_repository (mgr h)) i upd w = (r, w') \<Longrightarrow>
      rows h w' = rows h w \<and> pays h w' = pays h w"
    and capture_call: "ok h \<Longrightarrow> pc_Capture (cm_paymentCli (mgr h)) cq w = (rcap, w') \<Longrightarrow>
      docs h w' = docs h w \<and> rows h w' = rows h w \<and>
      (pays h w' = pays h w \<or> capture_effect cq (pays h w) (pays h w')) \<and>
      (\<forall>rsp. rcap = Inr rsp \<longrightarrow> paid (creq_AuthId cq) (crsp_PaymentId rsp) (pays h w'))"
    and void_call: "ok h \<Longrightarrow> pc_Void (cm_paymentCli (mgr h)) vq w = (rvoid, w') \<Longrightarrow>
      docs h w' = docs h w \<and> rows h w' = rows h w \<and>
      (pays h w' = pays h w \<or> void_effect vq (pays h w) (pays h w')) \<and>
      (\<forall>rsp. rvoid = Inr rsp \<longrightarrow> voided vq (pays h w'))"
    and refund_call: "ok h \<Longrightarrow> pc_Refund (cm_paymentCli (mgr h)) rq w = (rref, w') \<Longrightarrow>
      docs h w' = docs h w \<and> rows h w' = rows h w \<and>
      (pays h w' = pays h w \<or> refund_effect rq (pays h w) (pays h w')) \<and>
      (\<forall>rsp. rref = Inr rsp \<longrightarrow> refunded rq (pays h w'))"
    and retries: "ok h \<Longrightarrow> retry_within backoffAttempts (cm_Retry (mgr h))"
      "ok h \<Longrightarrow> retry_within backoffAttempts (cm_RetryCapture (mgr h))"
    and transaction: "ok h \<Longrightarrow> cm_WithTransaction (mgr h) fn w = (r, w') \<Longrightarrow>
      \<forall>x q y. fn x = (q, y) \<longrightarrow> pays h y = pays h x \<Longrightarrow>
      pays h w' = pays h w \<and>
      (docs h w' = docs h w \<and> rows h w' = rows h w \<and> (\<forall>u. r \<noteq> Inr u) \<or>
       (\<exists>x y u. docs h x = docs h w \<and> rows h x = rows h w \<and> fn x = (Inr u, y) \<and>
          docs h w' = docs h y \<and> rows h w' = rows h y))"
    and metrics_frame: "ok h \<Longrightarrow> docs h (mx_ObserveSagaDuration (cm_metrics (mgr h)) t st w) = docs h w \<and>
        rows h (mx_ObserveSagaDuration (cm_metrics (mgr h)) t st w) = rows h w \<and>
        pays h (mx_ObserveSagaDuration (cm_metrics (mgr h)) t st w) = pays h w"
      "ok h \<Longrightarrow> docs h (mx_IncSagaTotal (cm_metrics (mgr h)) st w) = docs h w \<and>
        rows h (mx_IncSagaTotal (cm_metrics (mgr h)) st w) = rows h w \<and>
        pays h (mx_IncSagaTotal (cm_metrics (mgr h)) st w) = pays h w"
begin

text \<open>Every store but the one an operation is about stays as it is.\<close>

definition same :: "'h \<Rightarrow> 'w \<Rightarrow> 'w \<Rightarrow> bool" where
  "same h w w' \<longleftrightarrow> docs h w' = docs h w \<and> rows h w' = rows h w \<and> pays h w' = pays h w"

lemma saga_metrics_same: "ok h \<Longrightarrow> same h w (saga_metrics (mgr h) started st w)"
  using metrics_frame by (cases started) (simp_all add: same_def saga_metrics_def Let_def)

section \<open>Publishing\<close>

lemma create_event:
  assumes "ok h" "ob_CreateEvent (cm_outbox (mgr h)) (cs_outbox_event t k p) w = (r, w')"
  shows "docs h w' = docs h w \<and> pays h w' = pays h w" and "\<exists>new. rows h w' = rows h w @ new"
    and "r = Inr u \<Longrightarrow> queued t k p (rows h w')"
proof -
  show "docs h w' = docs h w \<and> pays h w' = pays h w" using outbox_frame[OF assms] .
  show "\<exists>new. rows h w' = rows h w @ new" using create[OF assms] by auto
  assume "r = Inr u"
  with create_appends[OF assms(1)] assms(2) obtain i where "rows h w' = rows h w @ [new_row i (cs_outbox_event t k p)]" by blast
  then show "queued t k p (rows h w')" by (simp add: queued_new)
qed

lemma publish_outcome:
  assumes ok: "ok h" and run: "cm_publishPaymentAuthorised (mgr h) e w = (r, w')"
  shows "docs h w' = docs h w \<and> pays h w' = pays h w" and "\<exists>new. rows h w' = rows h w @ new"
    and "r = Inr u \<Longrightarrow> follow_up (cm_codecs (mgr h)) e (rows h w')"
proof -
  have "docs h w' = docs h w \<and> pays h w' = pays h w \<and> (\<exists>new. rows h w' = rows h w @ new) \<and>
      (r = Inr u \<longrightarrow> follow_up (cm_codecs (mgr h)) e (rows h w'))"
  proof (cases "maxRetries <s pae_RetryCount e")
    case True
    with run have dlq: "publishCaptureFailedToDLQ (mgr h) e w = (r, w')" by (simp add: cm_publishPaymentAuthorised_def)
    show ?thesis
    proof (cases "Marshal (pb_ConfirmationFailed (cm_codecs (mgr h))) (capture_failed_event e)")
      case (Inl err)
      with dlq show ?thesis by (auto simp: publishCaptureFailedToDLQ_def)
    next
      case (Inr p)
      with dlq have "ob_CreateEvent (cm_outbox (mgr h))
          (cs_outbox_event ConsignmentConfirmationFailedTopic (pae_ConsignmentId e) p) w = (r, w')"
        by (simp add: publishCaptureFailedToDLQ_def)
      from create_event[OF ok this] True Inr show ?thesis by (auto simp: follow_up_def)
    qed
  next
    case False
    show ?thesis
    proof (cases "Marshal (pb_PaymentAuthorised (cm_codecs (mgr h))) e")
      case (Inl err)
      with run False show ?thesis by (auto simp: cm_publishPaymentAuthorised_def)
    next
      case (Inr p)
      obtain r1 w1 where c: "ob_CreateEvent (cm_outbox (mgr h))
          (cs_outbox_event ConsignmentPaymentAuthorisedTopic (authorised_key e) p) w = (r1, w1)" by fastforce
      with run False Inr have "w1 = w'" "r = Inr u \<Longrightarrow> r1 = Inr u"
        by (auto simp: cm_publishPaymentAuthorised_def split: sum.splits)
      with create_event[OF ok c] False Inr show ?thesis by (auto simp: follow_up_def)
    qed
  qed
  then show "docs h w' = docs h w \<and> pays h w' = pays h w" "\<exists>new. rows h w' = rows h w @ new"
    "r = Inr u \<Longrightarrow> follow_up (cm_codecs (mgr h)) e (rows h w')" by blast+
qed

lemma schedule_outcome:
  assumes ok: "ok h" and run: "schedule_retry (mgr h) e w = (r, w')"
  shows "docs h w' = docs h w \<and> pays h w' = pays h w" and "\<exists>new. rows h w' = rows h w @ new"
    and "r = Inr u \<Longrightarrow> follow_up (cm_codecs (mgr h)) (e\<lparr>pae_RetryCount := pae_RetryCount e + 1\<rparr>) (rows h w')"
proof -
  obtain r1 w1 where p: "cm_publishPaymentAuthorised (mgr h) (e\<lparr>pae_RetryCount := pae_RetryCount e + 1\<rparr>) w = (r1, w1)" by fastforce
  with run have e: "w1 = w'" "r = Inr u \<Longrightarrow> r1 = Inr u" by (auto simp: schedule_retry_def split: sum.splits)
  note out = publish_outcome[OF ok p]
  show "docs h w' = docs h w \<and> pays h w' = pays h w" "\<exists>new. rows h w' = rows h w @ new" using out(1,2) e(1) by auto
  show "r = Inr u \<Longrightarrow> follow_up (cm_codecs (mgr h)) (e\<lparr>pae_RetryCount := pae_RetryCount e + 1\<rparr>) (rows h w')"
    using out(3)[of u] e by simp
qed

section \<open>The transaction\<close>

lemma captured_tx_outcome:
  assumes ok: "ok h" and run: "captured_tx (mgr h) e w = (r, w')"
  shows "pays h w' = pays h w"
    and "r = Inr u \<Longrightarrow> handed_over (cm_codecs (mgr h)) e (docs h w) (docs h w') (rows h w') \<and> (\<exists>new. rows h w' = rows h w @ new)"
proof -
  have "pays h w' = pays h w \<and> (r = Inr u \<longrightarrow>
      handed_over (cm_codecs (mgr h)) e (docs h w) (docs h w') (rows h w') \<and> (\<exists>new. rows h w' = rows h w @ new))"
  proof (cases "Marshal (pb_PaymentCaptured (cm_codecs (mgr h))) (captured_event e)")
    case (Inl err)
    with run show ?thesis by (auto simp: captured_tx_def publishPaymentCaptured_def)
  next
    case (Inr p)
    obtain r1 w1 where c: "ob_CreateEvent (cm_outbox (mgr h))
        (cs_outbox_event PaymentCapturedTopic (pae_ConsignmentId e) p) w = (r1, w1)" by fastforce
    note first = create_event[OF ok c]
    show ?thesis
    proof (cases r1)
      case Inl
      with run Inr c first(1) show ?thesis by (auto simp: captured_tx_def publishPaymentCaptured_def)
    next
      case (Inr x)
      with run c \<open>Marshal _ _ = Inr p\<close>
      have u: "cr_Update (cm_repository (mgr h)) (pae_ConsignmentId e) (captured_update e) w1 = (r, w')"
        by (simp add: captured_tx_def publishPaymentCaptured_def)
      from Update[OF ok u] first(1) have "r = Inr u \<Longrightarrow> pae_ConsignmentId e \<in> con_ID ` set (docs h w) \<and>
          docs h w' = updated (pae_ConsignmentId e) (captured_update e) (docs h w)"
        by (auto simp: captured_update_def)
      with update_frame[OF ok u] first(1,2) first(3)[OF Inr] \<open>Marshal _ _ = Inr p\<close> show ?thesis
        unfolding handed_over_def by simp
    qed
  qed
  then show "pays h w' = pays h w"
    "r = Inr u \<Longrightarrow> handed_over (cm_codecs (mgr h)) e (docs h w) (docs h w') (rows h w') \<and> (\<exists>new. rows h w' = rows h w @ new)"
    by blast+
qed


lemma process_captured_outcome:
  assumes ok: "ok h" and run: "process_captured (mgr h) e w = (r, w')"
  defines "e' \<equiv> e\<lparr>pae_PaymentCaptured := True\<rparr>"
  shows "pays h w' = pays h w" and "\<exists>new. rows h w' = rows h w @ new"
    and "docs h w' = docs h w \<or> docs h w' = updated (pae_ConsignmentId e) (captured_update e) (docs h w)"
    and "r = Inr u \<Longrightarrow> handed_over (cm_codecs (mgr h)) e' (docs h w) (docs h w') (rows h w') \<or>
      follow_up (cm_codecs (mgr h)) (e'\<lparr>pae_RetryCount := pae_RetryCount e + 1\<rparr>) (rows h w')"
proof -
  obtain r1 w1 where t: "cm_WithTransaction (mgr h) (captured_tx (mgr h) e') w = (r1, w1)" by fastforce
  have "\<forall>x q y. captured_tx (mgr h) e' x = (q, y) \<longrightarrow> pays h y = pays h x" using captured_tx_outcome(1)[OF ok] by blast
  from transaction[OF ok t this]
  have p1: "pays h w1 = pays h w" and tx: "docs h w1 = docs h w \<and> rows h w1 = rows h w \<and> (\<forall>u. r1 \<noteq> Inr u) \<or>
      (\<exists>x y u. docs h x = docs h w \<and> rows h x = rows h w \<and> captured_tx (mgr h) e' x = (Inr u, y) \<and>
         docs h w1 = docs h y \<and> rows h w1 = rows h y)" by blast+
  have done1: "handed_over (cm_codecs (mgr h)) e' (docs h w) (docs h w1) (rows h w1) \<and> (\<exists>new. rows h w1 = rows h w @ new)"
    if "docs h x = docs h w" "rows h x = rows h w" "captured_tx (mgr h) e' x = (Inr v, y)"
      "docs h w1 = docs h y" "rows h w1 = rows h y" for x y v
    using captured_tx_outcome(2)[OF ok that(3) refl] that by simp
  have rows1: "\<exists>new. rows h w1 = rows h w @ new" and docs1: "docs h w1 = docs h w \<or>
      handed_over (cm_codecs (mgr h)) e' (docs h w) (docs h w1) (rows h w1)"
    and ok1: "\<And>v. r1 = Inr v \<Longrightarrow> handed_over (cm_codecs (mgr h)) e' (docs h w) (docs h w1) (rows h w1)"
    using tx done1 by (fastforce, blast, blast)
  have ids: "captured_update e' = captured_update e" "pae_ConsignmentId e' = pae_ConsignmentId e"
    by (simp_all add: e'_def captured_update_def)
  have "pays h w' = pays h w \<and> (\<exists>new. rows h w' = rows h w @ new) \<and>
      (docs h w' = docs h w \<or> docs h w' = updated (pae_ConsignmentId e) (captured_update e) (docs h w)) \<and>
      (r = Inr u \<longrightarrow> handed_over (cm_codecs (mgr h)) e' (docs h w) (docs h w') (rows h w') \<or>
         follow_up (cm_codecs (mgr h)) (e'\<lparr>pae_RetryCount := pae_RetryCount e + 1\<rparr>) (rows h w'))"
  proof (cases r1)
    case (Inr v)
    with run t have "w' = w1" by (simp add: process_captured_def e'_def)
    with p1 rows1 docs1 ok1[OF Inr] ids show ?thesis by (auto simp: handed_over_def)
  next
    case (Inl err)
    with run t have s: "schedule_retry (mgr h) e' w1 = (r, w')" by (simp add: process_captured_def e'_def)
    from schedule_outcome(1,2)[OF ok s] p1 rows1 docs1 ids
    have "pays h w' = pays h w" "\<exists>new. rows h w' = rows h w @ new"
      "docs h w' = docs h w \<or> docs h w' = updated (pae_ConsignmentId e) (captured_update e) (docs h w)"
      by (auto simp: handed_over_def)
    moreover from schedule_outcome(3)[OF ok s, of u]
    have "r = Inr u \<longrightarrow> follow_up (cm_codecs (mgr h)) (e'\<lparr>pae_RetryCount := pae_RetryCount e + 1\<rparr>) (rows h w')"
      by (simp add: e'_def)
    ultimately show ?thesis by blast
  qed
  then show "pays h w' = pays h w" "\<exists>new. rows h w' = rows h w @ new"
    "docs h w' = docs h w \<or> docs h w' = updated (pae_ConsignmentId e) (captured_update e) (docs h w)"
    "r = Inr u \<Longrightarrow> handed_over (cm_codecs (mgr h)) e' (docs h w) (docs h w') (rows h w') \<or>
      follow_up (cm_codecs (mgr h)) (e'\<lparr>pae_RetryCount := pae_RetryCount e + 1\<rparr>) (rows h w')" by blast+
qed

section \<open>Calls with retries\<close>

text \<open>What every run of a call keeps, its retries keep, and a success ends in a successful run.\<close>

lemma retry_outcome:
  assumes "retry_within n rt" and run: "rt f w = (r, w')"
    and step: "\<And>x c y. f x = (c, y) \<Longrightarrow> docs h y = docs h x \<and> rows h y = rows h x \<and> R (pays h x) (pays h y) \<and>
      (\<forall>a. c = Inr a \<longrightarrow> Q a (pays h y))"
    and trans: "\<And>x y z. R x y \<Longrightarrow> R y z \<Longrightarrow> R x z"
  shows "docs h w' = docs h w \<and> rows h w' = rows h w \<and> R (pays h w) (pays h w') \<and> (\<forall>a. r = Inr a \<longrightarrow> Q a (pays h w'))"
proof -
  obtain k where k: "attempts k f w = (r, w')" using retry_within_run[OF assms(1), OF run] by blast
  let ?P = "\<lambda>x y. docs h y = docs h x \<and> rows h y = rows h x \<and> R (pays h x) (pays h y)"
  have "True \<and> ?P w w'"
  proof (rule attempts_relation[where I = "\<lambda>_. True" and P = ?P, OF _ _ TrueI k])
    show "?P x y \<Longrightarrow> ?P y z \<Longrightarrow> ?P x z" for x y z using trans by auto
    show "True \<and> ?P x y" if "f x = (c, y)" for x c y using step[OF that] by simp
  qed
  moreover have "Q a (pays h w')" if "r = Inr a" for a
    using attempts_success[where I = "\<lambda>_. True" and Q = "\<lambda>a x. Q a (pays h x)", OF _ _ TrueI k[unfolded that]] step by blast
  ultimately show ?thesis by simp
qed

lemma capture_retried:
  assumes ok: "ok h" and run: "cm_RetryCapture (mgr h) (pc_Capture (cm_paymentCli (mgr h)) q) w = (r, w')"
  shows "docs h w' = docs h w \<and> rows h w' = rows h w \<and> pay_capture.at_most_once q (pays h w) (pays h w') \<and>
    (\<forall>rsp. r = Inr rsp \<longrightarrow> paid (creq_AuthId q) (crsp_PaymentId rsp) (pays h w'))"
  by (rule retry_outcome[OF retries(2)[OF ok] run])
    (use capture_call[OF ok] pay_capture.at_most_once_trans[of q] in \<open>auto simp: pay_capture.at_most_once_def\<close>)

lemma void_retried:
  assumes ok: "ok h" and run: "cm_Retry (mgr h) (discard (pc_Void (cm_paymentCli (mgr h)) q)) w = (r, w')"
  shows "docs h w' = docs h w \<and> rows h w' = rows h w \<and> pay_void.at_most_once q (pays h w) (pays h w') \<and>
    (\<forall>u. r = Inr u \<longrightarrow> voided q (pays h w'))"
proof (rule retry_outcome[OF retries(1)[OF ok] run])
  fix x y and c :: "goerr + unit"
  assume d: "discard (pc_Void (cm_paymentCli (mgr h)) q) x = (c, y)"
  obtain c0 y0 where "pc_Void (cm_paymentCli (mgr h)) q x = (c0, y0)" by fastforce
  with d void_call[OF ok this] show "docs h y = docs h x \<and> rows h y = rows h x \<and>
      pay_void.at_most_once q (pays h x) (pays h y) \<and> (\<forall>u. c = Inr u \<longrightarrow> voided q (pays h y))"
    by (cases c0) (auto simp: discard_def pay_void.at_most_once_def)
qed (rule pay_void.at_most_once_trans)

lemma refund_retried:
  assumes ok: "ok h" and run: "cm_Retry (mgr h) (discard (pc_Refund (cm_paymentCli (mgr h)) q)) w = (r, w')"
  shows "docs h w' = docs h w \<and> rows h w' = rows h w \<and> only_refunds (rreq_PaymentId q) (pays h w) (pays h w') \<and>
    (\<forall>u. r = Inr u \<longrightarrow> refunded q (pays h w'))"
proof (rule retry_outcome[OF retries(1)[OF ok] run])
  fix x y and c :: "goerr + unit"
  assume d: "discard (pc_Refund (cm_paymentCli (mgr h)) q) x = (c, y)"
  obtain c0 y0 where "pc_Refund (cm_paymentCli (mgr h)) q x = (c0, y0)" by fastforce
  with d refund_call[OF ok this] show "docs h y = docs h x \<and> rows h y = rows h x \<and>
      only_refunds (rreq_PaymentId q) (pays h x) (pays h y) \<and> (\<forall>u. c = Inr u \<longrightarrow> refunded q (pays h y))"
    by (cases c0) (auto simp: discard_def dest: refund_effect_only)
qed (rule only_refunds_trans)

section \<open>The handlers\<close>

lemma process_authorised_outcome:
  assumes ok: "ok h" and run: "process_authorised (mgr h) e w = (r, w')"
  shows "pay_capture.at_most_once (capture_of e) (pays h w) (pays h w')" (is ?pay)
    and "\<exists>new. rows h w' = rows h w @ new" (is ?rows)
    and "docs h w' = docs h w \<or> (\<exists>pid. docs h w' = updated (pae_ConsignmentId e) (captured_update (e\<lparr>pae_PaymentId := pid\<rparr>)) (docs h w))" (is ?docs)
    and "r = Inr u \<Longrightarrow>
      (\<exists>pid. handed_over (cm_codecs (mgr h)) (e\<lparr>pae_PaymentId := pid\<rparr>) (docs h w) (docs h w') (rows h w') \<and>
         (if pae_PaymentCaptured e then pid = pae_PaymentId e else paid (pae_PaymentAuthId e) pid (pays h w'))) \<or>
      (\<exists>e'. retried_from e (pays h w') e' \<and> follow_up (cm_codecs (mgr h)) e' (rows h w'))" (is "_ \<Longrightarrow> ?done")
proof -
  have "?pay \<and> ?rows \<and> ?docs \<and> (r = Inr u \<longrightarrow> ?done)"
  proof (cases "pae_PaymentCaptured e")
    case True
    with run have "process_captured (mgr h) e w = (r, w')" by (simp add: process_authorised_def)
    note out = process_captured_outcome[OF ok this]
    have ho: "handed_over cs (e\<lparr>pae_PaymentCaptured := True\<rparr>) = handed_over cs (e\<lparr>pae_PaymentId := pae_PaymentId e\<rparr>)" for cs
      by (rule handed_over_cong) (simp_all add: captured_event_def)
    have "retried_from e (pays h w') (e\<lparr>pae_PaymentCaptured := True, pae_RetryCount := pae_RetryCount e + 1\<rparr>)"
      using True by (simp add: retried_from_def)
    with out True show ?thesis
      unfolding ho by (simp add: pay_capture.at_most_once_def captured_update_def) blast
  next
    case False
    let ?e = "e\<lparr>pae_IdempotencyKey := pae_ConsignmentId e\<rparr>"
    obtain r1 w1 where c: "cm_RetryCapture (mgr h) (pc_Capture (cm_paymentCli (mgr h)) (capture_of e)) w = (r1, w1)" by fastforce
    note cap = capture_retried[OF ok c]
    show ?thesis
    proof (cases r1)
      case (Inl err)
      with run c False have s: "schedule_retry (mgr h) ?e w1 = (r, w')"
        by (simp add: process_authorised_def capture_request_key)
      note out = schedule_outcome[OF ok s]
      have "retried_from e (pays h w') (?e\<lparr>pae_RetryCount := pae_RetryCount e + 1\<rparr>)"
        using False by (simp add: retried_from_def)
      with out cap show ?thesis by simp blast
    next
      case (Inr rsp)
      let ?e' = "?e\<lparr>pae_PaymentId := crsp_PaymentId rsp\<rparr>"
      from run c False Inr have s: "process_captured (mgr h) ?e' w1 = (r, w')"
        by (simp add: process_authorised_def capture_request_key Let_def)
      note out = process_captured_outcome[OF ok s]
      have paid: "paid (pae_PaymentAuthId e) (crsp_PaymentId rsp) (pays h w')"
        using cap Inr out(1) by (simp add: capture_of_def)
      have ho: "handed_over cs (?e'\<lparr>pae_PaymentCaptured := True\<rparr>) = handed_over cs (e\<lparr>pae_PaymentId := crsp_PaymentId rsp\<rparr>)" for cs
        by (rule handed_over_cong) (simp_all add: captured_event_def)
      have re: "retried_from e (pays h w') (?e'\<lparr>pae_PaymentCaptured := True, pae_RetryCount := pae_RetryCount ?e' + 1\<rparr>)"
        using False paid by (simp add: retried_from_def)
      have upd: "updated (pae_ConsignmentId ?e') (captured_update ?e') =
          updated (pae_ConsignmentId e) (captured_update (e\<lparr>pae_PaymentId := crsp_PaymentId rsp\<rparr>))"
        by (simp add: captured_update_def)
      have ?pay ?rows using cap out(1,2) by auto
      moreover have ?docs using cap out(3) unfolding upd by auto
      moreover have ?done if "r = Inr u" using out(4)[OF that] cap paid re False unfolding ho by auto
      ultimately show ?thesis by blast
    qed
  qed
  then show ?pay ?rows ?docs "r = Inr u \<Longrightarrow> ?done" by blast+
qed

text \<open>The two undo calls of the failure handler; what it ignores is only their error.\<close>

lemma undo_payment_outcome:
  assumes ok: "ok h"
  shows "docs h (undo_payment (mgr h) e w) = docs h w" "rows h (undo_payment (mgr h) e w) = rows h w"
    and "if cfe_PaymentCaptured e then only_refunds (cfe_PaymentId e) (pays h w) (pays h (undo_payment (mgr h) e w))
      else pay_void.at_most_once \<lparr>vreq_AuthId = cfe_PaymentAuthId e\<rparr> (pays h w) (pays h (undo_payment (mgr h) e w))"
proof -
  let ?w = "undo_payment (mgr h) e w"
  have "docs h ?w = docs h w \<and> rows h ?w = rows h w \<and>
      (if cfe_PaymentCaptured e then only_refunds (cfe_PaymentId e) (pays h w) (pays h ?w)
       else pay_void.at_most_once \<lparr>vreq_AuthId = cfe_PaymentAuthId e\<rparr> (pays h w) (pays h ?w))"
  proof (cases "cfe_PaymentCaptured e")
    case True
    let ?q = "\<lparr>rreq_PaymentId = cfe_PaymentId e, rreq_IdempotencyKey = cfe_ConsignmentId e\<rparr>"
    from refund_retried[OF ok surjective_pairing, of ?q w] True show ?thesis by (simp add: undo_payment_def)
  next
    case False
    let ?q = "\<lparr>vreq_AuthId = cfe_PaymentAuthId e\<rparr>"
    from void_retried[OF ok surjective_pairing, of ?q w] False show ?thesis by (simp add: undo_payment_def)
  qed
  then show "docs h ?w = docs h w" "rows h ?w = rows h w"
    "if cfe_PaymentCaptured e then only_refunds (cfe_PaymentId e) (pays h w) (pays h ?w)
      else pay_void.at_most_once \<lparr>vreq_AuthId = cfe_PaymentAuthId e\<rparr> (pays h w) (pays h ?w)" by blast+
qed

lemma process_failed_outcome:
  assumes ok: "ok h" and run: "process_failed (mgr h) e w = (r, w')"
  shows "rows h w' = rows h w" and "pays h w' = pays h (undo_payment (mgr h) e w)"
    and "docs h w' = docs h w \<and> (\<forall>u. r \<noteq> Inr u) \<or>
      cfe_ConsignmentId e \<in> con_ID ` set (docs h w) \<and> docs h w' = set_status (cfe_ConsignmentId e) StatusCancelled (docs h w)"
proof -
  obtain r1 w1 where u: "cr_UpdateStatus (cm_repository (mgr h)) (cfe_ConsignmentId e) StatusCancelled (undo_payment (mgr h) e w) = (r1, w1)"
    by fastforce
  note out = UpdateStatus[OF ok u] status_frame[OF ok u] undo_payment_outcome(1,2)[OF ok, of e w]
  have "same h w1 w'" "(\<exists>x. r = Inr x) = (\<exists>x. r1 = Inr x)"
    using run u saga_metrics_same[OF ok] by (auto simp: process_failed_def same_def split: sum.splits)
  with out show "rows h w' = rows h w" "pays h w' = pays h (undo_payment (mgr h) e w)"
    "docs h w' = docs h w \<and> (\<forall>u. r \<noteq> Inr u) \<or>
      cfe_ConsignmentId e \<in> con_ID ` set (docs h w) \<and> docs h w' = set_status (cfe_ConsignmentId e) StatusCancelled (docs h w)"
    by (auto simp: same_def)
qed

lemma process_confirmed_outcome:
  assumes ok: "ok h" and run: "process_confirmed (mgr h) e w = (r, w')"
  shows "rows h w' = rows h w" and "pays h w' = pays h w"
    and "docs h w' = docs h w \<and> (\<forall>u. r \<noteq> Inr u) \<or>
      rce_ConsignmentId e \<in> con_ID ` set (docs h w) \<and> docs h w' = set_status (rce_ConsignmentId e) StatusConfirmed (docs h w)"
proof -
  obtain r1 w1 where u: "cr_UpdateStatus (cm_repository (mgr h)) (rce_ConsignmentId e) StatusConfirmed w = (r1, w1)"
    by fastforce
  note out = UpdateStatus[OF ok u] status_frame[OF ok u]
  have "same h w1 w'" "(\<exists>x. r = Inr x) = (\<exists>x. r1 = Inr x)"
    using run u saga_metrics_same[OF ok] by (auto simp: process_confirmed_def same_def split: sum.splits)
  with out show "rows h w' = rows h w" "pays h w' = pays h w"
    "docs h w' = docs h w \<and> (\<forall>u. r \<noteq> Inr u) \<or>
      rce_ConsignmentId e \<in> con_ID ` set (docs h w) \<and> docs h w' = set_status (rce_ConsignmentId e) StatusConfirmed (docs h w)"
    by (auto simp: same_def)
qed

text \<open>Only a pending consignment is cancelled when its reservation expires.\<close>

lemma refund_consignment_outcome:
  assumes ok: "ok h"
  shows "docs h (refund_consignment (mgr h) c w) = docs h w" "rows h (refund_consignment (mgr h) c w) = rows h w"
    and "only_refunds (con_PaymentID c) (pays h w) (pays h (refund_consignment (mgr h) c w))"
    and "con_PaymentID c = '''' \<Longrightarrow> refund_consignment (mgr h) c w = w"
  using refund_retried[OF ok surjective_pairing, of "\<lparr>rreq_PaymentId = con_PaymentID c, rreq_IdempotencyKey = con_ID c\<rparr>" w]
  by (simp_all add: refund_consignment_def)

text \<open>The call is made: its payment is refunded afterwards, or every attempt was answered with an error.\<close>

lemma refund_consignment_refunds:
  assumes ok: "ok h" and pid: "con_PaymentID c \<noteq> ''''"
  shows "refunded (refund_request c) (pays h (refund_consignment (mgr h) c w)) \<or>
    (\<exists>err. fst (cm_Retry (mgr h) (discard (pc_Refund (cm_paymentCli (mgr h)) (refund_request c))) w) = Inl err)"
proof -
  obtain r w' where run: "cm_Retry (mgr h) (discard (pc_Refund (cm_paymentCli (mgr h)) (refund_request c))) w = (r, w')" by fastforce
  from refund_retried[OF ok run] have "r = Inr u \<Longrightarrow> refunded (refund_request c) (pays h w')" for u by blast
  with run pid show ?thesis by (cases r) (simp_all add: refund_consignment_def)
qed

text \<open>A nil return: what became of the consignment the handler read and of its payment.\<close>

lemma process_expired_nil:
  assumes ok: "ok h" and run: "process_expired (mgr h) e w = (Inr u, w')"
  shows "rows h w' = rows h w \<and>
    (\<exists>c wr. cr_GetByID (cm_repository (mgr h)) (ree_ConsignmentId e) w = (Inr c, wr) \<and> c \<in> set (docs h w) \<and>
      con_ID c = ree_ConsignmentId e \<and>
      (if con_Status c = StatusPending
       then docs h w' = set_status (con_ID c) StatusCancelled (docs h w) \<and>
         (if con_PaymentID c = '''' then pays h w' = pays h w
          else only_refunds (con_PaymentID c) (pays h w) (pays h w') \<and>
            (refunded (refund_request c) (pays h w') \<or>
             (\<exists>err. fst (cm_Retry (mgr h) (discard (pc_Refund (cm_paymentCli (mgr h)) (refund_request c))) wr) = Inl err)))
       else docs h w' = docs h w \<and> pays h w' = pays h w))"
proof -
  obtain r1 w1 where g: "cr_GetByID (cm_repository (mgr h)) (ree_ConsignmentId e) w = (r1, w1)" by fastforce
  note got = GetByID[OF ok g] get_frame[OF ok g]
  from run g obtain c where r1: "r1 = Inr c" by (cases r1) (auto simp: process_expired_def)
  with got have c: "c \<in> set (docs h w)" "con_ID c = ree_ConsignmentId e" by auto
  have same: "docs h w1 = docs h w" "rows h w1 = rows h w" "pays h w1 = pays h w" using got r1 by auto
  show ?thesis
  proof (cases "con_Status c = StatusPending")
    case False
    with run g r1 have "w' = w1" by (simp add: process_expired_def)
    with g r1 c same False show ?thesis by auto
  next
    case True
    let ?w = "refund_consignment (mgr h) c w1"
    from run g r1 True obtain v where u: "cr_UpdateStatus (cm_repository (mgr h)) (ree_ConsignmentId e) StatusCancelled ?w = (Inr v, w')"
      by (auto simp: process_expired_def split: prod.splits sum.splits)
    note refund = refund_consignment_outcome[OF ok, of c w1]
    from UpdateStatus[OF ok u] status_frame[OF ok u] refund(1,2) same c(2)
    have stores: "docs h w' = set_status (con_ID c) StatusCancelled (docs h w)" "rows h w' = rows h w" "pays h w' = pays h ?w" by auto
    from refund(3,4) refund_consignment_refunds[OF ok, of c w1] same(3) stores(3)
    have "if con_PaymentID c = '''' then pays h w' = pays h w
       else only_refunds (con_PaymentID c) (pays h w) (pays h w') \<and>
         (refunded (refund_request c) (pays h w') \<or>
          (\<exists>err. fst (cm_Retry (mgr h) (discard (pc_Refund (cm_paymentCli (mgr h)) (refund_request c))) w1) = Inl err))" by auto
    with stores(1,2) g r1 c True show ?thesis by auto
  qed
qed

lemma process_expired_outcome:
  assumes ok: "ok h" and run: "process_expired (mgr h) e w = (r, w')"
  shows "rows h w' = rows h w"
    and "docs h w' = docs h w \<and> pays h w' = pays h w \<and>
        (\<forall>u. r = Inr u \<longrightarrow> (\<exists>c \<in> set (docs h w). con_ID c = ree_ConsignmentId e \<and> con_Status c \<noteq> StatusPending)) \<or>
      (\<exists>c \<in> set (docs h w). con_ID c = ree_ConsignmentId e \<and> con_Status c = StatusPending \<and>
        only_refunds (con_PaymentID c) (pays h w) (pays h w') \<and> (con_PaymentID c = '''' \<longrightarrow> pays h w' = pays h w) \<and>
        (docs h w' = docs h w \<and> (\<forall>u. r \<noteq> Inr u) \<or> docs h w' = set_status (con_ID c) StatusCancelled (docs h w)))"
proof -
  obtain r1 w1 where g: "cr_GetByID (cm_repository (mgr h)) (ree_ConsignmentId e) w = (r1, w1)" by fastforce
  note got = GetByID[OF ok g] get_frame[OF ok g]
  have "rows h w' = rows h w \<and> (docs h w' = docs h w \<and> pays h w' = pays h w \<and>
        (\<forall>u. r = Inr u \<longrightarrow> (\<exists>c \<in> set (docs h w). con_ID c = ree_ConsignmentId e \<and> con_Status c \<noteq> StatusPending)) \<or>
      (\<exists>c \<in> set (docs h w). con_ID c = ree_ConsignmentId e \<and> con_Status c = StatusPending \<and>
        only_refunds (con_PaymentID c) (pays h w) (pays h w') \<and> (con_PaymentID c = '''' \<longrightarrow> pays h w' = pays h w) \<and>
        (docs h w' = docs h w \<and> (\<forall>u. r \<noteq> Inr u) \<or> docs h w' = set_status (con_ID c) StatusCancelled (docs h w))))"
  proof (cases r1)
    case (Inl err)
    with run g have "w' = w1" "\<forall>u. r \<noteq> Inr u" by (auto simp: process_expired_def)
    with got show ?thesis by simp
  next
    case (Inr c)
    with got have c: "c \<in> set (docs h w)" "con_ID c = ree_ConsignmentId e" by auto
    show ?thesis
    proof (cases "con_Status c = StatusPending")
      case False
      with run g Inr have "w' = w1" by (simp add: process_expired_def)
      with got c False show ?thesis by auto
    next
      case True
      obtain r2 w2 where u: "cr_UpdateStatus (cm_repository (mgr h)) (ree_ConsignmentId e) StatusCancelled
          (refund_consignment (mgr h) c w1) = (r2, w2)" by fastforce
      with run g Inr True have "w' = w2" "(\<forall>u. r2 \<noteq> Inr u) \<longrightarrow> (\<forall>u. r \<noteq> Inr u)"
        by (auto simp: process_expired_def split: sum.splits)
      moreover note UpdateStatus[OF ok u] status_frame[OF ok u] refund_consignment_outcome[OF ok, of c w1] got c True
      ultimately have "rows h w' = rows h w" "docs h w' = docs h w \<and> (\<forall>u. r \<noteq> Inr u) \<or>
          docs h w' = set_status (con_ID c) StatusCancelled (docs h w)"
        "only_refunds (con_PaymentID c) (pays h w) (pays h w')" "con_PaymentID c = '''' \<longrightarrow> pays h w' = pays h w" by auto
      with c True show ?thesis by blast
    qed
  qed
  then show "rows h w' = rows h w" "docs h w' = docs h w \<and> pays h w' = pays h w \<and>
        (\<forall>u. r = Inr u \<longrightarrow> (\<exists>c \<in> set (docs h w). con_ID c = ree_ConsignmentId e \<and> con_Status c \<noteq> StatusPending)) \<or>
      (\<exists>c \<in> set (docs h w). con_ID c = ree_ConsignmentId e \<and> con_Status c = StatusPending \<and>
        only_refunds (con_PaymentID c) (pays h w) (pays h w') \<and> (con_PaymentID c = '''' \<longrightarrow> pays h w' = pays h w) \<and>
        (docs h w' = docs h w \<and> (\<forall>u. r \<noteq> Inr u) \<or> docs h w' = set_status (con_ID c) StatusCancelled (docs h w)))"
    by blast+
qed

end

end
