(* ===== verification/Consignment_Server.thy ===== *)
theory Consignment_Server
  imports Consignment_Contract Reservation_Server
begin

text \<open>
  \<open>cmd/consignment-service/server/handler.go\<close>: the gRPC handlers of the consignment service. They
  create a consignment on reserved capacity, start its confirmation saga, and list consignments.
  The locale \<open>consignment_server\<close> adds the handler to the contract of \<open>consignment_manager\<close>.
\<close>

section \<open>Messages and the handler\<close>

record ConfirmRequest =
  cfr_Id :: string

record ConfirmResponse =
  cfs_Confirmed :: bool

record PbResponse =
  prs_Created :: bool
  prs_Consignment :: "PbConsignment option"
  prs_Consignments :: "PbConsignment list"

text \<open>The gRPC client of the reservation service; the empty response is not kept.\<close>

record 'w ReservationClient =
  rvc_ReserveCapacity :: "ReserveCapacityRequest \<Rightarrow> 'w \<Rightarrow> (goerr + ReservationResponse) \<times> 'w"
  rvc_RefreshReservation :: "CapacityActionRequest \<Rightarrow> 'w \<Rightarrow> (goerr + unit) \<times> 'w"

record 'w CsHandler =
  ch_repository :: "'w ConsignmentRepository"
  ch_reservationCli :: "'w ReservationClient"
  ch_paymentCli :: "'w PaymentClient"
  ch_outbox :: "(CsOutboxEvent, 'w) OutboxRepository"
  ch_NewUUID :: "'w \<Rightarrow> UUID \<times> 'w"
  ch_uuid :: uuid_lib
  ch_Now :: "'w \<Rightarrow> time"
  ch_codecs :: event_codecs

section \<open>Creating\<close>

text \<open>\<open>int32(len(...))\<close> keeps the low 32 bits.\<close>

definition int32_len :: "'a list \<Rightarrow> int32" where
  "int32_len xs = int32_of_int (int (length xs))"

definition CreateConsignment :: "'w CsHandler \<Rightarrow> PbConsignment \<Rightarrow> 'w \<Rightarrow> (goerr + PbResponse) \<times> 'w" where
  "CreateConsignment h req0 w =
    (case ch_NewUUID h w of (i, w0) \<Rightarrow>
      (let consignmentID = uuid_String (ch_uuid h) i in
       case rvc_ReserveCapacity (ch_reservationCli h)
              \<lparr>rcr_ConsignmentId = consignmentID, rcr_Weight = pbc_Weight req0,
               rcr_NumberOfContainers = int32_len (pbc_Containers req0)\<rparr> w0 of
         (Inl err, w1) \<Rightarrow> (Inl (StatusErr Internal ''failed to reserve capacity''), w1)
       | (Inr reservation, w1) \<Rightarrow>
         (let req = req0\<lparr>pbc_VesselId := rres_VesselId reservation\<rparr>;
              consignment = (MarshalConsignment req)\<lparr>con_ID := consignmentID, con_ReservationID := rres_Id reservation\<rparr> in
          case cr_Create (ch_repository h) consignment w1 of
            ((Inl err, _), w2) \<Rightarrow> (Inl (StatusErr Internal ''failed to create consignment''), w2)
          | ((Inr _, created), w2) \<Rightarrow>
              (Inr \<lparr>prs_Created = True, prs_Consignment = Some (UnmarshalConsignment created), prs_Consignments = []\<rparr>, w2))))"

section \<open>Confirming\<close>

text \<open>\<open>timestamppb.New\<close> of a time in nanoseconds since 1970.\<close>

definition timestamppb_New :: "time \<Rightarrow> Timestamp" where
  "timestamppb_New t = \<lparr>ts_Seconds = word_of_int (t div 10 ^ 9), ts_Nanos = word_of_int (t mod 10 ^ 9)\<rparr>"

definition cancelConsignment :: "string \<Rightarrow> 'w ConsignmentRepository \<Rightarrow> 'w \<Rightarrow> 'w" where
  "cancelConsignment i repo w = snd (cr_UpdateStatus repo i StatusCancelled w)"

definition voidPayment :: "string \<Rightarrow> 'w PaymentClient \<Rightarrow> 'w \<Rightarrow> 'w" where
  "voidPayment authID paymentCli w = snd (pc_Void paymentCli \<lparr>vreq_AuthId = authID\<rparr> w)"

definition authorised_event :: "string \<Rightarrow> Consignment \<Rightarrow> time \<Rightarrow> PaymentAuthorisedEvent" where
  "authorised_event paymentAuthID consignment sagaStartedAt = zero_PaymentAuthorisedEvent\<lparr>
     pae_PaymentAuthId := paymentAuthID,
     pae_ReservationId := con_ReservationID consignment,
     pae_ConsignmentId := con_ID consignment,
     pae_VesselId := con_VesselID consignment,
     pae_Weight := con_Weight consignment,
     pae_Containers := int32_len (con_Containers consignment),
     pae_SagaStartedAt := Some (timestamppb_New sagaStartedAt)\<rparr>"

definition publishPaymentAuthorised :: "'w CsHandler \<Rightarrow> string \<Rightarrow> Consignment \<Rightarrow> time \<Rightarrow> 'w \<Rightarrow> (goerr + unit) \<times> 'w" where
  "publishPaymentAuthorised h paymentAuthID consignment sagaStartedAt w =
    (case Marshal (pb_PaymentAuthorised (ch_codecs h)) (authorised_event paymentAuthID consignment sagaStartedAt) of
       Inl err \<Rightarrow> (Inl (StatusErr Internal ''failed to process confirmation''), w)
     | Inr payload \<Rightarrow>
       (case ob_CreateEvent (ch_outbox h)
               (cs_outbox_event ConsignmentPaymentAuthorisedTopic (con_ID consignment) payload) w of
          (Inl err, w1) \<Rightarrow>
            (Inl (StatusErr Internal ''failed to schedule confirmation''),
             voidPayment paymentAuthID (ch_paymentCli h) (cancelConsignment (con_ID consignment) (ch_repository h) w1))
        | (Inr _, w1) \<Rightarrow> (Inr (), w1)))"

definition authorise_request :: "Consignment \<Rightarrow> AuthoriseRequest" where
  "authorise_request consignment = \<lparr>areq_ConsignmentId = con_ID consignment, areq_Amount = 100,
     areq_Currency = ''GBP'', areq_IdempotencyKey = con_ID consignment\<rparr>"

text \<open>From \<open>Authorise\<close> to the end of the handler.\<close>

definition authorise_consignment :: "'w CsHandler \<Rightarrow> Consignment \<Rightarrow> time \<Rightarrow> 'w \<Rightarrow> (goerr + ConfirmResponse) \<times> 'w" where
  "authorise_consignment h consignment sagaStartedAt w =
    (case pc_Authorise (ch_paymentCli h) (authorise_request consignment) w of
       (Inl err, w1) \<Rightarrow>
         (Inl (StatusErr Internal ''failed to authorise payment''),
          cancelConsignment (con_ID consignment) (ch_repository h) w1)
     | (Inr paymentResponse, w1) \<Rightarrow>
       (case publishPaymentAuthorised h (arsp_AuthId paymentResponse) consignment sagaStartedAt w1 of
          (Inl err, w2) \<Rightarrow>
            (Inl (Errorf ''failed to confirm consignment'' [err]),
             voidPayment (arsp_AuthId paymentResponse) (ch_paymentCli h)
               (cancelConsignment (con_ID consignment) (ch_repository h) w2))
        | (Inr _, w2) \<Rightarrow> (Inr \<lparr>cfs_Confirmed = True\<rparr>, w2)))"

definition ConfirmConsignment :: "'w CsHandler \<Rightarrow> ConfirmRequest \<Rightarrow> 'w \<Rightarrow> (goerr + ConfirmResponse) \<times> 'w" where
  "ConfirmConsignment h req w =
    (let sagaStartedAt = ch_Now h w in
     case cr_GetByID (ch_repository h) (cfr_Id req) w of
       (Inl err, w1) \<Rightarrow> (Inl (StatusErr NotFound ''consignment not found''), w1)
     | (Inr consignment, w1) \<Rightarrow>
       (case rvc_RefreshReservation (ch_reservationCli h) \<lparr>car_Id = con_ReservationID consignment\<rparr> w1 of
          (Inl err, w2) \<Rightarrow>
            if status_code err = Some NotFound
            then (Inl (StatusErr FailedPrecondition ''reservation no longer exists''), w2)
            else (Inl (StatusErr Internal ''failed to refresh reservation''), w2)
        | (Inr _, w2) \<Rightarrow> authorise_consignment h consignment sagaStartedAt w2))"

section \<open>Listing\<close>

definition GetConsignments :: "'w CsHandler \<Rightarrow> 'w \<Rightarrow> (goerr + PbResponse) \<times> 'w" where
  "GetConsignments h w =
    (case cr_GetAll (ch_repository h) w of
       (Inl err, w1) \<Rightarrow> (Inl (StatusErr Internal ''failed to get consignments''), w1)
     | (Inr consignments, w1) \<Rightarrow>
         (Inr \<lparr>prs_Created = False, prs_Consignment = None,
           prs_Consignments = UnmarshalConsignmentCollection consignments\<rparr>, w1))"

section \<open>The contract with the handler\<close>

text \<open>
  The handler and the manager share their repository, outbox and payment client. An authorisation
  makes a new payment; the reservation service touches none of the three stores.
\<close>

definition authorise_effect :: "AuthoriseRequest \<Rightarrow> string \<Rightarrow> payments \<Rightarrow> payments \<Rightarrow> bool" where
  "authorise_effect req a m m' \<longleftrightarrow> a \<notin> dom m \<and> m' = snd (pay_Authorise a req m)"

locale consignment_server = consignment_manager ok mgr docs rows pays
  for ok :: "'h \<Rightarrow> bool" and mgr :: "'h \<Rightarrow> 'w CsManager"
    and docs :: "'h \<Rightarrow> 'w \<Rightarrow> Consignment list" and rows :: "'h \<Rightarrow> 'w \<Rightarrow> outbox_row list"
    and pays :: "'h \<Rightarrow> 'w \<Rightarrow> payments" +
  fixes hdl :: "'h \<Rightarrow> 'w CsHandler"
  assumes hdl_fields: "ok h \<Longrightarrow> ch_repository (hdl h) = cm_repository (mgr h) \<and> ch_outbox (hdl h) = cm_outbox (mgr h) \<and>
      ch_paymentCli (hdl h) = cm_paymentCli (mgr h) \<and> ch_codecs (hdl h) = cm_codecs (mgr h)"
    and create_frame: "ok h \<Longrightarrow> cr_Create (cm_repository (mgr h)) c w = (rcr, w') \<Longrightarrow>
      rows h w' = rows h w \<and> pays h w' = pays h w"
    and get_all_frame: "ok h \<Longrightarrow> cr_GetAll (cm_repository (mgr h)) w = (rga, w') \<Longrightarrow>
      rows h w' = rows h w \<and> pays h w' = pays h w"
    and authorise_call: "ok h \<Longrightarrow> pc_Authorise (cm_paymentCli (mgr h)) aq w = (rauth, w') \<Longrightarrow>
      docs h w' = docs h w \<and> rows h w' = rows h w \<and>
      (pays h w' = pays h w \<and> (\<forall>rsp. rauth \<noteq> Inr rsp) \<or>
       (\<exists>a. authorise_effect aq a (pays h w) (pays h w') \<and> (\<forall>rsp. rauth = Inr rsp \<longrightarrow> arsp_AuthId rsp = a)))"
    and reserve_frame: "ok h \<Longrightarrow> rvc_ReserveCapacity (ch_reservationCli (hdl h)) rq w = (rres, w') \<Longrightarrow>
      docs h w' = docs h w \<and> rows h w' = rows h w \<and> pays h w' = pays h w"
    and refresh_frame: "ok h \<Longrightarrow> rvc_RefreshReservation (ch_reservationCli (hdl h)) cq w = (ru, w') \<Longrightarrow>
      docs h w' = docs h w \<and> rows h w' = rows h w \<and> pays h w' = pays h w"
    and uuid_frame: "ok h \<Longrightarrow> ch_NewUUID (hdl h) w = (i, w') \<Longrightarrow>
      docs h w' = docs h w \<and> rows h w' = rows h w \<and> pays h w' = pays h w"
begin

lemmas reservation_frame = reserve_frame[folded same_def] refresh_frame[folded same_def] uuid_frame[folded same_def]

text \<open>A created consignment is pending, on the vessel and reservation the reservation service named.\<close>

lemma CreateConsignment_outcome:
  assumes ok: "ok h" and run: "CreateConsignment (hdl h) req w = (r, w')"
  shows "rows h w' = rows h w \<and> pays h w' = pays h w"
    and "docs h w' = docs h w \<and> (\<forall>x. r \<noteq> Inr x) \<or>
      (\<exists>c. con_ID c \<notin> con_ID ` set (docs h w) \<and> docs h w' = docs h w @ [c] \<and> con_Status c = StatusPending \<and>
         con_PaymentID c = '''' \<and>
         (\<forall>x. r = Inr x \<longrightarrow> x = \<lparr>prs_Created = True, prs_Consignment = Some (UnmarshalConsignment c), prs_Consignments = []\<rparr>))"
proof -
  obtain i w0 where n: "ch_NewUUID (hdl h) w = (i, w0)" by fastforce
  let ?q = "\<lparr>rcr_ConsignmentId = uuid_String (ch_uuid (hdl h)) i, rcr_Weight = pbc_Weight req,
    rcr_NumberOfContainers = int32_len (pbc_Containers req)\<rparr>"
  obtain r1 w1 where rv: "rvc_ReserveCapacity (ch_reservationCli (hdl h)) ?q w0 = (r1, w1)" by fastforce
  have same: "same h w w1" using reservation_frame(3)[OF ok n] reservation_frame(1)[OF ok rv] by (simp add: same_def)
  have "rows h w' = rows h w \<and> pays h w' = pays h w \<and> (docs h w' = docs h w \<and> (\<forall>x. r \<noteq> Inr x) \<or>
      (\<exists>c. con_ID c \<notin> con_ID ` set (docs h w) \<and> docs h w' = docs h w @ [c] \<and> con_Status c = StatusPending \<and>
         con_PaymentID c = '''' \<and>
         (\<forall>x. r = Inr x \<longrightarrow> x = \<lparr>prs_Created = True, prs_Consignment = Some (UnmarshalConsignment c), prs_Consignments = []\<rparr>)))"
  proof (cases r1)
    case (Inl e)
    with run n rv have "w' = w1" "\<forall>x. r \<noteq> Inr x" by (auto simp: CreateConsignment_def)
    with same show ?thesis by (simp add: same_def)
  next
    case (Inr rsv)
    define c where "c = (MarshalConsignment (req\<lparr>pbc_VesselId := rres_VesselId rsv\<rparr>))
      \<lparr>con_ID := uuid_String (ch_uuid (hdl h)) i, con_ReservationID := rres_Id rsv\<rparr>"
    obtain r2 c' w2 where cr: "cr_Create (cm_repository (mgr h)) c w1 = ((r2, c'), w2)" by (metis prod.exhaust)
    have pid: "con_PaymentID c = ''''" by (simp add: c_def MarshalConsignment_def)
    note out = Create[OF ok cr] create_frame[OF ok cr]
    from run n rv Inr cr hdl_fields[OF ok] have w': "w' = w2"
      and r: "r = (case r2 of Inl _ \<Rightarrow> Inl (StatusErr Internal ''failed to create consignment'')
        | Inr _ \<Rightarrow> Inr \<lparr>prs_Created = True, prs_Consignment = Some (UnmarshalConsignment c'), prs_Consignments = []\<rparr>)"
      by (auto simp: CreateConsignment_def c_def[symmetric] split: sum.splits)
    show ?thesis
    proof (cases "docs h w2 = docs h w1 \<and> (\<forall>u. r2 \<noteq> Inr u)")
      case True
      with out same w' r show ?thesis by (cases r2) (simp_all add: same_def)
    next
      case False
      with out have "c' = c\<lparr>con_Status := StatusPending\<rparr>" "con_ID c \<notin> con_ID ` set (docs h w1)" "docs h w2 = docs h w1 @ [c']"
        by auto
      with out same w' r pid show ?thesis
        by (intro conjI disjI2 exI[of _ c']) (auto simp: same_def split: sum.splits)
    qed
  qed
  then show "rows h w' = rows h w \<and> pays h w' = pays h w"
    "docs h w' = docs h w \<and> (\<forall>x. r \<noteq> Inr x) \<or>
      (\<exists>c. con_ID c \<notin> con_ID ` set (docs h w) \<and> docs h w' = docs h w @ [c] \<and> con_Status c = StatusPending \<and>
         con_PaymentID c = '''' \<and>
         (\<forall>x. r = Inr x \<longrightarrow> x = \<lparr>prs_Created = True, prs_Consignment = Some (UnmarshalConsignment c), prs_Consignments = []\<rparr>))"
    by blast+
qed

text \<open>Where the fields of a created consignment come from.\<close>

lemma CreateConsignment_success:
  assumes ok: "ok h" and run: "CreateConsignment (hdl h) req w = (Inr x, w')"
  shows "\<exists>c rsv w0 w1. docs h w' = docs h w @ [c] \<and> con_ID c \<notin> con_ID ` set (docs h w) \<and>
    rvc_ReserveCapacity (ch_reservationCli (hdl h))
      \<lparr>rcr_ConsignmentId = con_ID c, rcr_Weight = con_Weight c, rcr_NumberOfContainers = int32_len (con_Containers c)\<rparr> w0 = (Inr rsv, w1) \<and>
    c = (MarshalConsignment (req\<lparr>pbc_Id := con_ID c, pbc_VesselId := rres_VesselId rsv, pbc_Status := StatusPending\<rparr>))
      \<lparr>con_ReservationID := rres_Id rsv\<rparr> \<and>
    x = \<lparr>prs_Created = True, prs_Consignment = Some (UnmarshalConsignment c), prs_Consignments = []\<rparr>"
proof -
  obtain i w0 where n: "ch_NewUUID (hdl h) w = (i, w0)" by fastforce
  let ?cid = "uuid_String (ch_uuid (hdl h)) i"
  let ?q = "\<lparr>rcr_ConsignmentId = ?cid, rcr_Weight = pbc_Weight req, rcr_NumberOfContainers = int32_len (pbc_Containers req)\<rparr>"
  obtain r1 w1 where rv: "rvc_ReserveCapacity (ch_reservationCli (hdl h)) ?q w0 = (r1, w1)" by fastforce
  from run n rv obtain rsv where rsv: "r1 = Inr rsv" by (cases r1) (auto simp: CreateConsignment_def)
  define c where "c = (MarshalConsignment (req\<lparr>pbc_VesselId := rres_VesselId rsv\<rparr>))\<lparr>con_ID := ?cid, con_ReservationID := rres_Id rsv\<rparr>"
  obtain r2 c' w2 where cr: "cr_Create (cm_repository (mgr h)) c w1 = ((r2, c'), w2)" by (metis prod.exhaust)
  from run n rv rsv cr hdl_fields[OF ok] obtain u where r2: "r2 = Inr u" "w' = w2"
    and x: "x = \<lparr>prs_Created = True, prs_Consignment = Some (UnmarshalConsignment c'), prs_Consignments = []\<rparr>"
    by (auto simp: CreateConsignment_def c_def[symmetric] split: sum.splits)
  from Create[OF ok cr] r2 have c': "c' = c\<lparr>con_Status := StatusPending\<rparr>" "con_ID c \<notin> con_ID ` set (docs h w1)" "docs h w' = docs h w1 @ [c']"
    by auto
  have d: "docs h w1 = docs h w" using reservation_frame(3)[OF ok n] reservation_frame(1)[OF ok rv] by (simp add: same_def)
  have f: "con_ID c' = ?cid" "con_Weight c' = pbc_Weight req" "int32_len (con_Containers c') = int32_len (pbc_Containers req)"
    by (simp_all add: c'(1) c_def MarshalConsignment_def marshalContainerCollection_def int32_len_def)
  have "c' = (MarshalConsignment (req\<lparr>pbc_Id := con_ID c', pbc_VesselId := rres_VesselId rsv, pbc_Status := StatusPending\<rparr>))
      \<lparr>con_ReservationID := rres_Id rsv\<rparr>"
    by (simp add: c'(1) c_def MarshalConsignment_def)
  moreover have "con_ID c' \<notin> con_ID ` set (docs h w)" using c'(1,2) d by simp
  ultimately show ?thesis using rv[unfolded rsv] c'(3) x d f by (intro exI[of _ c'] exI[of _ rsv] exI[of _ w0] exI[of _ w1]) simp
qed

text \<open>Cancelling and voiding, whatever becomes of them.\<close>

lemma cancel_outcome:
  assumes ok: "ok h"
  shows "rows h (cancelConsignment i (cm_repository (mgr h)) w) = rows h w"
    "pays h (cancelConsignment i (cm_repository (mgr h)) w) = pays h w"
    "docs h (cancelConsignment i (cm_repository (mgr h)) w) \<in> {docs h w, set_status i StatusCancelled (docs h w)}"
  using UpdateStatus[OF ok surjective_pairing, of i StatusCancelled w] status_frame[OF ok surjective_pairing, of i StatusCancelled w]
  by (auto simp: cancelConsignment_def)

lemma void_outcome:
  assumes ok: "ok h"
  shows "rows h (voidPayment a (cm_paymentCli (mgr h)) w) = rows h w"
    "docs h (voidPayment a (cm_paymentCli (mgr h)) w) = docs h w"
    "pay_void.at_most_once \<lparr>vreq_AuthId = a\<rparr> (pays h w) (pays h (voidPayment a (cm_paymentCli (mgr h)) w))"
  using void_call[OF ok surjective_pairing, of "\<lparr>vreq_AuthId = a\<rparr>" w]
  by (auto simp: voidPayment_def pay_void.at_most_once_def)

text \<open>A failed attempt to undo leaves things as they are or undone.\<close>

definition undone :: "'h \<Rightarrow> string \<Rightarrow> string \<Rightarrow> 'w \<Rightarrow> 'w \<Rightarrow> bool" where
  "undone h i a w w' \<longleftrightarrow> rows h w' = rows h w \<and> docs h w' \<in> {docs h w, set_status i StatusCancelled (docs h w)} \<and>
     pay_void.at_most_once \<lparr>vreq_AuthId = a\<rparr> (pays h w) (pays h w')"

lemma undone_refl: "undone h i a w w"
  by (simp add: undone_def pay_void.at_most_once_def)

lemma undone_trans: "undone h i a x y \<Longrightarrow> undone h i a y z \<Longrightarrow> undone h i a x z"
  unfolding undone_def by (auto simp: set_status_idem intro: pay_void.at_most_once_trans)

lemma undo_step:
  "ok h \<Longrightarrow> undone h i a w (voidPayment a (cm_paymentCli (mgr h)) (cancelConsignment i (cm_repository (mgr h)) w))"
  using cancel_outcome[of h i w] void_outcome[of h a "cancelConsignment i (cm_repository (mgr h)) w"] by (simp add: undone_def)

lemma server_publish_outcome:
  assumes ok: "ok h" and run: "publishPaymentAuthorised (hdl h) a c t w = (r, w')"
  shows "(\<exists>u. r = Inr u) \<Longrightarrow> docs h w' = docs h w \<and> pays h w' = pays h w \<and>
      (\<exists>p. Marshal (pb_PaymentAuthorised (cm_codecs (mgr h))) (authorised_event a c t) = Inr p \<and>
         queued ConsignmentPaymentAuthorisedTopic (con_ID c) p (rows h w'))"
    and "\<exists>w1. docs h w1 = docs h w \<and> pays h w1 = pays h w \<and> (\<exists>new. rows h w1 = rows h w @ new) \<and> undone h (con_ID c) a w1 w'"
proof -
  note F = hdl_fields[OF ok]
  show "(\<exists>u. r = Inr u) \<Longrightarrow> docs h w' = docs h w \<and> pays h w' = pays h w \<and>
      (\<exists>p. Marshal (pb_PaymentAuthorised (cm_codecs (mgr h))) (authorised_event a c t) = Inr p \<and>
         queued ConsignmentPaymentAuthorisedTopic (con_ID c) p (rows h w'))"
    using run F create_event[OF ok] by (auto simp: publishPaymentAuthorised_def split: sum.splits prod.splits)
  show "\<exists>w1. docs h w1 = docs h w \<and> pays h w1 = pays h w \<and> (\<exists>new. rows h w1 = rows h w @ new) \<and> undone h (con_ID c) a w1 w'"
  proof (cases "Marshal (pb_PaymentAuthorised (cm_codecs (mgr h))) (authorised_event a c t)")
    case (Inl e)
    with run F have "w' = w" by (simp add: publishPaymentAuthorised_def)
    then show ?thesis using undone_refl by (intro exI[of _ w]) simp
  next
    case (Inr p)
    obtain r1 w1 where e: "ob_CreateEvent (cm_outbox (mgr h))
        (cs_outbox_event ConsignmentPaymentAuthorisedTopic (con_ID c) p) w = (r1, w1)" by fastforce
    from run F Inr e have "undone h (con_ID c) a w1 w'"
      using undo_step[OF ok, of "con_ID c" a w1] undone_refl by (cases r1) (auto simp: publishPaymentAuthorised_def)
    with create_event(1,2)[OF ok e] show ?thesis by blast
  qed
qed

text \<open>
  What a confirmation leaves behind: at most one new authorisation, voided at most; the consignment
  as it was, or cancelled. If it answers that it is confirmed, the authorised event is queued.
\<close>

lemma authorise_outcome:
  assumes ok: "ok h" and run: "authorise_consignment (hdl h) c t w = (r, w')"
  shows "docs h w' \<in> {docs h w, set_status (con_ID c) StatusCancelled (docs h w)}" and "\<exists>new. rows h w' = rows h w @ new"
    and "pays h w' = pays h w \<or> (\<exists>a m. authorise_effect (authorise_request c) a (pays h w) m \<and>
      pay_void.at_most_once \<lparr>vreq_AuthId = a\<rparr> m (pays h w'))"
    and "r = Inr x \<Longrightarrow> docs h w' = docs h w \<and> (\<exists>a p. authorise_effect (authorise_request c) a (pays h w) (pays h w') \<and>
      Marshal (pb_PaymentAuthorised (cm_codecs (mgr h))) (authorised_event a c t) = Inr p \<and>
      queued ConsignmentPaymentAuthorisedTopic (con_ID c) p (rows h w'))"
proof -
  note F = hdl_fields[OF ok]
  obtain ra w1 where au: "pc_Authorise (cm_paymentCli (mgr h)) (authorise_request c) w = (ra, w1)" by fastforce
  note A = authorise_call[OF ok au]
  have "docs h w' \<in> {docs h w, set_status (con_ID c) StatusCancelled (docs h w)} \<and> (\<exists>new. rows h w' = rows h w @ new) \<and>
    (pays h w' = pays h w \<or> (\<exists>a m. authorise_effect (authorise_request c) a (pays h w) m \<and>
      pay_void.at_most_once \<lparr>vreq_AuthId = a\<rparr> m (pays h w'))) \<and>
    (r = Inr x \<longrightarrow> docs h w' = docs h w \<and> (\<exists>a p. authorise_effect (authorise_request c) a (pays h w) (pays h w') \<and>
      Marshal (pb_PaymentAuthorised (cm_codecs (mgr h))) (authorised_event a c t) = Inr p \<and>
      queued ConsignmentPaymentAuthorisedTopic (con_ID c) p (rows h w')))"
  proof (cases ra)
    case (Inl e)
    with run F au have "w' = cancelConsignment (con_ID c) (cm_repository (mgr h)) w1" "\<forall>x. r \<noteq> Inr x"
      by (auto simp: authorise_consignment_def)
    with A cancel_outcome[OF ok, of "con_ID c" w1] show ?thesis by (auto simp: pay_void.at_most_once_def)
  next
    case (Inr rsp)
    let ?a = "arsp_AuthId rsp"
    from A Inr have eff: "authorise_effect (authorise_request c) ?a (pays h w) (pays h w1)" by auto
    obtain rp w2 where pu: "publishPaymentAuthorised (hdl h) ?a c t w1 = (rp, w2)" by fastforce
    note P = server_publish_outcome[OF ok pu]
    show ?thesis
    proof (cases rp)
      case (Inl e)
      with run F au Inr pu have w': "w' = voidPayment ?a (cm_paymentCli (mgr h)) (cancelConsignment (con_ID c) (cm_repository (mgr h)) w2)"
        and r: "\<forall>x. r \<noteq> Inr x" by (auto simp: authorise_consignment_def)
      from P(2) obtain w3 where w3: "docs h w3 = docs h w1" "pays h w3 = pays h w1" "\<exists>new. rows h w3 = rows h w1 @ new"
        "undone h (con_ID c) ?a w3 w2" by blast
      from undone_trans[OF w3(4) undo_step[OF ok]] have "undone h (con_ID c) ?a w3 w'" by (simp add: w')
      with w3 A eff r show ?thesis unfolding undone_def by auto
    next
      case (Inr u)
      with run F au \<open>ra = Inr rsp\<close> pu have "w' = w2" by (simp add: authorise_consignment_def)
      moreover have "\<exists>new. rows h w2 = rows h w1 @ new" using P(2) by (auto simp: undone_def)
      ultimately show ?thesis using P(1) Inr A eff by (auto simp: pay_void.at_most_once_def)
    qed
  qed
  then show "docs h w' \<in> {docs h w, set_status (con_ID c) StatusCancelled (docs h w)}" "\<exists>new. rows h w' = rows h w @ new"
    "pays h w' = pays h w \<or> (\<exists>a m. authorise_effect (authorise_request c) a (pays h w) m \<and>
      pay_void.at_most_once \<lparr>vreq_AuthId = a\<rparr> m (pays h w'))"
    "r = Inr x \<Longrightarrow> docs h w' = docs h w \<and> (\<exists>a p. authorise_effect (authorise_request c) a (pays h w) (pays h w') \<and>
      Marshal (pb_PaymentAuthorised (cm_codecs (mgr h))) (authorised_event a c t) = Inr p \<and>
      queued ConsignmentPaymentAuthorisedTopic (con_ID c) p (rows h w'))" by blast+
qed

lemma ConfirmConsignment_cases:
  assumes ok: "ok h" and run: "ConfirmConsignment (hdl h) req w = (r, w')"
  obtains (refused) "same h w w'" "\<And>x. r \<noteq> Inr x"
  | (authorise) c w2 where "c \<in> set (docs h w)" "con_ID c = cfr_Id req" "same h w w2"
      "authorise_consignment (hdl h) c (ch_Now (hdl h) w) w2 = (r, w')"
proof -
  note F = hdl_fields[OF ok]
  obtain r1 w1 where g: "cr_GetByID (cm_repository (mgr h)) (cfr_Id req) w = (r1, w1)" by fastforce
  have s1: "same h w w1" using GetByID[OF ok g] get_frame[OF ok g] by (simp add: same_def)
  show thesis
  proof (cases r1)
    case (Inl e)
    with run F g s1 refused show thesis by (auto simp: ConfirmConsignment_def Let_def)
  next
    case (Inr c)
    with GetByID[OF ok g] have c: "c \<in> set (docs h w)" "con_ID c = cfr_Id req" by auto
    obtain r2 w2 where rf: "rvc_RefreshReservation (ch_reservationCli (hdl h)) \<lparr>car_Id = con_ReservationID c\<rparr> w1 = (r2, w2)" by fastforce
    have s2: "same h w w2" using s1 reservation_frame(2)[OF ok rf] by (simp add: same_def)
    show thesis
    proof (cases r2)
      case (Inl e)
      with run F g Inr rf s2 refused show thesis by (auto simp: ConfirmConsignment_def Let_def split: if_splits)
    next
      case (Inr u)
      with run F g \<open>r1 = Inr c\<close> rf c s2 authorise show thesis by (auto simp: ConfirmConsignment_def Let_def)
    qed
  qed
qed

lemma GetConsignments_outcome:
  assumes ok: "ok h" and run: "GetConsignments (hdl h) w = (r, w')"
  shows "same h w w'" and "r = Inr x \<Longrightarrow> set (prs_Consignments x) \<subseteq> UnmarshalConsignment ` set (docs h w)"
proof -
  obtain r1 w1 where g: "cr_GetAll (cm_repository (mgr h)) w = (r1, w1)" by fastforce
  with run hdl_fields[OF ok] have "w' = w1" and r: "r = Inr x \<Longrightarrow> \<exists>cs. r1 = Inr cs \<and> prs_Consignments x = map UnmarshalConsignment cs"
    by (auto simp: GetConsignments_def UnmarshalConsignmentCollection_def split: sum.splits)
  with GetAll[OF ok g] get_all_frame[OF ok g] show "same h w w'" by (simp add: same_def)
  assume "r = Inr x"
  from r[OF this] obtain cs where "r1 = Inr cs" "prs_Consignments x = map UnmarshalConsignment cs" by blast
  with GetAll[OF ok g] show "set (prs_Consignments x) \<subseteq> UnmarshalConsignment ` set (docs h w)" by (simp add: image_mono)
qed

end

end
