(* ===== verification/Consignment_System.thy ===== *)
theory Consignment_System
  imports Consignment_Server
begin

text \<open>
  The consignment service wired the way \<open>cmd/consignment-service/main.go\<close> wires it: manager and gRPC
  handler share the MongoDB collections and a client of the payment service, whose handlers run on
  its map under a mutex. The locale \<open>consignment_server\<close> is interpreted on this system, so what it
  proves holds for the program's own definitions down to the drivers.
\<close>

section \<open>The system\<close>

text \<open>
  The payment service keeps its payments in \<open>ps_pays\<close>; \<open>ps_issued\<close> are the identifiers that
  \<open>uuid.NewString\<close> has handed out, \<open>ps_order\<close> is the order Go would range over the map in. Each response
  type has its own transport.
\<close>

record 'w pay_service =
  ps_pays :: "'w \<Rightarrow> payments"
  ps_setpays :: "payments \<Rightarrow> 'w \<Rightarrow> 'w"
  ps_issued :: "'w \<Rightarrow> string set"
  ps_NewString :: "'w \<Rightarrow> string \<times> 'w"
  ps_order :: "'w \<Rightarrow> string list"
  ps_rpc_authorise :: "('w \<Rightarrow> (goerr + AuthoriseResponse) \<times> 'w) \<Rightarrow> 'w \<Rightarrow> (goerr + AuthoriseResponse) \<times> 'w"
  ps_rpc_capture :: "('w \<Rightarrow> (goerr + CaptureResponse) \<times> 'w) \<Rightarrow> 'w \<Rightarrow> (goerr + CaptureResponse) \<times> 'w"
  ps_rpc_refund :: "('w \<Rightarrow> (goerr + RefundResponse) \<times> 'w) \<Rightarrow> 'w \<Rightarrow> (goerr + RefundResponse) \<times> 'w"
  ps_rpc_void :: "('w \<Rightarrow> (goerr + VoidResponse) \<times> 'w) \<Rightarrow> 'w \<Rightarrow> (goerr + VoidResponse) \<times> 'w"

record 'w cs_system =
  ss_mgr :: "'w CsManager"
  ss_hdl :: "'w CsHandler"
  ss_cons :: "'w ConsignmentCollection"
  ss_cv :: "'w cview"
  ss_box :: "'w OutboxMongo"
  ss_ov :: "'w moview"
  ss_client :: "'w MongoClient"
  ss_pay :: "'w pay_service"

abbreviation ss_pays :: "'w cs_system \<Rightarrow> 'w \<Rightarrow> payments" where
  "ss_pays s \<equiv> ps_pays (ss_pay s)"

abbreviation ss_docs :: "'w cs_system \<Rightarrow> 'w \<Rightarrow> Consignment list" where
  "ss_docs s \<equiv> cv_docs (ss_cv s)"

abbreviation ss_events :: "'w cs_system \<Rightarrow> 'w \<Rightarrow> outboxDocument list" where
  "ss_events s \<equiv> mv_docs (ss_ov s)"

abbreviation ss_rows :: "'w cs_system \<Rightarrow> 'w \<Rightarrow> outbox_row list" where
  "ss_rows s \<equiv> mo_rows (ss_box s, ss_ov s)"

text \<open>A handler of the payment service, with the mutex held from its first read to its last write.\<close>

definition serve :: "'w pay_service \<Rightarrow> (payments \<Rightarrow> 'a \<times> payments) \<Rightarrow> 'w \<Rightarrow> 'a \<times> 'w" where
  "serve p f w = (case f (ps_pays p w) of (r, m) \<Rightarrow> (r, ps_setpays p m w))"

definition serve_Authorise :: "'w pay_service \<Rightarrow> AuthoriseRequest \<Rightarrow> 'w \<Rightarrow> (goerr + AuthoriseResponse) \<times> 'w" where
  "serve_Authorise p req w = (case ps_NewString p w of (authID, w1) \<Rightarrow> serve p (pay_Authorise authID req) w1)"

definition payment_client :: "'w pay_service \<Rightarrow> 'w PaymentClient" where
  "payment_client p = \<lparr>
     pc_Authorise = (\<lambda>q. ps_rpc_authorise p (serve_Authorise p q)),
     pc_Capture = (\<lambda>q. ps_rpc_capture p (serve p (pay_Capture q))),
     pc_Refund = (\<lambda>q. ps_rpc_refund p (\<lambda>w. serve p (pay_Refund (ps_order p w) q) w)),
     pc_Void = (\<lambda>q. ps_rpc_void p (serve p (pay_Void q)))\<rparr>"

section \<open>What the servers promise\<close>

definition payments_ok :: "'w pay_service \<Rightarrow> bool" where
  "payments_ok p \<longleftrightarrow>
     (\<forall>w. dom (ps_pays p w) \<subseteq> ps_issued p w) \<and>
     (\<forall>m w. ps_issued p (ps_setpays p m w) = ps_issued p w \<and>
        (dom m \<subseteq> ps_issued p w \<longrightarrow> ps_pays p (ps_setpays p m w) = m)) \<and>
     (\<forall>w a w'. ps_NewString p w = (a, w') \<longrightarrow>
        a \<notin> ps_issued p w \<and> ps_issued p w' = insert a (ps_issued p w) \<and> ps_pays p w' = ps_pays p w) \<and>
     transport_ok (ps_rpc_authorise p) \<and> transport_ok (ps_rpc_capture p) \<and>
     transport_ok (ps_rpc_refund p) \<and> transport_ok (ps_rpc_void p)"

definition cs_wired :: "'w cs_system \<Rightarrow> bool" where
  "cs_wired s \<longleftrightarrow>
     cm_repository (ss_mgr s) = mongo_consignments (ss_cons s) \<and>
     cm_outbox (ss_mgr s) = mongo_outbox (ss_box s) \<and>
     cm_WithTransaction (ss_mgr s) = store_WithTransaction (ss_client s) \<and>
     cm_paymentCli (ss_mgr s) = payment_client (ss_pay s) \<and>
     ch_repository (ss_hdl s) = mongo_consignments (ss_cons s) \<and>
     ch_outbox (ss_hdl s) = mongo_outbox (ss_box s) \<and>
     ch_paymentCli (ss_hdl s) = payment_client (ss_pay s) \<and>
     ch_codecs (ss_hdl s) = cm_codecs (ss_mgr s)"

text \<open>Calls of one collection or of another service leave the other stores alone.\<close>

definition events_idle :: "'w cs_system \<Rightarrow> 'w \<Rightarrow> 'w \<Rightarrow> bool" where
  "events_idle s w w' \<longleftrightarrow> ss_events s w' = ss_events s w"

definition docs_idle :: "'w cs_system \<Rightarrow> 'w \<Rightarrow> 'w \<Rightarrow> bool" where
  "docs_idle s w w' \<longleftrightarrow> ss_docs s w' = ss_docs s w"

definition pays_idle :: "'w cs_system \<Rightarrow> 'w \<Rightarrow> 'w \<Rightarrow> bool" where
  "pays_idle s w w' \<longleftrightarrow> ss_pays s w' = ss_pays s w"

definition all_idle :: "'w cs_system \<Rightarrow> 'w \<Rightarrow> 'w \<Rightarrow> bool" where
  "all_idle s w w' \<longleftrightarrow> docs_idle s w w' \<and> events_idle s w w' \<and> pays_idle s w w'"

definition cs_independent :: "'w cs_system \<Rightarrow> bool" where
  "cs_independent s \<longleftrightarrow>
     (\<forall>x w r w'. cc_InsertOne (ss_cons s) x w = (r, w') \<longrightarrow> events_idle s w w' \<and> pays_idle s w w') \<and>
     (\<forall>p f w r w'. cc_UpdateOne (ss_cons s) p f w = (r, w') \<longrightarrow> events_idle s w w' \<and> pays_idle s w w') \<and>
     (\<forall>p w r w'. cc_FindOne (ss_cons s) p w = (r, w') \<longrightarrow> events_idle s w w' \<and> pays_idle s w w') \<and>
     (\<forall>w r w'. cc_Find (ss_cons s) w = (r, w') \<longrightarrow> events_idle s w w' \<and> pays_idle s w w') \<and>
     (\<forall>x w r w'. mo_InsertOne (ss_box s) x w = (r, w') \<longrightarrow> docs_idle s w w' \<and> pays_idle s w w') \<and>
     (\<forall>w i w'. mo_NewUUID (ss_box s) w = (i, w') \<longrightarrow> docs_idle s w w' \<and> pays_idle s w w') \<and>
     (\<forall>m w. docs_idle s w (ps_setpays (ss_pay s) m w) \<and> events_idle s w (ps_setpays (ss_pay s) m w)) \<and>
     (\<forall>w a w'. ps_NewString (ss_pay s) w = (a, w') \<longrightarrow> docs_idle s w w' \<and> events_idle s w w') \<and>
     (\<forall>t st w. all_idle s w (mx_ObserveSagaDuration (cm_metrics (ss_mgr s)) t st w)) \<and>
     (\<forall>st w. all_idle s w (mx_IncSagaTotal (cm_metrics (ss_mgr s)) st w)) \<and>
     (\<forall>q w r w'. rvc_ReserveCapacity (ch_reservationCli (ss_hdl s)) q w = (r, w') \<longrightarrow> all_idle s w w') \<and>
     (\<forall>q w r w'. rvc_RefreshReservation (ch_reservationCli (ss_hdl s)) q w = (r, w') \<longrightarrow> all_idle s w w') \<and>
     (\<forall>w i w'. ch_NewUUID (ss_hdl s) w = (i, w') \<longrightarrow> all_idle s w w')"

text \<open>
  Transactions: a session starts and ends without an effect. The callback runs on what the database
  holds, alone; when the transaction succeeds its last successful run is what remains, and when it
  fails nothing does, unless only the answer to the commit was lost. A callback that leaves the
  payments alone leaves them alone in a transaction.
\<close>

definition transactions_ok :: "'w cs_system \<Rightarrow> bool" where
  "transactions_ok s \<longleftrightarrow>
     (\<forall>w r w'. ms_StartSession (ss_client s) w = (r, w') \<longrightarrow> all_idle s w w') \<and>
     (\<forall>w. all_idle s w (ms_EndSession (ss_client s) w)) \<and>
     (\<forall>fn w r w'. ms_WithTransaction (ss_client s) fn w = (r, w') \<longrightarrow>
        (\<forall>x q y. fn x = (q, y) \<longrightarrow> pays_idle s x y) \<longrightarrow>
        pays_idle s w w' \<and>
        (docs_idle s w w' \<and> events_idle s w w' \<and> (\<forall>u. r \<noteq> Inr u) \<or>
         (\<exists>x y u. docs_idle s w x \<and> events_idle s w x \<and> fn x = (Inr u, y) \<and> docs_idle s y w' \<and> events_idle s y w')))"

definition cs_ok :: "'w cs_system \<Rightarrow> bool" where
  "cs_ok s \<longleftrightarrow> consignments_ok (ss_cons s, ss_cv s) \<and> mongo_outbox_ok (ss_box s, ss_ov s) \<and> payments_ok (ss_pay s) \<and>
     retry_within backoffAttempts (cm_Retry (ss_mgr s)) \<and> retry_within backoffAttempts (cm_RetryCapture (ss_mgr s)) \<and>
     cs_wired s \<and> cs_independent s \<and> transactions_ok s"

lemma cs_okD:
  assumes "cs_ok s"
  shows "consignments_ok (ss_cons s, ss_cv s)" "mongo_outbox_ok (ss_box s, ss_ov s)" "payments_ok (ss_pay s)"
    "retry_within backoffAttempts (cm_Retry (ss_mgr s))" "retry_within backoffAttempts (cm_RetryCapture (ss_mgr s))"
    "cs_wired s" "cs_independent s" "transactions_ok s"
  using assms by (simp_all add: cs_ok_def)

lemma cs_wiredD:
  assumes "cs_ok s"
  shows "cm_repository (ss_mgr s) = mongo_consignments (ss_cons s)" "cm_outbox (ss_mgr s) = mongo_outbox (ss_box s)"
    "cm_WithTransaction (ss_mgr s) = store_WithTransaction (ss_client s)" "cm_paymentCli (ss_mgr s) = payment_client (ss_pay s)"
    "ch_repository (ss_hdl s) = mongo_consignments (ss_cons s)" "ch_outbox (ss_hdl s) = mongo_outbox (ss_box s)"
    "ch_paymentCli (ss_hdl s) = payment_client (ss_pay s)" "ch_codecs (ss_hdl s) = cm_codecs (ss_mgr s)"
  using cs_okD(6)[OF assms] by (simp_all add: cs_wired_def)

lemma cs_independentD:
  assumes "cs_ok s"
  shows "cc_InsertOne (ss_cons s) x w = (r1, w') \<Longrightarrow> events_idle s w w' \<and> pays_idle s w w'"
    and "cc_UpdateOne (ss_cons s) p f w = (r2, w') \<Longrightarrow> events_idle s w w' \<and> pays_idle s w w'"
    and "cc_FindOne (ss_cons s) p w = (r3, w') \<Longrightarrow> events_idle s w w' \<and> pays_idle s w w'"
    and "cc_Find (ss_cons s) w = (r4, w') \<Longrightarrow> events_idle s w w' \<and> pays_idle s w w'"
    and "mo_InsertOne (ss_box s) d w = (r1, w') \<Longrightarrow> docs_idle s w w' \<and> pays_idle s w w'"
    and "mo_NewUUID (ss_box s) w = (i, w') \<Longrightarrow> docs_idle s w w' \<and> pays_idle s w w'"
    and "docs_idle s w (ps_setpays (ss_pay s) m w)" "events_idle s w (ps_setpays (ss_pay s) m w)"
    and "ps_NewString (ss_pay s) w = (a, w') \<Longrightarrow> docs_idle s w w' \<and> events_idle s w w'"
    and "all_idle s w (mx_ObserveSagaDuration (cm_metrics (ss_mgr s)) t st w)"
    and "all_idle s w (mx_IncSagaTotal (cm_metrics (ss_mgr s)) st w)"
    and "rvc_ReserveCapacity (ch_reservationCli (ss_hdl s)) q w = (r5, w') \<Longrightarrow> all_idle s w w'"
    and "rvc_RefreshReservation (ch_reservationCli (ss_hdl s)) q' w = (r1, w') \<Longrightarrow> all_idle s w w'"
    and "ch_NewUUID (ss_hdl s) w = (i, w') \<Longrightarrow> all_idle s w w'"
  using cs_okD(7)[OF assms] unfolding cs_independent_def by - metis+

lemmas idle_defs = all_idle_def docs_idle_def events_idle_def pays_idle_def

lemma events_rows: "events_idle s w w' \<Longrightarrow> ss_rows s w' = ss_rows s w"
  by (simp add: events_idle_def mo_rows_def)

section \<open>The payment service behind gRPC\<close>

definition keeps_dom :: "(payments \<Rightarrow> 'a \<times> payments) \<Rightarrow> bool" where
  "keeps_dom f \<longleftrightarrow> (\<forall>m. dom (snd (f m)) \<subseteq> dom m)"

lemma serve_outcome:
  assumes ok: "cs_ok s" and f: "keeps_dom f" and run: "serve (ss_pay s) f w = (r, w')"
  shows "docs_idle s w w'" "events_idle s w w'" "f (ss_pays s w) = (r, ss_pays s w')"
proof -
  obtain r1 m where r: "f (ss_pays s w) = (r1, m)" by fastforce
  with run have w': "w' = ps_setpays (ss_pay s) m w" "r1 = r" by (simp_all add: serve_def)
  show "docs_idle s w w'" "events_idle s w w'" using cs_independentD(7,8)[OF ok] by (simp_all add: w')
  have "dom m \<subseteq> dom (ss_pays s w)" using f r unfolding keeps_dom_def by (metis snd_conv)
  then have "dom m \<subseteq> ps_issued (ss_pay s) w" using cs_okD(3)[OF ok] by (fastforce simp: payments_ok_def)
  then have "ss_pays s w' = m" using cs_okD(3)[OF ok] by (simp add: payments_ok_def w')
  with r w'(2) show "f (ss_pays s w) = (r, ss_pays s w')" by simp
qed

lemma pay_handlers_dom: "keeps_dom (pay_Capture q)" "keeps_dom (pay_Void v)" "keeps_dom (pay_Refund ord rf)"
  by (auto simp: keeps_dom_def pay_Capture_def pay_Void_def pay_Refund_def set_pay_status_def Let_def
      dest!: find_captured_Some split: option.splits if_splits)

lemma rpc_serve:
  assumes ok: "cs_ok s" and tr: "transport_ok rpc" and f: "keeps_dom f"
    and run: "rpc (serve (ss_pay s) f) w = (r, w')"
  shows "docs_idle s w w' \<and> events_idle s w w' \<and>
    ((\<exists>r0. f (ss_pays s w) = (r0, ss_pays s w') \<and> (r = r0 \<or> (\<exists>e. r = Inl e))) \<or>
     ss_pays s w' = ss_pays s w \<and> (\<exists>e. r = Inl e))"
  using tr run
proof (rule transport_cases)
  fix r0 assume s: "serve (ss_pay s) f w = (r0, w')" and r: "r = r0 \<or> (\<exists>e. r = Inl e)"
  from serve_outcome[OF ok f s] r show ?thesis by blast
next
  assume "w' = w" "\<exists>e. r = Inl e"
  then show ?thesis by (simp add: idle_defs)
qed

lemma capture_rpc:
  assumes ok: "cs_ok s" and run: "pc_Capture (payment_client (ss_pay s)) q w = (r, w')"
  shows "docs_idle s w w' \<and> events_idle s w w' \<and>
    (ss_pays s w' = ss_pays s w \<or> capture_effect q (ss_pays s w) (ss_pays s w')) \<and>
    (\<forall>rsp. r = Inr rsp \<longrightarrow> paid (creq_AuthId q) (crsp_PaymentId rsp) (ss_pays s w'))"
proof -
  from ok have tr: "transport_ok (ps_rpc_capture (ss_pay s))" by (simp add: cs_ok_def payments_ok_def)
  from run have "ps_rpc_capture (ss_pay s) (serve (ss_pay s) (pay_Capture q)) w = (r, w')" by (simp add: payment_client_def)
  from rpc_serve[OF ok tr pay_handlers_dom(1) this]
  have idle: "docs_idle s w w' \<and> events_idle s w w'" and
    c: "(\<exists>r0. pay_Capture q (ss_pays s w) = (r0, ss_pays s w') \<and> (r = r0 \<or> (\<exists>e. r = Inl e))) \<or>
      ss_pays s w' = ss_pays s w \<and> (\<exists>e. r = Inl e)" by blast+
  from c show ?thesis
  proof
    assume "\<exists>r0. pay_Capture q (ss_pays s w) = (r0, ss_pays s w') \<and> (r = r0 \<or> (\<exists>e. r = Inl e))"
    then obtain r0 where r0: "pay_Capture q (ss_pays s w) = (r0, ss_pays s w')" "r = r0 \<or> (\<exists>e. r = Inl e)" by blast
    have "paid (creq_AuthId q) (crsp_PaymentId rsp) (ss_pays s w')" if "r = Inr rsp" for rsp
      using r0 that by (auto simp: paid_def elim!: capture_captured)
    with pay_capture.run_step[OF TrueI r0(1)] idle show ?thesis by simp
  qed (use idle in auto)
qed

lemma void_rpc:
  assumes ok: "cs_ok s" and run: "pc_Void (payment_client (ss_pay s)) q w = (r, w')"
  shows "docs_idle s w w' \<and> events_idle s w w' \<and>
    (ss_pays s w' = ss_pays s w \<or> void_effect q (ss_pays s w) (ss_pays s w')) \<and>
    (\<forall>rsp. r = Inr rsp \<longrightarrow> voided q (ss_pays s w'))"
proof -
  from ok have tr: "transport_ok (ps_rpc_void (ss_pay s))" by (simp add: cs_ok_def payments_ok_def)
  from run have "ps_rpc_void (ss_pay s) (serve (ss_pay s) (pay_Void q)) w = (r, w')" by (simp add: payment_client_def)
  from rpc_serve[OF ok tr pay_handlers_dom(2) this]
  have idle: "docs_idle s w w' \<and> events_idle s w w'" and
    c: "(\<exists>r0. pay_Void q (ss_pays s w) = (r0, ss_pays s w') \<and> (r = r0 \<or> (\<exists>e. r = Inl e))) \<or>
      ss_pays s w' = ss_pays s w \<and> (\<exists>e. r = Inl e)" by blast+
  from c show ?thesis
  proof
    assume "\<exists>r0. pay_Void q (ss_pays s w) = (r0, ss_pays s w') \<and> (r = r0 \<or> (\<exists>e. r = Inl e))"
    then obtain r0 where r0: "pay_Void q (ss_pays s w) = (r0, ss_pays s w')" "r = r0 \<or> (\<exists>e. r = Inl e)" by blast
    with pay_void.run_step[OF TrueI r0(1)] pay_void.run_marked[OF TrueI, of q "ss_pays s w"] idle show ?thesis by auto
  qed (use idle in auto)
qed

lemma pay_Refund_outcome:
  assumes "pay_Refund ord q m = (r, m')"
  shows "m' = m \<or> refund_effect q m m'" and "r = Inr rsp \<Longrightarrow> refunded q m'"
proof -
  have "(m' = m \<or> refund_effect q m m') \<and> (r = Inr rsp \<longrightarrow> refunded q m')"
  proof (cases "find_captured ord (rreq_PaymentId q) m")
    case (Some ap)
    obtain a p where ap: "ap = (a, p)" by (cases ap)
    from find_captured_Some[OF Some[unfolded ap]] have "m a = Some p" "pay_captureID p = rreq_PaymentId q" by auto
    with assms Some ap show ?thesis
      by (auto simp: pay_Refund_def set_pay_status_def refund_effect_def refunded_def split: if_splits)
  qed (use assms in \<open>auto simp: pay_Refund_def\<close>)
  then show "m' = m \<or> refund_effect q m m'" "r = Inr rsp \<Longrightarrow> refunded q m'" by blast+
qed

lemma refund_rpc:
  assumes ok: "cs_ok s" and run: "pc_Refund (payment_client (ss_pay s)) q w = (r, w')"
  shows "docs_idle s w w' \<and> events_idle s w w' \<and>
    (ss_pays s w' = ss_pays s w \<or> refund_effect q (ss_pays s w) (ss_pays s w')) \<and>
    (\<forall>rsp. r = Inr rsp \<longrightarrow> refunded q (ss_pays s w'))"
proof -
  from ok have tr: "transport_ok (ps_rpc_refund (ss_pay s))" by (simp add: cs_ok_def payments_ok_def)
  from run have rpc: "ps_rpc_refund (ss_pay s) (\<lambda>w. serve (ss_pay s) (pay_Refund (ps_order (ss_pay s) w) q) w) w = (r, w')" by (simp add: payment_client_def)
  show ?thesis
    using tr rpc
  proof (rule transport_cases)
    fix r0 assume s: "serve (ss_pay s) (pay_Refund (ps_order (ss_pay s) w) q) w = (r0, w')" and r: "r = r0 \<or> (\<exists>e. r = Inl e)"
    from serve_outcome[OF ok pay_handlers_dom(3) s] have "docs_idle s w w'" "events_idle s w w'"
      "pay_Refund (ps_order (ss_pay s) w) q (ss_pays s w) = (r0, ss_pays s w')" by blast+
    with pay_Refund_outcome[OF this(3)] r show ?thesis by auto
  qed (auto simp: idle_defs)
qed

lemma authorise_rpc:
  assumes ok: "cs_ok s" and run: "pc_Authorise (payment_client (ss_pay s)) q w = (r, w')"
  shows "docs_idle s w w' \<and> events_idle s w w' \<and>
    (ss_pays s w' = ss_pays s w \<and> (\<forall>rsp. r \<noteq> Inr rsp) \<or>
     (\<exists>a. authorise_effect q a (ss_pays s w) (ss_pays s w') \<and> (\<forall>rsp. r = Inr rsp \<longrightarrow> arsp_AuthId rsp = a)))"
proof -
  from ok have tr: "transport_ok (ps_rpc_authorise (ss_pay s))" and P: "payments_ok (ss_pay s)" by (simp_all add: cs_ok_def payments_ok_def)
  from run have rpc: "ps_rpc_authorise (ss_pay s) (serve_Authorise (ss_pay s) q) w = (r, w')" by (simp add: payment_client_def)
  show ?thesis
    using tr rpc
  proof (rule transport_cases)
    fix r0 assume s: "serve_Authorise (ss_pay s) q w = (r0, w')" and r: "r = r0 \<or> (\<exists>e. r = Inl e)"
    obtain a w1 where n: "ps_NewString (ss_pay s) w = (a, w1)" by fastforce
    from P[unfolded payments_ok_def] n have a: "a \<notin> dom (ss_pays s w)" "ss_pays s w1 = ss_pays s w"
      "ps_issued (ss_pay s) w1 = insert a (ps_issued (ss_pay s) w)" "dom (ss_pays s w) \<subseteq> ps_issued (ss_pay s) w" by blast+
    from s n obtain m where m: "pay_Authorise a q (ss_pays s w) = (r0, m)" and w': "w' = ps_setpays (ss_pay s) m w1"
      by (auto simp: serve_Authorise_def serve_def a(2) split: prod.splits)
    have "dom m = insert a (dom (ss_pays s w))" using m by (auto simp: pay_Authorise_def)
    then have "dom m \<subseteq> ps_issued (ss_pay s) w1" using a by auto
    with P have "ss_pays s w' = m" by (simp add: payments_ok_def w')
    with m a(1) have "authorise_effect q a (ss_pays s w) (ss_pays s w')" "\<And>rsp. r0 = Inr rsp \<Longrightarrow> arsp_AuthId rsp = a"
      by (auto simp: authorise_effect_def pay_Authorise_def)
    moreover have "docs_idle s w w'" "events_idle s w w'"
      using cs_independentD(9)[OF ok n] cs_independentD(7,8)[OF ok, of w1 m] by (simp_all add: w' idle_defs)
    ultimately show ?thesis using r by auto
  qed (auto simp: idle_defs)
qed

section \<open>The contract holds\<close>

lemma create_frame_box:
  assumes ok: "cs_ok s" and run: "ob_CreateEvent (mongo_outbox (ss_box s)) e w = (r, w')"
  shows "docs_idle s w w' \<and> pays_idle s w w'"
proof -
  obtain i w0 where n: "mo_NewUUID (ss_box s) w = (i, w0)" by fastforce
  obtain r1 w1 where ins: "mo_InsertOne (ss_box s) (outbox_document (uuid_String (mo_uuid (ss_box s)) i) (mo_Now (ss_box s) w0)
      (mo_Inject (ss_box s) w) e) w0 = (r1, w1)" by fastforce
  from run n ins have "w' = w1" by (auto simp: mongo_outbox_def mongo_CreateEvent_def split: sum.splits if_splits)
  with cs_independentD(5)[OF ok ins] cs_independentD(6)[OF ok n] show ?thesis by (simp add: idle_defs)
qed

lemma repository_frame:
  assumes ok: "cs_ok s"
  shows "cr_Create (mongo_consignments (ss_cons s)) c w = (rc, w') \<Longrightarrow> events_idle s w w' \<and> pays_idle s w w'"
    and "cr_GetByID (mongo_consignments (ss_cons s)) i w = (rg, w') \<Longrightarrow> events_idle s w w' \<and> pays_idle s w w'"
    and "cr_GetAll (mongo_consignments (ss_cons s)) w = (ra, w') \<Longrightarrow> events_idle s w w' \<and> pays_idle s w w'"
    and "cr_UpdateStatus (mongo_consignments (ss_cons s)) i st w = (ru, w') \<Longrightarrow> events_idle s w w' \<and> pays_idle s w w'"
    and "cr_Update (mongo_consignments (ss_cons s)) i u w = (ru, w') \<Longrightarrow> events_idle s w w' \<and> pays_idle s w w'"
  by (auto simp: mongo_consignments_def mongo_Create_def mongo_GetByID_def mongo_GetAll_def mongo_UpdateStatus_def mongo_Update_def
      Let_def idle_defs split: prod.splits sum.splits if_splits
      dest!: cs_independentD(1)[OF ok] cs_independentD(2)[OF ok] cs_independentD(3)[OF ok] cs_independentD(4)[OF ok])

lemma transaction_frame:
  assumes ok: "cs_ok s" and run: "store_WithTransaction (ss_client s) fn w = (r, w')"
    and keep: "\<forall>x q y. fn x = (q, y) \<longrightarrow> pays_idle s x y"
  shows "pays_idle s w w' \<and> (docs_idle s w w' \<and> events_idle s w w' \<and> (\<forall>u. r \<noteq> Inr u) \<or>
    (\<exists>x y u. docs_idle s w x \<and> events_idle s w x \<and> fn x = (Inr u, y) \<and> docs_idle s y w' \<and> events_idle s y w'))"
proof -
  note T = cs_okD(8)[OF ok, unfolded transactions_ok_def]
  obtain r0 w0 where st: "ms_StartSession (ss_client s) w = (r0, w0)" by fastforce
  with T have s0: "all_idle s w w0" by blast
  show ?thesis
  proof (cases r0)
    case (Inl e)
    with run st s0 show ?thesis by (auto simp: store_WithTransaction_def all_idle_def)
  next
    case (Inr u)
    obtain r1 w1 where tx: "ms_WithTransaction (ss_client s) fn w0 = (r1, w1)" by fastforce
    from run st Inr tx have w': "w' = ms_EndSession (ss_client s) w1" "r = r1" by (simp_all add: store_WithTransaction_def)
    have s1: "all_idle s w1 w'" using T by (simp add: w')
    from T tx keep have "pays_idle s w0 w1" and
      "docs_idle s w0 w1 \<and> events_idle s w0 w1 \<and> (\<forall>u. r1 \<noteq> Inr u) \<or>
       (\<exists>x y u. docs_idle s w0 x \<and> events_idle s w0 x \<and> fn x = (Inr u, y) \<and> docs_idle s y w1 \<and> events_idle s y w1)" by blast+
    with s0 s1 w'(2) show ?thesis unfolding idle_defs by auto
  qed
qed

interpretation mgr: consignment_manager cs_ok ss_mgr ss_docs ss_rows ss_pays
proof (unfold_locales, goal_cases)
  case (1 h w)
  show ?case using cons.ids[OF cs_okD(1)[OF 1], of w] by simp
next
  case (2 h c w r c' w')
  show ?case using cons.Create[OF cs_okD(1)[OF 2(1)]] 2 by (simp add: cs_wiredD)
next
  case (3 h i w rc w')
  show ?case using cons.GetByID[OF cs_okD(1)[OF 3(1)]] 3 by (simp add: cs_wiredD)
next
  case (4 h w rl w')
  show ?case using cons.GetAll[OF cs_okD(1)[OF 4(1)]] 4 by (simp add: cs_wiredD)
next
  case (5 h i s w r w')
  show ?case using cons.UpdateStatus[OF cs_okD(1)[OF 5(1)]] 5 by (simp add: cs_wiredD)
next
  case (6 h i u w r w')
  show ?case using cons.Update[OF cs_okD(1)[OF 6(1)]] 6 by (simp add: cs_wiredD)
next
  case (7 h e w r w')
  show ?case using mo.create[OF cs_okD(2)[OF 7(1)], of e w r w'] 7 by (simp add: cs_wiredD)
next
  case (8 h e w u w')
  show ?case using mo.create_pending[OF cs_okD(2)[OF 8(1)], of e w u w'] 8 by (simp add: cs_wiredD)
next
  case (9 h i w r' w')
  show ?case using mo.mark[OF cs_okD(2)[OF 9(1)], of i w r' w'] 9 by (simp add: cs_wiredD)
next
  case (10 h i w u w')
  show ?case using mo.mark_done[OF cs_okD(2)[OF 10(1)], of i w u w'] 10 by (simp add: cs_wiredD)
next
  case (11 h l w r'' w')
  show ?case using mo.pending_rows[OF cs_okD(2)[OF 11(1)], of l w r'' w'] 11 by (simp add: cs_wiredD)
next
  case (12 h l w es w' e)
  show ?case using mo.pending_events[OF cs_okD(2)[OF 12(1)], of l w es w' e] 12 by (simp add: cs_wiredD)
next
  case (13 h e w u w')
  show ?case using mongo_CreateEvent_outcome[OF cs_okD(2)[OF 13(1)], of e w "Inr u" w'] 13 by (auto simp: cs_wiredD mongo_outbox_def)
next
  case (14 h e w r w')
  then show ?case using create_frame_box[OF 14(1), of e w r w'] by (simp add: cs_wiredD idle_defs)
next
  case (15 h i w rc w')
  then show ?case using repository_frame(2)[OF 15(1), of i w rc w'] by (simp add: cs_wiredD events_rows pays_idle_def)
next
  case (16 h i st w r w')
  then show ?case using repository_frame(4)[OF 16(1), of i st w r w'] by (simp add: cs_wiredD events_rows pays_idle_def)
next
  case (17 h i upd w r w')
  then show ?case using repository_frame(5)[OF 17(1), of i upd w r w'] by (simp add: cs_wiredD events_rows pays_idle_def)
next
  case (18 h cq w rcap w')
  then show ?case using capture_rpc[OF 18(1), of cq w rcap w'] by (simp add: cs_wiredD events_rows docs_idle_def)
next
  case (19 h vq w rvoid w')
  then show ?case using void_rpc[OF 19(1), of vq w rvoid w'] by (simp add: cs_wiredD events_rows docs_idle_def)
next
  case (20 h rq w rref w')
  then show ?case using refund_rpc[OF 20(1), of rq w rref w'] by (simp add: cs_wiredD events_rows docs_idle_def)
next
  case (21 h)
  then show ?case by (rule cs_okD(4))
next
  case (22 h)
  then show ?case by (rule cs_okD(5))
next
  case (23 h fn w r w')
  then show ?case using transaction_frame[OF 23(1), of fn w r w'] by (auto simp: cs_wiredD idle_defs mo_rows_def) 
next
  case (24 h t st w)
  then show ?case using cs_independentD(10)[OF 24] by (simp add: all_idle_def events_rows docs_idle_def pays_idle_def)
next
  case (25 h st w)
  then show ?case using cs_independentD(11)[OF 25] by (simp add: all_idle_def events_rows docs_idle_def pays_idle_def)
qed

interpretation svc: consignment_server cs_ok ss_mgr ss_docs ss_rows ss_pays ss_hdl
proof (unfold_locales, goal_cases)
  case (1 h)
  then show ?case by (simp add: cs_wiredD)
next
  case (2 h c w rcr w')
  then show ?case using repository_frame(1)[OF 2(1), of c w rcr w'] by (simp add: cs_wiredD events_rows pays_idle_def)
next
  case (3 h w rga w')
  then show ?case using repository_frame(3)[OF 3(1), of w rga w'] by (simp add: cs_wiredD events_rows pays_idle_def)
next
  case (4 h aq w rauth w')
  then show ?case using authorise_rpc[OF 4(1), of aq w rauth w'] by (simp add: cs_wiredD events_rows docs_idle_def)
next
  case (5 h rq w rres w')
  show ?case using cs_independentD(12)[OF 5] by (simp add: all_idle_def events_rows docs_idle_def pays_idle_def)
next
  case (6 h cq w ru w')
  show ?case using cs_independentD(13)[OF 6] by (simp add: all_idle_def events_rows docs_idle_def pays_idle_def)
next
  case (7 h w i w')
  show ?case using cs_independentD(14)[OF 7] by (simp add: all_idle_def events_rows docs_idle_def pays_idle_def)
qed

end
