(* ===== verification/Consignment_Memory.thy ===== *)
theory Consignment_Memory
  imports Consignment_System Reservation_Memory
begin

text \<open>
  An in-memory system on which the witnesses run the consignment service: two collections, the
  payment service's map, and switches for failures (an outbox that is down, answers of the payment
  service that are lost). It satisfies every law the properties assume.
\<close>

record smem =
  sx_cons :: "Consignment list"
  sx_box :: "outboxDocument list"
  sx_pays :: payments
  sx_ids :: "string list"
  sx_now :: time
  sx_sent :: "(string \<times> string \<times> bytes) list"
  sx_box_down :: bool
  sx_pay_lost :: bool

section \<open>A collection\<close>

text \<open>
  A collection that breaks its own rules (\<open>okl\<close>) is seen as empty and refuses every write; a write
  that would break them is refused too.
\<close>

definition coll_view :: "('a list \<Rightarrow> bool) \<Rightarrow> 'a list \<Rightarrow> 'a list" where
  "coll_view okl xs = (if okl xs then xs else [])"

definition coll_write :: "('a list \<Rightarrow> bool) \<Rightarrow> ('w \<Rightarrow> 'a list) \<Rightarrow> ('a list \<Rightarrow> 'w \<Rightarrow> 'w) \<Rightarrow> 'b \<Rightarrow> 'a list \<Rightarrow> 'w \<Rightarrow> (goerr + 'b) \<times> 'w" where
  "coll_write okl get put r ys w =
    (if okl (get w) \<and> okl ys then (Inr r, put ys w) else (Inl (ErrNew ''refused''), w))"

definition coll_update_one ::
  "('a list \<Rightarrow> bool) \<Rightarrow> ('w \<Rightarrow> 'a list) \<Rightarrow> ('a list \<Rightarrow> 'w \<Rightarrow> 'w) \<Rightarrow> ('a \<Rightarrow> bool) \<Rightarrow> ('a \<Rightarrow> 'a) \<Rightarrow> 'w \<Rightarrow> (goerr + nat) \<times> 'w" where
  "coll_update_one okl get put p f w =
    (case first_index p (coll_view okl (get w)) of
       None \<Rightarrow> (Inr 0, w)
     | Some i \<Rightarrow> coll_write okl get put 1 ((get w)[i := f (get w ! i)]) w)"

definition coll_lens :: "('w \<Rightarrow> 'a list) \<Rightarrow> ('a list \<Rightarrow> 'w \<Rightarrow> 'w) \<Rightarrow> bool" where
  "coll_lens get put \<longleftrightarrow> (\<forall>xs w. get (put xs w) = xs)"

lemma coll_write_cases:
  assumes "coll_write okl get put r ys w = (q, w')" and lens: "coll_lens get put"
  shows "q = Inr r \<and> w' = put ys w \<and> coll_view okl (get w) = get w \<and> coll_view okl (get w') = ys \<or>
    (\<exists>e. q = Inl e) \<and> w' = w"
  using assms by (auto simp: coll_write_def coll_view_def coll_lens_def split: if_splits)

lemma coll_update_one_ok:
  assumes lens: "coll_lens get put"
  shows "update_one_ok (\<lambda>w. coll_view okl (get w)) (coll_update_one okl get put)"
proof -
  have "let one = (\<exists>i < length (coll_view okl (get w)). p (coll_view okl (get w) ! i) \<and>
          coll_view okl (get w') = (coll_view okl (get w))[i := f (coll_view okl (get w) ! i)]) in
      case r of
        Inr n \<Rightarrow> if n = 0 then coll_view okl (get w') = coll_view okl (get w) else one
      | Inl e \<Rightarrow> coll_view okl (get w') = coll_view okl (get w) \<or> one"
    if run: "coll_update_one okl get put p f w = (r, w')" for p f w r w'
  proof (cases "first_index p (coll_view okl (get w))")
    case None
    with run show ?thesis by (auto simp: coll_update_one_def)
  next
    case (Some i)
    with run have w: "coll_write okl get put (1 :: nat) ((get w)[i := f (get w ! i)]) w = (r, w')" by (simp add: coll_update_one_def)
    show ?thesis
      using coll_write_cases[OF w lens] first_index_Some[OF Some] by (auto simp: Let_def)
  qed
  then show ?thesis unfolding update_one_ok_def by blast
qed

definition coll_update_many ::
  "('a list \<Rightarrow> bool) \<Rightarrow> ('w \<Rightarrow> 'a list) \<Rightarrow> ('a list \<Rightarrow> 'w \<Rightarrow> 'w) \<Rightarrow> ('a \<Rightarrow> bool) \<Rightarrow> ('a \<Rightarrow> 'a) \<Rightarrow> 'w \<Rightarrow> (goerr + nat) \<times> 'w" where
  "coll_update_many okl get put p f w =
    (if okl (get w) then coll_write okl get put (length (filter p (get w))) (where_update p f (get w)) w else (Inr 0, w))"

lemma coll_insert_ok:
  assumes lens: "coll_lens get put" and dist: "\<And>xs. okl xs \<Longrightarrow> distinct (map key xs)"
  shows "insert_one_ok (\<lambda>w. coll_view okl (get w)) key (\<lambda>x w. coll_write okl get put () (get w @ [x]) w)"
proof -
  have "coll_view okl (get w') = coll_view okl (get w) \<and> (\<forall>u. r \<noteq> Inr u) \<or>
      key x \<notin> key ` set (coll_view okl (get w)) \<and> coll_view okl (get w') = coll_view okl (get w) @ [x]"
    if run: "coll_write okl get put () (get w @ [x]) w = (r, w')" for x w r w'
  proof (cases "okl (get w) \<and> okl (get w @ [x])")
    case True
    with dist[of "get w @ [x]"] have "key x \<notin> key ` set (get w)" by auto
    with coll_write_cases[OF run lens] show ?thesis by auto
  qed (use run in \<open>auto simp: coll_write_def\<close>)
  then show ?thesis unfolding insert_one_ok_def by blast
qed

section \<open>Consignments\<close>

definition cons_okl :: "Consignment list \<Rightarrow> bool" where
  "cons_okl xs \<longleftrightarrow> distinct (map con_ID xs)"

definition put_cons :: "Consignment list \<Rightarrow> smem \<Rightarrow> smem" where
  "put_cons xs w = w\<lparr>sx_cons := xs\<rparr>"

definition mem_collection :: "smem ConsignmentCollection" where
  "mem_collection = \<lparr>
     cc_InsertOne = (\<lambda>x w. coll_write cons_okl sx_cons put_cons () (sx_cons w @ [x]) w),
     cc_UpdateOne = coll_update_one cons_okl sx_cons put_cons,
     cc_FindOne = (\<lambda>p w. (case find p (coll_view cons_okl (sx_cons w)) of
        None \<Rightarrow> Inl (ErrNew ''no documents'') | Some x \<Rightarrow> Inr x, w)),
     cc_Find = (\<lambda>w. (Inr (map Inr (coll_view cons_okl (sx_cons w))), w)),
     cc_ErrNoDocuments = ErrNew ''no documents''\<rparr>"

definition mem_cv :: "smem cview" where
  "mem_cv = \<lparr>cv_docs = \<lambda>w. coll_view cons_okl (sx_cons w)\<rparr>"

lemma find_in: "find p xs = Some x \<Longrightarrow> x \<in> set xs \<and> p x"
  by (auto simp: find_Some_iff)

lemma mem_collection_ok: "consignments_ok (mem_collection, mem_cv)"
proof -
  have lens: "coll_lens sx_cons put_cons" by (simp add: coll_lens_def put_cons_def)
  have "find_one_ok (\<lambda>w. coll_view cons_okl (sx_cons w)) (cc_FindOne mem_collection)"
    by (auto simp: find_one_ok_def mem_collection_def dest: find_in split: option.splits)
  moreover have "find_all_ok (\<lambda>w. coll_view cons_okl (sx_cons w)) (cc_Find mem_collection)"
    by (auto simp: find_all_ok_def mem_collection_def)
  ultimately show ?thesis
    using coll_update_one_ok[OF lens, of cons_okl] coll_insert_ok[OF lens, of cons_okl con_ID]
    by (simp add: consignments_ok_def mem_collection_def mem_cv_def cons_okl_def coll_view_def)
qed

section \<open>The outbox\<close>

text \<open>Fewer than \<open>2 ^ 100\<close> documents, so that an unused UUID is among the first numbers.\<close>

definition box_okl :: "outboxDocument list \<Rightarrow> bool" where
  "box_okl xs \<longleftrightarrow> distinct (map od_Id xs) \<and> length xs < 2 ^ 100 \<and>
     list_all (\<lambda>x. od_Id x = uuid_String mem_uuid (of_nat (parse_digits (od_Id x)))) xs"

definition put_box :: "outboxDocument list \<Rightarrow> smem \<Rightarrow> smem" where
  "put_box xs w = w\<lparr>sx_box := xs\<rparr>"

definition used_uuids :: "outboxDocument list \<Rightarrow> string list" where
  "used_uuids xs = map od_Id xs @ map od_ClaimID xs"

fun first_unused :: "nat \<Rightarrow> nat \<Rightarrow> string list \<Rightarrow> nat" where
  "first_unused n 0 used = n"
| "first_unused n (Suc k) used = (if nat_digits n \<in> set used then first_unused (Suc n) k used else n)"

lemma first_unused_bounds: "n \<le> first_unused n k used \<and> first_unused n k used \<le> n + k"
proof (induction k arbitrary: n)
  case (Suc k)
  from Suc[of "Suc n"] show ?case by auto
qed simp

lemma first_unused_below: "n \<le> i \<Longrightarrow> i < first_unused n k used \<Longrightarrow> nat_digits i \<in> set used"
proof (induction k arbitrary: n)
  case (Suc k)
  then show ?case
  proof (cases "i = n")
    case False
    with Suc.prems(1) have n: "Suc n \<le> i" by simp
    from Suc.prems(1,2) False have "i < first_unused (Suc n) k used" by (simp split: if_splits)
    with Suc.IH[OF n] show ?thesis by simp
  qed (simp split: if_splits)
qed simp

lemma first_unused_stop: "first_unused n k used < n + k \<Longrightarrow> nat_digits (first_unused n k used) \<notin> set used"
proof (induction k arbitrary: n)
  case (Suc k)
  then show ?case by (auto split: if_splits)
qed simp

text \<open>Among one more number than there are used strings, one is unused.\<close>

lemma first_unused_new:
  assumes k: "length used < k"
  shows "nat_digits (first_unused 0 k used) \<notin> set used"
proof (cases "first_unused 0 k used < 0 + k")
  case True
  then show ?thesis by (rule first_unused_stop)
next
  case False
  then have sub: "nat_digits ` {..<k} \<subseteq> set used" using first_unused_below[of 0 _ k used] by auto
  have "card (nat_digits ` {..<k}) = k" by (subst card_image) (auto simp: inj_on_def dest: nat_digits_inject)
  with card_mono[OF _ sub] card_length[of used] k show ?thesis by simp
qed

definition fresh_uuid :: "outboxDocument list \<Rightarrow> UUID" where
  "fresh_uuid xs = of_nat (first_unused 0 (length (used_uuids xs) + 1) (used_uuids xs))"

lemma fresh_uuid_new:
  assumes "length xs < 2 ^ 100"
  shows "uuid_String mem_uuid (fresh_uuid xs) \<notin> set (used_uuids xs)"
proof -
  let ?n = "first_unused 0 (length (used_uuids xs) + 1) (used_uuids xs)"
  have "?n \<le> length (used_uuids xs) + 1" using first_unused_bounds[of 0 "length (used_uuids xs) + 1" "used_uuids xs"] by simp
  also have "\<dots> = 2 * length xs + 1" by (simp add: used_uuids_def)
  also have "\<dots> < 2 ^ 128" using assms by simp
  finally have "unat (of_nat ?n :: UUID) = ?n" by (simp add: unat_of_nat take_bit_eq_mod)
  then have "uuid_String mem_uuid (fresh_uuid xs) = nat_digits ?n" unfolding fresh_uuid_def mem_uuid_def by simp
  then show ?thesis using first_unused_new[of "used_uuids xs" "length (used_uuids xs) + 1"] by simp
qed

definition mem_box :: "smem OutboxMongo" where
  "mem_box = \<lparr>
     mo_InsertOne = (\<lambda>x w. if sx_box_down w then (Inl (ErrNew ''down''), w)
        else coll_write box_okl sx_box put_box () (sx_box w @ [x]) w),
     mo_UpdateOne = coll_update_one box_okl sx_box put_box,
     mo_UpdateMany = coll_update_many box_okl sx_box put_box,
     mo_Find = (\<lambda>p key w. (Inr (map Inr (filter p (coll_view box_okl (sx_box w)))), w)),
     mo_IsDuplicateKeyError = (\<lambda>e. False),
     mo_NewUUID = (\<lambda>w. (fresh_uuid (sx_box w), w)),
     mo_uuid = mem_uuid,
     mo_Now = sx_now,
     mo_Inject = (\<lambda>w. [])\<rparr>"

definition mem_ov :: "smem moview" where
  "mem_ov = \<lparr>mv_docs = \<lambda>w. coll_view box_okl (sx_box w)\<rparr>"

lemma put_box_lens: "coll_lens sx_box put_box" by (simp add: coll_lens_def put_box_def)

lemma where_update_none: "where_update (\<lambda>x. False) f xs = xs"
  by (simp add: where_update_def)

lemma mem_box_insert: "mo_insert_ok (mem_box, mem_ov)"
proof -
  have "insert_one_ok (\<lambda>w. coll_view box_okl (sx_box w)) od_Id (\<lambda>x w. coll_write box_okl sx_box put_box () (sx_box w @ [x]) w)"
    by (rule coll_insert_ok[OF put_box_lens]) (simp add: box_okl_def)
  then show ?thesis
    unfolding insert_one_ok_def mo_insert_ok_def mem_box_def mem_ov_def by (auto split: sum.splits if_splits; blast)
qed

lemma mem_box_update_many: "mo_update_many_ok (mem_box, mem_ov)"
proof -
  have "sx_now w \<le> sx_now w' \<and> (case r of
        Inr n \<Rightarrow> coll_view box_okl (sx_box w') = where_update p f (coll_view box_okl (sx_box w))
      | Inl e \<Rightarrow> \<exists>s. coll_view box_okl (sx_box w') = where_update (\<lambda>x. p x \<and> s x) f (coll_view box_okl (sx_box w)))"
    if run: "coll_update_many box_okl sx_box put_box p f w = (r, w')" for p f w r w'
  proof (cases "box_okl (sx_box w)")
    case False
    with run show ?thesis by (auto simp: coll_update_many_def coll_view_def where_update_def)
  next
    case True
    with run have wr: "coll_write box_okl sx_box put_box (length (filter p (sx_box w))) (where_update p f (sx_box w)) w = (r, w')"
      by (simp add: coll_update_many_def)
    have now: "sx_now w' = sx_now w" using coll_write_cases[OF wr put_box_lens] by (auto simp: put_box_def)
    from coll_write_cases[OF wr put_box_lens] show ?thesis
    proof
      assume c: "r = Inr (length (filter p (sx_box w))) \<and> w' = put_box (where_update p f (sx_box w)) w \<and>
        coll_view box_okl (sx_box w) = sx_box w \<and> coll_view box_okl (sx_box w') = where_update p f (sx_box w)"
      from c have r: "r = Inr (length (filter p (sx_box w)))" by blast
      have "coll_view box_okl (sx_box w') = where_update p f (coll_view box_okl (sx_box w))" using c by argo
      with now show ?thesis by (simp add: r)
    next
      assume "(\<exists>e. r = Inl e) \<and> w' = w"
      then show ?thesis by (auto intro!: exI[of _ "\<lambda>x. False"] simp: where_update_none)
    qed
  qed
  then show ?thesis
    unfolding mo_update_many_ok_def fst_conv snd_conv mem_box_def mem_ov_def OutboxMongo.simps moview.simps by blast
qed

lemma mem_box_ok: "mongo_outbox_ok (mem_box, mem_ov)"
proof -
  have "update_one_ok (mv_docs mem_ov) (mo_UpdateOne mem_box)"
    using coll_update_one_ok[OF put_box_lens, of box_okl] by (simp add: mem_box_def mem_ov_def)
  moreover have "mo_find_ok (mem_box, mem_ov)" by (auto simp: mo_find_ok_def mem_box_def mem_ov_def)
  moreover have "mo_uuid_ok (mem_box, mem_ov)"
    using fresh_uuid_new by (force simp: mo_uuid_ok_def mem_box_def mem_ov_def coll_view_def box_okl_def used_uuids_def)
  moreover have "distinct (map od_Id (mv_docs mem_ov w)) \<and>
      (\<forall>x \<in> set (mv_docs mem_ov w). \<exists>i. od_Id x = uuid_String (mo_uuid mem_box) i)" for w
    by (auto simp: mem_ov_def mem_box_def coll_view_def box_okl_def list_all_iff)
  ultimately show ?thesis
    using mem_box_insert mem_box_update_many mem_uuid_ok
    by (simp add: mongo_outbox_ok_def) (simp add: mem_box_def)
qed

section \<open>The payment service and the reservation client\<close>

text \<open>Identifiers are strings nobody has used; the map is looked at where an identifier was issued.\<close>

definition mem_pays :: "smem \<Rightarrow> payments" where
  "mem_pays w = (sx_pays w) |` set (sx_ids w)"

definition mem_NewString :: "smem \<Rightarrow> string \<times> smem" where
  "mem_NewString w = (let a = concat (sx_ids w) @ ''a'' in (a, w\<lparr>sx_ids := a # sx_ids w, sx_pays := mem_pays w\<rparr>))"

lemma concat_longer: "x \<in> set xs \<Longrightarrow> length x \<le> length (concat xs)"
  by (induction xs) auto

lemma mem_NewString_new: "concat xs @ ''a'' \<notin> set xs"
  using concat_longer[of "concat xs @ ''a''" xs] by auto

definition lossy :: "(smem \<Rightarrow> (goerr + 'a) \<times> smem) \<Rightarrow> smem \<Rightarrow> (goerr + 'a) \<times> smem" where
  "lossy f w = (if sx_pay_lost w then (Inl (StatusErr Unavailable ''lost''), snd (f w)) else f w)"

lemma lossy_ok: "transport_ok lossy"
  by (auto simp: transport_ok_def lossy_def)

definition mem_reservations :: "smem ReservationClient" where
  "mem_reservations = \<lparr>
     rvc_ReserveCapacity = (\<lambda>q w. (Inr \<lparr>rres_Id = ''r'', rres_Reserved = True, rres_VesselId = ''v''\<rparr>, w)),
     rvc_RefreshReservation = (\<lambda>q w. (Inr (), w))\<rparr>"

section \<open>Transactions\<close>

text \<open>A failing callback is undone, in the database only.\<close>

definition mem_client :: "smem MongoClient" where
  "mem_client = \<lparr>
     ms_StartSession = (\<lambda>w. (Inr (), w)),
     ms_WithTransaction = (\<lambda>fn w. (case fn w of
        (Inl e, w1) \<Rightarrow> (Inl e, w1\<lparr>sx_cons := sx_cons w, sx_box := sx_box w\<rparr>)
      | (Inr u, w1) \<Rightarrow> (Inr u, w1))),
     ms_EndSession = (\<lambda>w. w)\<rparr>"

section \<open>The whole system\<close>

text \<open>A consignment on its way, the events of its saga, and codecs that know them.\<close>

definition sample_con :: Consignment where
  "sample_con = \<lparr>con_ID = ''c1'', con_Weight = 60, con_Description = ''d'', con_Containers = [], con_VesselID = ''v'',
     con_ReservationID = ''r'', con_Status = StatusPending, con_PaymentID = ''''\<rparr>"

definition sample_auth :: PaymentAuthorisedEvent where
  "sample_auth = authorised_event ''a'' sample_con 0"

definition keyed_auth :: "int32 \<Rightarrow> PaymentAuthorisedEvent" where
  "keyed_auth n = sample_auth\<lparr>pae_IdempotencyKey := ''c1'', pae_RetryCount := n\<rparr>"

definition cs_codecs :: event_codecs where
  "cs_codecs = \<lparr>
     pb_PaymentAuthorised = table_codec [(''auth'', sample_auth), (''auth1'', keyed_auth 1), (''auth3'', keyed_auth 3),
       (''auth2'', authorised_event ''aa'' sample_con 0)],
     pb_PaymentCaptured = table_codec [(''captured'', captured_event (sample_auth\<lparr>pae_PaymentId := ''c1''\<rparr>))],
     pb_ReservationConfirmed = table_codec [(''confirmed'', \<lparr>rce_ReservationId = ''r'', rce_ConsignmentId = ''c1'', rce_SagaStartedAt = None\<rparr>),
       (''loaded'', \<lparr>rce_ReservationId = ''r'', rce_ConsignmentId = ''c1'', rce_SagaStartedAt = pae_SagaStartedAt sample_auth\<rparr>)],
     pb_ReservationExpired = table_codec [(''expired'',
       \<lparr>ree_ReservationId = ''r'', ree_VesselId = ''v'', ree_ConsignmentId = ''c1'', ree_Weight = 60, ree_Containers = 0\<rparr>)],
     pb_ConfirmationFailed = table_codec [(''dead'', capture_failed_event (keyed_auth 4))],
     pb_Capacity = table_codec []\<rparr>"

definition mem_pay :: "smem pay_service" where
  "mem_pay = \<lparr>ps_pays = mem_pays, ps_setpays = (\<lambda>m w. w\<lparr>sx_pays := m\<rparr>), ps_issued = (\<lambda>w. set (sx_ids w)),
     ps_NewString = mem_NewString, ps_order = sx_ids,
     ps_rpc_authorise = lossy, ps_rpc_capture = lossy, ps_rpc_refund = lossy, ps_rpc_void = lossy\<rparr>"

definition cs_mgr :: "smem CsManager" where
  "cs_mgr = \<lparr>cm_repository = mongo_consignments mem_collection, cm_outbox = mongo_outbox mem_box,
     cm_WithTransaction = store_WithTransaction mem_client, cm_paymentCli = payment_client mem_pay,
     cm_RetryCapture = attempts 3, cm_Retry = attempts 3,
     cm_metrics = \<lparr>mx_ObserveSagaDuration = (\<lambda>t st w. w), mx_IncSagaTotal = (\<lambda>st w. w)\<rparr>,
     cm_Now = sx_now, cm_codecs = cs_codecs\<rparr>"

definition cs_hdl :: "smem CsHandler" where
  "cs_hdl = \<lparr>ch_repository = mongo_consignments mem_collection, ch_reservationCli = mem_reservations,
     ch_paymentCli = payment_client mem_pay, ch_outbox = mongo_outbox mem_box, ch_NewUUID = (\<lambda>w. (5, w)),
     ch_uuid = mem_uuid, ch_Now = sx_now, ch_codecs = cs_codecs\<rparr>"

definition mem_cs :: "smem cs_system" where
  "mem_cs = \<lparr>ss_mgr = cs_mgr, ss_hdl = cs_hdl, ss_cons = mem_collection, ss_cv = mem_cv, ss_box = mem_box, ss_ov = mem_ov,
     ss_client = mem_client, ss_pay = mem_pay\<rparr>"

lemma mem_cs_select [simp]:
  "ss_mgr mem_cs = cs_mgr" "ss_hdl mem_cs = cs_hdl" "ss_cons mem_cs = mem_collection" "ss_cv mem_cs = mem_cv"
  "ss_box mem_cs = mem_box" "ss_ov mem_cs = mem_ov" "ss_client mem_cs = mem_client" "ss_pay mem_cs = mem_pay"
  by (simp_all add: mem_cs_def)

lemma mem_payments_ok: "payments_ok mem_pay"
proof -
  have dom: "dom (mem_pays w) \<subseteq> set (sx_ids w)" for w by (auto simp: mem_pays_def restrict_map_def split: if_splits)
  have set: "mem_pays (w\<lparr>sx_pays := m\<rparr>) = m" if "dom m \<subseteq> set (sx_ids w)" for w m
  proof
    fix x show "mem_pays (w\<lparr>sx_pays := m\<rparr>) x = m x"
      using that by (cases "m x") (auto simp: mem_pays_def restrict_map_def subset_iff)
  qed
  have new: "mem_pays (w\<lparr>sx_ids := a # sx_ids w, sx_pays := mem_pays w\<rparr>) = mem_pays w" for w a
    by (auto simp: mem_pays_def restrict_map_def fun_eq_iff)
  show ?thesis
    using dom set new mem_NewString_new by (simp add: lossy_ok payments_ok_def mem_pay_def mem_NewString_def Let_def)
qed

lemma mem_independent: "cs_independent mem_cs"
  by (auto simp: cs_independent_def idle_defs mem_collection_def coll_write_def coll_update_one_def coll_update_many_def put_cons_def put_box_def
      mem_box_def mem_cv_def mem_ov_def mem_pay_def mem_pays_def mem_NewString_def cs_mgr_def cs_hdl_def mem_reservations_def
      Let_def split: option.splits if_splits)

lemma mem_transactions: "transactions_ok mem_cs"
proof -
  have "pays_idle mem_cs w w' \<and> (docs_idle mem_cs w w' \<and> events_idle mem_cs w w' \<and> (\<forall>u. r \<noteq> Inr u) \<or>
      (\<exists>x y u. docs_idle mem_cs w x \<and> events_idle mem_cs w x \<and> fn x = (Inr u, y) \<and> docs_idle mem_cs y w' \<and> events_idle mem_cs y w'))"
    if run: "ms_WithTransaction mem_client fn w = (r, w')" and keep: "\<forall>x q y. fn x = (q, y) \<longrightarrow> pays_idle mem_cs x y" for fn w r w'
  proof -
    obtain q y where f: "fn w = (q, y)" by fastforce
    with keep have k: "mem_pays y = mem_pays w" by (simp add: pays_idle_def mem_pay_def)
    show ?thesis
    proof (cases q)
      case (Inl e)
      with run f k show ?thesis by (auto simp: mem_client_def idle_defs mem_pay_def mem_pays_def mem_cv_def mem_ov_def)
    next
      case (Inr u)
      with run f have "w' = y" by (simp add: mem_client_def)
      with f Inr k show ?thesis by (auto simp: idle_defs mem_pay_def)
    qed
  qed
  then show ?thesis by (simp add: transactions_ok_def) (simp add: mem_client_def idle_defs)
qed

lemma mem_cs_ok: "cs_ok mem_cs"
  using mem_collection_ok mem_box_ok mem_payments_ok mem_independent mem_transactions
  by (simp add: cs_ok_def cs_wired_def) (simp add: cs_mgr_def cs_hdl_def retry_within_attempts backoffAttempts_def)

end
