(* ===== verification/Consignment_Runs.thy ===== *)
theory Consignment_Runs
  imports Consignment_Memory
begin

text \<open>
  Runs of the consignment service on the in-memory system: what each handler does to a world with one
  consignment and one payment. The witnesses of \<open>Consignment_Properties\<close> are instances of them.
\<close>

section \<open>Worlds and their stores\<close>

text \<open>The payment a confirmation makes.\<close>

definition new_payment :: "string \<Rightarrow> string \<Rightarrow> payment" where
  "new_payment cid a = \<lparr>pay_id = a, pay_consignmentID = cid, pay_amount = 100, pay_currency = ''GBP'',
     pay_status = statusAuthorised, pay_captureID = ''''\<rparr>"

definition cs_at :: "Consignment list \<Rightarrow> outboxDocument list \<Rightarrow> payments \<Rightarrow> bool \<Rightarrow> smem" where
  "cs_at cs box m lost = \<lparr>sx_cons = cs, sx_box = box, sx_pays = m, sx_ids = [''a''], sx_now = 0,
     sx_sent = [], sx_box_down = False, sx_pay_lost = lost\<rparr>"

lemma cs_at_select:
  "sx_cons (cs_at cs box m lost) = cs" "sx_box (cs_at cs box m lost) = box" "sx_ids (cs_at cs box m lost) = [''a'']"
  "sx_now (cs_at cs box m lost) = 0" "sx_box_down (cs_at cs box m lost) = False" "sx_pay_lost (cs_at cs box m lost) = lost"
  "(cs_at cs box m lost)\<lparr>sx_cons := cs'\<rparr> = cs_at cs' box m lost"
  "(cs_at cs box m lost)\<lparr>sx_box := box'\<rparr> = cs_at cs box' m lost"
  "(cs_at cs box m lost)\<lparr>sx_pays := m'\<rparr> = cs_at cs box m' lost"
  by (simp_all add: cs_at_def)

lemma cs_at_pays: "mem_pays (cs_at cs box [''a'' \<mapsto> p] lost) = [''a'' \<mapsto> p]"
  by (simp add: mem_pays_def cs_at_def restrict_map_def fun_eq_iff)

lemma box_okl_insert:
  assumes ok: "box_okl xs" and small: "length xs + 1 < 2 ^ 100"
    and x: "od_Id x = uuid_String mem_uuid (fresh_uuid xs)"
  shows "box_okl (xs @ [x])"
proof -
  have new: "od_Id x \<notin> od_Id ` set xs" using fresh_uuid_new[of xs] small by (simp add: x used_uuids_def)
  have id: "nat_digits (unat i) = uuid_String mem_uuid (of_nat (parse_digits (nat_digits (unat i))))" for i :: UUID
    by (simp add: parse_nat_digits mem_uuid_def)
  have "uuid_String mem_uuid i = uuid_String mem_uuid (of_nat (parse_digits (uuid_String mem_uuid i)))" for i
    using id[of i] by (simp add: mem_uuid_def)
  then show ?thesis using ok small new by (simp add: box_okl_def x)
qed

lemma box_okl_empty: "box_okl []" by (simp add: box_okl_def)

definition mem_event :: "outboxDocument list \<Rightarrow> string \<Rightarrow> string \<Rightarrow> bytes \<Rightarrow> outboxDocument" where
  "mem_event xs t k p = \<lparr>od_Id = uuid_String mem_uuid (fresh_uuid xs), od_Topic = t, od_Key = k, od_Payload = p, od_CreatedAt = 0,
     od_PublishedAt = None, od_ProcessingUntil = None, od_ClaimID = '''', od_TraceContext = []\<rparr>"

lemma mem_event_okl: "box_okl [mem_event [] t k p]" 
  using box_okl_insert[OF box_okl_empty, of "mem_event [] t k p"] by (simp add: mem_event_def)

lemma mem_event2_okl: "box_okl [mem_event [] t k p, mem_event [mem_event [] t k p] t' k' p']" 
  using box_okl_insert[OF mem_event_okl[of t k p], of "mem_event [mem_event [] t k p] t' k' p'"] by (simp add: mem_event_def)

lemma cs_mem_CreateEvent:
  assumes "box_okl (sx_box w)" "box_okl (sx_box w @ [mem_event (sx_box w) t k p])" "\<not> sx_box_down w" "sx_now w = 0"
  shows "mongo_CreateEvent mem_box (cs_outbox_event t k p) w = (Inr (), w\<lparr>sx_box := sx_box w @ [mem_event (sx_box w) t k p]\<rparr>)"
  using assms
  by (simp add: mongo_CreateEvent_def mem_box_def coll_write_def put_box_def outbox_document_def mem_event_def cs_outbox_event_def)

lemma cs_mgr_select [simp]: "cm_repository cs_mgr = mongo_consignments mem_collection" "cm_outbox cs_mgr = mongo_outbox mem_box"
  "cm_WithTransaction cs_mgr = store_WithTransaction mem_client" "cm_paymentCli cs_mgr = payment_client mem_pay"
  "cm_RetryCapture cs_mgr = attempts 3" "cm_Retry cs_mgr = attempts 3" "cm_codecs cs_mgr = cs_codecs"
  by (simp_all add: cs_mgr_def)

lemma mem_CreateEvent_first:
  "mongo_CreateEvent mem_box (cs_outbox_event t k p) (cs_at cs [] m lost) = (Inr (), cs_at cs [mem_event [] t k p] m lost)"
  using cs_mem_CreateEvent[of "cs_at cs [] m lost" t k p] mem_event_okl box_okl_empty by (simp add: cs_at_select)

lemma mem_CreateEvent_second:
  assumes "sx_box w = [mem_event [] t k p]" "\<not> sx_box_down w" "sx_now w = 0"
  shows "mongo_CreateEvent mem_box (cs_outbox_event t' k' p') w =
     (Inr (), w\<lparr>sx_box := [mem_event [] t k p, mem_event [mem_event [] t k p] t' k' p']\<rparr>)"
  using cs_mem_CreateEvent[of w t' k' p'] mem_event_okl mem_event2_okl assms by simp

lemma mem_capture:
  "pay_status p = statusAuthorised \<Longrightarrow> attempts 3 (pc_Capture (payment_client mem_pay) \<lparr>creq_AuthId = ''a'', creq_IdempotencyKey = k\<rparr>)
      (cs_at cs box [''a'' \<mapsto> p] False) =
    (Inr \<lparr>crsp_PaymentId = k, crsp_Status = CAPTURED\<rparr>, cs_at cs box [''a'' \<mapsto> p\<lparr>pay_status := statusCaptured, pay_captureID := k\<rparr>] False)"
  by (simp add: numeral_3_eq_3 payment_client_def mem_pay_def lossy_def serve_def pay_Capture_def cs_at_select cs_at_pays)

lemma mem_capture_lost:
  "pay_status p = statusAuthorised \<Longrightarrow> attempts 3 (pc_Capture (payment_client mem_pay) \<lparr>creq_AuthId = ''a'', creq_IdempotencyKey = k\<rparr>)
      (cs_at cs box [''a'' \<mapsto> p] True) =
    (Inl (StatusErr Unavailable ''lost''), cs_at cs box [''a'' \<mapsto> p\<lparr>pay_status := statusCaptured, pay_captureID := k\<rparr>] True)"
  by (simp add: numeral_3_eq_3 payment_client_def mem_pay_def lossy_def serve_def pay_Capture_def cs_at_select cs_at_pays Let_def)

lemma mem_update_one: "mongo_UpdateStatus mem_collection (con_ID c) st (cs_at [c] box m lost) = (Inr (), cs_at [c\<lparr>con_Status := st\<rparr>] box m lost)"
  "cu_Status u \<noteq> None \<Longrightarrow> mongo_Update mem_collection (con_ID c) u (cs_at [c] box m lost) = (Inr (), cs_at [set_fields u c] box m lost)"
  by (auto simp: mongo_UpdateStatus_def mongo_Update_def mem_collection_def coll_update_one_def coll_view_def coll_write_def cons_okl_def cs_at_select put_cons_def
    split: option.splits)

section \<open>Events\<close>

lemma cs_codecs_decode:
  "Unmarshal (pb_PaymentAuthorised cs_codecs) ''auth'' = Inr sample_auth"
  "Unmarshal (pb_PaymentAuthorised cs_codecs) ''auth3'' = Inr (keyed_auth 3)"
  "Unmarshal (pb_ReservationConfirmed cs_codecs) ''confirmed'' = Inr \<lparr>rce_ReservationId = ''r'', rce_ConsignmentId = ''c1'', rce_SagaStartedAt = None\<rparr>"
  "Unmarshal (pb_ReservationExpired cs_codecs) ''expired'' = Inr \<lparr>ree_ReservationId = ''r'', ree_VesselId = ''v'', ree_ConsignmentId = ''c1'', ree_Weight = 60, ree_Containers = 0\<rparr>"
  "Unmarshal (pb_ConfirmationFailed cs_codecs) ''dead'' = Inr (capture_failed_event (keyed_auth 4))"
  by (simp_all add: cs_codecs_def table_codec_def)

lemma cs_codecs_encode:
  "Marshal (pb_PaymentAuthorised cs_codecs) sample_auth = Inr ''auth''"
  "Marshal (pb_PaymentAuthorised cs_codecs) (keyed_auth 1) = Inr ''auth1''"
  "Marshal (pb_PaymentCaptured cs_codecs) (captured_event (sample_auth\<lparr>pae_PaymentId := ''c1''\<rparr>)) = Inr ''captured''"
  "Marshal (pb_ConfirmationFailed cs_codecs) (capture_failed_event (keyed_auth 4)) = Inr ''dead''"
  by (simp_all add: cs_codecs_def table_codec_def keyed_auth_def sample_auth_def authorised_event_def zero_PaymentAuthorisedEvent_def)

definition auth_pay :: payment where
  "auth_pay = new_payment ''c1'' ''a''"

definition capt_pay :: payment where
  "capt_pay = auth_pay\<lparr>pay_status := statusCaptured, pay_captureID := ''c1''\<rparr>"

definition captured_doc :: outboxDocument where
  "captured_doc = mem_event [] PaymentCapturedTopic ''c1'' ''captured''"

lemma sample_auth_fields:
  "pae_PaymentAuthId sample_auth = ''a''" "pae_ConsignmentId sample_auth = ''c1''" "\<not> pae_PaymentCaptured sample_auth" 
  "pae_RetryCount sample_auth = 0" "con_ID sample_con = ''c1''" "con_Status sample_con = StatusPending" "con_PaymentID sample_con = ''''"
  by (simp_all add: sample_auth_def authorised_event_def zero_PaymentAuthorisedEvent_def sample_con_def)

lemma keyed_fields:
  "pae_PaymentAuthId (keyed_auth n) = ''a''" "pae_ConsignmentId (keyed_auth n) = ''c1''" "\<not> pae_PaymentCaptured (keyed_auth n)" 
  "pae_RetryCount (keyed_auth n) = n" "pae_IdempotencyKey (keyed_auth n) = ''c1''"
  "(keyed_auth n)\<lparr>pae_IdempotencyKey := ''c1''\<rparr> = keyed_auth n" "(keyed_auth n)\<lparr>pae_RetryCount := k\<rparr> = keyed_auth k"
  "sample_auth\<lparr>pae_IdempotencyKey := ''c1''\<rparr> = keyed_auth 0"
  by (simp_all add: keyed_auth_def sample_auth_fields sample_auth_def authorised_event_def zero_PaymentAuthorisedEvent_def sample_con_def)

lemma captured_event_key: "captured_event ((keyed_auth n)\<lparr>pae_PaymentId := i, pae_PaymentCaptured := b\<rparr>) = captured_event (sample_auth\<lparr>pae_PaymentId := i\<rparr>)"
  by (simp add: captured_event_def keyed_auth_def)

lemma auth_pay_status: "pay_status auth_pay = statusAuthorised" by (simp add: auth_pay_def new_payment_def)

text \<open>Every answer arrives: the payment is captured, the captured event queued.\<close>

lemma run_authorised:
  assumes "con_ID c = ''c1''"
  shows "handlePaymentAuthorisedEvent cs_mgr key ''auth'' (cs_at [c] [] [''a'' \<mapsto> auth_pay] False) =
     (Inr (), cs_at [c\<lparr>con_Status := StatusConfirmationPending, con_PaymentID := ''c1''\<rparr>] [captured_doc] [''a'' \<mapsto> capt_pay] False)"
proof -
  have cap: "process_authorised cs_mgr sample_auth (cs_at [c] [] [''a'' \<mapsto> auth_pay] False) =
      process_captured cs_mgr ((keyed_auth 0)\<lparr>pae_PaymentId := ''c1''\<rparr>) (cs_at [c] [] [''a'' \<mapsto> capt_pay] False)"
    by (simp add: process_authorised_def sample_auth_fields keyed_fields capture_request_def mem_capture auth_pay_status capt_pay_def)
  let ?e = "(keyed_auth 0)\<lparr>pae_PaymentId := ''c1'', pae_PaymentCaptured := True\<rparr>"
  have u: "captured_update ?e = \<lparr>cu_Status = Some StatusConfirmationPending, cu_PaymentID = Some ''c1''\<rparr>"
    by (simp add: captured_update_def)
  have tx: "captured_tx cs_mgr ?e (cs_at [c] [] m False) = (Inr (), cs_at [set_fields (captured_update ?e) c] [captured_doc] m False)" for m
    using mem_update_one(2)[of "captured_update ?e" c] assms
    by (simp add: captured_tx_def publishPaymentCaptured_def mongo_outbox_def mongo_consignments_def captured_event_key keyed_fields
        cs_codecs_encode mem_CreateEvent_first captured_doc_def u)
  show ?thesis
    by (simp add: handlePaymentAuthorisedEvent_def cs_codecs_decode cap process_captured_def store_WithTransaction_def mem_client_def tx)
      (simp add: u set_fields_def)
qed

text \<open>No answer arrives: the event is counted up and queued again.\<close>

lemma run_authorised_lost:
  "handlePaymentAuthorisedEvent cs_mgr key ''auth'' (cs_at cs [] [''a'' \<mapsto> auth_pay] True) =
     (Inr (), cs_at cs [mem_event [] ConsignmentPaymentAuthorisedTopic (authorised_key (keyed_auth 1)) ''auth1''] [''a'' \<mapsto> capt_pay] True)"
  by (simp add: handlePaymentAuthorisedEvent_def cs_codecs_decode process_authorised_def sample_auth_fields keyed_fields capture_request_def
      mem_capture_lost auth_pay_status capt_pay_def schedule_retry_def cm_publishPaymentAuthorised_def maxRetries_def word_sless_alt
      mongo_outbox_def cs_codecs_encode mem_CreateEvent_first)

lemma run_authorised_dead:
  "handlePaymentAuthorisedEvent cs_mgr key ''auth3'' (cs_at cs [] [''a'' \<mapsto> auth_pay] True) =
     (Inr (), cs_at cs [mem_event [] ConsignmentConfirmationFailedTopic ''c1'' ''dead''] [''a'' \<mapsto> capt_pay] True)"
  by (simp add: handlePaymentAuthorisedEvent_def cs_codecs_decode process_authorised_def sample_auth_fields keyed_fields capture_request_def
      mem_capture_lost auth_pay_status capt_pay_def schedule_retry_def cm_publishPaymentAuthorised_def maxRetries_def word_sless_alt
      publishCaptureFailedToDLQ_def mongo_outbox_def cs_codecs_encode mem_CreateEvent_first)

lemma mem_metrics: "saga_metrics cs_mgr started status w = w"
  by (simp add: saga_metrics_def cs_mgr_def split: option.splits)

text \<open>The other events.\<close>

lemma run_failed: "handleFailedConfirmationEvent cs_mgr key ''dead'' (cs_at [sample_con] box [''a'' \<mapsto> auth_pay] False) =
   (Inr (), cs_at [sample_con\<lparr>con_Status := StatusCancelled\<rparr>] box [''a'' \<mapsto> auth_pay\<lparr>pay_status := statusVoided\<rparr>] False)"
proof -
  have undo: "undo_payment cs_mgr (capture_failed_event (keyed_auth 4)) (cs_at [sample_con] box [''a'' \<mapsto> auth_pay] False) =
      cs_at [sample_con] box [''a'' \<mapsto> auth_pay\<lparr>pay_status := statusVoided\<rparr>] False"
    by (simp add: undo_payment_def capture_failed_event_def zero_FailedEvent_def keyed_fields numeral_3_eq_3 discard_def payment_client_def mem_pay_def
        lossy_def serve_def pay_Void_def cs_at_select cs_at_pays auth_pay_status set_pay_status_def)
  show ?thesis
    using mem_update_one(1)[of sample_con StatusCancelled]
    by (simp add: handleFailedConfirmationEvent_def cs_codecs_decode process_failed_def undo mongo_consignments_def)
      (simp add: capture_failed_event_def keyed_fields mem_metrics sample_auth_fields)
qed

lemma run_failed_captured: "handleFailedConfirmationEvent cs_mgr key ''dead'' (cs_at [sample_con] box [''a'' \<mapsto> capt_pay] False) =
   (Inr (), cs_at [sample_con\<lparr>con_Status := StatusCancelled\<rparr>] box [''a'' \<mapsto> capt_pay] False)"
proof -
  have undo: "undo_payment cs_mgr (capture_failed_event (keyed_auth 4)) (cs_at [sample_con] box [''a'' \<mapsto> capt_pay] False) =
      cs_at [sample_con] box [''a'' \<mapsto> capt_pay] False"
    by (simp add: undo_payment_def capture_failed_event_def zero_FailedEvent_def keyed_fields numeral_3_eq_3 discard_def payment_client_def mem_pay_def
        lossy_def serve_def pay_Void_def cs_at_select cs_at_pays capt_pay_def)
  show ?thesis
    using mem_update_one(1)[of sample_con StatusCancelled]
    by (simp add: handleFailedConfirmationEvent_def cs_codecs_decode process_failed_def undo mongo_consignments_def)
      (simp add: capture_failed_event_def keyed_fields mem_metrics sample_auth_fields)
qed

lemma run_expired: "handleExpiredReservationEvent cs_mgr key ''expired'' (cs_at [sample_con] box m lost) =
   (Inr (), cs_at [sample_con\<lparr>con_Status := StatusCancelled\<rparr>] box m lost)"
  using mem_update_one(1)[of sample_con StatusCancelled]
  by (simp add: handleExpiredReservationEvent_def cs_codecs_decode process_expired_def mongo_consignments_def mongo_GetByID_def
      mem_collection_def cs_at_select coll_view_def cons_okl_def sample_auth_fields refund_consignment_def)

text \<open>Its reservation expires after the payment of a pending consignment was captured: the capture is given back.\<close>

definition charged_con :: Consignment where
  "charged_con = sample_con\<lparr>con_PaymentID := ''c1''\<rparr>"

abbreviation refunded_pay :: payment where
  "refunded_pay \<equiv> capt_pay\<lparr>pay_status := statusRefunded\<rparr>"

lemma charged_fields: "con_ID charged_con = ''c1''" "con_Status charged_con = StatusPending" "con_PaymentID charged_con = ''c1''"
  by (simp_all add: charged_con_def sample_auth_fields)

lemma mem_refund: "discard (pc_Refund (payment_client mem_pay) \<lparr>rreq_PaymentId = ''c1'', rreq_IdempotencyKey = ''c1''\<rparr>)
    (cs_at cs box [''a'' \<mapsto> capt_pay] False) = (Inr (), cs_at cs box [''a'' \<mapsto> refunded_pay] False)"
  by (simp add: discard_def payment_client_def mem_pay_def lossy_def serve_def pay_Refund_def set_pay_status_def cs_at_select cs_at_pays
      capt_pay_def)

lemma get_charged: "mongo_GetByID mem_collection ''c1'' (cs_at [charged_con] box m lost) = (Inr charged_con, cs_at [charged_con] box m lost)"
  by (simp add: mongo_GetByID_def mem_collection_def cs_at_select coll_view_def cons_okl_def charged_fields)

lemma run_expired_charged: "handleExpiredReservationEvent cs_mgr key ''expired'' (cs_at [charged_con] box [''a'' \<mapsto> capt_pay] False) =
   (Inr (), cs_at [charged_con\<lparr>con_Status := StatusCancelled\<rparr>] box [''a'' \<mapsto> refunded_pay] False)"
  using mem_update_one(1)[of charged_con StatusCancelled]
  by (simp add: handleExpiredReservationEvent_def cs_codecs_decode process_expired_def mongo_consignments_def get_charged charged_fields
      refund_consignment_def mem_refund numeral_3_eq_3)

lemma run_confirmed:
  assumes "con_ID c = ''c1''"
  shows "handleReservationConfirmedEvent cs_mgr key ''confirmed'' (cs_at [c] box m lost) =
   (Inr (), cs_at [c\<lparr>con_Status := StatusConfirmed\<rparr>] box m lost)"
  using mem_update_one(1)[of c StatusConfirmed] assms
  by (simp add: handleReservationConfirmedEvent_def cs_codecs_decode process_confirmed_def mongo_consignments_def mem_metrics)

section \<open>Calls\<close>

definition no_pay :: smem where
  "no_pay = \<lparr>sx_cons = [sample_con], sx_box = [], sx_pays = Map.empty, sx_ids = [], sx_now = 0,
     sx_sent = [], sx_box_down = False, sx_pay_lost = False\<rparr>"

definition first_doc :: outboxDocument where
  "first_doc = mem_event [] ConsignmentPaymentAuthorisedTopic ''c1'' ''auth''"

lemma cs_hdl_select [simp]: "ch_repository cs_hdl = mongo_consignments mem_collection" "ch_outbox cs_hdl = mongo_outbox mem_box"
  "ch_paymentCli cs_hdl = payment_client mem_pay" "ch_reservationCli cs_hdl = mem_reservations" "ch_codecs cs_hdl = cs_codecs"
  "ch_Now cs_hdl = sx_now" "ch_NewUUID cs_hdl = Pair 5" "ch_uuid cs_hdl = mem_uuid"
  by (simp_all add: cs_hdl_def fun_eq_iff)

lemma mem_authorise_first: "pc_Authorise (payment_client mem_pay) (authorise_request sample_con) no_pay =
    (Inr \<lparr>arsp_AuthId = ''a'', arsp_Status = AUTHORISED\<rparr>, cs_at [sample_con] [] [''a'' \<mapsto> auth_pay] False)"
  by (simp add: payment_client_def mem_pay_def lossy_def serve_Authorise_def serve_def pay_Authorise_def mem_NewString_def no_pay_def
     authorise_request_def sample_auth_fields auth_pay_def new_payment_def cs_at_def mem_pays_def Let_def)

lemma run_confirm: "ConfirmConsignment cs_hdl \<lparr>cfr_Id = ''c1''\<rparr> no_pay =
    (Inr \<lparr>cfs_Confirmed = True\<rparr>, cs_at [sample_con] [first_doc] [''a'' \<mapsto> auth_pay] False)"
proof -
  have get: "mongo_GetByID mem_collection ''c1'' no_pay = (Inr sample_con, no_pay)"
    by (simp add: mongo_GetByID_def mem_collection_def coll_view_def cons_okl_def no_pay_def sample_auth_fields)
  have "authorised_event ''a'' sample_con (sx_now no_pay) = sample_auth" by (simp add: sample_auth_def no_pay_def)
  then show ?thesis
    by (simp add: ConfirmConsignment_def mongo_consignments_def get mem_reservations_def authorise_consignment_def mem_authorise_first
      publishPaymentAuthorised_def cs_codecs_encode mongo_outbox_def mem_CreateEvent_first sample_auth_fields first_doc_def)
qed

lemma run_create: "CreateConsignment cs_hdl \<lparr>pbc_Id = '''', pbc_Description = ''d'', pbc_Weight = 60, pbc_Containers = [], pbc_VesselId = '''', pbc_Status = ''''\<rparr>
   (cs_at [] box m lost) = 
   (let c = sample_con\<lparr>con_ID := uuid_String mem_uuid 5\<rparr> in (Inr \<lparr>prs_Created = True, prs_Consignment = Some (UnmarshalConsignment c), prs_Consignments = []\<rparr>, cs_at [c] box m lost))"
  by (simp add: CreateConsignment_def Let_def mem_reservations_def mongo_consignments_def mongo_Create_def mem_collection_def cs_at_select coll_write_def cons_okl_def put_cons_def
    MarshalConsignment_def marshalContainerCollection_def sample_con_def)

text \<open>Confirmed again: the payment of the first confirmation has not moved.\<close>

definition second_auth :: PaymentAuthorisedEvent where
  "second_auth = authorised_event ''aa'' sample_con 0"

lemma mem_authorise_again: "pc_Authorise (payment_client mem_pay) (authorise_request sample_con) (cs_at [sample_con] box [''a'' \<mapsto> auth_pay] False) =
    (Inr \<lparr>arsp_AuthId = ''aa'', arsp_Status = AUTHORISED\<rparr>, (cs_at [sample_con] box [''a'' \<mapsto> auth_pay, ''aa'' \<mapsto> new_payment ''c1'' ''aa''] False)\<lparr>sx_ids := [''aa'', ''a'']\<rparr>)"
proof -
  have "mem_pays ((cs_at [sample_con] box [''a'' \<mapsto> auth_pay] False)\<lparr>sx_ids := [''aa'', ''a'']\<rparr>) = [''a'' \<mapsto> auth_pay]"
    by (simp add: mem_pays_def cs_at_def restrict_map_def fun_eq_iff)
  then show ?thesis
    by (simp add: payment_client_def mem_pay_def lossy_def serve_Authorise_def serve_def pay_Authorise_def mem_NewString_def cs_at_pays cs_at_select
     authorise_request_def sample_auth_fields new_payment_def Let_def) (simp add: cs_at_def)
qed

lemma second_encode: "Marshal (pb_PaymentAuthorised cs_codecs) second_auth = Inr ''auth2''"
  by (simp add: second_auth_def cs_codecs_def table_codec_def keyed_auth_def sample_auth_def authorised_event_def zero_PaymentAuthorisedEvent_def)

lemma run_confirm_again: "ConfirmConsignment cs_hdl \<lparr>cfr_Id = ''c1''\<rparr> (cs_at [sample_con] [first_doc] [''a'' \<mapsto> auth_pay] False) =
    (Inr \<lparr>cfs_Confirmed = True\<rparr>, (cs_at [sample_con] [first_doc, mem_event [first_doc] ConsignmentPaymentAuthorisedTopic ''c1'' ''auth2'']
       [''a'' \<mapsto> auth_pay, ''aa'' \<mapsto> new_payment ''c1'' ''aa''] False)\<lparr>sx_ids := [''aa'', ''a'']\<rparr>)"
proof -
  let ?w = "cs_at [sample_con] [first_doc] [''a'' \<mapsto> auth_pay] False"
  have get: "mongo_GetByID mem_collection ''c1'' ?w = (Inr sample_con, ?w)"
    by (simp add: mongo_GetByID_def mem_collection_def coll_view_def cons_okl_def cs_at_select sample_auth_fields)
  let ?w2 = "(cs_at [sample_con] [first_doc] [''a'' \<mapsto> auth_pay, ''aa'' \<mapsto> new_payment ''c1'' ''aa''] False)\<lparr>sx_ids := [''aa'', ''a'']\<rparr>"
  have add: "mongo_CreateEvent mem_box (cs_outbox_event ConsignmentPaymentAuthorisedTopic ''c1'' ''auth2'') ?w2 =
      (Inr (), ?w2\<lparr>sx_box := [first_doc, mem_event [first_doc] ConsignmentPaymentAuthorisedTopic ''c1'' ''auth2'']\<rparr>)"
    unfolding first_doc_def by (rule mem_CreateEvent_second) (simp_all add: cs_at_select)
  show ?thesis
    by (simp add: ConfirmConsignment_def mongo_consignments_def get mem_reservations_def authorise_consignment_def mem_authorise_again
      publishPaymentAuthorised_def cs_at_select second_auth_def[symmetric] second_encode mongo_outbox_def add sample_auth_fields)
     (simp add: cs_at_def)
qed

section \<open>Seen through the system\<close>

lemma captured_doc_only:
  "\<not> follow_up cs e' (mo_rows (mem_box, mem_ov) (cs_at docs [captured_doc] m lost))"
  by (auto simp: follow_up_def queued_def mo_rows_def mem_ov_def cs_at_select coll_view_def captured_doc_def mem_event_def abs_document_def
      row_message_def PaymentCapturedTopic_def ConsignmentConfirmationFailedTopic_def ConsignmentPaymentAuthorisedTopic_def)

lemma cs_decode_at:
  "Unmarshal (pb_PaymentAuthorised (cm_codecs (ss_mgr mem_cs))) ''auth'' = Inr sample_auth"
  "Unmarshal (pb_PaymentAuthorised (cm_codecs (ss_mgr mem_cs))) ''auth3'' = Inr (keyed_auth 3)"
  "Unmarshal (pb_ReservationConfirmed (cm_codecs (ss_mgr mem_cs))) ''confirmed'' = Inr \<lparr>rce_ReservationId = ''r'', rce_ConsignmentId = ''c1'', rce_SagaStartedAt = None\<rparr>"
  "Unmarshal (pb_ReservationExpired (cm_codecs (ss_mgr mem_cs))) ''expired'' = Inr \<lparr>ree_ReservationId = ''r'', ree_VesselId = ''v'', ree_ConsignmentId = ''c1'', ree_Weight = 60, ree_Containers = 0\<rparr>"
  "Unmarshal (pb_ConfirmationFailed (cm_codecs (ss_mgr mem_cs))) ''dead'' = Inr (capture_failed_event (keyed_auth 4))"
  by (simp_all add: cs_codecs_decode)

lemma mem_cs_stores:
  "cv_docs mem_cv (cs_at [c] box m lost) = [c]"
  "ps_pays mem_pay (cs_at docs box [''a'' \<mapsto> p] lost) = [''a'' \<mapsto> p]"
  by (simp_all add: mem_cv_def coll_view_def cons_okl_def cs_at_select mem_pay_def cs_at_pays)

end
