(* ===== verification/Consignment_Properties.thy ===== *)
theory Consignment_Properties
  imports Consignment_Runs
begin

text \<open>
  The properties of the consignment service: what each event of the saga and each gRPC call does to
  the consignments, the outbox and the payments, on the wired system of \<open>Consignment_System\<close>, with
  runs on the system of \<open>Consignment_Memory\<close> as witnesses.
\<close>

section \<open>Sequences of operations\<close>

text \<open>Authorised events delivered one after the other, in any order and any number of times.\<close>

fun deliver_authorised :: "'w CsManager \<Rightarrow> PaymentAuthorisedEvent list \<Rightarrow> 'w \<Rightarrow> 'w" where
  "deliver_authorised m [] w = w"
| "deliver_authorised m (e # es) w = deliver_authorised m es (snd (process_authorised m e w))"

lemma deliver_authorised_once:
  assumes ok: "cs_ok s" and q: "\<And>e. e \<in> set es \<Longrightarrow> capture_of e = q"
  shows "pay_capture.at_most_once q (ss_pays s w) (ss_pays s (deliver_authorised (ss_mgr s) es w))"
  using q
proof (induction es arbitrary: w)
  case Nil
  then show ?case by (simp add: pay_capture.at_most_once_def)
next
  case (Cons e es)
  from mgr.process_authorised_outcome(1)[OF ok surjective_pairing, of e w] Cons.prems
  have "pay_capture.at_most_once q (ss_pays s w) (ss_pays s (snd (process_authorised (ss_mgr s) e w)))" by simp
  with Cons.IH[of "snd (process_authorised (ss_mgr s) e w)"] Cons.prems show ?case
    by (auto intro: pay_capture.at_most_once_trans)
qed

text \<open>One operation of the service, or a step of something else that leaves the consignments alone.\<close>

inductive cs_step :: "'w cs_system \<Rightarrow> 'w \<Rightarrow> 'w \<Rightarrow> bool" for s where
  create: "CreateConsignment (ss_hdl s) req w = (r, w') \<Longrightarrow> cs_step s w w'"
| confirm: "ConfirmConsignment (ss_hdl s) creq w = (r, w') \<Longrightarrow> cs_step s w w'"
| list: "GetConsignments (ss_hdl s) w = (r, w') \<Longrightarrow> cs_step s w w'"
| event: "cs_handlers (ss_mgr s) t = Some f \<Longrightarrow> f key val w = (r, w') \<Longrightarrow> cs_step s w w'"
| other: "docs_idle s w w' \<Longrightarrow> cs_step s w w'"

inductive cs_run :: "'w cs_system \<Rightarrow> 'w \<Rightarrow> 'w \<Rightarrow> bool" for s where
  none: "cs_run s w w"
| more: "cs_run s w w1 \<Longrightarrow> cs_step s w1 w2 \<Longrightarrow> cs_run s w w2"

definition status_ok :: "Consignment \<Rightarrow> bool" where
  "status_ok c \<longleftrightarrow> con_Status c \<in> {StatusPending, StatusConfirmed, StatusCancelled, StatusConfirmationPending}"

text \<open>What never changes of a consignment.\<close>

definition con_facts :: "Consignment \<Rightarrow> string \<times> int32 \<times> string \<times> Container list \<times> string \<times> string" where
  "con_facts c = (con_ID c, con_Weight c, con_Description c, con_Containers c, con_VesselID c, con_ReservationID c)"

definition docs_advance :: "Consignment list \<Rightarrow> Consignment list \<Rightarrow> bool" where
  "docs_advance cs cs' \<longleftrightarrow> (\<exists>new. map con_facts cs' = map con_facts cs @ map con_facts new) \<and>
     (list_all status_ok cs \<longrightarrow> list_all status_ok cs')"

lemma docs_advance_refl: "docs_advance cs cs"
  by (auto simp: docs_advance_def intro: exI[of _ "[]"])

lemma docs_advance_trans: "docs_advance x y \<Longrightarrow> docs_advance y z \<Longrightarrow> docs_advance x z"
  unfolding docs_advance_def by (metis append.assoc map_append)

lemma updated_advance:
  assumes "cu_Status u \<in> {Some StatusPending, Some StatusConfirmed, Some StatusCancelled, Some StatusConfirmationPending}"
  shows "docs_advance cs (updated i u cs)"
proof -
  have "con_facts (set_fields u c) = con_facts c" for c
    by (simp add: set_fields_def con_facts_def Let_def split: option.splits)
  then have "map con_facts (updated i u cs) = map con_facts cs" by (simp add: updated_def where_update_keys)
  moreover have "status_ok (set_fields u c)" for c
    using assms by (auto simp: status_ok_def set_fields_def Let_def split: option.splits)
  then have "list_all status_ok cs \<Longrightarrow> list_all status_ok (updated i u cs)"
    by (auto simp: updated_def list_all_iff dest!: where_update_sound)
  ultimately show ?thesis unfolding docs_advance_def by (intro conjI exI[of _ "[]"]) simp_all
qed

lemma set_status_advance:
  "st \<in> {StatusPending, StatusConfirmed, StatusCancelled, StatusConfirmationPending} \<Longrightarrow> docs_advance cs (set_status i st cs)"
  unfolding set_status_updated by (rule updated_advance) auto

lemma append_advance: "status_ok c \<Longrightarrow> docs_advance cs (cs @ [c])"
  unfolding docs_advance_def by (intro conjI exI[of _ "[c]"]) simp_all

lemma handler_advance:
  assumes ok: "cs_ok s" and h: "cs_handlers (ss_mgr s) t = Some f" and run: "f key val w = (r, w')"
  shows "docs_advance (ss_docs s w) (ss_docs s w')"
proof -
  note U = updated_advance set_status_advance docs_advance_refl
  have auth: "docs_advance (ss_docs s w) (ss_docs s w')" if "handlePaymentAuthorisedEvent (ss_mgr s) key val w = (r, w')"
  proof (cases "Unmarshal (pb_PaymentAuthorised (cm_codecs (ss_mgr s))) val")
    case (Inr e)
    with that have "process_authorised (ss_mgr s) e w = (r, w')" by (simp add: handlePaymentAuthorisedEvent_def)
    from mgr.process_authorised_outcome(3)[OF ok this] show ?thesis by (auto simp: captured_update_def intro!: U)
  qed (use that U in \<open>simp add: handlePaymentAuthorisedEvent_def\<close>)
  have fail: "docs_advance (ss_docs s w) (ss_docs s w')" if "handleFailedConfirmationEvent (ss_mgr s) key val w = (r, w')"
  proof (cases "Unmarshal (pb_ConfirmationFailed (cm_codecs (ss_mgr s))) val")
    case (Inr e)
    with that have "process_failed (ss_mgr s) e w = (r, w')" by (simp add: handleFailedConfirmationEvent_def)
    from mgr.process_failed_outcome(3)[OF ok this] show ?thesis by (auto intro!: U)
  qed (use that U in \<open>simp add: handleFailedConfirmationEvent_def\<close>)
  have expd: "docs_advance (ss_docs s w) (ss_docs s w')" if "handleExpiredReservationEvent (ss_mgr s) key val w = (r, w')"
  proof (cases "Unmarshal (pb_ReservationExpired (cm_codecs (ss_mgr s))) val")
    case (Inr e)
    with that have "process_expired (ss_mgr s) e w = (r, w')" by (simp add: handleExpiredReservationEvent_def)
    from mgr.process_expired_outcome(2)[OF ok this] show ?thesis by (auto intro!: U)
  qed (use that U in \<open>simp add: handleExpiredReservationEvent_def\<close>)
  have conf: "docs_advance (ss_docs s w) (ss_docs s w')" if "handleReservationConfirmedEvent (ss_mgr s) key val w = (r, w')"
  proof (cases "Unmarshal (pb_ReservationConfirmed (cm_codecs (ss_mgr s))) val")
    case (Inr e)
    with that have "process_confirmed (ss_mgr s) e w = (r, w')" by (simp add: handleReservationConfirmedEvent_def)
    from mgr.process_confirmed_outcome(3)[OF ok this] show ?thesis by (auto intro!: U)
  qed (use that U in \<open>simp add: handleReservationConfirmedEvent_def\<close>)
  from h run show ?thesis
    using auth fail expd conf by (auto simp: cs_handlers_def split: if_splits)
qed

lemma cs_step_advance:
  assumes ok: "cs_ok s" and step: "cs_step s w w'"
  shows "docs_advance (ss_docs s w) (ss_docs s w')"
  using step
proof cases
  case (create req r)
  from svc.CreateConsignment_outcome(2)[OF ok create] show ?thesis
    by (auto simp: status_ok_def intro!: docs_advance_refl append_advance)
next
  case (confirm creq r)
  from ok confirm show ?thesis
  proof (cases rule: svc.ConfirmConsignment_cases)
    case refused
    then show ?thesis by (simp add: mgr.same_def docs_advance_refl)
  next
    case (authorise c w2)
    from svc.authorise_outcome(1)[OF ok authorise(4)] authorise(3) show ?thesis
      by (auto simp: mgr.same_def intro!: docs_advance_refl set_status_advance)
  qed
next
  case (list r)
  from svc.GetConsignments_outcome(1)[OF ok list] show ?thesis by (simp add: mgr.same_def docs_advance_refl)
next
  case (event t f key val r)
  from handler_advance[OF ok this] show ?thesis .
next
  case other
  then show ?thesis by (simp add: docs_idle_def docs_advance_refl)
qed

lemma cs_run_advance:
  assumes ok: "cs_ok s" and run: "cs_run s w w'"
  shows "docs_advance (ss_docs s w) (ss_docs s w')"
  using run
  by (induction rule: cs_run.induct) (auto intro: docs_advance_refl docs_advance_trans cs_step_advance[OF ok])

lemma authorised_event_settled_core:
  assumes "cs_ok s" and "Unmarshal (pb_PaymentAuthorised (cm_codecs (ss_mgr s))) val = Inr e"
    and "handlePaymentAuthorisedEvent (ss_mgr s) key val w = (Inr u, w')"
  shows "(\<exists>pid. handed_over (cm_codecs (ss_mgr s)) (e\<lparr>pae_PaymentId := pid\<rparr>) (ss_docs s w) (ss_docs s w') (ss_rows s w') \<and>
       (if pae_PaymentCaptured e then pid = pae_PaymentId e else paid (pae_PaymentAuthId e) pid (ss_pays s w'))) \<or>
    (\<exists>e'. retried_from e (ss_pays s w') e' \<and> follow_up (cm_codecs (ss_mgr s)) e' (ss_rows s w'))"
proof -
  from assms(2,3) have "process_authorised (ss_mgr s) e w = (Inr u, w')" by (simp add: handlePaymentAuthorisedEvent_def)
  from mgr.process_authorised_outcome(4)[OF assms(1) this refl] show ?thesis .
qed

lemma failed_confirmation_core:
  assumes ok: "cs_ok s" and dec: "Unmarshal (pb_ConfirmationFailed (cm_codecs (ss_mgr s))) val = Inr e"
    and run: "handleFailedConfirmationEvent (ss_mgr s) key val w = (Inr u, w')"
  shows "cfe_ConsignmentId e \<in> con_ID ` set (ss_docs s w) \<and>
    ss_docs s w' = set_status (cfe_ConsignmentId e) StatusCancelled (ss_docs s w) \<and>
    ss_rows s w' = ss_rows s w \<and>
    (if cfe_PaymentCaptured e then only_refunds (cfe_PaymentId e) (ss_pays s w) (ss_pays s w')
     else ss_pays s w' = ss_pays s w \<or> void_effect \<lparr>vreq_AuthId = cfe_PaymentAuthId e\<rparr> (ss_pays s w) (ss_pays s w'))"
proof -
  from dec run have p: "process_failed (ss_mgr s) e w = (Inr u, w')" by (simp add: handleFailedConfirmationEvent_def)
  from mgr.process_failed_outcome[OF ok p] mgr.undo_payment_outcome(3)[OF ok, of e w] show ?thesis
    by (auto simp: pay_void.at_most_once_def split: if_splits)
qed

lemma confirm_success_core:
  assumes ok: "cs_ok s" and run: "ConfirmConsignment (ss_hdl s) req w = (Inr x, w')"
  shows "\<exists>a. a \<notin> dom (ss_pays s w) \<and> ss_pays s w' = (ss_pays s w)(a \<mapsto> new_payment (cfr_Id req) a)"
  using ok run
proof (cases rule: svc.ConfirmConsignment_cases)
  case refused
  then show ?thesis by blast
next
  case (authorise c w2)
  from svc.authorise_outcome(4)[OF ok authorise(4) refl] authorise(2,3) show ?thesis
    by (auto simp: authorise_effect_def pay_Authorise_def authorise_request_def new_payment_def mgr.same_def)
qed

lemma confirm_saga_core:
  assumes ok: "cs_ok s" and run: "ConfirmConsignment (ss_hdl s) req w = (r, w')"
  shows "(\<exists>new. ss_rows s w' = ss_rows s w @ new) \<and>
    (case r of
       Inr x \<Rightarrow> ss_docs s w' = ss_docs s w \<and>
         (\<exists>c a p. c \<in> set (ss_docs s w) \<and> con_ID c = cfr_Id req \<and>
            authorise_effect (authorise_request c) a (ss_pays s w) (ss_pays s w') \<and>
            Marshal (pb_PaymentAuthorised (cm_codecs (ss_mgr s))) (authorised_event a c (ch_Now (ss_hdl s) w)) = Inr p \<and>
            queued ConsignmentPaymentAuthorisedTopic (con_ID c) p (ss_rows s w'))
     | Inl e \<Rightarrow> ss_docs s w' \<in> {ss_docs s w, set_status (cfr_Id req) StatusCancelled (ss_docs s w)} \<and>
         (ss_pays s w' = ss_pays s w \<or>
          (\<exists>c a m. c \<in> set (ss_docs s w) \<and> con_ID c = cfr_Id req \<and> authorise_effect (authorise_request c) a (ss_pays s w) m \<and>
             (ss_pays s w' = m \<or> void_effect \<lparr>vreq_AuthId = a\<rparr> m (ss_pays s w')))))"
  using ok run
proof (cases rule: svc.ConfirmConsignment_cases)
  case refused
  then show ?thesis by (cases r) (auto simp: mgr.same_def)
next
  case (authorise c w2)
  note out = svc.authorise_outcome[OF ok authorise(4)]
  have same: "ss_docs s w2 = ss_docs s w" "ss_rows s w2 = ss_rows s w" "ss_pays s w2 = ss_pays s w"
    using authorise(3) by (simp_all add: mgr.same_def)
  show ?thesis
  proof (cases r)
    case (Inl e)
    with out(1-3) authorise(1,2) same show ?thesis by (auto simp: pay_void.at_most_once_def)
  next
    case (Inr x)
    from out(4)[OF Inr] out(2) authorise(1,2) same show ?thesis unfolding Inr sum.case by metis
  qed
qed

text \<open>Counting up an \<open>int32\<close>.\<close>

lemma int32_succ:
  fixes x :: int32
  shows "sint (x + 1) = (if sint x = 2 ^ 31 - 1 then - (2 ^ 31) else sint x + 1)"
proof -
  have step: "sint (x + 1) = signed_take_bit 31 (sint x + 1)" by (simp add: sint_word_ariths)
  show ?thesis
  proof (cases "sint x = 2 ^ 31 - 1")
    case True
    then show ?thesis unfolding step by (simp add: signed_take_bit_eq_if_negative signed_take_bit_eq_if_positive bit_iff_odd take_bit_eq_mod)
  next
    case False
    with sint_ge[of x] sint_lt[of x] show ?thesis
      unfolding step by (subst signed_take_bit_int_eq_self) simp_all
  qed
qed

section \<open>Properties\<close>

text \<open>
  C6. An authorised event that is handled is settled. When the handler returns nil for an event it
  can decode, either the payment of its authorisation has been captured and, in one transaction, the
  captured event is queued for the reservation service and the consignment is confirmation_pending
  with the payment id; or the event, counted up, is queued again, or the failure event of an event
  without retries left is; and the follow-up claims a captured payment only if there is one.
\<close>

theorem authorised_event_settled:
  assumes "cs_ok s" and "Unmarshal (pb_PaymentAuthorised (cm_codecs (ss_mgr s))) val = Inr e"
    and "handlePaymentAuthorisedEvent (ss_mgr s) key val w = (Inr u, w')"
  shows "(\<exists>pid. handed_over (cm_codecs (ss_mgr s)) (e\<lparr>pae_PaymentId := pid\<rparr>) (ss_docs s w) (ss_docs s w') (ss_rows s w') \<and>
       (if pae_PaymentCaptured e then pid = pae_PaymentId e else paid (pae_PaymentAuthId e) pid (ss_pays s w'))) \<or>
    (\<exists>e'. retried_from e (ss_pays s w') e' \<and> follow_up (cm_codecs (ss_mgr s)) e' (ss_rows s w'))"
  using authorised_event_settled_core[OF assms] .

lemma authorised_event_settled_witness:
  "\<exists>pid. paid ''a'' pid [''a'' \<mapsto> capt_pay] \<and>
     handed_over cs_codecs (sample_auth\<lparr>pae_PaymentId := pid\<rparr>) [sample_con]
       [sample_con\<lparr>con_Status := StatusConfirmationPending, con_PaymentID := ''c1''\<rparr>]
       (mo_rows (mem_box, mem_ov) (cs_at [sample_con\<lparr>con_Status := StatusConfirmationPending, con_PaymentID := ''c1''\<rparr>]
          [captured_doc] [''a'' \<mapsto> capt_pay] False))"
proof -
  have "handlePaymentAuthorisedEvent (ss_mgr mem_cs) [] ''auth'' (cs_at [sample_con] [] [''a'' \<mapsto> auth_pay] False) =
     (Inr (), cs_at [sample_con\<lparr>con_Status := StatusConfirmationPending, con_PaymentID := ''c1''\<rparr>] [captured_doc] [''a'' \<mapsto> capt_pay] False)"
    by (simp add: run_authorised sample_auth_fields)
  from authorised_event_settled[OF mem_cs_ok cs_decode_at(1) this] show ?thesis
    by (auto simp: mem_cs_stores captured_doc_only sample_auth_fields)
qed

text \<open>
  C7. A customer is charged once. However often and in whatever order authorised events of one
  authorisation and consignment are delivered, each with its retries, lost answers and failing
  transactions, the payments end as they were or with that one authorisation captured.
\<close>

theorem capture_once_over_redeliveries:
  assumes "cs_ok s" and "\<forall>e \<in> set es. pae_PaymentAuthId e = a \<and> pae_ConsignmentId e = c"
  shows "ss_pays s (deliver_authorised (ss_mgr s) es w) = ss_pays s w \<or>
    capture_effect \<lparr>creq_AuthId = a, creq_IdempotencyKey = c\<rparr> (ss_pays s w) (ss_pays s (deliver_authorised (ss_mgr s) es w))"
proof -
  have "capture_of e = \<lparr>creq_AuthId = a, creq_IdempotencyKey = c\<rparr>" if "e \<in> set es" for e
    using assms(2) that by (simp add: capture_of_def)
  from deliver_authorised_once[OF assms(1) this, of es w] show ?thesis by (auto simp: pay_capture.at_most_once_def)
qed

lemma capture_once_over_redeliveries_witness:
  "let w = cs_at [sample_con] [] [''a'' \<mapsto> auth_pay] False; w' = deliver_authorised cs_mgr [sample_auth, sample_auth] w in
   ss_pays mem_cs w' = ss_pays mem_cs w \<or>
     capture_effect \<lparr>creq_AuthId = ''a'', creq_IdempotencyKey = ''c1''\<rparr> (ss_pays mem_cs w) (ss_pays mem_cs w')"
  using capture_once_over_redeliveries[OF mem_cs_ok, of "[sample_auth, sample_auth]" "''a''" "''c1''"]
  by (simp add: sample_auth_fields Let_def)

text \<open>
  C20. Capturing is retried three times, in the arithmetic of int32. When the capture of an event
  fails and the handler returns nil, the event is queued again with its count one up while the count
  is below 3, and the failure event, not claiming a payment, is queued from 3 on; only at the
  largest int32 does the count wrap and the event is queued again.
\<close>

theorem capture_retry_bounds:
  assumes ok: "cs_ok s" and dec: "Unmarshal (pb_PaymentAuthorised (cm_codecs (ss_mgr s))) val = Inr e"
    and new: "\<not> pae_PaymentCaptured e"
    and fails: "cm_RetryCapture (ss_mgr s) (pc_Capture (cm_paymentCli (ss_mgr s)) (capture_of e)) w = (Inl err, w1)"
    and run: "handlePaymentAuthorisedEvent (ss_mgr s) key val w = (Inr u, w')"
  shows "\<exists>e1 p. pae_ConsignmentId e1 = pae_ConsignmentId e \<and> pae_PaymentAuthId e1 = pae_PaymentAuthId e \<and>
    \<not> pae_PaymentCaptured e1 \<and>
    sint (pae_RetryCount e1) = (if sint (pae_RetryCount e) = 2 ^ 31 - 1 then - (2 ^ 31) else sint (pae_RetryCount e) + 1) \<and>
    (if 3 \<le> sint (pae_RetryCount e) \<and> sint (pae_RetryCount e) < 2 ^ 31 - 1
     then Marshal (pb_ConfirmationFailed (cm_codecs (ss_mgr s))) (capture_failed_event e1) = Inr p \<and>
       queued ConsignmentConfirmationFailedTopic (pae_ConsignmentId e) p (ss_rows s w')
     else Marshal (pb_PaymentAuthorised (cm_codecs (ss_mgr s))) e1 = Inr p \<and>
       queued ConsignmentPaymentAuthorisedTopic (authorised_key e1) p (ss_rows s w'))"
proof -
  let ?e = "e\<lparr>pae_IdempotencyKey := pae_ConsignmentId e\<rparr>"
  let ?e1 = "?e\<lparr>pae_RetryCount := pae_RetryCount ?e + 1\<rparr>"
  from dec run have "process_authorised (ss_mgr s) e w = (Inr u, w')" by (simp add: handlePaymentAuthorisedEvent_def)
  with new fails have "schedule_retry (ss_mgr s) ?e w1 = (Inr u, w')"
    by (simp add: process_authorised_def capture_request_key)
  from mgr.schedule_outcome(3)[OF ok this refl] have fu: "follow_up (cm_codecs (ss_mgr s)) ?e1 (ss_rows s w')" .
  have count: "sint (pae_RetryCount e + 1) =
      (if sint (pae_RetryCount e) = 2 ^ 31 - 1 then - (2 ^ 31) else sint (pae_RetryCount e) + 1)"
    by (rule int32_succ)
  have cmp: "maxRetries <s pae_RetryCount ?e1 \<longleftrightarrow> 3 \<le> sint (pae_RetryCount e) \<and> sint (pae_RetryCount e) < 2 ^ 31 - 1"
    using sint_lt[of "pae_RetryCount e"] by (simp add: maxRetries_def word_sless_alt count)
  from fu new count cmp show ?thesis
    unfolding follow_up_def cmp by (intro exI[of _ ?e1]) (auto split: if_splits)
qed

lemma capture_retry_bounds_witness:
  "\<exists>e1. sint (pae_RetryCount e1) = 1 \<and> Marshal (pb_PaymentAuthorised cs_codecs) e1 = Inr ''auth1'' \<and>
     queued ConsignmentPaymentAuthorisedTopic (authorised_key e1) ''auth1''
       (ss_rows mem_cs (snd (handlePaymentAuthorisedEvent cs_mgr [] ''auth'' (cs_at [sample_con] [] [''a'' \<mapsto> auth_pay] True))))"
proof -
  have cap: "cm_RetryCapture (ss_mgr mem_cs) (pc_Capture (cm_paymentCli (ss_mgr mem_cs)) (capture_of sample_auth))
      (cs_at [sample_con] [] [''a'' \<mapsto> auth_pay] True) = (Inl (StatusErr Unavailable ''lost''), cs_at [sample_con] [] [''a'' \<mapsto> capt_pay] True)"
    by (simp add: capture_of_def sample_auth_fields mem_capture_lost auth_pay_status capt_pay_def)
  have run: "handlePaymentAuthorisedEvent (ss_mgr mem_cs) [] ''auth'' (cs_at [sample_con] [] [''a'' \<mapsto> auth_pay] True) =
      (Inr (), cs_at [sample_con] [mem_event [] ConsignmentPaymentAuthorisedTopic (authorised_key (keyed_auth 1)) ''auth1''] [''a'' \<mapsto> capt_pay] True)"
    by (simp add: run_authorised_lost)
  from capture_retry_bounds[OF mem_cs_ok cs_decode_at(1) sample_auth_fields(3) cap run] obtain e1 p where
    e1: "sint (pae_RetryCount e1) = 1" "Marshal (pb_PaymentAuthorised cs_codecs) e1 = Inr p"
      "queued ConsignmentPaymentAuthorisedTopic (authorised_key e1) p
        (ss_rows mem_cs (cs_at [sample_con] [mem_event [] ConsignmentPaymentAuthorisedTopic (authorised_key (keyed_auth 1)) ''auth1''] [''a'' \<mapsto> capt_pay] True))"
    by (auto simp: sample_auth_fields)
  from e1(3) have "p = ''auth1''"
    by (auto simp: queued_def mo_rows_def mem_ov_def cs_at_select coll_view_def mem_event_def abs_document_def row_message_def split: if_splits)
  with e1 show ?thesis by (auto simp: run[simplified])
qed

text \<open>
  C18. A failed confirmation is undone. When the handler returns nil the consignment is cancelled
  and nothing else of it changes, no event is queued, and the payment is undone at most: an event
  with a captured payment moves only payments with its payment id, and only from captured to
  refunded; one without voids at most its authorisation.
\<close>

theorem failed_confirmation_undone:
  assumes ok: "cs_ok s" and dec: "Unmarshal (pb_ConfirmationFailed (cm_codecs (ss_mgr s))) val = Inr e"
    and run: "handleFailedConfirmationEvent (ss_mgr s) key val w = (Inr u, w')"
  shows "cfe_ConsignmentId e \<in> con_ID ` set (ss_docs s w) \<and>
    ss_docs s w' = set_status (cfe_ConsignmentId e) StatusCancelled (ss_docs s w) \<and>
    ss_rows s w' = ss_rows s w \<and>
    (if cfe_PaymentCaptured e then only_refunds (cfe_PaymentId e) (ss_pays s w) (ss_pays s w')
     else ss_pays s w' = ss_pays s w \<or> void_effect \<lparr>vreq_AuthId = cfe_PaymentAuthId e\<rparr> (ss_pays s w) (ss_pays s w'))"
  using failed_confirmation_core[OF assms] .

lemma failed_confirmation_undone_witness:
  "void_effect \<lparr>vreq_AuthId = ''a''\<rparr> [''a'' \<mapsto> auth_pay] [''a'' \<mapsto> auth_pay\<lparr>pay_status := statusVoided\<rparr>] \<and>
   ss_docs mem_cs (snd (handleFailedConfirmationEvent cs_mgr [] ''dead'' (cs_at [sample_con] [] [''a'' \<mapsto> auth_pay] False))) =
     set_status ''c1'' StatusCancelled [sample_con]"
proof -
  have run: "handleFailedConfirmationEvent (ss_mgr mem_cs) [] ''dead'' (cs_at [sample_con] [] [''a'' \<mapsto> auth_pay] False) =
    (Inr (), cs_at [sample_con\<lparr>con_Status := StatusCancelled\<rparr>] [] [''a'' \<mapsto> auth_pay\<lparr>pay_status := statusVoided\<rparr>] False)"
    by (simp add: run_failed)
  have "auth_pay\<lparr>pay_status := statusVoided\<rparr> \<noteq> auth_pay" by (simp add: auth_pay_def new_payment_def)
  then have diff: "[''a'' \<mapsto> auth_pay\<lparr>pay_status := statusVoided\<rparr>] \<noteq> [''a'' \<mapsto> auth_pay]" by (auto dest: map_upd_eqD1)
  from failed_confirmation_undone[OF mem_cs_ok cs_decode_at(5) run] diff show ?thesis
    unfolding run_failed snd_conv mem_cs_select mem_cs_stores by (simp add: capture_failed_event_def keyed_fields)
qed

text \<open>
  C17. An expired reservation cancels pending consignments only, and gives their money back. When the
  handler returns nil, a consignment that was not pending is untouched, with its payment; a pending
  one is cancelled, and if it carries a payment id, the payment captured under that id is refunded
  afterwards - unless the refund call, made in the state after the consignment was read, was answered
  with an error on every attempt - and no other payment has moved. No event is queued.
\<close>

theorem expired_cancels_pending_only:
  assumes ok: "cs_ok s" and dec: "Unmarshal (pb_ReservationExpired (cm_codecs (ss_mgr s))) val = Inr e"
    and run: "handleExpiredReservationEvent (ss_mgr s) key val w = (Inr u, w')"
  shows "ss_rows s w' = ss_rows s w \<and>
    (\<exists>c wr. cr_GetByID (cm_repository (ss_mgr s)) (ree_ConsignmentId e) w = (Inr c, wr) \<and> c \<in> set (ss_docs s w) \<and>
      con_ID c = ree_ConsignmentId e \<and>
      (if con_Status c = StatusPending
       then ss_docs s w' = set_status (con_ID c) StatusCancelled (ss_docs s w) \<and>
         (if con_PaymentID c = '''' then ss_pays s w' = ss_pays s w
          else only_refunds (con_PaymentID c) (ss_pays s w) (ss_pays s w') \<and>
            (refunded (refund_request c) (ss_pays s w') \<or>
             (\<exists>err. fst (cm_Retry (ss_mgr s) (discard (pc_Refund (cm_paymentCli (ss_mgr s)) (refund_request c))) wr) = Inl err)))
       else ss_docs s w' = ss_docs s w \<and> ss_pays s w' = ss_pays s w))"
proof -
  from dec run have "process_expired (ss_mgr s) e w = (Inr u, w')" by (simp add: handleExpiredReservationEvent_def)
  from mgr.process_expired_nil[OF ok this] show ?thesis .
qed

lemma expired_cancels_pending_only_witness:
  "refunded (refund_request charged_con)
     (ss_pays mem_cs (snd (handleExpiredReservationEvent cs_mgr [] ''expired'' (cs_at [charged_con] [] [''a'' \<mapsto> capt_pay] False)))) \<and>
   ss_docs mem_cs (snd (handleExpiredReservationEvent cs_mgr [] ''expired'' (cs_at [charged_con] [] [''a'' \<mapsto> capt_pay] False))) =
     set_status ''c1'' StatusCancelled [charged_con]"
proof -
  have run: "handleExpiredReservationEvent (ss_mgr mem_cs) [] ''expired'' (cs_at [charged_con] [] [''a'' \<mapsto> capt_pay] False) =
    (Inr (), cs_at [charged_con\<lparr>con_Status := StatusCancelled\<rparr>] [] [''a'' \<mapsto> refunded_pay] False)"
    by (simp add: run_expired_charged)
  from expired_cancels_pending_only[OF mem_cs_ok cs_decode_at(4) run] show ?thesis
    unfolding run_expired_charged snd_conv mem_cs_select mem_cs_stores
    by (simp add: mongo_consignments_def get_charged charged_fields mem_refund numeral_3_eq_3)
qed

text \<open>
  C19. A consignment always has one of the four statuses, and nothing but its status and payment id
  ever changes. Along any run of gRPC calls and events, with every failure, consignments are only
  added; their id, weight, description, containers, vessel and reservation stay, and if all statuses
  were among the four they still are.
\<close>

theorem consignments_keep_their_facts:
  assumes "cs_ok s" and "cs_run s w w'"
  shows "(\<exists>new. map con_facts (ss_docs s w') = map con_facts (ss_docs s w) @ map con_facts new) \<and>
    (list_all status_ok (ss_docs s w) \<longrightarrow> list_all status_ok (ss_docs s w'))"
  using cs_run_advance[OF assms] unfolding docs_advance_def .

lemma consignments_keep_their_facts_witness:
  "list_all status_ok [sample_con\<lparr>con_Status := StatusCancelled\<rparr>] \<and>
   con_facts (sample_con\<lparr>con_Status := StatusCancelled\<rparr>) = con_facts sample_con"
proof -
  have run: "handleExpiredReservationEvent cs_mgr [] ''expired'' (cs_at [sample_con] [] [''a'' \<mapsto> auth_pay] False) =
    (Inr (), cs_at [sample_con\<lparr>con_Status := StatusCancelled\<rparr>] [] [''a'' \<mapsto> auth_pay] False)"
    by (rule run_expired)
  have "cs_handlers (ss_mgr mem_cs) ReservationExpiredTopic = Some (handleExpiredReservationEvent cs_mgr)"
    by (simp add: cs_handlers_def ReservationConfirmedTopic_def ReservationExpiredTopic_def)
  then have "cs_step mem_cs (cs_at [sample_con] [] [''a'' \<mapsto> auth_pay] False)
      (cs_at [sample_con\<lparr>con_Status := StatusCancelled\<rparr>] [] [''a'' \<mapsto> auth_pay] False)"
    by (rule cs_step.event[where s = mem_cs and f = "handleExpiredReservationEvent cs_mgr", OF _ run])
  from consignments_keep_their_facts[OF mem_cs_ok cs_run.more[OF cs_run.none this]] show ?thesis
    by (simp add: mem_cs_stores) (simp add: status_ok_def sample_auth_fields)
qed

text \<open>
  A redelivered event takes a finished consignment back. After the confirmed event has been
  handled and a consignment is confirmed, an authorised event of it that is delivered again and
  handled without a retry makes it confirmation_pending: nothing moves it on from there but another
  event of the reservation service.
\<close>

theorem redelivery_regresses_status:
  assumes ok: "cs_ok s" and dec1: "Unmarshal (pb_ReservationConfirmed (cm_codecs (ss_mgr s))) val1 = Inr e1"
    and run1: "handleReservationConfirmedEvent (ss_mgr s) key1 val1 w = (Inr u, w1)"
    and dec2: "Unmarshal (pb_PaymentAuthorised (cm_codecs (ss_mgr s))) val2 = Inr e2"
    and same: "pae_ConsignmentId e2 = rce_ConsignmentId e1"
    and run2: "handlePaymentAuthorisedEvent (ss_mgr s) key2 val2 w1 = (Inr v, w2)"
    and no_retry: "\<not> (\<exists>e'. retried_from e2 (ss_pays s w2) e' \<and> follow_up (cm_codecs (ss_mgr s)) e' (ss_rows s w2))"
  shows "\<exists>c1 \<in> set (ss_docs s w1). \<exists>c2 \<in> set (ss_docs s w2). con_facts c2 = con_facts c1 \<and>
    con_ID c1 = rce_ConsignmentId e1 \<and> con_Status c1 = StatusConfirmed \<and> con_Status c2 = StatusConfirmationPending"
proof -
  let ?i = "rce_ConsignmentId e1"
  from dec1 run1 have "process_confirmed (ss_mgr s) e1 w = (Inr u, w1)" by (simp add: handleReservationConfirmedEvent_def)
  from mgr.process_confirmed_outcome(3)[OF ok this] have
    in1: "?i \<in> con_ID ` set (ss_docs s w)" and d1: "ss_docs s w1 = set_status ?i StatusConfirmed (ss_docs s w)" by auto
  from authorised_event_settled_core[OF ok dec2 run2] no_retry same obtain pid where
    d2: "ss_docs s w2 = updated ?i (captured_update (e2\<lparr>pae_PaymentId := pid\<rparr>)) (ss_docs s w1)"
    by (auto simp: handed_over_def)
  from in1 obtain c where c: "c \<in> set (ss_docs s w)" "con_ID c = ?i" by auto
  let ?c1 = "c\<lparr>con_Status := StatusConfirmed\<rparr>" and ?u = "captured_update (e2\<lparr>pae_PaymentId := pid\<rparr>)"
  have c1: "?c1 \<in> set (ss_docs s w1)" using c by (force simp: d1 set_status_def where_update_def)
  then have "set_fields ?u ?c1 \<in> set (ss_docs s w2)" using c(2) by (force simp: d2 updated_def where_update_def)
  with c1 c(2) show ?thesis
    by (intro bexI[of _ ?c1] bexI[of _ "set_fields ?u ?c1"])
      (simp_all add: con_facts_def set_fields_def captured_update_def)
qed

lemma redelivery_regresses_status_witness:
  "con_Status (sample_con\<lparr>con_Status := StatusConfirmed\<rparr>) = StatusConfirmed \<and>
   (\<exists>c \<in> set (ss_docs mem_cs (snd (handlePaymentAuthorisedEvent cs_mgr [] ''auth'' (snd (handleReservationConfirmedEvent cs_mgr [] ''confirmed''
      (cs_at [sample_con] [] [''a'' \<mapsto> auth_pay] False)))))). con_facts c = con_facts sample_con \<and> con_Status c = StatusConfirmationPending)"
proof -
  let ?c1 = "sample_con\<lparr>con_Status := StatusConfirmed\<rparr>"
  let ?c2 = "?c1\<lparr>con_Status := StatusConfirmationPending, con_PaymentID := ''c1''\<rparr>"
  have run1: "handleReservationConfirmedEvent (ss_mgr mem_cs) [] ''confirmed'' (cs_at [sample_con] [] [''a'' \<mapsto> auth_pay] False) =
      (Inr (), cs_at [?c1] [] [''a'' \<mapsto> auth_pay] False)"
    by (simp add: run_confirmed sample_auth_fields)
  have run2: "handlePaymentAuthorisedEvent (ss_mgr mem_cs) [] ''auth'' (cs_at [?c1] [] [''a'' \<mapsto> auth_pay] False) =
      (Inr (), cs_at [?c2] [captured_doc] [''a'' \<mapsto> capt_pay] False)"
    using run_authorised[of ?c1] by (simp add: sample_auth_fields)
  have none: "\<not> (\<exists>e'. retried_from sample_auth (ss_pays mem_cs (cs_at [?c2] [captured_doc] [''a'' \<mapsto> capt_pay] False)) e' \<and>
      follow_up (cm_codecs (ss_mgr mem_cs)) e' (ss_rows mem_cs (cs_at [?c2] [captured_doc] [''a'' \<mapsto> capt_pay] False)))"
    by (simp add: captured_doc_only)
  have same: "pae_ConsignmentId sample_auth = rce_ConsignmentId \<lparr>rce_ReservationId = ''r'', rce_ConsignmentId = ''c1'', rce_SagaStartedAt = None\<rparr>"
    by (simp add: sample_auth_fields)
  from redelivery_regresses_status[OF mem_cs_ok cs_decode_at(3) run1 cs_decode_at(1) same run2 none] run1 run2 show ?thesis
    by (simp add: mem_cs_stores con_facts_def)
qed

text \<open>
  C31. A capture whose answers are lost is kept although the consignment is cancelled. If the capture
  of an event without retries left took effect but every answer was lost, the failure event says that
  no payment was captured; when it is handled, the consignment is cancelled, the void fails, and the
  customer's payment is still captured.
\<close>

theorem lost_capture_charges_cancelled:
  assumes ok: "cs_ok s" and codec: "codec_ok (pb_ConfirmationFailed (cm_codecs (ss_mgr s)))"
    and dec: "Unmarshal (pb_PaymentAuthorised (cm_codecs (ss_mgr s))) val = Inr e" and last: "pae_RetryCount e = 3"
    and new: "\<not> pae_PaymentCaptured e"
    and lost: "cm_RetryCapture (ss_mgr s) (pc_Capture (cm_paymentCli (ss_mgr s)) (capture_of e)) w = (Inl err, w1)"
    and took: "captured (capture_of e) (ss_pays s w1)"
    and run: "handlePaymentAuthorisedEvent (ss_mgr s) key val w = (Inr u, w2)"
  shows "\<exists>p. queued ConsignmentConfirmationFailedTopic (pae_ConsignmentId e) p (ss_rows s w2) \<and>
    (\<forall>key' w3 v w4. ss_pays s w3 = ss_pays s w2 \<longrightarrow>
       handleFailedConfirmationEvent (ss_mgr s) key' p w3 = (Inr v, w4) \<longrightarrow>
       ss_docs s w4 = set_status (pae_ConsignmentId e) StatusCancelled (ss_docs s w3) \<and>
       captured (capture_of e) (ss_pays s w4))"
proof -
  let ?e = "e\<lparr>pae_IdempotencyKey := pae_ConsignmentId e\<rparr>"
  let ?e1 = "?e\<lparr>pae_RetryCount := pae_RetryCount ?e + 1\<rparr>"
  from dec run have "process_authorised (ss_mgr s) e w = (Inr u, w2)" by (simp add: handlePaymentAuthorisedEvent_def)
  with new lost have sch: "schedule_retry (ss_mgr s) ?e w1 = (Inr u, w2)"
    by (simp add: process_authorised_def capture_request_key)
  from mgr.schedule_outcome(1)[OF ok sch] have pays: "ss_pays s w2 = ss_pays s w1" by simp
  have "maxRetries <s pae_RetryCount ?e1" by (simp add: last maxRetries_def word_sless_alt)
  with mgr.schedule_outcome(3)[OF ok sch refl] obtain p where
    p: "Marshal (pb_ConfirmationFailed (cm_codecs (ss_mgr s))) (capture_failed_event ?e1) = Inr p"
      "queued ConsignmentConfirmationFailedTopic (pae_ConsignmentId e) p (ss_rows s w2)"
    by (auto simp: follow_up_def)
  show ?thesis
  proof (intro exI[of _ p] conjI allI impI)
    fix key' w3 v w4
    assume same: "ss_pays s w3 = ss_pays s w2" and h: "handleFailedConfirmationEvent (ss_mgr s) key' p w3 = (Inr v, w4)"
    note out = failed_confirmation_core[OF ok codec_okD[OF codec p(1)] h]
    from out show "ss_docs s w4 = set_status (pae_ConsignmentId e) StatusCancelled (ss_docs s w3)"
      by (simp add: capture_failed_event_def)
    from out new have "ss_pays s w4 = ss_pays s w3 \<or> void_effect \<lparr>vreq_AuthId = pae_PaymentAuthId e\<rparr> (ss_pays s w3) (ss_pays s w4)"
      by (simp add: capture_failed_event_def zero_FailedEvent_def)
    with took same pays show "captured (capture_of e) (ss_pays s w4)"
      by (auto simp: captured_def void_effect_def capture_of_def)
  qed (rule p(2))
qed

lemma lost_capture_charges_cancelled_witness:
  "captured (capture_of sample_auth)
     (ss_pays mem_cs (snd (handleFailedConfirmationEvent cs_mgr [] ''dead'' (cs_at [sample_con] [] [''a'' \<mapsto> capt_pay] False))))"
proof -
  have codec: "codec_ok (pb_ConfirmationFailed (cm_codecs (ss_mgr mem_cs)))" by (simp add: cs_codecs_def table_codec_ok)
  have cap: "cm_RetryCapture (ss_mgr mem_cs) (pc_Capture (cm_paymentCli (ss_mgr mem_cs)) (capture_of (keyed_auth 3)))
      (cs_at [sample_con] [] [''a'' \<mapsto> auth_pay] True) = (Inl (StatusErr Unavailable ''lost''), cs_at [sample_con] [] [''a'' \<mapsto> capt_pay] True)"
    by (simp add: capture_of_def keyed_fields mem_capture_lost auth_pay_status capt_pay_def)
  have took: "captured (capture_of (keyed_auth 3)) (ss_pays mem_cs (cs_at [sample_con] [] [''a'' \<mapsto> capt_pay] True))"
    by (simp add: captured_def capture_of_def keyed_fields mem_cs_stores capt_pay_def)
  have run: "handlePaymentAuthorisedEvent (ss_mgr mem_cs) [] ''auth3'' (cs_at [sample_con] [] [''a'' \<mapsto> auth_pay] True) =
      (Inr (), cs_at [sample_con] [mem_event [] ConsignmentConfirmationFailedTopic ''c1'' ''dead''] [''a'' \<mapsto> capt_pay] True)"
    by (simp add: run_authorised_dead)
  have req: "capture_of (keyed_auth 3) = capture_of sample_auth" by (simp add: capture_of_def keyed_fields sample_auth_fields)
  from lost_capture_charges_cancelled[OF mem_cs_ok codec cs_decode_at(2) keyed_fields(4) keyed_fields(3) cap took run] obtain p where
    p: "queued ConsignmentConfirmationFailedTopic ''c1'' p
      (ss_rows mem_cs (cs_at [sample_con] [mem_event [] ConsignmentConfirmationFailedTopic ''c1'' ''dead''] [''a'' \<mapsto> capt_pay] True))"
    and dead: "\<And>key' w3 v w4. ss_pays mem_cs w3 = ss_pays mem_cs (cs_at [sample_con] [mem_event [] ConsignmentConfirmationFailedTopic ''c1'' ''dead'']
        [''a'' \<mapsto> capt_pay] True) \<Longrightarrow> handleFailedConfirmationEvent (ss_mgr mem_cs) key' p w3 = (Inr v, w4) \<Longrightarrow>
      captured (capture_of sample_auth) (ss_pays mem_cs w4)"
    unfolding keyed_fields(2) req by blast
  have "p = ''dead''"
    using p by (auto simp: queued_def mo_rows_def mem_ov_def cs_at_select coll_view_def mem_event_def abs_document_def row_message_def split: if_splits)
  moreover have "ss_pays mem_cs (cs_at [sample_con] [] [''a'' \<mapsto> capt_pay] False) =
      ss_pays mem_cs (cs_at [sample_con] [mem_event [] ConsignmentConfirmationFailedTopic ''c1'' ''dead''] [''a'' \<mapsto> capt_pay] True)"
    by (simp add: mem_cs_stores)
  moreover have "handleFailedConfirmationEvent (ss_mgr mem_cs) [] ''dead'' (cs_at [sample_con] [] [''a'' \<mapsto> capt_pay] False) =
      (Inr (), cs_at [sample_con\<lparr>con_Status := StatusCancelled\<rparr>] [] [''a'' \<mapsto> capt_pay] False)"
    by (simp add: run_failed_captured)
  ultimately show ?thesis using dead by (metis mem_cs_select(1) snd_conv)
qed

text \<open>
  C28. Creating a consignment reserves for it. When CreateConsignment succeeds, one consignment is
  added under an id nobody has, the reservation service answered a request for exactly its weight and
  number of containers under that id, and the consignment is pending, without a payment, on the vessel
  and reservation of that answer; the response shows what was stored.
\<close>

theorem created_on_reservation:
  assumes "cs_ok s" and "CreateConsignment (ss_hdl s) req w = (Inr x, w')"
  shows "\<exists>c rsv w0 w1. ss_docs s w' = ss_docs s w @ [c] \<and> con_ID c \<notin> con_ID ` set (ss_docs s w) \<and>
    rvc_ReserveCapacity (ch_reservationCli (ss_hdl s))
      \<lparr>rcr_ConsignmentId = con_ID c, rcr_Weight = con_Weight c, rcr_NumberOfContainers = int32_len (con_Containers c)\<rparr> w0 = (Inr rsv, w1) \<and>
    con_Status c = StatusPending \<and> con_PaymentID c = '''' \<and> con_VesselID c = rres_VesselId rsv \<and>
    con_ReservationID c = rres_Id rsv \<and> con_Weight c = pbc_Weight req \<and>
    prs_Consignment x = Some (UnmarshalConsignment c)"
proof -
  from svc.CreateConsignment_success[OF assms] obtain c rsv w0 w1 where
    c: "ss_docs s w' = ss_docs s w @ [c]" "con_ID c \<notin> con_ID ` set (ss_docs s w)"
      "rvc_ReserveCapacity (ch_reservationCli (ss_hdl s))
        \<lparr>rcr_ConsignmentId = con_ID c, rcr_Weight = con_Weight c, rcr_NumberOfContainers = int32_len (con_Containers c)\<rparr> w0 = (Inr rsv, w1)"
    and fields: "c = (MarshalConsignment (req\<lparr>pbc_Id := con_ID c, pbc_VesselId := rres_VesselId rsv, pbc_Status := StatusPending\<rparr>))
        \<lparr>con_ReservationID := rres_Id rsv\<rparr>"
    and x: "x = \<lparr>prs_Created = True, prs_Consignment = Some (UnmarshalConsignment c), prs_Consignments = []\<rparr>" by blast
  have "con_Status c = StatusPending \<and> con_PaymentID c = '''' \<and> con_VesselID c = rres_VesselId rsv \<and>
      con_ReservationID c = rres_Id rsv \<and> con_Weight c = pbc_Weight req"
    by (subst (1 2 3 4 5) fields) (simp add: MarshalConsignment_def)
  with c x show ?thesis by (intro exI[of _ c] exI[of _ rsv] exI[of _ w0] exI[of _ w1]) simp
qed

lemma created_on_reservation_witness:
  "\<exists>c. ss_docs mem_cs (cs_at [sample_con\<lparr>con_ID := uuid_String mem_uuid 5\<rparr>] [] [''a'' \<mapsto> auth_pay] False) =
      ss_docs mem_cs (cs_at [] [] [''a'' \<mapsto> auth_pay] False) @ [c] \<and> con_VesselID c = ''v'' \<and> con_Status c = StatusPending"
proof -
  let ?req = "\<lparr>pbc_Id = '''', pbc_Description = ''d'', pbc_Weight = 60, pbc_Containers = [], pbc_VesselId = '''', pbc_Status = ''''\<rparr>"
  let ?c = "sample_con\<lparr>con_ID := uuid_String mem_uuid 5\<rparr>"
  have "CreateConsignment (ss_hdl mem_cs) ?req (cs_at [] [] [''a'' \<mapsto> auth_pay] False) =
     (Inr \<lparr>prs_Created = True, prs_Consignment = Some (UnmarshalConsignment ?c), prs_Consignments = []\<rparr>, cs_at [?c] [] [''a'' \<mapsto> auth_pay] False)"
    using run_create by (simp add: Let_def)
  from created_on_reservation[OF mem_cs_ok this] show ?thesis
    by (auto simp: mem_reservations_def)
qed

text \<open>
  C16. ConfirmConsignment starts the saga or leaves nothing to pay. If it answers that the
  consignment is confirmed, a new payment of 100 GBP has been authorised for it, the authorised event
  with that authorisation and the consignment's reservation is queued, and the consignment is as
  before. If it fails, the consignment is as before or cancelled, and there is at most one new
  authorisation, which at most has been voided.
\<close>

theorem confirm_starts_saga:
  assumes ok: "cs_ok s" and run: "ConfirmConsignment (ss_hdl s) req w = (r, w')"
  shows "(\<exists>new. ss_rows s w' = ss_rows s w @ new) \<and>
    (case r of
       Inr x \<Rightarrow> ss_docs s w' = ss_docs s w \<and>
         (\<exists>c a p. c \<in> set (ss_docs s w) \<and> con_ID c = cfr_Id req \<and>
            authorise_effect (authorise_request c) a (ss_pays s w) (ss_pays s w') \<and>
            Marshal (pb_PaymentAuthorised (cm_codecs (ss_mgr s))) (authorised_event a c (ch_Now (ss_hdl s) w)) = Inr p \<and>
            queued ConsignmentPaymentAuthorisedTopic (con_ID c) p (ss_rows s w'))
     | Inl e \<Rightarrow> ss_docs s w' \<in> {ss_docs s w, set_status (cfr_Id req) StatusCancelled (ss_docs s w)} \<and>
         (ss_pays s w' = ss_pays s w \<or>
          (\<exists>c a m. c \<in> set (ss_docs s w) \<and> con_ID c = cfr_Id req \<and> authorise_effect (authorise_request c) a (ss_pays s w) m \<and>
             (ss_pays s w' = m \<or> void_effect \<lparr>vreq_AuthId = a\<rparr> m (ss_pays s w')))))"
  using confirm_saga_core[OF assms] .

lemma confirm_starts_saga_witness:
  "\<exists>c a p. c \<in> {sample_con} \<and> authorise_effect (authorise_request c) a Map.empty [''a'' \<mapsto> auth_pay] \<and>
     Marshal (pb_PaymentAuthorised cs_codecs) (authorised_event a c 0) = Inr p"
proof -
  have run: "ConfirmConsignment (ss_hdl mem_cs) \<lparr>cfr_Id = ''c1''\<rparr> no_pay =
      (Inr \<lparr>cfs_Confirmed = True\<rparr>, cs_at [sample_con] [first_doc] [''a'' \<mapsto> auth_pay] False)"
    by (simp add: run_confirm)
  have d: "ss_docs mem_cs no_pay = [sample_con]" "ss_pays mem_cs no_pay = Map.empty" "sx_now no_pay = 0"
    by (simp_all add: no_pay_def mem_cv_def coll_view_def cons_okl_def mem_pay_def mem_pays_def)
  from confirm_starts_saga[OF mem_cs_ok run] show ?thesis
    by (auto simp: mem_cs_stores d[simplified])
qed

text \<open>
  C32. A consignment can be confirmed, and charged, twice. ConfirmConsignment does not look at the
  status: if it succeeds a second time for a consignment, whatever happened to the payments in
  between, there are two payments of 100 for it under different authorisations, the second one waiting
  to be captured.
\<close>

theorem double_confirm_authorises_twice:
  assumes ok: "cs_ok s" and first: "ConfirmConsignment (ss_hdl s) req w = (Inr x, w1)"
    and between: "pay_run (ss_pays s w1) (ss_pays s w2)"
    and again: "ConfirmConsignment (ss_hdl s) req w2 = (Inr y, w3)"
  shows "\<exists>a b p q. a \<noteq> b \<and> ss_pays s w3 a = Some p \<and> ss_pays s w3 b = Some q \<and>
    pay_consignmentID p = cfr_Id req \<and> pay_consignmentID q = cfr_Id req \<and>
    pay_amount p = 100 \<and> pay_amount q = 100 \<and> pay_status q = statusAuthorised"
proof -
  from confirm_success_core[OF ok first] obtain a where a: "a \<notin> dom (ss_pays s w)"
    "ss_pays s w1 = (ss_pays s w)(a \<mapsto> new_payment (cfr_Id req) a)" by blast
  from confirm_success_core[OF ok again] obtain b where b: "b \<notin> dom (ss_pays s w2)"
    "ss_pays s w3 = (ss_pays s w2)(b \<mapsto> new_payment (cfr_Id req) b)" by blast
  from a(2) have "ss_pays s w1 a = Some (new_payment (cfr_Id req) a)" by simp
  from pay_run_advances[OF between this] obtain p where
    p: "ss_pays s w2 a = Some p" "pay_advances (new_payment (cfr_Id req) a) p" .
  from p(1) b(1) have ab: "a \<noteq> b" by auto
  show ?thesis
    using p ab b(2)
    by (intro exI[of _ a] exI[of _ b] exI[of _ p] exI[of _ "new_payment (cfr_Id req) b"]) (auto simp: pay_advances_def new_payment_def)
qed

lemma double_confirm_authorises_twice_witness:
  "\<exists>a b p q. a \<noteq> b \<and> ss_pays mem_cs (snd (ConfirmConsignment cs_hdl \<lparr>cfr_Id = ''c1''\<rparr> (snd (ConfirmConsignment cs_hdl \<lparr>cfr_Id = ''c1''\<rparr> no_pay)))) a = Some p \<and>
     ss_pays mem_cs (snd (ConfirmConsignment cs_hdl \<lparr>cfr_Id = ''c1''\<rparr> (snd (ConfirmConsignment cs_hdl \<lparr>cfr_Id = ''c1''\<rparr> no_pay)))) b = Some q \<and>
     pay_consignmentID p = pay_consignmentID q \<and> pay_amount p + pay_amount q = 200"
proof -
  have run1: "ConfirmConsignment (ss_hdl mem_cs) \<lparr>cfr_Id = ''c1''\<rparr> no_pay =
      (Inr \<lparr>cfs_Confirmed = True\<rparr>, cs_at [sample_con] [first_doc] [''a'' \<mapsto> auth_pay] False)"
    by (simp add: run_confirm)
  note run2 = run_confirm_again[folded mem_cs_select(2)]
  have last: "snd (ConfirmConsignment cs_hdl \<lparr>cfr_Id = ''c1''\<rparr> (snd (ConfirmConsignment cs_hdl \<lparr>cfr_Id = ''c1''\<rparr> no_pay))) =
      snd (ConfirmConsignment cs_hdl \<lparr>cfr_Id = ''c1''\<rparr> (cs_at [sample_con] [first_doc] [''a'' \<mapsto> auth_pay] False))"
    by (simp add: run_confirm)
  from double_confirm_authorises_twice[OF mem_cs_ok run1 pay_run.none run2] obtain a b p q where
    "a \<noteq> b \<and> ss_pays mem_cs (snd (ConfirmConsignment cs_hdl \<lparr>cfr_Id = ''c1''\<rparr> (cs_at [sample_con] [first_doc] [''a'' \<mapsto> auth_pay] False))) a = Some p \<and>
      ss_pays mem_cs (snd (ConfirmConsignment cs_hdl \<lparr>cfr_Id = ''c1''\<rparr> (cs_at [sample_con] [first_doc] [''a'' \<mapsto> auth_pay] False))) b = Some q \<and>
      pay_consignmentID p = pay_consignmentID q \<and> pay_amount p + pay_amount q = 200"
    unfolding run_confirm_again snd_conv by fastforce
  then show ?thesis unfolding last by blast
qed

end
