(* ===== verification/Consignment_Outbox.thy ===== *)
theory Consignment_Outbox
  imports Consignment_Memory
begin

text \<open>
  The publisher of the consignment service (\<open>manager/outbox.go\<close>), equal to the reservation service's, and
  the properties of its outbox: an event has one publisher at a time, nothing is
  marked published that Kafka has not acknowledged, and with every service up one pass publishes all
  that waits, if its twenty seconds are enough. The publisher contract is interpreted on the MongoDB collection and the Kafka producer.
\<close>

section \<open>\<open>manager/outbox.go\<close>\<close>

definition cs_outboxLeaseDuration :: time where
  "cs_outboxLeaseDuration = 30 * 10 ^ 9"

definition cs_outboxPublishDeadline :: time where
  "cs_outboxPublishDeadline = 20 * 10 ^ 9"

fun cs_publish_events :: "(CsOutboxEvent, 'w) OutboxManager \<Rightarrow> time \<Rightarrow> CsOutboxEvent list \<Rightarrow> 'w \<Rightarrow> (goerr + unit) \<times> 'w" where
  "cs_publish_events m deadline [] w = (Inr (), w)"
| "cs_publish_events m deadline (event # events) w =
    (case publishCtx_Err m deadline w of
       Some err \<Rightarrow> (Inr (), w)
     | None \<Rightarrow>
       (case om_Produce m (oe_Topic event) (oe_Key event) (oe_Payload event)
               (HeadersFromTraceContext (oe_TraceContext event)) w of
          (Inl err, w1) \<Rightarrow>
            if errors_is err context_Canceled \<or> errors_is err context_DeadlineExceeded then (Inr (), w1)
            else if errors_is err ErrBrokerUnreachable then (Inl err, w1)
            else cs_publish_events m deadline events w1
        | (Inr _, w1) \<Rightarrow>
            cs_publish_events m deadline events (snd (ob_MarkPublished (om_outbox m) (oe_Id event) w1))))"

definition cs_publishOutbox :: "(CsOutboxEvent, 'w) OutboxManager \<Rightarrow> 'w \<Rightarrow> (goerr + unit) \<times> 'w" where
  "cs_publishOutbox m w =
    (case ob_GetPendingEvents (om_outbox m) cs_outboxLeaseDuration w of
       (Inl err, w1) \<Rightarrow> (Inl (Errorf ''failed to get pending outbox events'' [err]), w1)
     | (Inr events, w1) \<Rightarrow> cs_publish_events m (om_Now m w + cs_outboxPublishDeadline) events w1)"

text \<open>The two services publish the same way, so what is proved of one publisher holds for the other.\<close>

lemma cs_publish_events_same: "cs_publish_events = publish_events"
proof (intro ext)
  show "cs_publish_events m dl es w = publish_events m dl es w" for m dl es and w :: 'w
    by (induction es arbitrary: w) (simp_all split: option.split prod.split sum.split)
qed

lemma cs_publishOutbox_same: "cs_publishOutbox = publishOutbox"
  by (simp add: fun_eq_iff cs_publishOutbox_def publishOutbox_def cs_outboxLeaseDuration_def outboxLeaseDuration_def
      cs_outboxPublishDeadline_def outboxPublishDeadline_def cs_publish_events_same split: prod.split sum.split)

section \<open>The publisher of the consignment service\<close>

record 'w cs_publisher =
  cp_box :: "'w OutboxMongo"
  cp_ov :: "'w moview"
  cp_producer :: "'w ProducerClient"
  cp_CtxErr :: "'w \<Rightarrow> goerr option"
  cp_Now :: "'w \<Rightarrow> time"
  cp_sent :: "'w \<Rightarrow> (string \<times> string \<times> bytes) set"

definition cp_mgr :: "'w cs_publisher \<Rightarrow> (CsOutboxEvent, 'w) OutboxManager" where
  "cp_mgr s = \<lparr>om_outbox = mongo_outbox (cp_box s), om_Produce = Produce (cp_producer s),
     om_CtxErr = cp_CtxErr s, om_Now = cp_Now s\<rparr>"

abbreviation cp_rows :: "'w cs_publisher \<Rightarrow> 'w \<Rightarrow> outbox_row list" where
  "cp_rows s \<equiv> mo_rows (cp_box s, cp_ov s)"

text \<open>Calls of the collection and of \<open>uuid.New\<close> do not touch the broker.\<close>

definition box_keeps_sent :: "'w cs_publisher \<Rightarrow> bool" where
  "box_keeps_sent s \<longleftrightarrow>
     (\<forall>p f w r w'. mo_UpdateOne (cp_box s) p f w = (r, w') \<longrightarrow> cp_sent s w' = cp_sent s w) \<and>
     (\<forall>p f w r w'. mo_UpdateMany (cp_box s) p f w = (r, w') \<longrightarrow> cp_sent s w' = cp_sent s w) \<and>
     (\<forall>p key w r w'. mo_Find (cp_box s) p key w = (r, w') \<longrightarrow> cp_sent s w' = cp_sent s w) \<and>
     (\<forall>w i w'. mo_NewUUID (cp_box s) w = (i, w') \<longrightarrow> cp_sent s w' = cp_sent s w)"

definition cp_ok :: "'w cs_publisher \<Rightarrow> bool" where
  "cp_ok s \<longleftrightarrow> mongo_outbox_ok (cp_box s, cp_ov s) \<and>
     producer_law (cp_producer s) (cp_sent s) (mv_docs (cp_ov s)) \<and> box_keeps_sent s"

lemma cp_box_sent:
  assumes "cp_ok s"
  shows "mongo_MarkPublished (cp_box s) i w = (r, w') \<Longrightarrow> cp_sent s w' = cp_sent s w"
    and "mongo_GetPendingEvents (cp_box s) l w = (r', w') \<Longrightarrow> cp_sent s w' = cp_sent s w"
proof -
  from assms have K: "box_keeps_sent s" by (simp add: cp_ok_def)
  have one: "cp_sent s y = cp_sent s x" if "mo_UpdateOne (cp_box s) p f x = (q, y)" for p f q x y
    using K that unfolding box_keeps_sent_def by metis
  have many: "cp_sent s y = cp_sent s x" if "mo_UpdateMany (cp_box s) p f x = (q, y)" for p f q x y
    using K that unfolding box_keeps_sent_def by metis
  have cursor: "cp_sent s y = cp_sent s x" if "mo_Find (cp_box s) p key x = (q, y)" for p key q x y
    using K that unfolding box_keeps_sent_def by metis
  have new: "cp_sent s y = cp_sent s x" if "mo_NewUUID (cp_box s) x = (q, y)" for q x y
    using K that unfolding box_keeps_sent_def by metis
  show "mongo_MarkPublished (cp_box s) i w = (r, w') \<Longrightarrow> cp_sent s w' = cp_sent s w"
    by (auto simp: mongo_MarkPublished_def split: prod.splits sum.splits if_splits dest: one)
  show "cp_sent s w' = cp_sent s w" if run: "mongo_GetPendingEvents (cp_box s) l w = (r', w')"
    using run
  proof (cases rule: mongo_GetPendingEvents_cases)
    case (claim c w0 e)
    then show ?thesis using new many by metis
  next
    case (find c w0 n w1 e)
    then show ?thesis using new many cursor by metis
  next
    case (claimed c w0 n w1 docs)
    then show ?thesis using new many cursor by metis
  qed
qed

interpretation cpub: outbox_publisher cp_ok "\<lambda>s. mongo_outbox (cp_box s)" cp_rows cp_mgr cp_sent
proof (unfold_locales, goal_cases)
  case (1 h e w r w')
  then show ?case using mo.create[of "(cp_box h, cp_ov h)" e w r w'] by (simp add: cp_ok_def)
next
  case (2 h e w u w')
  then show ?case using mo.create_pending[of "(cp_box h, cp_ov h)" e w u w'] by (simp add: cp_ok_def)
next
  case (3 h i w r' w')
  then show ?case using mo.mark[of "(cp_box h, cp_ov h)" i w r' w'] by (simp add: cp_ok_def)
next
  case (4 h i w u w')
  then show ?case using mo.mark_done[of "(cp_box h, cp_ov h)" i w u w'] by (simp add: cp_ok_def)
next
  case (5 h l w r'' w')
  then show ?case using mo.pending_rows[of "(cp_box h, cp_ov h)" l w r'' w'] by (simp add: cp_ok_def)
next
  case (6 h l w es w' e)
  then show ?case using mo.pending_events[of "(cp_box h, cp_ov h)" l w es w' e] by (simp add: cp_ok_def)
next
  case (7 h)
  show ?case by (simp add: cp_mgr_def)
next
  case (8 h w)
  then show ?case using mo_rows_distinct[of "cp_box h" "cp_ov h" w] by (simp add: cp_ok_def)
next
  case (9 h t k p hds w r w')
  then have "producer_law (cp_producer h) (cp_sent h) (mv_docs (cp_ov h))" by (simp add: cp_ok_def)
  from Produce_law(2)[OF this] 9(2) show ?case by (simp add: cp_mgr_def mo_rows_def)
next
  case (10 h t k p hds w r w')
  then have "producer_law (cp_producer h) (cp_sent h) (mv_docs (cp_ov h))" by (simp add: cp_ok_def)
  from Produce_law(1,3)[OF this, of t k p hds w r w'] 10(2) show ?case by (simp add: cp_mgr_def)
next
  case (11 h i w r w')
  then show ?case using cp_box_sent(1)[OF 11(1), of i w r w'] by (simp add: mongo_outbox_def)
next
  case (12 h l w r' w')
  then show ?case using cp_box_sent(2)[OF 12(1), of l w r' w'] by (simp add: mongo_outbox_def)
qed

section \<open>Properties\<close>

text \<open>
  An event of the consignment service has one publisher at a time. After a claim returned events
  under a lease, a second claim of the same collection that ends before the lease does returns none of
  them.
\<close>

theorem mongo_lease_excludes:
  assumes ok: "mongo_outbox_ok (d, v)"
    and first: "mongo_GetPendingEvents d l w = (Inr es, w1)"
    and between: "mv_docs v w2 = mv_docs v w1"
    and second: "mongo_GetPendingEvents d l' w2 = (Inr es', w3)"
    and within: "mo_Now d w3 \<le> mo_Now d w + l"
  shows "oe_Id ` set es \<inter> oe_Id ` set es' = {}"
proof (rule ccontr)
  assume "oe_Id ` set es \<inter> oe_Id ` set es' \<noteq> {}"
  then obtain e e' where e: "e \<in> set es" "e' \<in> set es'" "oe_Id e = oe_Id e'" by auto
  from mongo_GetPendingEvents_outcome(2)[OF ok first refl] e(1) obtain c now y i where
    now: "mo_Now d w \<le> now" and docs1: "mv_docs v w1 = where_update (unclaimed now) (claim_document c (now + l)) (mv_docs v w)"
    and y: "y \<in> set (mv_docs v w)" "unclaimed now y" "uuid_Parse (mo_uuid d) (od_Id y) = Inr i"
    and ei: "e = document_event i (claim_document c (now + l) y)" by blast
  from mongo_GetPendingEvents_outcome(2)[OF ok second refl] e(2) obtain c' now' x j where
    now': "now' \<le> mo_Now d w3" and x: "x \<in> set (mv_docs v w1)" "unclaimed now' x" "uuid_Parse (mo_uuid d) (od_Id x) = Inr j"
    and ej: "e' = document_event j (claim_document c' (now' + l') x)" unfolding between by blast
  let ?y = "claim_document c (now + l) y"
  have y1: "?y \<in> set (mv_docs v w1)" using y(1,2) by (auto simp: docs1 where_update_def)
  have "i = j" using e(3) by (simp add: ei ej document_event_def)
  moreover have "od_Id ?y = od_Id y" by (simp add: claim_document_def)
  ultimately have "od_Id x = od_Id ?y"
    using document_id[OF ok x(1,3)] document_id[OF ok y(1,3)] by simp
  with mongo_outbox_okD(7)[OF ok, of w1] x(1) y1 have "x = ?y" by (auto simp: distinct_map inj_on_def)
  with x(2) have "now + l < now'" by (simp add: unclaimed_def claim_document_def)
  with now now' within show False by simp
qed

text \<open>The claimed events are rows of the table.\<close>

lemma cp_claimed_ids:
  assumes "cp_ok s" and g: "mongo_GetPendingEvents (cp_box s) l w = (Inr es, w1)"
  shows "oe_Id ` set es \<subseteq> row_id ` set (cp_rows s w)"
proof
  from assms(1) have box: "mongo_outbox_ok (cp_box s, cp_ov s)" by (simp add: cp_ok_def)
  fix i assume "i \<in> oe_Id ` set es"
  then obtain e where e: "e \<in> set es" "i = oe_Id e" by auto
  have "event_row e \<in> set (cp_rows s w)"
    using mo.pending_events[OF box, of l w es w1 e] g e(1) by (simp add: mongo_outbox_def)
  then have "row_id (event_row e) \<in> row_id ` set (cp_rows s w)" by (rule imageI)
  then show "i \<in> row_id ` set (cp_rows s w)" by (simp add: e(2) event_row_def)
qed

text \<open>When the claimed events are published after a pass and they were all that waited, every row is.\<close>

lemma cp_drained:
  assumes ok: "cp_ok s" and run: "publishOutbox (cp_mgr s) w = (r, w')"
    and all: "\<And>x. x \<in> set (mv_docs (cp_ov s) w) \<Longrightarrow> od_PublishedAt x = None \<Longrightarrow> row_id (abs_document (mo_uuid (cp_box s)) x) \<in> ids"
    and marked: "cpub.marked_all s ids w'" and row': "row' \<in> set (cp_rows s w')"
  shows "row_published row'"
proof -
  from cpub.publishOutbox_delivered[OF ok run] obtain f where
    f: "cp_rows s w' = map f (cp_rows s w)"
      "\<forall>row \<in> set (cp_rows s w). row_id (f row) = row_id row \<and> (row_published row \<longrightarrow> row_published (f row))"
    unfolding cpub.delivered_first_def by blast
  from row' f(1) obtain row where row: "row \<in> set (cp_rows s w)" "row' = f row" by auto
  then obtain x where x: "x \<in> set (mv_docs (cp_ov s) w)" "row = abs_document (mo_uuid (cp_box s)) x" by (auto simp: mo_rows_def)
  show ?thesis
  proof (cases "od_PublishedAt x")
    case (Some t)
    with x(2) have "row_published row" by (simp add: abs_document_def)
    with f(2) row show ?thesis by simp
  next
    case None
    from all[OF x(1) None] have "row_id row \<in> ids" by (simp add: x(2))
    moreover have "row_id row' = row_id row" using f(2) row by simp
    ultimately show ?thesis using marked row' by (simp add: cpub.marked_all_def)
  qed
qed

text \<open>The context of a pass has ended: the service's has, or the twenty seconds are over.\<close>

lemma cp_ended:
  "publishCtx_Err (cp_mgr s) (om_Now (cp_mgr s) w + outboxPublishDeadline) x \<noteq> None \<longleftrightarrow>
    cp_CtxErr s x \<noteq> None \<or> cp_Now s w + cs_outboxPublishDeadline \<le> cp_Now s x"
  by (auto simp: publishCtx_Err_def cp_mgr_def cs_outboxPublishDeadline_def outboxPublishDeadline_def split: option.splits)

text \<open>
  C23. With every service up, one pass empties the outbox or runs out of its twenty seconds. Let
  Kafka acknowledge every message and the collection answer every call, its cursor delivering every
  match, unless the context of the call has ended: the service's when it stops, or the pass's own,
  twenty seconds after the pass began. With no event under another instance's lease, either the
  service is stopping, or cs_publishOutbox returns nil and afterwards every event is published or
  the twenty seconds are over (the rest then waits for a later pass).
\<close>

theorem publisher_drains:
  assumes ok: "cp_ok s"
    and kafka: "\<forall>t k p hds x e y. Produce (cp_producer s) t k p hds x = (Inl e, y) \<longrightarrow>
      (errors_is e context_Canceled \<or> errors_is e context_DeadlineExceeded) \<and>
      (cp_CtxErr s y \<noteq> None \<or> cp_Now s w + cs_outboxPublishDeadline \<le> cp_Now s y)"
    and many: "\<forall>n c t x q y. mo_UpdateMany (cp_box s) (unclaimed n) (claim_document c t) x = (q, y) \<longrightarrow>
      (\<exists>k. q = Inr k) \<or> cp_CtxErr s y \<noteq> None"
    and one: "\<forall>k t x q y. (\<exists>z \<in> set (mv_docs (cp_ov s) x). od_Id z = k) \<longrightarrow>
      mo_UpdateOne (cp_box s) (\<lambda>z. od_Id z = k) (\<lambda>z. z\<lparr>od_PublishedAt := Some t\<rparr>) x = (q, y) \<longrightarrow>
      (\<exists>n. q = Inr (Suc n)) \<or> cp_CtxErr s y \<noteq> None"
    and find: "\<forall>p key x q y. mo_Find (cp_box s) p key x = (q, y) \<longrightarrow>
      (\<exists>xs. q = Inr (map Inr xs) \<and> set xs = {z \<in> set (mv_docs (cp_ov s) x). p z}) \<or> cp_CtxErr s y \<noteq> None"
    and free: "\<forall>x \<in> set (mv_docs (cp_ov s) w). od_PublishedAt x = None \<longrightarrow> unclaimed (mo_Now (cp_box s) w) x"
    and pass: "cs_publishOutbox (cp_mgr s) w = (r, w')"
  shows "cp_CtxErr s w' \<noteq> None \<or>
    r = Inr () \<and> ((\<forall>row \<in> set (cp_rows s w'). row_published row) \<or> cp_Now s w + cs_outboxPublishDeadline \<le> cp_Now s w')"
proof (cases "cp_CtxErr s w' = None")
  case open_ctx: True
  let ?dl = "om_Now (cp_mgr s) w + outboxPublishDeadline"
  note run = pass[unfolded cs_publishOutbox_same]
  from ok have box: "mongo_outbox_ok (cp_box s, cp_ov s)" by (simp add: cp_ok_def)
  obtain q w1 where g: "mongo_GetPendingEvents (cp_box s) outboxLeaseDuration w = (q, w1)" by fastforce
  have "cp_CtxErr s w1 \<noteq> None \<or> (\<exists>es. q = Inr es \<and> (\<forall>x \<in> set (mv_docs (cp_ov s) w).
      unclaimed (mo_Now (cp_box s) w) x \<longrightarrow> row_id (abs_document (mo_uuid (cp_box s)) x) \<in> oe_Id ` set es))"
    by (rule pending_complete[where ended = "\<lambda>y. cp_CtxErr s y \<noteq> None", OF box _ _ g];
        erule many[rule_format] find[rule_format])
  then consider "cp_CtxErr s w1 \<noteq> None" | es where "q = Inr es" "\<And>x. x \<in> set (mv_docs (cp_ov s) w) \<Longrightarrow>
      unclaimed (mo_Now (cp_box s) w) x \<Longrightarrow> row_id (abs_document (mo_uuid (cp_box s)) x) \<in> oe_Id ` set es" by blast
  then show ?thesis
  proof cases
    case 1
    then have "publishCtx_Err (cp_mgr s) ?dl w1 \<noteq> None" unfolding cp_ended by (rule disjI1)
    with run g have "w' = w1"
      by (cases q; cases "projr q") (auto simp: publishOutbox_def cp_mgr_def mongo_outbox_def)
    with 1 open_ctx show ?thesis by simp
  next
    case (2 es)
    have run1: "publish_events (cp_mgr s) ?dl es w1 = (r, w')"
      using run g 2(1) by (simp add: publishOutbox_def cp_mgr_def mongo_outbox_def)
    have sub: "oe_Id ` set es \<subseteq> row_id ` set (cp_rows s w1)"
      using cp_claimed_ids[OF ok g[unfolded 2(1)]] mongo_GetPendingEvents_outcome(1)[OF box g] by simp
    have up: "(errors_is e context_Canceled \<or> errors_is e context_DeadlineExceeded) \<and> publishCtx_Err (cp_mgr s) ?dl y \<noteq> None"
      if "om_Produce (cp_mgr s) t k p hds x = (Inl e, y)" for t k p hds x e y
      using kafka that unfolding cp_ended by (simp add: cp_mgr_def)
    have marks: "q = Inr () \<or> om_CtxErr (cp_mgr s) y \<noteq> None"
      if "i \<in> row_id ` set (cp_rows s x)" "ob_MarkPublished (mongo_outbox (cp_box s)) i x = (q, y)" for i x q y
      using mark_succeeds[where ended = "\<lambda>y. cp_CtxErr s y \<noteq> None", OF box _ that(1), of q y] one that(2)
      by (simp add: cp_mgr_def mongo_outbox_def)
    have "cpub.marked_all s {} w1" by (simp add: cpub.marked_all_def)
    from cpub.publish_events_all[OF ok up marks run1 sub this] cp_ended[of s w w'] open_ctx
    have "r = Inr ()" "cpub.marked_all s (oe_Id ` set es) w' \<or> cp_Now s w + cs_outboxPublishDeadline \<le> cp_Now s w'" by auto
    with cp_drained[OF ok run, of "oe_Id ` set es"] 2(2) free show ?thesis by blast
  qed
qed simp

section \<open>A run in memory\<close>

text \<open>One waiting document, claimed, claimed again under its lease, and published.\<close>

definition mem_cp_producer :: "smem ProducerClient" where
  "mem_cp_producer = \<lparr>kp_Produce = \<lambda>t k x hds w. (Inr (), w\<lparr>sx_sent := (t, k, x) # sx_sent w\<rparr>),
     kp_Select = \<lambda>w. (DeliveryReport None, w), kp_ErrorCode = \<lambda>_. None\<rparr>"

definition mem_cp :: "smem cs_publisher" where
  "mem_cp = \<lparr>cp_box = mem_box, cp_ov = mem_ov, cp_producer = mem_cp_producer, cp_CtxErr = \<lambda>_. None, cp_Now = sx_now,
     cp_sent = \<lambda>w. set (sx_sent w)\<rparr>"

lemma mem_cp_ok: "cp_ok mem_cp"
proof -
  have "producer_law mem_cp_producer (\<lambda>w. set (sx_sent w)) (mv_docs mem_ov)"
    by (auto simp: producer_law_def mem_cp_producer_def mem_ov_def)
  moreover have "box_keeps_sent mem_cp"
    by (auto simp: box_keeps_sent_def mem_cp_def mem_box_def coll_update_one_def coll_update_many_def coll_write_def put_box_def
        split: option.splits if_splits)
  ultimately show ?thesis using mem_box_ok by (simp add: cp_ok_def mem_cp_def)
qed

definition waiting_doc :: outboxDocument where
  "waiting_doc = \<lparr>od_Id = ''0'', od_Topic = ''t'', od_Key = ''k'', od_Payload = ''p'', od_CreatedAt = 0, od_PublishedAt = None,
     od_ProcessingUntil = None, od_ClaimID = '''', od_TraceContext = []\<rparr>"

definition box_world :: smem where
  "box_world = \<lparr>sx_cons = [], sx_box = [waiting_doc], sx_pays = Map.empty, sx_ids = [], sx_now = 0, sx_sent = [],
     sx_box_down = False, sx_pay_lost = False\<rparr>"

lemma nat_digits_012: "nat_digits 0 = ''0''" "nat_digits (Suc 0) = ''1''" "nat_digits (Suc (Suc 0)) = ''2''"
proof -
  have "char_of (48 :: nat) = CHR ''0''" "char_of (49 :: nat) = CHR ''1''" "char_of (50 :: nat) = CHR ''2''"
    by (simp_all add: char_of_def bit_iff_odd)
  then show "nat_digits 0 = ''0''" "nat_digits (Suc 0) = ''1''" "nat_digits (Suc (Suc 0)) = ''2''"
    by (simp_all add: nat_digits.simps digit_char_def)
qed

lemma waiting_ok: "box_okl [waiting_doc]" "box_okl [claim_document c t waiting_doc]"
  by (simp_all add: box_okl_def waiting_doc_def claim_document_def mem_uuid_def parse_digits_def nat_digits_012)

lemma box_fresh: "fresh_uuid [waiting_doc] = 1" "fresh_uuid [claim_document ''1'' t waiting_doc] = 2"
  by (simp_all add: fresh_uuid_def used_uuids_def waiting_doc_def claim_document_def nat_digits_012 numeral_3_eq_3 numeral_2_eq_2)

lemma mem_uuid_01: "uuid_String mem_uuid 1 = ''1''" "uuid_String mem_uuid 2 = ''2''" "uuid_Parse mem_uuid ''0'' = Inr 0"
  using uuid_okD[OF mem_uuid_ok, of 0] by (simp_all add: mem_uuid_def nat_digits_012 nat_digits_012(3)[folded numeral_2_eq_2])

lemma box_claim: "mongo_GetPendingEvents mem_box l box_world =
   (Inr [document_event 0 (claim_document ''1'' l waiting_doc)], box_world\<lparr>sx_box := [claim_document ''1'' l waiting_doc]\<rparr>)"
proof -
  have un: "unclaimed 0 waiting_doc" "claimed_by ''1'' (claim_document ''1'' l waiting_doc)"
    by (simp_all add: unclaimed_def claimed_by_def waiting_doc_def claim_document_def)
  have id: "od_Id (claim_document ''1'' l waiting_doc) = ''0''" by (simp add: claim_document_def waiting_doc_def)
  show ?thesis
    by (simp add: mongo_GetPendingEvents_def Let_def mem_box_def box_world_def coll_update_many_def coll_write_def coll_view_def
        put_box_def where_update_def waiting_ok box_fresh mem_uuid_01 un id)
qed

lemma box_claim_again: "mongo_GetPendingEvents mem_box 30 (box_world\<lparr>sx_box := [claim_document ''1'' 30 waiting_doc]\<rparr>) =
    (Inr [], box_world\<lparr>sx_box := [claim_document ''1'' 30 waiting_doc]\<rparr>)"
proof -
  have un: "\<not> unclaimed 0 (claim_document ''1'' 30 waiting_doc)" "\<not> claimed_by ''2'' (claim_document ''1'' 30 waiting_doc)"
    by (simp_all add: unclaimed_def waiting_doc_def claim_document_def claimed_by_def)
  show ?thesis
    by (simp add: mongo_GetPendingEvents_def Let_def mem_box_def box_world_def coll_update_many_def coll_write_def coll_view_def
        put_box_def where_update_def waiting_ok mem_uuid_01 un box_fresh)
qed

lemma mongo_lease_excludes_witness:
  "oe_Id ` set [document_event 0 (claim_document ''1'' 30 waiting_doc)] \<inter>
     oe_Id ` set (projr (fst (mongo_GetPendingEvents mem_box 30 (snd (mongo_GetPendingEvents mem_box 30 box_world))))) = {}"
proof -
  have "mo_Now mem_box (box_world\<lparr>sx_box := [claim_document ''1'' 30 waiting_doc]\<rparr>) \<le> mo_Now mem_box box_world + 30"
    by (simp add: mem_box_def)
  from mongo_lease_excludes[OF mem_box_ok box_claim refl box_claim_again this] show ?thesis
    by (simp add: box_claim box_claim_again)
qed

lemma box_okl_ids:
  assumes "map od_Id xs = map od_Id ys"
  shows "box_okl xs \<longleftrightarrow> box_okl ys"
proof -
  have "box_okl zs \<longleftrightarrow> distinct (map od_Id zs) \<and> length (map od_Id zs) < 2 ^ 100 \<and>
      list_all (\<lambda>i. i = uuid_String mem_uuid (of_nat (parse_digits i))) (map od_Id zs)" for zs
    by (simp add: box_okl_def list_all_iff)
  from this[of xs] this[of ys] show ?thesis by (simp only: assms)
qed

lemma claim_okl: "box_okl (where_update p (claim_document c t) xs) \<longleftrightarrow> box_okl xs"
  by (rule box_okl_ids) (simp add: where_update_keys claim_document_def)

lemma published_okl: "box_okl (xs[i := (xs ! i)\<lparr>od_PublishedAt := t\<rparr>]) \<longleftrightarrow> box_okl xs"
  by (rule box_okl_ids, cases "i < length xs") (simp_all add: map_update list_update_same_conv list_update_beyond)

text \<open>The publisher's clock stands still in memory, so the pass has all the time it needs.\<close>

lemma box_pass_clock: "sx_now (snd (cs_publishOutbox (cp_mgr mem_cp) box_world)) = 0"
proof -
  have mark: "sx_now (snd (mongo_MarkPublished mem_box i w)) = sx_now w" for i w
    by (simp add: mongo_MarkPublished_def mem_box_def coll_update_one_def coll_write_def put_box_def
        split: option.split prod.split sum.split if_split)
  show ?thesis
    by (simp add: cs_publishOutbox_def cp_mgr_def mem_cp_def mongo_outbox_def box_claim)
       (simp add: publishCtx_Err_def cs_outboxPublishDeadline_def Produce_def mem_cp_producer_def box_world_def mark)
qed

theorem publisher_drains_witness:
  "list_all row_published (cp_rows mem_cp (snd (cs_publishOutbox (cp_mgr mem_cp) box_world)))"
proof -
  let ?fin = "snd (cs_publishOutbox (cp_mgr mem_cp) box_world)"
  have many: "\<forall>n c t x q y. mo_UpdateMany mem_box (unclaimed n) (claim_document c t) x = (q, y) \<longrightarrow>
      (\<exists>k. q = Inr k) \<or> cp_CtxErr mem_cp y \<noteq> None"
    by (auto simp: mem_box_def coll_update_many_def coll_write_def claim_okl)
  have one: "\<forall>k t x q y. (\<exists>z \<in> set (mv_docs mem_ov x). od_Id z = k) \<longrightarrow>
      mo_UpdateOne mem_box (\<lambda>z. od_Id z = k) (\<lambda>z. z\<lparr>od_PublishedAt := Some t\<rparr>) x = (q, y) \<longrightarrow>
      (\<exists>n. q = Inr (Suc n)) \<or> cp_CtxErr mem_cp y \<noteq> None"
    by (auto simp: mem_box_def mem_ov_def coll_update_one_def coll_write_def coll_view_def published_okl first_index_None list_ex_iff
        split: option.splits if_splits)
  have find: "\<forall>p key x q y. mo_Find mem_box p key x = (q, y) \<longrightarrow>
      (\<exists>xs. q = Inr (map Inr xs) \<and> set xs = {z \<in> set (mv_docs mem_ov x). p z}) \<or> cp_CtxErr mem_cp y \<noteq> None"
    by (auto simp: mem_box_def mem_ov_def intro!: exI[of _ "filter p (coll_view box_okl (sx_box w))" for p w])
  have kafka: "\<forall>t k p hds x e y. Produce (cp_producer mem_cp) t k p hds x = (Inl e, y) \<longrightarrow>
      (errors_is e context_Canceled \<or> errors_is e context_DeadlineExceeded) \<and>
      (cp_CtxErr mem_cp y \<noteq> None \<or> cp_Now mem_cp box_world + cs_outboxPublishDeadline \<le> cp_Now mem_cp y)"
    by (simp add: mem_cp_def Produce_def mem_cp_producer_def)
  have free: "\<forall>x \<in> set (mv_docs mem_ov box_world). od_PublishedAt x = None \<longrightarrow> unclaimed (mo_Now mem_box box_world) x"
    by (auto simp: mem_ov_def box_world_def coll_view_def unclaimed_def waiting_doc_def)
  have "cp_CtxErr mem_cp ?fin \<noteq> None \<or> fst (cs_publishOutbox (cp_mgr mem_cp) box_world) = Inr () \<and>
      ((\<forall>row \<in> set (cp_rows mem_cp ?fin). row_published row) \<or>
       cp_Now mem_cp box_world + cs_outboxPublishDeadline \<le> cp_Now mem_cp ?fin)"
    by (rule publisher_drains[OF mem_cp_ok kafka]) (use many one find free in \<open>simp_all add: mem_cp_def\<close>)
  moreover have "cp_CtxErr mem_cp ?fin = None" "cp_Now mem_cp box_world = 0" "cp_Now mem_cp ?fin = 0"
    using box_pass_clock by (simp_all add: mem_cp_def box_world_def)
  ultimately show ?thesis by (simp add: list_all_iff cs_outboxPublishDeadline_def)
qed

end
