(* ===== verification/Database_Clients.thy ===== *)
theory Database_Clients
  imports Prelude
begin

text \<open>
  How the services connect to their databases: \<open>CreateMongoClient\<close> of
  \<open>cmd/vessel-service/database.go\<close>, \<open>CreateClient\<close> of
  \<open>cmd/consignment-service/storage/mongo/mongo.go\<close> and \<open>CreatePostgresClient\<close> of
  \<open>cmd/user-service/database.go\<close>, which try again two seconds later while their counter is below 3,
  and \<open>NewDB\<close> of \<open>cmd/reservation-service/storage/postgres/postgres.go\<close>, which does not. They
  terminate from every counter, and give the first result that ends the tries.
\<close>

section \<open>MongoDB\<close>

text \<open>The driver and \<open>time.Sleep\<close> of two seconds; \<open>'c\<close> is the type of its client handles.\<close>

record ('c, 'w) MongoDial =
  md_Connect :: "string \<Rightarrow> 'w \<Rightarrow> (goerr + 'c) \<times> 'w"
  md_Ping :: "'c \<Rightarrow> 'w \<Rightarrow> (goerr + unit) \<times> 'w"
  md_Sleep :: "'w \<Rightarrow> 'w"

lemma retry_measure:
  fixes x :: "'a::len word"
  assumes "sint x < 3" and "(4 :: int) \<le> 2 ^ (LENGTH('a) - Suc 0)"
  shows "nat (3 - sint x) = Suc (nat (3 - sint (x + 1)))"
proof -
  have "sint (x + 1) = sint x + 1"
    using assms sint_ge[of x] by (cases "LENGTH('a) = Suc 0") (simp_all add: sint_word_ariths signed_take_bit_int_eq_self)
  with assms(1) show ?thesis by simp
qed

lemma retry_counts:
  "\<not> 3 \<le>s (x :: int32) \<Longrightarrow> nat (3 - sint x) = Suc (nat (3 - sint (x + 1)))"
  "\<not> 3 \<le>s (y :: 64 word) \<Longrightarrow> nat (3 - sint y) = Suc (nat (3 - sint (y + 1)))"
  by (rule retry_measure; simp add: word_sle_eq)+

function CreateMongoClient :: "('c, 'w) MongoDial \<Rightarrow> string \<Rightarrow> int32 \<Rightarrow> 'w \<Rightarrow> (goerr + 'c) \<times> 'w" where
  "CreateMongoClient d uri retry w =
    (case md_Connect d uri w of
       (Inl err, w1) \<Rightarrow> (Inl err, w1)
     | (Inr conn, w1) \<Rightarrow>
       (case md_Ping d conn w1 of
          (Inl err, w2) \<Rightarrow>
            if 3 \<le>s retry then (Inl err, w2)
            else CreateMongoClient d uri (retry + 1) (md_Sleep d w2)
        | (Inr _, w2) \<Rightarrow> (Inr conn, w2)))"
  by pat_completeness auto
termination
  by (relation "measure (\<lambda>(d, uri, retry, w). nat (3 - sint retry))") (simp_all add: retry_counts)

function CreateClient :: "('c, 'w) MongoDial \<Rightarrow> string \<Rightarrow> int32 \<Rightarrow> 'w \<Rightarrow> (goerr + 'c) \<times> 'w" where
  "CreateClient d uri retry w =
    (case md_Connect d uri w of
       (Inl err, w1) \<Rightarrow> (Inl err, w1)
     | (Inr conn, w1) \<Rightarrow>
       (case md_Ping d conn w1 of
          (Inl err, w2) \<Rightarrow>
            if 3 \<le>s retry then (Inl err, w2)
            else CreateClient d uri (retry + 1) (md_Sleep d w2)
        | (Inr _, w2) \<Rightarrow> (Inr conn, w2)))"
  by pat_completeness auto
termination
  by (relation "measure (\<lambda>(d, uri, retry, w). nat (3 - sint retry))") (simp_all add: retry_counts)

declare CreateMongoClient.simps [simp del] CreateClient.simps [simp del]

section \<open>PostgreSQL\<close>

text \<open>\<open>sqlx.Connect\<close> opens and pings. The counter is a Go \<open>int\<close>, 64 bits wide.\<close>

record ('c, 'w) SqlxDial =
  sd_Connect :: "string \<Rightarrow> 'w \<Rightarrow> (goerr + 'c) \<times> 'w"
  sd_Sleep :: "'w \<Rightarrow> 'w"

definition postgres_dsn :: "string \<Rightarrow> string \<Rightarrow> string \<Rightarrow> string \<Rightarrow> string" where
  "postgres_dsn host user password dbname =
    ''host='' @ host @ '' user='' @ user @ '' password='' @ password @ '' dbname='' @ dbname @ '' sslmode=disable''"

function CreatePostgresClient ::
  "('c, 'w) SqlxDial \<Rightarrow> string \<Rightarrow> string \<Rightarrow> string \<Rightarrow> string \<Rightarrow> 64 word \<Rightarrow> 'w \<Rightarrow> (goerr + 'c) \<times> 'w" where
  "CreatePostgresClient d host user password dbname retry w =
    (case sd_Connect d (postgres_dsn host user password dbname) w of
       (Inl err, w1) \<Rightarrow>
         if 3 \<le>s retry then (Inl err, w1)
         else CreatePostgresClient d host user password dbname (retry + 1) (sd_Sleep d w1)
     | (Inr db, w1) \<Rightarrow> (Inr db, w1))"
  by pat_completeness auto
termination
  by (relation "measure (\<lambda>(d, h, u, p, n, retry, w). nat (3 - sint retry))") (simp_all add: retry_counts)

declare CreatePostgresClient.simps [simp del]

text \<open>The pool of the reservation service: a pool whose ping fails is closed.\<close>

record ('f, 'p, 'w) PgxDial =
  px_ParseConfig :: "string \<Rightarrow> goerr + 'f"
  px_SetConns :: "nat \<Rightarrow> nat \<Rightarrow> 'f \<Rightarrow> 'f"
  px_NewWithConfig :: "'f \<Rightarrow> 'w \<Rightarrow> (goerr + 'p) \<times> 'w"
  px_Ping :: "'p \<Rightarrow> 'w \<Rightarrow> (goerr + unit) \<times> 'w"
  px_Close :: "'p \<Rightarrow> 'w \<Rightarrow> 'w"

record DBConfig =
  db_Host :: string
  db_Port :: string
  db_Name :: string
  db_User :: string
  db_Password :: string

definition pool_dsn :: "DBConfig \<Rightarrow> string" where
  "pool_dsn cfg = ''postgres://'' @ db_User cfg @ '':'' @ db_Password cfg @ ''@'' @ db_Host cfg @ '':'' @ db_Port cfg @
     ''/'' @ db_Name cfg @ ''?sslmode=disable''"

definition NewDB :: "('f, 'p, 'w) PgxDial \<Rightarrow> DBConfig \<Rightarrow> 'w \<Rightarrow> (goerr + 'p) \<times> 'w" where
  "NewDB d cfg w =
    (case px_ParseConfig d (pool_dsn cfg) of
       Inl err \<Rightarrow> (Inl (Errorf ''failed to parse database config'' [err]), w)
     | Inr poolConfig \<Rightarrow>
       (case px_NewWithConfig d (px_SetConns d 10 2 poolConfig) w of
          (Inl err, w1) \<Rightarrow> (Inl (Errorf ''failed to create connection pool'' [err]), w1)
        | (Inr pool, w1) \<Rightarrow>
          (case px_Ping d pool w1 of
             (Inl err, w2) \<Rightarrow> (Inl (Errorf ''failed to ping database'' [err]), px_Close d pool w2)
           | (Inr _, w2) \<Rightarrow> (Inr pool, w2))))"

section \<open>The reference\<close>

text \<open>
  A try ends the loop (\<open>Inr\<close> its result) or asks for another one (\<open>Inl\<close> its error). \<open>retried\<close> runs one
  try and up to \<open>n\<close> more, with a pause before each: it is stated by the number of the first try that
  ends the loop, not by a loop.
\<close>

definition after_tries :: "('w \<Rightarrow> (goerr + 'a) \<times> 'w) \<Rightarrow> ('w \<Rightarrow> 'w) \<Rightarrow> nat \<Rightarrow> 'w \<Rightarrow> 'w" where
  "after_tries f pause i w = ((\<lambda>v. pause (snd (f v))) ^^ i) w"

definition nth_try :: "('w \<Rightarrow> (goerr + 'a) \<times> 'w) \<Rightarrow> ('w \<Rightarrow> 'w) \<Rightarrow> nat \<Rightarrow> 'w \<Rightarrow> (goerr + 'a) \<times> 'w" where
  "nth_try f pause i w = f (after_tries f pause i w)"

definition retried :: "nat \<Rightarrow> ('w \<Rightarrow> (goerr + 'a) \<times> 'w) \<Rightarrow> ('w \<Rightarrow> 'w) \<Rightarrow> 'w \<Rightarrow> (goerr + 'a) \<times> 'w" where
  "retried n f pause w =
    (case find (\<lambda>i. \<not> isl (fst (nth_try f pause i w))) [0..<Suc n] of
       Some i \<Rightarrow> nth_try f pause i w
     | None \<Rightarrow> nth_try f pause n w)"

lemma nth_try_Suc: "f w = (r, w') \<Longrightarrow> nth_try f pause (Suc i) w = nth_try f pause i (pause w')"
  by (simp add: nth_try_def after_tries_def funpow_Suc_right del: funpow.simps)

lemma find_map: "find P (map g xs) = map_option g (find (P \<circ> g) xs)"
  by (induction xs) simp_all

lemma retried_simps:
  "f w = (Inr a, w') \<Longrightarrow> retried n f pause w = (Inr a, w')"
  "f w = (Inl e, w') \<Longrightarrow> retried 0 f pause w = (Inl e, w')"
  "f w = (Inl e, w') \<Longrightarrow> retried (Suc n) f pause w = retried n f pause (pause w')"
proof -
  have zero: "nth_try f pause 0 v = f v" for v by (simp add: nth_try_def after_tries_def)
  have upt: "[0..<Suc m] = 0 # [1..<Suc m]" for m by (simp add: upt_conv_Cons)
  show "retried n f pause w = (Inr a, w')" if "f w = (Inr a, w')"
    unfolding retried_def upt using that by (simp add: zero)
  show "retried 0 f pause w = (Inl e, w')" if "f w = (Inl e, w')"
    using that by (simp add: retried_def zero)
  show "retried (Suc n) f pause w = retried n f pause (pause w')" if f: "f w = (Inl e, w')"
  proof -
    have "[0..<Suc (Suc n)] = 0 # map Suc [0..<Suc n]" by (simp add: map_Suc_upt upt_conv_Cons del: upt_Suc)
    then have "find (\<lambda>i. \<not> isl (fst (nth_try f pause i w))) [0..<Suc (Suc n)] =
        map_option Suc (find (\<lambda>i. \<not> isl (fst (nth_try f pause i (pause w')))) [0..<Suc n])"
      by (simp add: zero f find_map comp_def nth_try_Suc[where f = f, OF f] del: upt_Suc)
    then show ?thesis
      unfolding retried_def by (simp add: nth_try_Suc[where f = f, OF f] split: option.splits del: upt_Suc)
  qed
qed

text \<open>One try of the MongoDB clients: a failing \<open>Connect\<close> ends the loop.\<close>

definition dial :: "('c, 'w) MongoDial \<Rightarrow> string \<Rightarrow> 'w \<Rightarrow> (goerr + (goerr + 'c)) \<times> 'w" where
  "dial d uri w =
    (case md_Connect d uri w of
       (Inl err, w1) \<Rightarrow> (Inr (Inl err), w1)
     | (Inr conn, w1) \<Rightarrow>
       (case md_Ping d conn w1 of (Inl err, w2) \<Rightarrow> (Inl err, w2) | (Inr _, w2) \<Rightarrow> (Inr (Inr conn), w2)))"

definition last_result :: "goerr + (goerr + 'c) \<Rightarrow> goerr + 'c" where
  "last_result r = (case r of Inl err \<Rightarrow> Inl err | Inr q \<Rightarrow> q)"

lemma CreateMongoClient_retried:
  "CreateMongoClient d uri retry w = map_prod last_result id (retried (nat (3 - sint retry)) (dial d uri) (md_Sleep d) w)"
proof (induction d uri retry w rule: CreateMongoClient.induct)
  case (1 d uri retry w)
  obtain q w1 where c: "md_Connect d uri w = (q, w1)" by fastforce
  show ?case
  proof (cases q)
    case (Inl e)
    then have "dial d uri w = (Inr (Inl e), w1)" by (simp add: dial_def c)
    from retried_simps(1)[where f = "dial d uri", OF this] Inl c show ?thesis
      by (subst CreateMongoClient.simps) (simp add: last_result_def)
  next
    case (Inr conn)
    obtain p w2 where g: "md_Ping d conn w1 = (p, w2)" by fastforce
    show ?thesis
    proof (cases p)
      case (Inr u)
      with g c \<open>q = Inr conn\<close> have "dial d uri w = (Inr (Inr conn), w2)" by (simp add: dial_def)
      from retried_simps(1)[where f = "dial d uri", OF this] g c \<open>q = Inr conn\<close> Inr show ?thesis
        by (subst CreateMongoClient.simps) (simp add: last_result_def)
    next
      case (Inl e)
      with g c \<open>q = Inr conn\<close> have f: "dial d uri w = (Inl e, w2)" by (simp add: dial_def)
      show ?thesis
      proof (cases "3 \<le>s retry")
        case True
        then have "nat (3 - sint retry) = 0" by (simp add: word_sle_eq)
        with retried_simps(2)[where f = "dial d uri", OF f] g c \<open>q = Inr conn\<close> Inl True show ?thesis
          by (subst CreateMongoClient.simps) (simp add: last_result_def)
      next
        case False
        with retry_counts(1)[OF False] retried_simps(3)[where f = "dial d uri", OF f] "1.IH"[OF _ \<open>q = Inr conn\<close> _ Inl False] g c \<open>q = Inr conn\<close> Inl False show ?thesis
          by (subst CreateMongoClient.simps) (simp add: id_def)
      qed
    qed
  qed
qed

text \<open>The client of the consignment service is the same function.\<close>

lemma CreateClient_same: "CreateClient d uri retry w = CreateMongoClient d uri retry w"
  by (induction d uri retry w rule: CreateMongoClient.induct)
    (subst CreateClient.simps, subst CreateMongoClient.simps, auto split: prod.splits sum.splits)

lemma CreatePostgresClient_retried:
  "CreatePostgresClient d host user password dbname retry w =
     retried (nat (3 - sint retry)) (sd_Connect d (postgres_dsn host user password dbname)) (sd_Sleep d) w"
proof (induction d host user password dbname retry w rule: CreatePostgresClient.induct)
  case (1 d host user password dbname retry w)
  obtain q w1 where c: "sd_Connect d (postgres_dsn host user password dbname) w = (q, w1)" by fastforce
  show ?case
  proof (cases q)
    case (Inr db)
    with retried_simps(1)[where f = "sd_Connect d (postgres_dsn host user password dbname)", OF c[unfolded Inr]] c show ?thesis by (subst CreatePostgresClient.simps) simp
  next
    case (Inl e)
    note c = c[unfolded Inl]
    show ?thesis
    proof (cases "3 \<le>s retry")
      case True
      then have "nat (3 - sint retry) = 0" by (simp add: word_sle_eq)
      with retried_simps(2)[where f = "sd_Connect d (postgres_dsn host user password dbname)", OF c] c True show ?thesis by (subst CreatePostgresClient.simps) simp
    next
      case False
      with retry_counts(2)[OF False] retried_simps(3)[where f = "sd_Connect d (postgres_dsn host user password dbname)", OF c] "1.IH"[OF c[symmetric] refl False] c show ?thesis
        by (subst CreatePostgresClient.simps) simp
    qed
  qed
qed

text \<open>
  C38. The services dial their databases a bounded number of times and take the first result that
  counts. Called with any counter, the loops of the three clients end; they are the reference: the
  first of the tries \<open>0 .. 3 - counter\<close> that ends the loop, or the last of them, where for MongoDB a
  failing Connect ends the loop and only a failing ping asks for another try.
\<close>

theorem clients_match_reference:
  "CreateMongoClient d uri retry w = map_prod last_result id (retried (nat (3 - sint retry)) (dial d uri) (md_Sleep d) w) \<and>
   CreateClient d uri retry w = map_prod last_result id (retried (nat (3 - sint retry)) (dial d uri) (md_Sleep d) w) \<and>
   CreatePostgresClient s host user password dbname count v =
     retried (nat (3 - sint count)) (sd_Connect s (postgres_dsn host user password dbname)) (sd_Sleep s) v"
  by (simp add: CreateMongoClient_retried CreateClient_same CreatePostgresClient_retried)

end
