(* ===== verification/User_Service.thy ===== *)
theory User_Service
  imports Mongo_Driver Outbox
begin

text \<open>
  \<open>cmd/user-service\<close>: users in PostgreSQL (\<open>repository.go\<close>), passwords hashed with bcrypt and JWT
  tokens (\<open>token_service.go\<close>), and the gRPC handlers over them (\<open>handler.go\<close>). The database client,
  bcrypt and the JWT library are parameters. A panic is the result \<open>None\<close>. The \<open>errors\<close> field of the
  responses is left out: the code never sets it.
\<close>

section \<open>Users\<close>

record User =
  usr_ID :: string
  usr_Name :: string
  usr_Email :: string
  usr_Company :: string
  usr_Password :: string

record PbUser =
  pus_Id :: string
  pus_Name :: string
  pus_Company :: string
  pus_Email :: string
  pus_Password :: string

record UserResponse =
  urs_User :: "PbUser option"
  urs_Users :: "PbUser list"

record Token =
  tok_Token :: string
  tok_Valid :: bool

definition zero_Token :: Token where
  "zero_Token = \<lparr>tok_Token = '''', tok_Valid = False\<rparr>"

definition MarshalUser :: "PbUser \<Rightarrow> User" where
  "MarshalUser user = \<lparr>usr_ID = pus_Id user, usr_Name = pus_Name user, usr_Email = pus_Email user,
     usr_Company = pus_Company user, usr_Password = pus_Password user\<rparr>"

definition UnmarshalUser :: "User \<Rightarrow> PbUser" where
  "UnmarshalUser user = \<lparr>pus_Id = usr_ID user, pus_Name = usr_Name user, pus_Company = usr_Company user,
     pus_Email = usr_Email user, pus_Password = usr_Password user\<rparr>"

definition MarshalUserCollection :: "PbUser list \<Rightarrow> User list" where
  "MarshalUserCollection users = map MarshalUser users"

definition UnmarshalUserCollection :: "User list \<Rightarrow> PbUser list" where
  "UnmarshalUserCollection users = map UnmarshalUser users"

lemma user_roundtrip [simp, conv_simps]: "MarshalUser (UnmarshalUser u) = u" "UnmarshalUser (MarshalUser p) = p"
  by (simp_all add: MarshalUser_def UnmarshalUser_def)

section \<open>The repository\<close>

record 'w UserRepository =
  ur_GetAll :: "'w \<Rightarrow> (goerr + User list) \<times> 'w"
  ur_Get :: "string \<Rightarrow> 'w \<Rightarrow> (goerr + User) \<times> 'w"
  ur_Create :: "User \<Rightarrow> 'w \<Rightarrow> ((goerr + unit) \<times> User) \<times> 'w"
  ur_GetByEmail :: "string \<Rightarrow> 'w \<Rightarrow> (goerr + User) \<times> 'w"

text \<open>
  The sqlx handle: \<open>SelectContext\<close> of all users, \<open>GetContext\<close> of the first row that matches, the
  insertion, and the UUID library.
\<close>

record 'w UsersDB =
  us_Select :: "'w \<Rightarrow> (goerr + User list) \<times> 'w"
  us_Get :: "(User \<Rightarrow> bool) \<Rightarrow> 'w \<Rightarrow> (goerr + User) \<times> 'w"
  us_Insert :: "User \<Rightarrow> 'w \<Rightarrow> (goerr + unit) \<times> 'w"
  us_NewV4 :: "'w \<Rightarrow> string \<times> 'w"

definition users_GetAll :: "'w UsersDB \<Rightarrow> 'w \<Rightarrow> (goerr + User list) \<times> 'w" where
  "users_GetAll r w = us_Select r w"

definition users_Get :: "'w UsersDB \<Rightarrow> string \<Rightarrow> 'w \<Rightarrow> (goerr + User) \<times> 'w" where
  "users_Get r i w = us_Get r (\<lambda>u. usr_ID u = i) w"

text \<open>The id is written into the caller's struct, whether the insertion succeeds or not.\<close>

definition users_Create :: "'w UsersDB \<Rightarrow> User \<Rightarrow> 'w \<Rightarrow> ((goerr + unit) \<times> User) \<times> 'w" where
  "users_Create r user w =
    (case us_NewV4 r w of (i, w1) \<Rightarrow>
      (let user1 = user\<lparr>usr_ID := i\<rparr> in
       case us_Insert r user1 w1 of (q, w2) \<Rightarrow> ((q, user1), w2)))"

definition users_GetByEmail :: "'w UsersDB \<Rightarrow> string \<Rightarrow> 'w \<Rightarrow> (goerr + User) \<times> 'w" where
  "users_GetByEmail r email w = us_Get r (\<lambda>u. usr_Email u = email) w"

definition postgres_users :: "'w UsersDB \<Rightarrow> 'w UserRepository" where
  "postgres_users r = \<lparr>ur_GetAll = users_GetAll r, ur_Get = users_Get r, ur_Create = users_Create r,
     ur_GetByEmail = users_GetByEmail r\<rparr>"

section \<open>Tokens\<close>

text \<open>
  The claims, and the JWT library: signing with HS256 under a secret, and parsing with a key function
  that returns the secret, which yields the claims and whether the token is valid. Times are in
  nanoseconds, \<open>Unix\<close> is in seconds; the seconds of a time of this century are far within 64 bits.
\<close>

record CustomClaims =
  ccl_User :: "PbUser option"
  ccl_ExpiresAt :: int
  ccl_Issuer :: string

record jwt_lib =
  jwt_SignedString :: "CustomClaims \<Rightarrow> string \<Rightarrow> goerr + string"
  jwt_ParseWithClaims :: "string \<Rightarrow> string \<Rightarrow> time \<Rightarrow> goerr + (CustomClaims \<times> bool)"

definition Unix :: "time \<Rightarrow> int" where
  "Unix t = t div 10 ^ 9"

definition tokenLifetime :: time where
  "tokenLifetime = 72 * 3600 * 10 ^ 9"

text \<open>Claims that are not valid come back as a nil pointer without an error.\<close>

definition token_Decode :: "jwt_lib \<Rightarrow> string \<Rightarrow> time \<Rightarrow> string \<Rightarrow> goerr + CustomClaims option" where
  "token_Decode j jwtSecret now token =
    (case jwt_ParseWithClaims j token jwtSecret now of
       Inl err \<Rightarrow> Inl err
     | Inr (claims, valid) \<Rightarrow> if valid then Inr (Some claims) else Inr None)"

definition token_Encode :: "jwt_lib \<Rightarrow> string \<Rightarrow> time \<Rightarrow> PbUser \<Rightarrow> goerr + string" where
  "token_Encode j jwtSecret now user =
    jwt_SignedString j \<lparr>ccl_User = Some user, ccl_ExpiresAt = Unix (now + tokenLifetime), ccl_Issuer = ''shipping.UserService''\<rparr>
      jwtSecret"

section \<open>The handlers\<close>

record bcrypt_lib =
  bc_Compare :: "string \<Rightarrow> string \<Rightarrow> goerr option"

text \<open>Hashing draws a salt from the world.\<close>

record 'w UserHandler =
  uh_repository :: "'w UserRepository"
  uh_jwt :: jwt_lib
  uh_jwtSecret :: string
  uh_GenerateFromPassword :: "string \<Rightarrow> 'w \<Rightarrow> (goerr + string) \<times> 'w"
  uh_bcrypt :: bcrypt_lib
  uh_Now :: "'w \<Rightarrow> time"

definition user_Get :: "'w UserHandler \<Rightarrow> PbUser \<Rightarrow> 'w \<Rightarrow> (goerr + UserResponse) \<times> 'w" where
  "user_Get h req w =
    (case ur_Get (uh_repository h) (pus_Id req) w of
       (Inl err, w1) \<Rightarrow> (Inl (StatusErr NotFound ''user not found''), w1)
     | (Inr result, w1) \<Rightarrow> (Inr \<lparr>urs_User = Some (UnmarshalUser result), urs_Users = []\<rparr>, w1))"

definition user_GetAll :: "'w UserHandler \<Rightarrow> 'w \<Rightarrow> (goerr + UserResponse) \<times> 'w" where
  "user_GetAll h w =
    (case ur_GetAll (uh_repository h) w of
       (Inl err, w1) \<Rightarrow> (Inl (StatusErr Internal ''failed to get users''), w1)
     | (Inr results, w1) \<Rightarrow> (Inr \<lparr>urs_User = None, urs_Users = UnmarshalUserCollection results\<rparr>, w1))"

definition user_Auth :: "'w UserHandler \<Rightarrow> PbUser \<Rightarrow> 'w \<Rightarrow> (goerr + Token) \<times> 'w" where
  "user_Auth h req w =
    (case ur_GetByEmail (uh_repository h) (pus_Email req) w of
       (Inl err, w1) \<Rightarrow> (Inl (StatusErr Unauthenticated ''invalid credentials''), w1)
     | (Inr user, w1) \<Rightarrow>
       (case bc_Compare (uh_bcrypt h) (usr_Password user) (pus_Password req) of
          Some err \<Rightarrow> (Inl (StatusErr Unauthenticated ''invalid credentials''), w1)
        | None \<Rightarrow>
          (case token_Encode (uh_jwt h) (uh_jwtSecret h) (uh_Now h w1) (UnmarshalUser user) of
             Inl err \<Rightarrow> (Inl (StatusErr Internal ''failed to generate token''), w1)
           | Inr token \<Rightarrow> (Inr (zero_Token\<lparr>tok_Token := token\<rparr>), w1))))"

definition user_Create :: "'w UserHandler \<Rightarrow> PbUser \<Rightarrow> 'w \<Rightarrow> (goerr + UserResponse) \<times> 'w" where
  "user_Create h req0 w =
    (case uh_GenerateFromPassword h (pus_Password req0) w of
       (Inl err, w1) \<Rightarrow> (Inl (StatusErr Internal ''failed to hash password''), w1)
     | (Inr hashedPass, w1) \<Rightarrow>
       (let u = MarshalUser (req0\<lparr>pus_Password := hashedPass\<rparr>) in
        case ur_Create (uh_repository h) u w1 of
          ((Inl err, _), w2) \<Rightarrow> (Inl (StatusErr Internal ''failed to create user''), w2)
        | ((Inr _, u1), w2) \<Rightarrow>
            (Inr \<lparr>urs_User = Some ((UnmarshalUser u1)\<lparr>pus_Password := ''''\<rparr>), urs_Users = []\<rparr>, w2)))"

text \<open>\<open>claims.User.Id\<close> dereferences two pointers.\<close>

definition user_ValidateToken :: "'w UserHandler \<Rightarrow> Token \<Rightarrow> 'w \<Rightarrow> (goerr + Token) option" where
  "user_ValidateToken h req w =
    (case token_Decode (uh_jwt h) (uh_jwtSecret h) (uh_Now h w) (tok_Token req) of
       Inl err \<Rightarrow> Some (Inl (StatusErr Unauthenticated ''invalid token''))
     | Inr None \<Rightarrow> None
     | Inr (Some claims) \<Rightarrow>
       (case ccl_User claims of
          None \<Rightarrow> None
        | Some user \<Rightarrow>
            if pus_Id user = '''' then Some (Inl (StatusErr Unauthenticated ''invalid token''))
            else Some (Inr (zero_Token\<lparr>tok_Valid := True\<rparr>))))"

section \<open>What the libraries promise\<close>

text \<open>
  PostgreSQL, seen as the list of rows: ids and emails are unique (\<open>sql/init.sql\<close>), a query answers with
  a row it holds, an insertion adds a row or, if it fails, may have added it.
\<close>

definition rows_unique :: "User list \<Rightarrow> bool" where
  "rows_unique us \<longleftrightarrow> distinct (map usr_ID us) \<and> distinct (map usr_Email us)"

definition users_ok :: "'w UsersDB \<Rightarrow> ('w \<Rightarrow> User list) \<Rightarrow> bool" where
  "users_ok r rows \<longleftrightarrow>
     (\<forall>w. rows_unique (rows w)) \<and>
     (\<forall>w q w'. us_Select r w = (q, w') \<longrightarrow> rows w' = rows w \<and> (\<forall>us. q = Inr us \<longrightarrow> us = rows w)) \<and>
     (\<forall>p w q w'. us_Get r p w = (q, w') \<longrightarrow> rows w' = rows w \<and> (\<forall>u. q = Inr u \<longrightarrow> u \<in> set (rows w) \<and> p u)) \<and>
     (\<forall>u w q w'. us_Insert r u w = (q, w') \<longrightarrow> rows w' = rows w @ [u] \<or> rows w' = rows w \<and> (\<forall>x. q \<noteq> Inr x)) \<and>
     (\<forall>w i w'. us_NewV4 r w = (i, w') \<longrightarrow> rows w' = rows w)"

text \<open>
  A token that was signed is not empty and parses under the same secret until it expires; what parses
  is valid.
\<close>

definition jwt_ok :: "jwt_lib \<Rightarrow> bool" where
  "jwt_ok j \<longleftrightarrow>
     (\<forall>c s t now. jwt_SignedString j c s = Inr t \<longrightarrow> ccl_ExpiresAt c \<noteq> 0 \<longrightarrow> t \<noteq> '''' \<and>
        (if Unix now \<le> ccl_ExpiresAt c then jwt_ParseWithClaims j t s now = Inr (c, True)
         else \<exists>e. jwt_ParseWithClaims j t s now = Inl e)) \<and>
     (\<forall>t s now c v. jwt_ParseWithClaims j t s now = Inr (c, v) \<longrightarrow> v)"

definition bcrypt_ok :: "'w UserHandler \<Rightarrow> ('w \<Rightarrow> User list) \<Rightarrow> bool" where
  "bcrypt_ok h rows \<longleftrightarrow> (\<forall>p w q w'. uh_GenerateFromPassword h p w = (q, w') \<longrightarrow>
     rows w' = rows w \<and> (\<forall>x. q = Inr x \<longrightarrow> bc_Compare (uh_bcrypt h) x p = None))"

section \<open>What the operations do\<close>

lemma users_okD:
  assumes "users_ok r rows"
  shows "rows_unique (rows w)"
    and "us_Select r w = (q1, w') \<Longrightarrow> rows w' = rows w \<and> (\<forall>us. q1 = Inr us \<longrightarrow> us = rows w)"
    and "us_Get r p w = (q, w') \<Longrightarrow> rows w' = rows w \<and> (\<forall>u. q = Inr u \<longrightarrow> u \<in> set (rows w) \<and> p u)"
    and "us_Insert r u w = (q2, w') \<Longrightarrow> rows w' = rows w @ [u] \<or> rows w' = rows w \<and> (\<forall>x. q2 \<noteq> Inr x)"
    and "us_NewV4 r w = (i, w') \<Longrightarrow> rows w' = rows w"
  using assms unfolding users_ok_def by blast+

lemma same_email: "rows_unique us \<Longrightarrow> u \<in> set us \<Longrightarrow> v \<in> set us \<Longrightarrow> usr_Email u = usr_Email v \<Longrightarrow> u = v"
  by (auto simp: rows_unique_def distinct_map inj_on_def)

lemma same_id: "rows_unique us \<Longrightarrow> u \<in> set us \<Longrightarrow> v \<in> set us \<Longrightarrow> usr_ID u = usr_ID v \<Longrightarrow> u = v"
  by (auto simp: rows_unique_def distinct_map inj_on_def)

text \<open>A registration adds one row: the request under the new id, its password hashed.\<close>

lemma user_Create_outcome:
  assumes ok: "users_ok r rows" "bcrypt_ok h rows" and repo: "uh_repository h = postgres_users r"
    and run: "user_Create h req w = (Inr resp, w')"
  obtains i hash where "rows w' = rows w @ [(MarshalUser req)\<lparr>usr_ID := i, usr_Password := hash\<rparr>]"
    "bc_Compare (uh_bcrypt h) hash (pus_Password req) = None"
    "urs_User resp = Some (req\<lparr>pus_Id := i, pus_Password := ''''\<rparr>)"
    "\<exists>x y. us_NewV4 r x = (i, y)"
proof -
  from run obtain hash w1 where g: "uh_GenerateFromPassword h (pus_Password req) w = (Inr hash, w1)"
    by (auto simp: user_Create_def split: prod.splits sum.splits)
  obtain i w2 where n: "us_NewV4 r w1 = (i, w2)" by fastforce
  let ?u = "(MarshalUser req)\<lparr>usr_ID := i, usr_Password := hash\<rparr>"
  obtain q w3 where ins: "us_Insert r ?u w2 = (q, w3)" by fastforce
  have u: "(MarshalUser (req\<lparr>pus_Password := hash\<rparr>))\<lparr>usr_ID := i\<rparr> = ?u" by (simp add: MarshalUser_def)
  from run g n ins repo have q: "q = Inr ()" "w' = w3" "urs_User resp = Some (req\<lparr>pus_Id := i, pus_Password := ''''\<rparr>)"
    by (auto simp: user_Create_def postgres_users_def users_Create_def Let_def u split: sum.splits)
      (auto simp: MarshalUser_def UnmarshalUser_def)
  from g ok(2) have "rows w1 = rows w" "bc_Compare (uh_bcrypt h) hash (pus_Password req) = None"
    by (auto simp: bcrypt_ok_def)
  with q that[of hash i] users_okD(4)[OF ok(1) ins] users_okD(5)[OF ok(1) n] n show thesis by auto
qed

text \<open>A login that succeeds found the user of that email, whose password matched, and signs that user.\<close>

lemma user_Auth_outcome:
  assumes ok: "users_ok r rows" and repo: "uh_repository h = postgres_users r" and run: "user_Auth h req w = (q, w')"
  shows "rows w' = rows w"
    and "q = Inr t \<Longrightarrow> \<exists>u \<in> set (rows w). usr_Email u = pus_Email req \<and>
      bc_Compare (uh_bcrypt h) (usr_Password u) (pus_Password req) = None \<and>
      token_Encode (uh_jwt h) (uh_jwtSecret h) (uh_Now h w') (UnmarshalUser u) = Inr (tok_Token t)"
proof -
  obtain p w1 where g: "us_Get r (\<lambda>u. usr_Email u = pus_Email req) w = (p, w1)" by fastforce
  from run g repo have w': "w' = w1"
    by (auto simp: user_Auth_def postgres_users_def users_GetByEmail_def split: sum.splits option.splits)
  from users_okD(3)[OF ok g] w' show "rows w' = rows w" by simp
  show "\<exists>u \<in> set (rows w). usr_Email u = pus_Email req \<and>
      bc_Compare (uh_bcrypt h) (usr_Password u) (pus_Password req) = None \<and>
      token_Encode (uh_jwt h) (uh_jwtSecret h) (uh_Now h w') (UnmarshalUser u) = Inr (tok_Token t)" if "q = Inr t"
    using run g repo that users_okD(3)[OF ok g] w'
    by (auto simp: user_Auth_def postgres_users_def users_GetByEmail_def zero_Token_def split: sum.splits option.splits)
qed

text \<open>What a signed token of a user says to whoever holds the secret.\<close>

lemma token_parses:
  assumes ok: "jwt_ok j" and enc: "token_Encode j s now u = Inr t" and pos: "0 \<le> now"
  shows "t \<noteq> ''''"
    and "Unix v \<le> Unix (now + tokenLifetime) \<Longrightarrow> \<exists>c. jwt_ParseWithClaims j t s v = Inr (c, True) \<and> ccl_User c = Some u"
    and "\<not> Unix v \<le> Unix (now + tokenLifetime) \<Longrightarrow> \<exists>e. jwt_ParseWithClaims j t s v = Inl e"
proof -
  have nz: "Unix (now + tokenLifetime) \<noteq> 0" using pos by (simp add: Unix_def tokenLifetime_def)
  let ?c = "\<lparr>ccl_User = Some u, ccl_ExpiresAt = Unix (now + tokenLifetime), ccl_Issuer = ''shipping.UserService''\<rparr>"
  have "jwt_SignedString j ?c s = Inr t" using enc by (simp add: token_Encode_def)
  with ok nz have law: "t \<noteq> '''' \<and> (if Unix v \<le> Unix (now + tokenLifetime) then jwt_ParseWithClaims j t s v = Inr (?c, True)
      else \<exists>e. jwt_ParseWithClaims j t s v = Inl e)" for v
    unfolding jwt_ok_def by (metis CustomClaims.select_convs(2))
  from law show "t \<noteq> ''''" by blast
  from law[of v] show "Unix v \<le> Unix (now + tokenLifetime) \<Longrightarrow> \<exists>c. jwt_ParseWithClaims j t s v = Inr (c, True) \<and> ccl_User c = Some u"
    "\<not> Unix v \<le> Unix (now + tokenLifetime) \<Longrightarrow> \<exists>e. jwt_ParseWithClaims j t s v = Inl e" by auto
qed

end
