(* ===== verification/Gateway.thy ===== *)
theory Gateway
  imports User_Service Consignment_Server
begin

text \<open>
  \<open>cmd/gateway\<close>: the HTTP front of the system, a gin router (\<open>main.go\<close>), the token check in front of
  \<open>/v1/consignments\<close> (\<open>middleware/auth.go\<close>) and the handlers (\<open>handler/*.go\<close>), which turn JSON bodies
  into calls of the user and the consignment service and status codes into HTTP answers. gin's JSON
  decoder, the check behind its \<open>email\<close> tag and the text of an error are parameters.
\<close>

section \<open>Requests and answers\<close>

datatype http_method = GET | POST | OtherMethod

text \<open>
  The gateway has routes for two methods; all others are one case. A path is its list of segments, so
  one that ends with a slash has an empty last segment; a missing header reads as the empty string.
\<close>

record HttpRequest =
  hq_Method :: http_method
  hq_Path :: "string list"
  hq_Token :: string
  hq_Body :: bytes

datatype json = NoBody | JError string | JToken string | JId string | JConsignments "PbConsignment list"

record HttpResponse =
  hr_Status :: nat
  hr_Body :: json

definition respond :: "nat \<Rightarrow> json \<Rightarrow> HttpResponse" where
  "respond c b = \<lparr>hr_Status = c, hr_Body = b\<rparr>"

section \<open>Bodies\<close>

record auth_body =
  ab_Email :: string
  ab_Password :: string

record user_body =
  ub_Name :: string
  ub_Email :: string
  ub_Company :: string
  ub_Password :: string

record gw_container =
  gc_CustomerId :: string
  gc_Origin :: string
  gc_UserId :: string

record createConsignmentRequest =
  ccr_Description :: string
  ccr_Weight :: int32
  ccr_Containers :: "gw_container list"

text \<open>
  The \<open>binding\<close> tags: \<open>required\<close> refuses a zero value. The tags inside \<open>container\<close> are not looked at: the
  validator goes into the elements of a slice only under a \<open>dive\<close> tag, and the slice has none.
\<close>

definition auth_binding :: "(string \<Rightarrow> bool) \<Rightarrow> auth_body \<Rightarrow> bool" where
  "auth_binding email b \<longleftrightarrow> ab_Email b \<noteq> '''' \<and> email (ab_Email b) \<and> ab_Password b \<noteq> ''''"

definition user_binding :: "(string \<Rightarrow> bool) \<Rightarrow> user_body \<Rightarrow> bool" where
  "user_binding email b \<longleftrightarrow> ub_Name b \<noteq> '''' \<and> ub_Email b \<noteq> '''' \<and> email (ub_Email b) \<and> ub_Company b \<noteq> '''' \<and> ub_Password b \<noteq> ''''"

definition consignment_binding :: "createConsignmentRequest \<Rightarrow> bool" where
  "consignment_binding b \<longleftrightarrow> ccr_Description b \<noteq> '''' \<and> ccr_Weight b \<noteq> 0 \<and> ccr_Containers b \<noteq> []"

section \<open>Clients\<close>

record 'w UserClient =
  uc_Create :: "PbUser \<Rightarrow> 'w \<Rightarrow> (goerr + UserResponse) \<times> 'w"
  uc_Auth :: "PbUser \<Rightarrow> 'w \<Rightarrow> (goerr + Token) \<times> 'w"

record 'w ConsignmentClient =
  cn_CreateConsignment :: "PbConsignment \<Rightarrow> 'w \<Rightarrow> (goerr + PbResponse) \<times> 'w"
  cn_ConfirmConsignment :: "ConfirmRequest \<Rightarrow> 'w \<Rightarrow> (goerr + ConfirmResponse) \<times> 'w"
  cn_GetConsignments :: "'w \<Rightarrow> (goerr + PbResponse) \<times> 'w"

record 'w Gateway =
  gw_userClient :: "'w UserClient"
  gw_consignmentClient :: "'w ConsignmentClient"
  gw_jwt :: jwt_lib
  gw_jwtSecret :: string
  gw_Now :: "'w \<Rightarrow> time"
  gw_auth_json :: "bytes \<Rightarrow> goerr + auth_body"
  gw_user_json :: "bytes \<Rightarrow> goerr + user_body"
  gw_consignment_json :: "bytes \<Rightarrow> goerr + createConsignmentRequest"
  gw_email :: "string \<Rightarrow> bool"
  gw_binding_error :: "bytes \<Rightarrow> goerr"
  gw_Error :: "goerr \<Rightarrow> string"

section \<open>The token check\<close>

definition decodeJWT :: "jwt_lib \<Rightarrow> string \<Rightarrow> string \<Rightarrow> time \<Rightarrow> goerr + CustomClaims option" where
  "decodeJWT j token secret now =
    (case jwt_ParseWithClaims j token secret now of
       Inl err \<Rightarrow> Inl err
     | Inr (claims, valid) \<Rightarrow> if valid then Inr (Some claims) else Inr None)"

text \<open>
  \<open>Some\<close> answer aborts the chain of handlers. Claims that are a nil pointer make the check panic, and
  gin's recovery handler answers 500.
\<close>

definition gw_AuthCheck :: "'w Gateway \<Rightarrow> string \<Rightarrow> 'w \<Rightarrow> HttpResponse option" where
  "gw_AuthCheck g token w =
    (if token = '''' then Some (respond 401 (JError ''x-token header required''))
     else
       (case decodeJWT (gw_jwt g) token (gw_jwtSecret g) (gw_Now g w) of
          Inl err \<Rightarrow> Some (respond 401 (JError ''invalid token''))
        | Inr None \<Rightarrow> Some (respond 500 NoBody)
        | Inr (Some claims) \<Rightarrow>
          (case ccl_User claims of
             None \<Rightarrow> Some (respond 401 (JError ''invalid token''))
           | Some user \<Rightarrow>
               if pus_Id user = '''' then Some (respond 401 (JError ''invalid token'')) else None)))"

section \<open>Handlers\<close>

text \<open>Unset fields of the protobuf messages are zero.\<close>

definition zero_PbUser :: PbUser where
  "zero_PbUser = \<lparr>pus_Id = '''', pus_Name = '''', pus_Company = '''', pus_Email = '''', pus_Password = ''''\<rparr>"

definition bind :: "('w Gateway \<Rightarrow> bytes \<Rightarrow> goerr + 'b) \<Rightarrow> ('b \<Rightarrow> bool) \<Rightarrow> 'w Gateway \<Rightarrow> bytes \<Rightarrow> goerr + 'b" where
  "bind json ok g body =
    (case json g body of Inl err \<Rightarrow> Inl err | Inr b \<Rightarrow> if ok b then Inr b else Inl (gw_binding_error g body))"

definition gw_Auth :: "'w Gateway \<Rightarrow> bytes \<Rightarrow> 'w \<Rightarrow> HttpResponse \<times> 'w" where
  "gw_Auth g body w =
    (case bind gw_auth_json (auth_binding (gw_email g)) g body of
       Inl err \<Rightarrow> (respond 400 (JError ''Invalid request''), w)
     | Inr user \<Rightarrow>
       (case uc_Auth (gw_userClient g) (zero_PbUser\<lparr>pus_Email := ab_Email user, pus_Password := ab_Password user\<rparr>) w of
          (Inl err, w1) \<Rightarrow>
            if status_code err = Some Unauthenticated then (respond 401 (JError ''invalid credentials''), w1)
            else (respond 500 NoBody, w1)
        | (Inr authResponse, w1) \<Rightarrow> (respond 200 (JToken (tok_Token authResponse)), w1)))"

text \<open>A response without a user makes the handler panic, which gin answers with 500.\<close>

definition gw_CreateUser :: "'w Gateway \<Rightarrow> bytes \<Rightarrow> 'w \<Rightarrow> HttpResponse \<times> 'w" where
  "gw_CreateUser g body w =
    (case bind gw_user_json (user_binding (gw_email g)) g body of
       Inl err \<Rightarrow> (respond 400 (JError ''Invalid request''), w)
     | Inr user \<Rightarrow>
       (case uc_Create (gw_userClient g) (zero_PbUser\<lparr>pus_Name := ub_Name user, pus_Email := ub_Email user,
               pus_Company := ub_Company user, pus_Password := ub_Password user\<rparr>) w of
          (Inl err, w1) \<Rightarrow> (respond 500 NoBody, w1)
        | (Inr response, w1) \<Rightarrow>
          (case urs_User response of
             None \<Rightarrow> (respond 500 NoBody, w1)
           | Some u \<Rightarrow> (respond 200 (JId (pus_Id u)), w1))))"

definition gw_containers :: "gw_container list \<Rightarrow> PbContainer list" where
  "gw_containers cs = map (\<lambda>c. \<lparr>pbt_Id = '''', pbt_CustomerId = gc_CustomerId c, pbt_Origin = gc_Origin c, pbt_UserId = gc_UserId c\<rparr>) cs"

definition gw_CreateConsignment :: "'w Gateway \<Rightarrow> bytes \<Rightarrow> 'w \<Rightarrow> HttpResponse \<times> 'w" where
  "gw_CreateConsignment g body w =
    (case bind gw_consignment_json consignment_binding g body of
       Inl err \<Rightarrow> (respond 400 (JError (gw_Error g err)), w)
     | Inr req \<Rightarrow>
       (case cn_CreateConsignment (gw_consignmentClient g)
               \<lparr>pbc_Id = '''', pbc_Description = ccr_Description req, pbc_Weight = ccr_Weight req,
                pbc_Containers = gw_containers (ccr_Containers req), pbc_VesselId = '''', pbc_Status = ''''\<rparr> w of
          (Inl err, w1) \<Rightarrow> (respond 500 (JError ''failed to create consignment''), w1)
        | (Inr response, w1) \<Rightarrow>
          (case prs_Consignment response of
             None \<Rightarrow> (respond 500 NoBody, w1)
           | Some c \<Rightarrow> (respond 201 (JId (pbc_Id c)), w1))))"

text \<open>\<open>st.Message()\<close>: the message of a status error, the whole text of an error that wraps one.\<close>

definition status_message :: "'w Gateway \<Rightarrow> goerr \<Rightarrow> string" where
  "status_message g err = (case err of StatusErr c m \<Rightarrow> m | _ \<Rightarrow> gw_Error g err)"

definition gw_ConfirmConsignment :: "'w Gateway \<Rightarrow> string \<Rightarrow> 'w \<Rightarrow> HttpResponse \<times> 'w" where
  "gw_ConfirmConsignment g i w =
    (if i = '''' then (respond 400 (JError ''failed to confirm consignment''), w)
     else
       (case cn_ConfirmConsignment (gw_consignmentClient g) \<lparr>cfr_Id = i\<rparr> w of
          (Inl err, w1) \<Rightarrow>
            (if status_code err = Some NotFound then respond 404 (JError ''consignment not found'')
             else if status_code err = Some FailedPrecondition then respond 409 (JError (status_message g err))
             else respond 500 (JError ''failed to confirm consignment''), w1)
        | (Inr _, w1) \<Rightarrow> (respond 202 NoBody, w1)))"

definition gw_GetConsignments :: "'w Gateway \<Rightarrow> 'w \<Rightarrow> HttpResponse \<times> 'w" where
  "gw_GetConsignments g w =
    (case cn_GetConsignments (gw_consignmentClient g) w of
       (Inl err, w1) \<Rightarrow> (respond 500 (JError ''failed to get consignments''), w1)
     | (Inr response, w1) \<Rightarrow> (respond 200 (JConsignments (prs_Consignments response)), w1))"

section \<open>The router\<close>

definition guarded :: "'w Gateway \<Rightarrow> HttpRequest \<Rightarrow> ('w \<Rightarrow> HttpResponse \<times> 'w) \<Rightarrow> 'w \<Rightarrow> HttpResponse \<times> 'w" where
  "guarded g req handler w =
    (case gw_AuthCheck g (hq_Token req) w of Some r \<Rightarrow> (r, w) | None \<Rightarrow> handler w)"

text \<open>The registered routes, as the router's search tree of the method sees them.\<close>

definition has_route :: "http_method \<Rightarrow> string list \<Rightarrow> bool" where
  "has_route m p \<longleftrightarrow>
     m = GET \<and> (p = [''healthz''] \<or> p = [''v1'', ''consignments'']) \<or>
     m = POST \<and> (p = [''auth''] \<or> p = [''v1'', ''users''] \<or> p = [''v1'', ''consignments''] \<or>
       length p = 4 \<and> take 3 p = [''v1'', ''consignments'', ''confirm''])"

text \<open>
  When no route matches, a router with \<open>gin.Default\<close>'s settings (\<open>RedirectTrailingSlash\<close> is on,
  \<open>RedirectFixedPath\<close> and \<open>HandleMethodNotAllowed\<close> are off) sends a path that is a route but for a slash
  at its end to the path without it, with 301 for a \<open>GET\<close> and 307 otherwise, and answers 404 to
  everything else. None of this runs the handlers or the token check of the group.
\<close>

definition gw_no_route :: "HttpRequest \<Rightarrow> HttpResponse" where
  "gw_no_route req =
    (if hq_Path req \<noteq> [] \<and> last (hq_Path req) = '''' \<and> has_route (hq_Method req) (butlast (hq_Path req))
     then respond (if hq_Method req = GET then 301 else 307) NoBody
     else respond 404 NoBody)"

text \<open>The parameter \<open>:id\<close> matches a segment that is not empty.\<close>

definition gw_serve :: "'w Gateway \<Rightarrow> HttpRequest \<Rightarrow> 'w \<Rightarrow> HttpResponse \<times> 'w" where
  "gw_serve g req w =
    (if hq_Method req = GET \<and> hq_Path req = [''healthz''] then (respond 200 NoBody, w)
     else if hq_Method req = POST \<and> hq_Path req = [''auth''] then gw_Auth g (hq_Body req) w
     else if hq_Method req = POST \<and> hq_Path req = [''v1'', ''users''] then gw_CreateUser g (hq_Body req) w
     else if hq_Method req = POST \<and> hq_Path req = [''v1'', ''consignments''] then guarded g req (gw_CreateConsignment g (hq_Body req)) w
     else if hq_Method req = GET \<and> hq_Path req = [''v1'', ''consignments''] then guarded g req (gw_GetConsignments g) w
     else
       (case hq_Path req of
          [v, c, f, i] \<Rightarrow>
            if hq_Method req = POST \<and> v = ''v1'' \<and> c = ''consignments'' \<and> f = ''confirm'' \<and> i \<noteq> ''''
            then guarded g req (gw_ConfirmConsignment g i) w
            else (gw_no_route req, w)
        | _ \<Rightarrow> (gw_no_route req, w)))"

end
