(* ===== verification/Gateway_Memory.thy ===== *)
theory Gateway_Memory
  imports Gateway Consignment_Runs Server_Memory
begin

text \<open>
  In-memory users, a JWT library that signs two claims, and a gateway in front of the consignment
  service of \<open>Consignment_Memory\<close>: the world of the gateway's witnesses.
\<close>

section \<open>A world of users\<close>

record umem =
  um_rows :: "User list"
  um_now :: time

definition put_rows :: "User list \<Rightarrow> umem \<Rightarrow> umem" where
  "put_rows us w = w\<lparr>um_rows := us\<rparr>"

definition um_view :: "umem \<Rightarrow> User list" where
  "um_view w = coll_view rows_unique (um_rows w)"

definition mem_users :: "umem UsersDB" where
  "mem_users = \<lparr>
     us_Select = (\<lambda>w. (Inr (um_view w), w)),
     us_Get = (\<lambda>p w. (case find p (um_view w) of None \<Rightarrow> Inl (ErrNew ''no rows'') | Some u \<Rightarrow> Inr u, w)),
     us_Insert = (\<lambda>u w. coll_write rows_unique um_rows put_rows () (um_rows w @ [u]) w),
     us_NewV4 = (\<lambda>w. (concat (map usr_ID (um_rows w)) @ ''a'', w))\<rparr>"

lemma mem_users_ok: "users_ok mem_users um_view"
proof -
  have lens: "coll_lens um_rows put_rows" by (simp add: coll_lens_def put_rows_def)
  have "rows_unique (um_view w)" for w by (simp add: um_view_def coll_view_def rows_unique_def)
  moreover have "um_view w' = um_view w @ [u] \<or> um_view w' = um_view w \<and> (\<forall>x. q \<noteq> Inr x)"
    if "coll_write rows_unique um_rows put_rows () (um_rows w @ [u]) w = (q, w')" for u w q w'
    using coll_write_cases[OF that lens] by (auto simp: um_view_def)
  ultimately show ?thesis
    by (auto simp: users_ok_def mem_users_def find_Some_iff split: option.splits)
qed

text \<open>A library that signs two claims: those of a user and those of nobody.\<close>

definition alice_req :: PbUser where
  "alice_req = \<lparr>pus_Id = '''', pus_Name = ''A'', pus_Company = ''C'', pus_Email = ''a@b'', pus_Password = ''pw''\<rparr>"

definition alice :: User where
  "alice = (MarshalUser alice_req)\<lparr>usr_ID := ''a'', usr_Password := ''#pw''\<rparr>"

definition alice_claims :: CustomClaims where
  "alice_claims = \<lparr>ccl_User = Some (UnmarshalUser alice), ccl_ExpiresAt = Unix tokenLifetime, ccl_Issuer = ''shipping.UserService''\<rparr>"

definition nobody_claims :: CustomClaims where
  "nobody_claims = \<lparr>ccl_User = None, ccl_ExpiresAt = 5, ccl_Issuer = ''''\<rparr>"

definition mem_jwt :: jwt_lib where
  "mem_jwt = \<lparr>
     jwt_SignedString = (\<lambda>c s.
       if s \<noteq> ''s'' then Inl (ErrNew ''key'') else if c = alice_claims then Inr ''tok''
       else if c = nobody_claims then Inr ''nob'' else Inl (ErrNew ''claims'')),
     jwt_ParseWithClaims = (\<lambda>t s now.
       if s \<noteq> ''s'' then Inl (ErrNew ''signature'')
       else if t = ''tok'' \<and> Unix now \<le> Unix tokenLifetime then Inr (alice_claims, True)
       else if t = ''nob'' \<and> Unix now \<le> 5 then Inr (nobody_claims, True) else Inl (ErrNew ''token''))\<rparr>"

lemma mem_jwt_ok: "jwt_ok mem_jwt"
proof -
  have "alice_claims \<noteq> nobody_claims" by (simp add: alice_claims_def nobody_claims_def)
  moreover have "ccl_ExpiresAt alice_claims = Unix tokenLifetime" "ccl_ExpiresAt nobody_claims = 5"
    by (simp_all add: alice_claims_def nobody_claims_def)
  ultimately show ?thesis by (auto simp: jwt_ok_def mem_jwt_def split: if_splits)
qed

definition mem_user_handler :: "umem UserHandler" where
  "mem_user_handler = \<lparr>uh_repository = postgres_users mem_users, uh_jwt = mem_jwt, uh_jwtSecret = ''s'',
     uh_GenerateFromPassword = (\<lambda>p w. (Inr (CHR ''#'' # p), w)),
     uh_bcrypt = \<lparr>bc_Compare = (\<lambda>h p. if h = CHR ''#'' # p then None else Some (ErrNew ''mismatch''))\<rparr>,
     uh_Now = um_now\<rparr>"

lemma mem_bcrypt_ok: "bcrypt_ok mem_user_handler um_view"
  by (simp add: bcrypt_ok_def mem_user_handler_def)

definition gateway_with :: "'w ConsignmentClient \<Rightarrow> ('w \<Rightarrow> time) \<Rightarrow> 'w Gateway" where
  "gateway_with c now = \<lparr>
     gw_userClient = \<lparr>uc_Create = (\<lambda>q w. (Inl (ErrNew ''down''), w)), uc_Auth = (\<lambda>q w. (Inl (ErrNew ''down''), w))\<rparr>,
     gw_consignmentClient = c, gw_jwt = mem_jwt, gw_jwtSecret = ''s'', gw_Now = now,
     gw_auth_json = (\<lambda>b. Inl (ErrNew ''json'')), gw_user_json = (\<lambda>b. Inl (ErrNew ''json'')),
     gw_consignment_json = (\<lambda>b. Inl (ErrNew ''json'')), gw_email = (\<lambda>s. True), gw_binding_error = (\<lambda>b. ErrNew ''binding''),
     gw_Error = (\<lambda>e. '''')\<rparr>"

text \<open>In front of the consignment service of \<open>Consignment_Memory\<close>.\<close>

definition mem_gateway :: "smem Gateway" where
  "mem_gateway = gateway_with
     \<lparr>cn_CreateConsignment = (\<lambda>q. lossy (CreateConsignment cs_hdl q)),
      cn_ConfirmConsignment = (\<lambda>q. lossy (ConfirmConsignment cs_hdl q)),
      cn_GetConsignments = lossy (GetConsignments cs_hdl)\<rparr> sx_now"

definition confirm_request :: "string \<Rightarrow> HttpRequest" where
  "confirm_request t = \<lparr>hq_Method = POST, hq_Path = [''v1'', ''consignments'', ''confirm'', ''c1''], hq_Token = t, hq_Body = ''''\<rparr>"

definition no_users :: umem where
  "no_users = \<lparr>um_rows = [], um_now = 0\<rparr>"

lemma mem_register: "user_Create mem_user_handler alice_req no_users =
    (Inr \<lparr>urs_User = Some ((UnmarshalUser alice)\<lparr>pus_Password := ''''\<rparr>), urs_Users = []\<rparr>, no_users\<lparr>um_rows := [alice]\<rparr>)"
  by (simp add: user_Create_def mem_user_handler_def postgres_users_def users_Create_def mem_users_def coll_write_def put_rows_def
      no_users_def rows_unique_def Let_def) (simp add: alice_def alice_req_def MarshalUser_def)

lemma alice_view: "um_view (no_users\<lparr>um_rows := [alice]\<rparr>) = [alice]"
  by (simp add: um_view_def no_users_def coll_view_def rows_unique_def)

lemma mem_lookup: "us_Get mem_users (\<lambda>u. usr_Email u = pus_Email alice_req) (no_users\<lparr>um_rows := [alice]\<rparr>) = (Inr alice, no_users\<lparr>um_rows := [alice]\<rparr>)"
  by (simp add: mem_users_def alice_view) (simp add: alice_def MarshalUser_def)

lemma mem_login: "user_Auth mem_user_handler alice_req (no_users\<lparr>um_rows := [alice]\<rparr>) =
    (Inr (zero_Token\<lparr>tok_Token := ''tok''\<rparr>), no_users\<lparr>um_rows := [alice]\<rparr>)"
proof -
  have "token_Encode mem_jwt ''s'' 0 (UnmarshalUser alice) = Inr ''tok''"
    by (simp add: token_Encode_def mem_jwt_def alice_claims_def)
  then show ?thesis
    using mem_lookup
    by (simp add: user_Auth_def mem_user_handler_def postgres_users_def users_GetByEmail_def)
      (simp add: alice_def alice_req_def MarshalUser_def no_users_def)
qed

end
