(* ===== verification/Gateway_Properties.thy ===== *)
theory Gateway_Properties
  imports Gateway_Memory Consignment_Properties
begin

text \<open>
  The properties of the gateway and the user service: who gets past the token check, what a login is
  worth, and what the HTTP answer to a confirmation says of the saga behind it.
\<close>

section \<open>The gateway and the services behind it\<close>

text \<open>The gateway shares the secret and the JWT library with the user service.\<close>

definition shares_secret :: "'v Gateway \<Rightarrow> 'w UserHandler \<Rightarrow> bool" where
  "shares_secret g h \<longleftrightarrow> gw_jwt g = uh_jwt h \<and> gw_jwtSecret g = uh_jwtSecret h"

lemma check_passes:
  assumes "t \<noteq> ''''" "jwt_ParseWithClaims (gw_jwt g) t (gw_jwtSecret g) (gw_Now g w) = Inr (c, True)"
    and "ccl_User c = Some u"
  shows "gw_AuthCheck g t w = None \<longleftrightarrow> pus_Id u \<noteq> ''''"
  using assms by (simp add: gw_AuthCheck_def decodeJWT_def)

lemma check_refuses:
  assumes "jwt_ParseWithClaims (gw_jwt g) t (gw_jwtSecret g) (gw_Now g w) = Inl e"
  shows "\<exists>r. gw_AuthCheck g t w = Some r \<and> hr_Status r = 401"
  using assms by (simp add: gw_AuthCheck_def decodeJWT_def respond_def)

lemma check_None:
  assumes "gw_AuthCheck g t w = None"
  shows "t \<noteq> '''' \<and> (\<exists>c u. jwt_ParseWithClaims (gw_jwt g) t (gw_jwtSecret g) (gw_Now g w) = Inr (c, True) \<and>
    ccl_User c = Some u \<and> pus_Id u \<noteq> '''')"
  using assms by (auto simp: gw_AuthCheck_def decodeJWT_def split: if_splits sum.splits option.splits prod.splits)

lemma check_status: "gw_AuthCheck g t w = Some r \<Longrightarrow> hr_Status r \<in> {401, 500}"
  by (auto simp: gw_AuthCheck_def respond_def split: if_splits sum.splits option.splits)

text \<open>A token the user service issues passes until it expires.\<close>

lemma issued_check:
  assumes ok: "jwt_ok (uh_jwt h)" and secret: "shares_secret g h"
    and enc: "token_Encode (uh_jwt h) (uh_jwtSecret h) now u = Inr t" and now: "0 \<le> now" and id: "pus_Id u \<noteq> ''''"
  shows "if Unix (gw_Now g v) \<le> Unix (now + tokenLifetime) then gw_AuthCheck g t v = None
    else \<exists>a. gw_AuthCheck g t v = Some a \<and> hr_Status a = 401"
proof -
  note T = token_parses[OF ok enc now]
  have j: "gw_jwt g = uh_jwt h" "gw_jwtSecret g = uh_jwtSecret h" using secret by (simp_all add: shares_secret_def)
  show ?thesis
  proof (cases "Unix (gw_Now g v) \<le> Unix (now + tokenLifetime)")
    case True
    from T(2)[OF this] obtain c where "jwt_ParseWithClaims (gw_jwt g) t (gw_jwtSecret g) (gw_Now g v) = Inr (c, True)" "ccl_User c = Some u"
      unfolding j by blast
    from check_passes[OF T(1) this] id True show ?thesis by simp
  next
    case False
    from T(3)[OF this] obtain e where "jwt_ParseWithClaims (gw_jwt g) t (gw_jwtSecret g) (gw_Now g v) = Inl e"
      unfolding j by blast
    from check_refuses[OF this] False show ?thesis by simp
  qed
qed

text \<open>
  A call over gRPC either goes through or fails with one of the codes the transport itself uses, and
  then the request or the answer is lost.
\<close>

definition transport_codes :: "(('w \<Rightarrow> (goerr + 'a) \<times> 'w) \<Rightarrow> 'w \<Rightarrow> (goerr + 'a) \<times> 'w) \<Rightarrow> bool" where
  "transport_codes rpc \<longleftrightarrow> (\<forall>f w. rpc f w = f w \<or>
     (\<exists>e. status_code e \<in> {Some Unavailable, Some DeadlineExceeded, Some Canceled} \<and>
        (rpc f w = (Inl e, w) \<or> rpc f w = (Inl e, snd (f w)))))"

lemma confirm_starts_core:
  assumes ok: "cs_ok s" and run: "ConfirmConsignment (ss_hdl s) req w = (Inr x, w')"
  shows "ss_docs s w' = ss_docs s w \<and>
    (\<exists>c a p. c \<in> set (ss_docs s w) \<and> con_ID c = cfr_Id req \<and>
       authorise_effect (authorise_request c) a (ss_pays s w) (ss_pays s w') \<and>
       Marshal (pb_PaymentAuthorised (cm_codecs (ss_mgr s))) (authorised_event a c (ch_Now (ss_hdl s) w)) = Inr p \<and>
       queued ConsignmentPaymentAuthorisedTopic (con_ID c) p (ss_rows s w'))"
  using confirm_saga_core[OF assms] by simp

lemma lossy_codes: "transport_codes lossy"
proof -
  have "lossy f w = f w \<or> (\<exists>e. status_code e \<in> {Some Unavailable, Some DeadlineExceeded, Some Canceled} \<and>
        (lossy f w = (Inl e, w) \<or> lossy f w = (Inl e, snd (f w))))" for f :: "smem \<Rightarrow> (goerr + 'a) \<times> smem" and w
    by (cases "sx_pay_lost w") (auto simp: lossy_def intro!: exI[of _ "StatusErr Unavailable ''lost''"])
  then show ?thesis unfolding transport_codes_def by blast
qed

text \<open>What codes ConfirmConsignment fails with, and when.\<close>

lemma authorise_codes:
  "authorise_consignment h c t w = (Inl e, w') \<Longrightarrow> status_code e = Some Internal"
  by (auto simp: authorise_consignment_def publishPaymentAuthorised_def split: prod.splits sum.splits)

lemma confirm_codes:
  assumes ok: "cs_ok s" and run: "ConfirmConsignment (ss_hdl s) req w = (Inl e, w')"
  shows "status_code e \<in> {Some NotFound, Some FailedPrecondition, Some Internal}"
    and "status_code e \<noteq> Some Internal \<Longrightarrow> mgr.same s w w'"
proof -
  show "status_code e \<in> {Some NotFound, Some FailedPrecondition, Some Internal}"
    using run by (auto simp: ConfirmConsignment_def Let_def dest: authorise_codes split: prod.splits sum.splits if_splits)
  show "mgr.same s w w'" if "status_code e \<noteq> Some Internal"
    using ok run
  proof (cases rule: svc.ConfirmConsignment_cases)
    case (authorise c w2)
    with authorise_codes[OF authorise(4)] that show ?thesis by simp
  qed
qed

text \<open>The call of the gateway, seen from the consignment service.\<close>

definition confirm_behind :: "'w Gateway \<Rightarrow> 'w cs_system \<Rightarrow> bool" where
  "confirm_behind g s \<longleftrightarrow> (\<exists>rpc. transport_codes rpc \<and>
     (\<forall>q. cn_ConfirmConsignment (gw_consignmentClient g) q = rpc (ConfirmConsignment (ss_hdl s) q)))"

lemma confirm_call:
  assumes ok: "cs_ok s" and client: "confirm_behind g s"
    and call: "cn_ConfirmConsignment (gw_consignmentClient g) q w = (r, w')"
  shows "r = Inr x \<Longrightarrow> ConfirmConsignment (ss_hdl s) q w = (Inr x, w')"
    and "r = Inl e \<Longrightarrow> status_code e \<in> {Some NotFound, Some FailedPrecondition} \<Longrightarrow> mgr.same s w w'"
proof -
  from client obtain rpc where rpc: "transport_codes rpc"
    "cn_ConfirmConsignment (gw_consignmentClient g) q = rpc (ConfirmConsignment (ss_hdl s) q)"
    unfolding confirm_behind_def by blast
  from rpc(1)[unfolded transport_codes_def, rule_format, of "ConfirmConsignment (ss_hdl s) q" w] call rpc(2)
  have cases: "(r, w') = ConfirmConsignment (ss_hdl s) q w \<or>
      (\<exists>e'. r = Inl e' \<and> status_code e' \<in> {Some Unavailable, Some DeadlineExceeded, Some Canceled})" by auto
  from cases show "ConfirmConsignment (ss_hdl s) q w = (Inr x, w')" if "r = Inr x" using that by auto
  from cases show "mgr.same s w w'" if "r = Inl e" "status_code e \<in> {Some NotFound, Some FailedPrecondition}"
    using that confirm_codes(2)[OF ok, of q w e w'] by auto
qed

lemma consignments_guarded:
  assumes "hq_Path req = ''v1'' # ''consignments'' # rest"
  shows "(last (hq_Path req) \<noteq> '''' \<and> (\<exists>handler. gw_serve g req w = guarded g req handler w)) \<or> gw_serve g req w = (gw_no_route req, w)"
proof (cases rest)
  case Nil
  with assms show ?thesis by (cases "hq_Method req") (auto simp: gw_serve_def)
next
  case (Cons f fs)
  with assms have "gw_serve g req w =
      (case hq_Path req of
          [v, c, f, i] \<Rightarrow>
            if hq_Method req = POST \<and> v = ''v1'' \<and> c = ''consignments'' \<and> f = ''confirm'' \<and> i \<noteq> ''''
            then guarded g req (gw_ConfirmConsignment g i) w
            else (gw_no_route req, w)
        | _ \<Rightarrow> (gw_no_route req, w))"
    unfolding gw_serve_def by simp
  with assms Cons show ?thesis by (auto split: list.splits)
qed

text \<open>What gin answers on its own: a redirect of a path that ends with a slash, or 404.\<close>

lemma no_route_status:
  "hr_Status (gw_no_route req) \<in> (if last (hq_Path req) = '''' then {301, 307, 404} else {401, 404, 500})"
  by (auto simp: gw_no_route_def respond_def)

lemma mem_shares: "shares_secret mem_gateway mem_user_handler"
  by (simp add: shares_secret_def mem_gateway_def gateway_with_def mem_user_handler_def)

lemma mem_confirm_behind: "confirm_behind mem_gateway mem_cs"
  unfolding confirm_behind_def by (rule exI[of _ lossy]) (simp add: lossy_codes mem_gateway_def gateway_with_def)

section \<open>Properties\<close>

text \<open>
  C34. Nothing of the consignments is reached without a token. Whatever request comes in under
  /v1/consignments, unless it carries a token that parses under the gateway's secret and names a user,
  no service is called; the answer is 401 or 404 (or, if the library breaks its promise, 500), and for a
  path that ends with a slash 404 or the router's redirect, 301 or 307.
\<close>

theorem consignments_need_a_token:
  assumes "hq_Path req = ''v1'' # ''consignments'' # rest" and "gw_serve g req w = (r, w')"
  shows "(hq_Token req \<noteq> '''' \<and> (\<exists>c u. jwt_ParseWithClaims (gw_jwt g) (hq_Token req) (gw_jwtSecret g) (gw_Now g w) = Inr (c, True) \<and>
       ccl_User c = Some u \<and> pus_Id u \<noteq> '''')) \<or>
    w' = w \<and> hr_Status r \<in> (if last (hq_Path req) = '''' then {301, 307, 404} else {401, 404, 500})"
  using consignments_guarded[OF assms(1), of g w]
proof (elim disjE conjE exE)
  fix handler
  assume h: "gw_serve g req w = guarded g req handler w" and plain: "last (hq_Path req) \<noteq> ''''"
  show ?thesis
  proof (cases "gw_AuthCheck g (hq_Token req) w")
    case None
    from check_None[OF None] show ?thesis by (rule disjI1)
  next
    case (Some q)
    from h have "r = q \<and> w' = w" unfolding assms(2) guarded_def Some by simp
    with check_status[OF Some] plain show ?thesis by (intro disjI2) auto
  qed
next
  assume "gw_serve g req w = (gw_no_route req, w)"
  then have "r = gw_no_route req \<and> w' = w" unfolding assms(2) by simp
  with no_route_status[of req] show ?thesis by (intro disjI2) simp
qed

lemma consignments_need_a_token_witness:
  "snd (gw_serve mem_gateway (confirm_request '''') no_pay) = no_pay \<and>
   hr_Status (fst (gw_serve mem_gateway (confirm_request '''') no_pay)) \<in> {401, 404, 500}"
proof -
  have path: "hq_Path (confirm_request '''') = ''v1'' # ''consignments'' # [''confirm'', ''c1'']" by (simp add: confirm_request_def)
  have none: "hq_Token (confirm_request '''') = ''''" by (simp add: confirm_request_def)
  from consignments_need_a_token[OF path surjective_pairing, of mem_gateway no_pay] show ?thesis by (simp add: none path)
qed

text \<open>
  C35. Registering and logging in gets past the gateway for 72 hours. After Create has registered a
  user, Auth with the same email and password, if the database answers and signing works, gives a
  token with which the gateway lets requests through until 72 hours later and not after; it names the
  created user. Auth never answers such a login with Unauthenticated.
\<close>

theorem registered_user_gets_in:
  assumes ok: "users_ok d rows" "bcrypt_ok h rows" "jwt_ok (uh_jwt h)" and repo: "uh_repository h = postgres_users d"
    and secret: "shares_secret g h" and ids: "\<forall>x i y. us_NewV4 d x = (i, y) \<longrightarrow> i \<noteq> ''''"
    and create: "user_Create h req w = (Inr resp, w1)"
    and later: "rows w2 = rows w1" and up: "us_Get d (\<lambda>u. usr_Email u = pus_Email req) w2 = (Inr u, w2')" "0 \<le> uh_Now h w2'"
    and auth: "user_Auth h req w2 = (r, w3)"
  shows "case r of
      Inl e \<Rightarrow> status_code e = Some Internal
    | Inr t \<Rightarrow> (\<forall>v. if Unix (gw_Now g v) \<le> Unix (uh_Now h w3 + tokenLifetime) then gw_AuthCheck g (tok_Token t) v = None
        else \<exists>a. gw_AuthCheck g (tok_Token t) v = Some a \<and> hr_Status a = 401)"
proof -
  obtain i hash where
    c: "rows w1 = rows w @ [(MarshalUser req)\<lparr>usr_ID := i, usr_Password := hash\<rparr>]"
      "bc_Compare (uh_bcrypt h) hash (pus_Password req) = None"
      "urs_User resp = Some (req\<lparr>pus_Id := i, pus_Password := []\<rparr>)" "\<exists>x y. us_NewV4 d x = (i, y)"
    by (rule user_Create_outcome[OF ok(1,2) repo create])
  let ?u = "(MarshalUser req)\<lparr>usr_ID := i, usr_Password := hash\<rparr>"
  from ids c(4) have i: "i \<noteq> ''''" by blast
  have in2: "?u \<in> set (rows w2)" "usr_Email ?u = pus_Email req" by (simp_all add: later c(1) MarshalUser_def)
  have u: "u = ?u"
    using users_okD(3)[OF ok(1) up(1)] in2 by (auto intro!: same_email[OF users_okD(1)[OF ok(1)]])
  have get: "ur_GetByEmail (uh_repository h) (pus_Email req) w2 = (Inr u, w2')"
    using up(1) by (simp add: repo postgres_users_def users_GetByEmail_def)
  have comp: "bc_Compare (uh_bcrypt h) (usr_Password u) (pus_Password req) = None" by (simp add: u c(2))
  have run: "user_Auth h req w2 = (case token_Encode (uh_jwt h) (uh_jwtSecret h) (uh_Now h w2') (UnmarshalUser u) of
      Inl err \<Rightarrow> (Inl (StatusErr Internal ''failed to generate token''), w2')
    | Inr token \<Rightarrow> (Inr (zero_Token\<lparr>tok_Token := token\<rparr>), w2'))"
    by (simp add: user_Auth_def get comp)
  show ?thesis
  proof (cases r)
    case (Inl e)
    with auth show ?thesis unfolding run by (auto split: sum.splits)
  next
    case (Inr t)
    with auth have w3: "w3 = w2'" and enc0: "token_Encode (uh_jwt h) (uh_jwtSecret h) (uh_Now h w3) (UnmarshalUser u) = Inr (tok_Token t)"
      unfolding run by (auto simp: zero_Token_def split: sum.splits)
    note enc = enc0[unfolded u]
    have now: "0 \<le> uh_Now h w3" using up(2) by (simp add: w3)
    have id: "pus_Id (UnmarshalUser ?u) \<noteq> ''''" using i by (simp add: UnmarshalUser_def)
    show ?thesis
      unfolding Inr sum.case using issued_check[OF ok(3) secret enc now id] by blast
  qed
qed

lemma registered_user_gets_in_witness:
  "gw_AuthCheck mem_gateway ''tok'' no_pay = None"
proof -
  have repo: "uh_repository mem_user_handler = postgres_users mem_users" by (simp add: mem_user_handler_def)
  have jwt: "jwt_ok (uh_jwt mem_user_handler)" using mem_jwt_ok by (simp add: mem_user_handler_def)
  have ids: "\<forall>x i y. us_NewV4 mem_users x = (i, y) \<longrightarrow> i \<noteq> ''''" by (simp add: mem_users_def)
  have now: "0 \<le> uh_Now mem_user_handler (no_users\<lparr>um_rows := [alice]\<rparr>)" by (simp add: mem_user_handler_def no_users_def)
  from registered_user_gets_in[OF mem_users_ok mem_bcrypt_ok jwt repo mem_shares ids mem_register refl mem_lookup now mem_login]
  have "Unix (gw_Now mem_gateway no_pay) \<le> Unix (uh_Now mem_user_handler (no_users\<lparr>um_rows := [alice]\<rparr>) + tokenLifetime) \<Longrightarrow>
      gw_AuthCheck mem_gateway ''tok'' no_pay = None"
    by (auto simp: zero_Token_def split: if_splits)
  moreover have "Unix (gw_Now mem_gateway no_pay) \<le> Unix (uh_Now mem_user_handler (no_users\<lparr>um_rows := [alice]\<rparr>) + tokenLifetime)"
    by (simp add: mem_gateway_def gateway_with_def no_pay_def mem_user_handler_def no_users_def Unix_def tokenLifetime_def)
  ultimately show ?thesis by blast
qed

text \<open>
  C36. The HTTP answer to a confirmation tells what happened. 202 means that a payment has been
  authorised and its event queued; 404 and 409 mean that nothing has changed, neither consignments,
  outbox nor payments. (500 leaves everything open.)
\<close>

theorem confirm_answer_means:
  assumes ok: "cs_ok s" and client: "confirm_behind g s" and run: "gw_ConfirmConsignment g i w = (r, w')"
  shows "(hr_Status r = 202 \<longrightarrow> ss_docs s w' = ss_docs s w \<and>
      (\<exists>c a p. c \<in> set (ss_docs s w) \<and> con_ID c = i \<and> authorise_effect (authorise_request c) a (ss_pays s w) (ss_pays s w') \<and>
         Marshal (pb_PaymentAuthorised (cm_codecs (ss_mgr s))) (authorised_event a c (ch_Now (ss_hdl s) w)) = Inr p \<and>
         queued ConsignmentPaymentAuthorisedTopic i p (ss_rows s w'))) \<and>
    (hr_Status r \<in> {404, 409} \<longrightarrow> ss_docs s w' = ss_docs s w \<and> ss_rows s w' = ss_rows s w \<and> ss_pays s w' = ss_pays s w) \<and>
    hr_Status r \<in> {202, 400, 404, 409, 500}"
proof (cases "i = ''''")
  case True
  with run show ?thesis by (auto simp: gw_ConfirmConsignment_def respond_def)
next
  case False
  obtain q w1 where call: "cn_ConfirmConsignment (gw_consignmentClient g) \<lparr>cfr_Id = i\<rparr> w = (q, w1)" by fastforce
  note C = confirm_call[OF ok client call]
  show ?thesis
  proof (cases q)
    case (Inr x)
    from run False call Inr have r: "hr_Status r = 202" "w' = w1" by (auto simp: gw_ConfirmConsignment_def respond_def)
    from confirm_starts_core[OF ok C(1)[OF Inr]] show ?thesis by (auto simp: r)
  next
    case (Inl e)
    with run False call have r: "w' = w1" "hr_Status r = (if status_code e = Some NotFound then 404
        else if status_code e = Some FailedPrecondition then 409 else 500)"
      by (auto simp: gw_ConfirmConsignment_def respond_def)
    with C(2)[OF Inl] show ?thesis by (auto simp: mgr.same_def)
  qed
qed

lemma confirm_answer_means_witness:
  "fst (gw_ConfirmConsignment mem_gateway ''c1'' no_pay) = respond 202 NoBody \<and>
   (\<exists>c a. c \<in> set (ss_docs mem_cs no_pay) \<and> authorise_effect (authorise_request c) a (ss_pays mem_cs no_pay)
      (ss_pays mem_cs (snd (gw_ConfirmConsignment mem_gateway ''c1'' no_pay))))"
proof -
  have run: "gw_ConfirmConsignment mem_gateway ''c1'' no_pay = (respond 202 NoBody, cs_at [sample_con] [first_doc] [''a'' \<mapsto> auth_pay] False)"
    using run_confirm by (simp add: gw_ConfirmConsignment_def mem_gateway_def gateway_with_def lossy_def) (simp add: no_pay_def)
  have "hr_Status (respond 202 NoBody) = 202" by (simp add: respond_def)
  with confirm_answer_means[OF mem_cs_ok mem_confirm_behind run] have
    "\<exists>c a. c \<in> set (ss_docs mem_cs no_pay) \<and> authorise_effect (authorise_request c) a (ss_pays mem_cs no_pay)
      (ss_pays mem_cs (cs_at [sample_con] [first_doc] [''a'' \<mapsto> auth_pay] False))" by blast
  then show ?thesis by (simp only: run fst_conv snd_conv simp_thms)
qed

text \<open>
  C37. A negative weight overbooks a vessel. The gateway accepts every weight but 0, and no service
  behind it looks at the sign: for every vessel with a free slot there is a body that passes, whose
  reservation the vessel service grants, and after which the vessel takes one unit more than it has
  room for.
\<close>

theorem negative_weight_overbooks:
  assumes "1 \<le> (Capacity v - ReservedCapacity v) - UsedCapacity v" and "0 \<le> (MaxWeight v - ReservedWeight v) - UsedWeight v"
  shows "\<exists>b spec. consignment_binding b \<and>
    spec = MarshalSpecification (reserve_spec h rid \<lparr>rcr_ConsignmentId = cid, rcr_Weight = ccr_Weight b,
      rcr_NumberOfContainers = int32_len (gw_containers (ccr_Containers b))\<rparr>) \<and>
    reserve_filter spec v \<and>
    (\<forall>more. spec_NumberOfContainers more < (Capacity v - ReservedCapacity v) - UsedCapacity v \<longrightarrow>
       spec_Weight more = (MaxWeight v - ReservedWeight v) - UsedWeight v + 1 \<longrightarrow> reserve_filter more (reserve_update spec v))"
proof -
  let ?b = "\<lparr>ccr_Description = ''d'', ccr_Weight = - 1, ccr_Containers = [\<lparr>gc_CustomerId = '''', gc_Origin = '''', gc_UserId = ''''\<rparr>]\<rparr>"
  define spec where "spec = MarshalSpecification (reserve_spec h rid \<lparr>rcr_ConsignmentId = cid, rcr_Weight = ccr_Weight ?b,
      rcr_NumberOfContainers = int32_len (gw_containers (ccr_Containers ?b))\<rparr>)"
  have fields: "spec_Weight spec = - 1" "spec_NumberOfContainers spec = 1"
    by (simp_all add: spec_def MarshalSpecification_def reserve_spec_def gw_containers_def int32_len_def int_of_int32_def int32_of_int_def)
  have "consignment_binding ?b" by (simp add: consignment_binding_def)
  moreover have "reserve_filter spec v" using assms by (simp add: reserve_filter_def fields)
  moreover have "reserve_filter more (reserve_update spec v)"
    if "spec_NumberOfContainers more < (Capacity v - ReservedCapacity v) - UsedCapacity v"
      "spec_Weight more = (MaxWeight v - ReservedWeight v) - UsedWeight v + 1" for more
    using that by (simp add: reserve_filter_def reserve_update_def fields)
  ultimately show ?thesis using spec_def by blast
qed

lemma negative_weight_overbooks_witness:
  "\<exists>b spec. consignment_binding b \<and> spec_Weight spec = int_of_int32 (ccr_Weight b) \<and> reserve_filter spec sample_vessel \<and>
     reserve_filter \<lparr>spec_ReservationID = ''r'', spec_Weight = 101, spec_NumberOfContainers = 1\<rparr> (reserve_update spec sample_vessel)"
proof -
  have room: "1 \<le> (Capacity sample_vessel - ReservedCapacity sample_vessel) - UsedCapacity sample_vessel"
    "0 \<le> (MaxWeight sample_vessel - ReservedWeight sample_vessel) - UsedWeight sample_vessel"
    by (simp_all add: sample_vessel_def)
  from negative_weight_overbooks[OF room, of mem_handler 0 "''c''"] obtain b spec where
    b: "consignment_binding b" "reserve_filter spec sample_vessel" "spec = MarshalSpecification (reserve_spec mem_handler 0
        \<lparr>rcr_ConsignmentId = ''c'', rcr_Weight = ccr_Weight b, rcr_NumberOfContainers = int32_len (gw_containers (ccr_Containers b))\<rparr>)"
    and more: "\<And>more. spec_NumberOfContainers more < (Capacity sample_vessel - ReservedCapacity sample_vessel) - UsedCapacity sample_vessel \<Longrightarrow>
      spec_Weight more = (MaxWeight sample_vessel - ReservedWeight sample_vessel) - UsedWeight sample_vessel + 1 \<Longrightarrow>
      reserve_filter more (reserve_update spec sample_vessel)" by blast
  have "spec_Weight spec = int_of_int32 (ccr_Weight b)" by (simp add: b(3) MarshalSpecification_def reserve_spec_def)
  moreover have "reserve_filter \<lparr>spec_ReservationID = ''r'', spec_Weight = 101, spec_NumberOfContainers = 1\<rparr> (reserve_update spec sample_vessel)"
    by (rule more) (simp_all add: sample_vessel_def)
  ultimately show ?thesis using b(1,2) by blast
qed

text \<open>
  The two checks of a token disagree on one without a user. A token signed under the secret whose
  claims carry no user is refused by the gateway with 401, while the user service's ValidateToken
  dereferences the missing user and panics.
\<close>

theorem token_without_user_panics:
  assumes ok: "jwt_ok (uh_jwt h)" and secret: "shares_secret g h"
    and signed: "jwt_SignedString (uh_jwt h) \<lparr>ccl_User = None, ccl_ExpiresAt = e, ccl_Issuer = i\<rparr> (uh_jwtSecret h) = Inr t"
    and fresh: "e \<noteq> 0" "Unix (uh_Now h w) \<le> e" "Unix (gw_Now g v) \<le> e"
  shows "user_ValidateToken h (zero_Token\<lparr>tok_Token := t\<rparr>) w = None \<and>
    (\<exists>r. gw_AuthCheck g t v = Some r \<and> hr_Status r = 401)"
proof -
  let ?c = "\<lparr>ccl_User = None, ccl_ExpiresAt = e, ccl_Issuer = i\<rparr>"
  from ok signed fresh(1) have law: "t \<noteq> '''' \<and> (if Unix now \<le> e then jwt_ParseWithClaims (uh_jwt h) t (uh_jwtSecret h) now = Inr (?c, True)
      else \<exists>err. jwt_ParseWithClaims (uh_jwt h) t (uh_jwtSecret h) now = Inl err)" for now
    unfolding jwt_ok_def by (metis CustomClaims.select_convs(2))
  with fresh(2,3) secret show ?thesis
    by (simp add: user_ValidateToken_def token_Decode_def zero_Token_def gw_AuthCheck_def decodeJWT_def shares_secret_def respond_def)
qed

lemma token_without_user_panics_witness:
  "user_ValidateToken mem_user_handler (zero_Token\<lparr>tok_Token := ''nob''\<rparr>) no_users = None"
proof -
  have sign: "jwt_SignedString (uh_jwt mem_user_handler) \<lparr>ccl_User = None, ccl_ExpiresAt = 5, ccl_Issuer = ''''\<rparr> (uh_jwtSecret mem_user_handler) = Inr ''nob''"
    by (simp add: mem_user_handler_def mem_jwt_def nobody_claims_def alice_claims_def)
  have now: "Unix (uh_Now mem_user_handler no_users) \<le> 5" "Unix (gw_Now mem_gateway no_pay) \<le> 5"
    by (simp_all add: mem_user_handler_def no_users_def mem_gateway_def gateway_with_def no_pay_def Unix_def)
  have jwt: "jwt_ok (uh_jwt mem_user_handler)" using mem_jwt_ok by (simp add: mem_user_handler_def)
  have five: "(5 :: int) \<noteq> 0" by simp
  from token_without_user_panics[OF jwt mem_shares sign five now] show ?thesis by (rule conjunct1)
qed

text \<open>
  Create clears the password in its answer; Get does not: it hands out the stored hash, which the
  password matches.
\<close>

lemma password_hash_served:
  assumes ok: "users_ok d rows" "bcrypt_ok h rows" and repo: "uh_repository h = postgres_users d"
    and create: "user_Create h req w = (Inr resp, w1)" and later: "rows w2 = rows w1"
    and get: "urs_User resp = Some c" "user_Get h (zero_PbUser\<lparr>pus_Id := pus_Id c\<rparr>) w2 = (Inr out, w3)"
  shows "pus_Password c = '''' \<and>
    (\<exists>u. urs_User out = Some u \<and> bc_Compare (uh_bcrypt h) (pus_Password u) (pus_Password req) = None)"
proof -
  obtain i hash where
    c: "rows w1 = rows w @ [(MarshalUser req)\<lparr>usr_ID := i, usr_Password := hash\<rparr>]"
      "bc_Compare (uh_bcrypt h) hash (pus_Password req) = None"
      "urs_User resp = Some (req\<lparr>pus_Id := i, pus_Password := []\<rparr>)" "\<exists>x y. us_NewV4 d x = (i, y)"
    by (rule user_Create_outcome[OF ok repo create])
  let ?u = "(MarshalUser req)\<lparr>usr_ID := i, usr_Password := hash\<rparr>"
  from get(1) c(3) have cc: "c = req\<lparr>pus_Id := i, pus_Password := []\<rparr>" by simp
  from get(2) obtain u where u: "us_Get d (\<lambda>u. usr_ID u = i) w2 = (Inr u, w3)" "urs_User out = Some (UnmarshalUser u)"
    by (auto simp: user_Get_def repo postgres_users_def users_Get_def cc zero_PbUser_def split: sum.splits prod.splits)
  have "?u \<in> set (rows w2)" "usr_ID ?u = i" by (simp_all add: later c(1))
  with users_okD(3)[OF ok(1) u(1)] have "u = ?u" by (auto intro!: same_id[OF users_okD(1)[OF ok(1)]])
  then show ?thesis using u(2) c(2) by (simp add: cc UnmarshalUser_def)
qed

end
