(* ===== verification/Startup.thy ===== *)
theory Startup
  imports Consignment_Manager Reservation_Properties Kafka Database_Clients
begin

text \<open>
  How the services start: what their \<open>main.go\<close> read from the environment, the configuration of the
  reservation service (\<open>config/config.go\<close>, \<open>config/read_env.go\<close>), the tickers made from configured
  intervals, the Kafka topics the two event-driven services create and handle, and the vessels the
  vessel service seeds. Reading a variable is a function from names to strings, with the empty string
  for an unset one.
\<close>

section \<open>Environment variables\<close>

definition getenv_or :: "(string \<Rightarrow> string) \<Rightarrow> string \<Rightarrow> string \<Rightarrow> string" where
  "getenv_or env k d = (if env k = '''' then d else env k)"

text \<open>\<open>strconv.Atoi\<close> for decimal digits with an optional sign, within the 64 bits of an \<open>int\<close>.\<close>

definition is_digit :: "char \<Rightarrow> bool" where
  "is_digit c \<longleftrightarrow> 48 \<le> (of_char c :: nat) \<and> (of_char c :: nat) \<le> 57"

definition signed_digits :: "string \<Rightarrow> int \<times> string" where
  "signed_digits s =
    (case s of
       [] \<Rightarrow> (1, s)
     | c # cs \<Rightarrow> if c = CHR ''-'' then (- 1, cs) else if c = CHR ''+'' then (1, cs) else (1, s))"

definition Atoi :: "string \<Rightarrow> int option" where
  "Atoi s =
    (case signed_digits s of (sign, ds) \<Rightarrow>
       let n = sign * int (parse_digits ds) in
       if ds \<noteq> [] \<and> list_all is_digit ds \<and> - (2 ^ 63) \<le> n \<and> n < 2 ^ 63 then Some n else None)"

section \<open>The services' environments\<close>

record ConsignmentConfig =
  cfg_grpcAddr :: string
  cfg_reservationServiceAddr :: string
  cfg_paymentServiceAddr :: string
  cfg_kafkaAddr :: string
  cfg_outboxInterval :: int
  cfg_uri :: string
  cfg_metricsAddr :: string

definition outbox_interval :: "(string \<Rightarrow> string) \<Rightarrow> int" where
  "outbox_interval env =
    (if env ''OUTBOX_INTERVAL'' \<noteq> '''' then (case Atoi (env ''OUTBOX_INTERVAL'') of Some n \<Rightarrow> n | None \<Rightarrow> 30) else 30)"

definition mongo_uri :: "string \<Rightarrow> string \<Rightarrow> string" where
  "mongo_uri host port = ''mongodb://'' @ host @ '':'' @ port"

definition consignment_config :: "(string \<Rightarrow> string) \<Rightarrow> ConsignmentConfig" where
  "consignment_config env = \<lparr>
     cfg_grpcAddr = getenv_or env ''GRPC_ADDRESS'' '':50051'',
     cfg_reservationServiceAddr = getenv_or env ''RESERVATION_SERVICE_ADDRESS'' ''localhost:50054'',
     cfg_paymentServiceAddr = getenv_or env ''PAYMENT_SERVICE_ADDRESS'' ''localhost:50055'',
     cfg_kafkaAddr = getenv_or env ''KAFKA_ADDRESS'' ''localhost:9092'',
     cfg_outboxInterval = outbox_interval env,
     cfg_uri = mongo_uri (getenv_or env ''DB_HOST'' ''consignment-service-database'') (getenv_or env ''DB_PORT'' ''27017''),
     cfg_metricsAddr = getenv_or env ''METRICS_ADDRESS'' '':9090''\<rparr>"

definition vessel_uri :: "(string \<Rightarrow> string) \<Rightarrow> string" where
  "vessel_uri env = mongo_uri (getenv_or env ''DB_HOST'' ''vessel-service-database'') (getenv_or env ''DB_PORT'' ''27017'')"

text \<open>Without a secret the user service and the gateway stop (\<open>log.Fatal\<close>).\<close>

record UserConfig =
  ucf_grpcAddr :: string
  ucf_jwtSecret :: string
  ucf_host :: string
  ucf_user :: string
  ucf_password :: string
  ucf_name :: string

definition user_config :: "(string \<Rightarrow> string) \<Rightarrow> goerr + UserConfig" where
  "user_config env =
    (if env ''JWT_SECRET'' = '''' then Inl (ErrNew ''no JWT secret'')
     else Inr \<lparr>ucf_grpcAddr = getenv_or env ''GRPC_ADDRESS'' '':50051'', ucf_jwtSecret = env ''JWT_SECRET'',
       ucf_host = getenv_or env ''DB_HOST'' '''', ucf_user = getenv_or env ''DB_USER'' ''user'',
       ucf_password = getenv_or env ''DB_PASSWORD'' ''password'', ucf_name = getenv_or env ''DB_NAME'' ''shippy''\<rparr>)"

record GatewayConfig =
  gcf_serverAddr :: string
  gcf_userServiceAddr :: string
  gcf_consignmentServiceAddr :: string
  gcf_jwtSecret :: string

definition gateway_config :: "(string \<Rightarrow> string) \<Rightarrow> goerr + GatewayConfig" where
  "gateway_config env =
    (if env ''JWT_SECRET'' = '''' then Inl (ErrNew ''no JWT secret'')
     else Inr \<lparr>gcf_serverAddr = getenv_or env ''SERVER_ADDRESS'' ''localhost:50053'',
       gcf_userServiceAddr = getenv_or env ''USER_SERVICE_ADDRESS'' ''localhost:50053'',
       gcf_consignmentServiceAddr = getenv_or env ''CONSIGNMENT_SERVICE_ADDRESS'' ''localhost:50052'',
       gcf_jwtSecret = env ''JWT_SECRET''\<rparr>)"

section \<open>The configuration of the reservation service\<close>

text \<open>
  viper: a key is looked up in the environment under its upper-case name with the prefix \<open>SHIPPY\<close> and
  dots replaced, where an empty variable counts as unset, and has its default otherwise. \<open>main.go\<close> reads
  no file. Only keys with a default reach the structure. Numbers are decoded by the library.
\<close>

record RsConfig =
  rcf_Address :: string
  rcf_RedisAddr :: string
  rcf_ReservationTTL :: int
  rcf_ReservationDataTTL :: int
  rcf_DB :: DBConfig
  rcf_VesselService :: string
  rcf_ProducerServers :: string
  rcf_Acks :: string
  rcf_ConsumerServers :: string
  rcf_GroupID :: string
  rcf_OffsetReset :: string
  rcf_CleanupInterval :: int
  rcf_OutboxInterval :: int

definition upper_char :: "char \<Rightarrow> char" where
  "upper_char c = (if 97 \<le> (of_char c :: nat) \<and> (of_char c :: nat) \<le> 122 then char_of ((of_char c :: nat) - 32) else c)"

definition env_name :: "string \<Rightarrow> string" where
  "env_name key = ''SHIPPY_'' @ map (\<lambda>c. if c = CHR ''.'' then CHR ''_'' else upper_char c) key"

definition setting :: "(string \<Rightarrow> string) \<Rightarrow> string \<Rightarrow> string \<Rightarrow> string" where
  "setting env key dflt = getenv_or env (env_name key) dflt"

definition int_setting :: "(string \<Rightarrow> goerr + int) \<Rightarrow> (string \<Rightarrow> string) \<Rightarrow> string \<Rightarrow> int \<Rightarrow> goerr + int" where
  "int_setting decode env key dflt = (if env (env_name key) = '''' then Inr dflt else decode (env (env_name key)))"

text \<open>\<open>validate:"required"\<close> refuses an empty string; the database password may be empty.\<close>

definition valid_config :: "RsConfig \<Rightarrow> bool" where
  "valid_config c \<longleftrightarrow> list_all (\<lambda>s. s \<noteq> '''')
     [rcf_Address c, rcf_RedisAddr c, db_Host (rcf_DB c), db_Port (rcf_DB c), db_Name (rcf_DB c), db_User (rcf_DB c),
      rcf_VesselService c, rcf_ProducerServers c, rcf_Acks c, rcf_ConsumerServers c, rcf_GroupID c, rcf_OffsetReset c]"

definition db_settings :: "(string \<Rightarrow> string) \<Rightarrow> DBConfig" where
  "db_settings env = \<lparr>
     db_Host = setting env ''database.host'' ''localhost'',
     db_Port = setting env ''database.port'' ''5432'',
     db_Name = setting env ''database.name'' ''reservation'',
     db_User = setting env ''database.user'' ''reservation'',
     db_Password = setting env ''database.password'' ''password''\<rparr>"

definition unmarshal_config :: "(string \<Rightarrow> goerr + int) \<Rightarrow> (string \<Rightarrow> string) \<Rightarrow> goerr + RsConfig" where
  "unmarshal_config decode env =
    (case int_setting decode env ''redis.reservation_ttl'' 600 of Inl err \<Rightarrow> Inl err | Inr ttl \<Rightarrow>
     case int_setting decode env ''redis.reservation_data_ttl'' 1800 of Inl err \<Rightarrow> Inl err | Inr dataTTL \<Rightarrow>
     case int_setting decode env ''manager.cleanup_interval'' 60 of Inl err \<Rightarrow> Inl err | Inr cleanup \<Rightarrow>
     case int_setting decode env ''manager.outbox_interval'' 15 of Inl err \<Rightarrow> Inl err | Inr outbox \<Rightarrow>
       Inr \<lparr>rcf_Address = setting env ''address'' '':50051'',
         rcf_RedisAddr = setting env ''redis.addr'' '':6379'',
         rcf_ReservationTTL = ttl, rcf_ReservationDataTTL = dataTTL,
         rcf_DB = db_settings env,
         rcf_VesselService = setting env ''vessel_service.address'' ''vessel-service:50051'',
         rcf_ProducerServers = setting env ''kafka_producer.bootstrap_servers'' '''',
         rcf_Acks = setting env ''kafka_producer.acks'' ''all'',
         rcf_ConsumerServers = setting env ''kafka_consumer.bootstrap_servers'' '''',
         rcf_GroupID = setting env ''kafka_consumer.group_id'' ''reservation-service'',
         rcf_OffsetReset = setting env ''kafka_consumer.offset_reset'' ''earliest'',
         rcf_CleanupInterval = cleanup, rcf_OutboxInterval = outbox\<rparr>)"

text \<open>The first decoding error; the modifiers of the structure change nothing, as it has no \<open>mod\<close> tags.\<close>

definition ReadEnvironment :: "(string \<Rightarrow> goerr + int) \<Rightarrow> (string \<Rightarrow> string) \<Rightarrow> goerr + RsConfig" where
  "ReadEnvironment decode env =
    (case unmarshal_config decode env of
       Inl err \<Rightarrow> Inl (Errorf ''failed to unmarshall viper'' [err])
     | Inr c \<Rightarrow> if valid_config c then Inr c else Inl (Errorf ''failed to validate config'' [ErrNew ''required'']))"

lemma setting_nonempty: "d \<noteq> '''' \<Longrightarrow> setting env k d \<noteq> ''''"
  by (simp add: setting_def getenv_or_def)

text \<open>Kafka is all that has to be configured.\<close>

lemma config_needs_kafka_only:
  assumes "unmarshal_config decode env = Inr c"
  shows "ReadEnvironment decode env = Inr c \<longleftrightarrow>
    env ''SHIPPY_KAFKA_PRODUCER_BOOTSTRAP_SERVERS'' \<noteq> '''' \<and> env ''SHIPPY_KAFKA_CONSUMER_BOOTSTRAP_SERVERS'' \<noteq> ''''"
proof -
  have names: "env_name ''kafka_producer.bootstrap_servers'' = ''SHIPPY_KAFKA_PRODUCER_BOOTSTRAP_SERVERS''"
    "env_name ''kafka_consumer.bootstrap_servers'' = ''SHIPPY_KAFKA_CONSUMER_BOOTSTRAP_SERVERS''" by code_simp+
  from assms have "valid_config c \<longleftrightarrow> setting env ''kafka_producer.bootstrap_servers'' '''' \<noteq> '''' \<and>
      setting env ''kafka_consumer.bootstrap_servers'' '''' \<noteq> ''''"
    by (auto simp: unmarshal_config_def valid_config_def db_settings_def setting_nonempty split: sum.splits)
  then show ?thesis using assms by (simp add: ReadEnvironment_def setting_def getenv_or_def names)
qed

section \<open>Tickers\<close>

text \<open>
  \<open>time.Duration(n) * time.Second\<close> is a product of 64-bit integers, which wraps; \<open>time.NewTicker\<close> panics
  (\<open>None\<close>) unless its period is positive.
\<close>

definition seconds :: "int \<Rightarrow> 64 word" where
  "seconds n = word_of_int n * 1000000000"

definition NewTicker :: "64 word \<Rightarrow> 64 word option" where
  "NewTicker d = (if 0 <s d then Some d else None)"

section \<open>Topics\<close>

definition topic_config :: "string \<Rightarrow> TopicConfig" where
  "topic_config t = \<lparr>tc_Name = t, tc_NumPartitions = 1, tc_ReplicationFactor = 1\<rparr>"

definition consignment_topics :: "TopicConfig list" where
  "consignment_topics = map topic_config [ConsignmentPaymentAuthorisedTopic, ConsignmentConfirmationFailedTopic,
     ReservationExpiredTopic, ReservationConfirmedTopic, PaymentCapturedTopic]"

definition consignment_handled :: "string list" where
  "consignment_handled = [ConsignmentPaymentAuthorisedTopic, ConsignmentConfirmationFailedTopic, ReservationExpiredTopic,
     ReservationConfirmedTopic]"

definition reservation_topics :: "TopicConfig list" where
  "reservation_topics = map topic_config [rs_PaymentCapturedTopic, ReleaseCapacityTopic, ConfirmCapacityTopic, CapacityFailedTopic,
     rs_ReservationExpiredTopic, rs_ConfirmationFailedTopic, rs_ReservationConfirmedTopic]"

definition reservation_handled :: "string list" where
  "reservation_handled = [rs_PaymentCapturedTopic, ReleaseCapacityTopic, ConfirmCapacityTopic, rs_ReservationExpiredTopic,
     CapacityFailedTopic]"

section \<open>The vessels seeded at a start\<close>

definition seed_vessel :: "string \<Rightarrow> string \<Rightarrow> Vessel" where
  "seed_vessel i name = \<lparr>ID = i, Capacity = 100000, MaxWeight = 10000000, ReservedWeight = 0, UsedWeight = 0,
     ReservedCapacity = 0, UsedCapacity = 0, Name = name, Available = False\<rparr>"

text \<open>A failing insertion is logged only.\<close>

fun seed_vessels :: "'w MongoRepository \<Rightarrow> Vessel list \<Rightarrow> 'w \<Rightarrow> 'w" where
  "seed_vessels repo [] w = w"
| "seed_vessels repo (v # vs) w = seed_vessels repo vs (snd (repo_Create repo v w))"

definition start_vessels :: "'w MongoRepository \<Rightarrow> ('w \<Rightarrow> string \<times> 'w) \<Rightarrow> 'w \<Rightarrow> 'w" where
  "start_vessels repo NewString w =
    (case NewString w of (a, w1) \<Rightarrow>
     case NewString w1 of (b, w2) \<Rightarrow>
     case NewString w2 of (c, w3) \<Rightarrow>
       seed_vessels repo [seed_vessel a ''Boaty McBoatface'', seed_vessel b ''The Unsinkable II'', seed_vessel c ''SS Load Test''] w3)"

section \<open>Facts\<close>

lemma digit_chars: "d < 10 \<Longrightarrow> is_digit (digit_char d)"
  by (simp add: is_digit_def digit_char_def)

lemma nat_digits_are_digits: "list_all is_digit (nat_digits n)"
proof (induction n rule: nat_digits.induct)
  case (1 n)
  then show ?case by (subst nat_digits.simps) (simp add: digit_chars)
qed

lemma digits_no_sign: "is_digit c \<Longrightarrow> c \<noteq> CHR ''-'' \<and> c \<noteq> CHR ''+''"
  by (auto simp: is_digit_def)

text \<open>What \<open>fmt\<close> prints of an \<open>int\<close>, \<open>Atoi\<close> reads back.\<close>

lemma Atoi_fmt_int:
  assumes "- (2 ^ 63) \<le> n" "n < 2 ^ 63"
  shows "Atoi (fmt_int n) = Some n"
proof (cases "n < 0")
  case True
  then have "signed_digits (fmt_int n) = (- 1, nat_digits (nat (- n)))" by (simp add: signed_digits_def fmt_int_def)
  with True assms show ?thesis
    by (simp add: Atoi_def nat_digits_nonempty nat_digits_are_digits parse_nat_digits)
next
  case False
  obtain c cs where cs: "nat_digits (nat n) = c # cs" using nat_digits_nonempty[of "nat n"] by (cases "nat_digits (nat n)") auto
  with nat_digits_are_digits[of "nat n"] have "c \<noteq> CHR ''-'' \<and> c \<noteq> CHR ''+''" by (simp add: digits_no_sign)
  with cs False have "signed_digits (fmt_int n) = (1, nat_digits (nat n))" by (simp add: signed_digits_def fmt_int_def)
  with False assms show ?thesis
    by (simp add: Atoi_def nat_digits_nonempty nat_digits_are_digits parse_nat_digits)
qed

lemma seconds_exact:
  assumes "- 9223372036 \<le> n" "n \<le> 9223372036"
  shows "sint (seconds n) = n * 10 ^ 9"
proof -
  have s: "seconds n = word_of_int (n * 1000000000)" by (simp add: seconds_def)
  have "signed_take_bit 63 (n * 1000000000) = n * 1000000000"
    using assms by (intro signed_take_bit_int_eq_self) simp_all
  then show ?thesis unfolding s by (simp add: sint_sbintrunc' del: of_int_mult)
qed

text \<open>The 64-bit product in general: it wraps around.\<close>

definition wrap64 :: "int \<Rightarrow> int" where
  "wrap64 i = (i + 2 ^ 63) mod 2 ^ 64 - 2 ^ 63"

lemma sint_seconds: "sint (seconds n) = wrap64 (n * 10 ^ 9)"
proof -
  have "seconds n = word_of_int (n * 10 ^ 9)" by (simp add: seconds_def)
  then have "sint (seconds n) = signed_take_bit 63 (n * 10 ^ 9)" by (simp add: sint_sbintrunc' del: of_int_mult)
  then show ?thesis by (simp add: wrap64_def signed_take_bit_eq_take_bit_shift take_bit_eq_mod)
qed

lemma NewTicker_seconds:
  "NewTicker (seconds n) = (if 0 < wrap64 (n * 10 ^ 9) then Some (seconds n) else None)"
  by (simp add: NewTicker_def word_sless_alt sint_seconds)

text \<open>Starting the vessel service adds its three vessels, every time it starts.\<close>

lemma seed_vessels_added:
  assumes ok: "mongo_ok (R, V)" and up: "\<forall>v w. \<exists>w'. InsertVessel R v w = (Inr (), w')"
  shows "vessels_of (committed V (seed_vessels R vs w)) = vessels_of (committed V w) @ vs"
proof (induction vs arbitrary: w)
  case (Cons v vs)
  from up obtain w1 where "InsertVessel R v w = (Inr (), w1)" by blast
  with ok have "vessels_of (committed V w1) = vessels_of (committed V w) @ [v]" "snd (repo_Create R v w) = w1"
    by (simp_all add: mongo_ok_def index_ok_def repo_Create_def)
  with Cons.IH[of w1] show ?case by simp
qed simp

section \<open>Properties\<close>

text \<open>
  The topics of the two event-driven services fit together. Both managers accept the topics their
  main functions configure; every topic either service creates has a handler in one of them, and every
  handled topic is created by the service that handles it.
\<close>

theorem topics_fit:
  "\<exists>H H'. cs_New m consignment_handled = Inr H \<and> rs_New m' reservation_handled = Inr H' \<and>
    dom H \<union> dom H' = tc_Name ` (set consignment_topics \<union> set reservation_topics) \<and>
    dom H \<subseteq> tc_Name ` set consignment_topics \<and> dom H' \<subseteq> tc_Name ` set reservation_topics"
proof -
  let ?H = "\<lambda>t. if t \<in> set consignment_handled then cs_handlers m t else None"
  let ?H' = "\<lambda>t. if t \<in> set reservation_handled then rs_handlers m' t else None"
  have all: "\<forall>t \<in> set consignment_handled. cs_handlers m t \<noteq> None" "\<forall>t \<in> set reservation_handled. rs_handlers m' t \<noteq> None"
    by (simp_all add: consignment_handled_def cs_handlers_def cs_topic_defs reservation_handled_def rs_handlers_def rs_topic_defs)
  then have "find (\<lambda>t. cs_handlers m t = None) consignment_handled = None" "find (\<lambda>t. rs_handlers m' t = None) reservation_handled = None"
    by (auto simp: find_None_iff)
  then have new: "cs_New m consignment_handled = Inr ?H" "rs_New m' reservation_handled = Inr ?H'"
    by (simp_all add: cs_New_def rs_New_def assign_handlers_result)
  have "dom ?H = set consignment_handled" "dom ?H' = set reservation_handled"
    using all by (auto simp: dom_def)
  with new show ?thesis
    by (intro exI[of _ ?H] exI[of _ ?H'])
      (simp add: consignment_handled_def reservation_handled_def consignment_topics_def reservation_topics_def topic_config_def
        cs_topic_defs rs_topic_defs insert_commute)
qed

text \<open>
  C39. The outbox interval is taken as configured and must lie between 1 and 9223372036 seconds. A
  decimal \<open>OUTBOX_INTERVAL\<close> of at most 64 bits is read as itself, and the ticker gets its nanoseconds as
  a signed 64-bit product: for an interval of 1 to 9223372036 that many seconds. Of the others, it panics
  where the product, wrapped around, is not positive - so for 0, for a negative interval down to
  -9223372036 and for 9223372037 - and ticks with the wrapped period where it is, as for -9223372037.
\<close>

theorem outbox_interval_bounds:
  assumes "env ''OUTBOX_INTERVAL'' = fmt_int n" and "- (2 ^ 63) \<le> n" "n < 2 ^ 63"
  shows "cfg_outboxInterval (consignment_config env) = n \<and>
    (case NewTicker (seconds n) of
       Some d \<Rightarrow> 0 < wrap64 (n * 10 ^ 9) \<and> sint d = wrap64 (n * 10 ^ 9)
     | None \<Rightarrow> wrap64 (n * 10 ^ 9) \<le> 0) \<and>
    (1 \<le> n \<and> n \<le> 9223372036 \<longrightarrow> (\<exists>d. NewTicker (seconds n) = Some d \<and> sint d = n * 10 ^ 9)) \<and>
    (- 9223372036 \<le> n \<and> n \<le> 0 \<or> n = 9223372037 \<longrightarrow> NewTicker (seconds n) = None) \<and>
    (n = - 9223372037 \<longrightarrow> (\<exists>d. NewTicker (seconds n) = Some d \<and> sint d = 9223372036709551616))"
proof -
  have "fmt_int n \<noteq> ''''" by (simp add: fmt_int_def nat_digits_nonempty)
  then have cfg: "cfg_outboxInterval (consignment_config env) = n"
    using assms by (simp add: consignment_config_def outbox_interval_def Atoi_fmt_int)
  have exact: "wrap64 (n * 10 ^ 9) = n * 10 ^ 9" if "- 9223372036 \<le> n" "n \<le> 9223372036"
    using seconds_exact[OF that] by (simp only: sint_seconds)
  have over: "wrap64 (9223372037 * 10 ^ 9) \<le> 0" "wrap64 (- 9223372037 * 10 ^ 9) = 9223372036709551616"
    by (simp_all add: wrap64_def)
  show ?thesis
  proof (intro conjI impI)
    show "case NewTicker (seconds n) of Some d \<Rightarrow> 0 < wrap64 (n * 10 ^ 9) \<and> sint d = wrap64 (n * 10 ^ 9)
        | None \<Rightarrow> wrap64 (n * 10 ^ 9) \<le> 0"
      by (simp add: NewTicker_seconds sint_seconds)
    show "\<exists>d. NewTicker (seconds n) = Some d \<and> sint d = n * 10 ^ 9" if "1 \<le> n \<and> n \<le> 9223372036"
      using that exact by (simp add: NewTicker_seconds sint_seconds)
    show "NewTicker (seconds n) = None" if "- 9223372036 \<le> n \<and> n \<le> 0 \<or> n = 9223372037"
      using that exact over(1) by (auto simp: NewTicker_seconds)
    show "\<exists>d. NewTicker (seconds n) = Some d \<and> sint d = 9223372036709551616" if "n = - 9223372037"
      using over(2) by (simp add: that NewTicker_seconds sint_seconds)
  qed (rule cfg)
qed

lemma outbox_interval_bounds_witness:
  "NewTicker (seconds (cfg_outboxInterval (consignment_config (\<lambda>k. fmt_int 0)))) = None"
  using outbox_interval_bounds[of "\<lambda>k. fmt_int 0" 0] by simp

end
