(* ===== verification/Lifecycle.thy ===== *)
theory Lifecycle
  imports Startup
begin

text \<open>
  The life of the two event-driven services: the goroutines that \<open>manager.Start\<close> and \<open>GRPCServe\<close>
  start, the two error channels, the wait group, and the shutdown at the end of \<open>run\<close>. Each goroutine
  is a program counter and the moves its code allows; a step of the process is a move of one of them.
  The calls a goroutine makes are taken to return.
\<close>

section \<open>Goroutines\<close>

text \<open>
  \<open>processOutbox\<close> and \<open>processReservations\<close>: make the ticker, then select between a tick and the end of
  the context; when both are ready, either may be picked. \<open>None\<close> is the panic of \<open>time.NewTicker\<close>.
\<close>

datatype ticker_pc = MakeTicker | InSelect | Working | TickerEnded

definition ticker_moves :: "int \<Rightarrow> bool \<Rightarrow> ticker_pc \<Rightarrow> ticker_pc option list" where
  "ticker_moves interval ctxDone pc =
    (case pc of
       MakeTicker \<Rightarrow> [map_option (\<lambda>d. InSelect) (NewTicker (seconds interval))]
     | InSelect \<Rightarrow> Some Working # (if ctxDone then [Some TickerEnded] else [])
     | Working \<Rightarrow> [Some InSelect]
     | TickerEnded \<Rightarrow> [])"

text \<open>
  \<open>processEvents\<close>: subscribe, then look whether the context has ended before every message. Either end
  of \<open>StartConsuming\<close> is an error, which the goroutine sends to the manager's error channel.
\<close>

datatype consumer_pc = Subscribing | Polling | Handling | ConsumerFailed | ConsumerEnded

definition consumer_moves :: "bool \<Rightarrow> consumer_pc \<Rightarrow> consumer_pc list" where
  "consumer_moves ctxDone pc =
    (case pc of
       Subscribing \<Rightarrow> [Polling, ConsumerFailed]
     | Polling \<Rightarrow> if ctxDone then [ConsumerFailed] else [Handling]
     | Handling \<Rightarrow> [Polling]
     | ConsumerFailed \<Rightarrow> []
     | ConsumerEnded \<Rightarrow> [])"

text \<open>
  \<open>GRPCServe\<close>: \<open>Serve\<close> returns nil once the server is stopped gracefully, but an error when it is called
  on a stopped server.
\<close>

datatype server_pc = Listening | Serving | ServerFailed | ServerEnded

definition server_moves :: "bool \<Rightarrow> server_pc \<Rightarrow> server_pc list" where
  "server_moves stopped pc =
    (case pc of
       Listening \<Rightarrow> [ServerFailed, if stopped then ServerFailed else Serving]
     | Serving \<Rightarrow> if stopped then [ServerEnded] else [ServerFailed]
     | ServerFailed \<Rightarrow> []
     | ServerEnded \<Rightarrow> [])"

section \<open>The process\<close>

text \<open>Both error channels are made with room for one error.\<close>

definition errCh_cap :: nat where
  "errCh_cap = 1"

datatype main_pc = BeforeStart | BeforeServe | InMainSelect | Stopping | Waiting | Returned

record life =
  lf_main :: main_pc
  lf_ctxDone :: bool
  lf_wg :: nat
  lf_tickers :: "(int \<times> ticker_pc) list"
  lf_consumer :: "consumer_pc option"
  lf_server :: "server_pc option"
  lf_managerErr :: nat
  lf_grpcErr :: nat
  lf_stopped :: bool
  lf_panicked :: bool

text \<open>The services with the intervals of their tickers, in seconds.\<close>

datatype service = ConsignmentService int | ReservationService int int

definition cs_Start :: "int \<Rightarrow> life \<Rightarrow> life" where
  "cs_Start outboxInterval s = s\<lparr>lf_wg := lf_wg s + 2, lf_tickers := [(outboxInterval, MakeTicker)],
     lf_consumer := Some Subscribing\<rparr>"

definition rs_Start :: "int \<Rightarrow> int \<Rightarrow> life \<Rightarrow> life" where
  "rs_Start outboxInterval cleanupInterval s = s\<lparr>lf_wg := lf_wg s + 3,
     lf_tickers := [(outboxInterval, MakeTicker), (cleanupInterval, MakeTicker)], lf_consumer := Some Subscribing\<rparr>"

fun intervals :: "service \<Rightarrow> int list" where
  "intervals (ConsignmentService n) = [n]"
| "intervals (ReservationService n k) = [n, k]"

definition mgr_Start :: "service \<Rightarrow> life \<Rightarrow> life" where
  "mgr_Start svc s = (case svc of ConsignmentService n \<Rightarrow> cs_Start n s | ReservationService n k \<Rightarrow> rs_Start n k s)"

text \<open>\<open>run\<close> from \<open>mgr.Start\<close> on: the \<open>select\<close>, \<open>GracefulStop\<close>, \<open>wg.Wait\<close>.\<close>

definition main_moves :: "service \<Rightarrow> life \<Rightarrow> life list" where
  "main_moves svc s =
    (case lf_main s of
       BeforeStart \<Rightarrow> [(mgr_Start svc s)\<lparr>lf_main := BeforeServe\<rparr>]
     | BeforeServe \<Rightarrow> [s\<lparr>lf_wg := lf_wg s + 1, lf_server := Some Listening, lf_main := InMainSelect\<rparr>]
     | InMainSelect \<Rightarrow>
         (if 0 < lf_managerErr s then [s\<lparr>lf_managerErr := lf_managerErr s - 1, lf_ctxDone := True, lf_main := Stopping\<rparr>] else []) @
         (if 0 < lf_grpcErr s then [s\<lparr>lf_grpcErr := lf_grpcErr s - 1, lf_ctxDone := True, lf_main := Stopping\<rparr>] else []) @
         (if lf_ctxDone s then [s\<lparr>lf_main := Stopping\<rparr>] else [])
     | Stopping \<Rightarrow> [s\<lparr>lf_stopped := True, lf_main := Waiting\<rparr>]
     | Waiting \<Rightarrow> if lf_wg s = 0 then [s\<lparr>lf_main := Returned\<rparr>] else []
     | Returned \<Rightarrow> [])"

definition wg_done :: "bool \<Rightarrow> life \<Rightarrow> life" where
  "wg_done ended s = (if ended then s\<lparr>lf_wg := lf_wg s - 1\<rparr> else s)"

definition move_ticker :: "nat \<Rightarrow> ticker_pc \<Rightarrow> life \<Rightarrow> life" where
  "move_ticker i pc s = wg_done (pc = TickerEnded) (s\<lparr>lf_tickers := (lf_tickers s)[i := (fst (lf_tickers s ! i), pc)]\<rparr>)"

text \<open>One step; the label tells the ticks from the others. \<open>signal\<close> is an interrupt from outside.\<close>

inductive life_step :: "service \<Rightarrow> bool \<Rightarrow> life \<Rightarrow> life \<Rightarrow> bool" for svc where
  main: "\<not> lf_panicked s \<Longrightarrow> s' \<in> set (main_moves svc s) \<Longrightarrow> life_step svc False s s'"
| signal: "\<not> lf_panicked s \<Longrightarrow> \<not> lf_ctxDone s \<Longrightarrow> life_step svc False s (s\<lparr>lf_ctxDone := True\<rparr>)"
| ticker: "\<not> lf_panicked s \<Longrightarrow> i < length (lf_tickers s) \<Longrightarrow> lf_tickers s ! i = (n, pc) \<Longrightarrow>
    Some pc' \<in> set (ticker_moves n (lf_ctxDone s) pc) \<Longrightarrow> life_step svc (pc' = Working) s (move_ticker i pc' s)"
| panic: "\<not> lf_panicked s \<Longrightarrow> (n, pc) \<in> set (lf_tickers s) \<Longrightarrow> None \<in> set (ticker_moves n (lf_ctxDone s) pc) \<Longrightarrow>
    life_step svc False s (s\<lparr>lf_panicked := True\<rparr>)"
| consumer: "\<not> lf_panicked s \<Longrightarrow> lf_consumer s = Some cpc \<Longrightarrow> cpc' \<in> set (consumer_moves (lf_ctxDone s) cpc) \<Longrightarrow>
    life_step svc False s (s\<lparr>lf_consumer := Some cpc'\<rparr>)"
| consumer_send: "\<not> lf_panicked s \<Longrightarrow> lf_consumer s = Some ConsumerFailed \<Longrightarrow> lf_managerErr s < errCh_cap \<Longrightarrow>
    life_step svc False s (wg_done True (s\<lparr>lf_managerErr := lf_managerErr s + 1, lf_consumer := Some ConsumerEnded\<rparr>))"
| server: "\<not> lf_panicked s \<Longrightarrow> lf_server s = Some spc \<Longrightarrow> spc' \<in> set (server_moves (lf_stopped s) spc) \<Longrightarrow>
    life_step svc False s (wg_done (spc' = ServerEnded) (s\<lparr>lf_server := Some spc'\<rparr>))"
| server_send: "\<not> lf_panicked s \<Longrightarrow> lf_server s = Some ServerFailed \<Longrightarrow> lf_grpcErr s < errCh_cap \<Longrightarrow>
    life_step svc False s (wg_done True (s\<lparr>lf_grpcErr := lf_grpcErr s + 1, lf_server := Some ServerEnded\<rparr>))"

text \<open>A run with its numbers of ticks and of other steps.\<close>

inductive life_run :: "service \<Rightarrow> nat \<Rightarrow> nat \<Rightarrow> life \<Rightarrow> life \<Rightarrow> bool" for svc where
  none: "life_run svc 0 0 s s"
| tick: "life_run svc k n s s1 \<Longrightarrow> life_step svc True s1 s2 \<Longrightarrow> life_run svc (Suc k) n s s2"
| step: "life_run svc k n s s1 \<Longrightarrow> life_step svc False s1 s2 \<Longrightarrow> life_run svc k (Suc n) s s2"

definition boot :: life where
  "boot = \<lparr>lf_main = BeforeStart, lf_ctxDone = False, lf_wg = 0, lf_tickers = [], lf_consumer = None, lf_server = None,
     lf_managerErr = 0, lf_grpcErr = 0, lf_stopped = False, lf_panicked = False\<rparr>"

section \<open>The invariant\<close>

definition consumer_alive :: "consumer_pc option \<Rightarrow> nat" where
  "consumer_alive c = (if c = None \<or> c = Some ConsumerEnded then 0 else 1)"

definition server_alive :: "server_pc option \<Rightarrow> nat" where
  "server_alive c = (if c = None \<or> c = Some ServerEnded then 0 else 1)"

definition running :: "life \<Rightarrow> nat" where
  "running s = length (filter (\<lambda>t. snd t \<noteq> TickerEnded) (lf_tickers s)) +
     consumer_alive (lf_consumer s) + server_alive (lf_server s)"

fun main_left :: "main_pc \<Rightarrow> nat" where
  "main_left BeforeStart = 16" | "main_left BeforeServe = 7" | "main_left InMainSelect = 3" | "main_left Stopping = 2"
| "main_left Waiting = 1" | "main_left Returned = 0"

text \<open>The stages of \<open>run\<close> in the order of the code.\<close>

instantiation main_pc :: linorder
begin

definition less_eq_main_pc :: "main_pc \<Rightarrow> main_pc \<Rightarrow> bool" where
  "less_eq_main_pc a b \<longleftrightarrow> main_left b \<le> main_left a"

definition less_main_pc :: "main_pc \<Rightarrow> main_pc \<Rightarrow> bool" where
  "less_main_pc a b \<longleftrightarrow> main_left b < main_left a"

instance
proof
  fix a b :: main_pc
  show "a \<le> b \<Longrightarrow> b \<le> a \<Longrightarrow> a = b" by (cases a; cases b) (simp_all add: less_eq_main_pc_def)
qed (auto simp: less_eq_main_pc_def less_main_pc_def)

end

lemmas stage_defs [simp] = less_eq_main_pc_def less_main_pc_def

definition life_inv :: "life \<Rightarrow> bool" where
  "life_inv s \<longleftrightarrow> lf_wg s = running s \<and> length (lf_tickers s) \<le> 2 \<and>
     (lf_consumer s = Some ConsumerEnded \<and> lf_managerErr s = 0 \<longrightarrow> lf_ctxDone s) \<and>
     (lf_server s = Some ServerEnded \<and> lf_grpcErr s = 0 \<longrightarrow> lf_ctxDone s) \<and>
     (lf_consumer s \<noteq> Some ConsumerEnded \<longrightarrow> lf_managerErr s = 0) \<and> (lf_server s \<noteq> Some ServerEnded \<longrightarrow> lf_grpcErr s = 0) \<and>
     (lf_main s = BeforeStart \<longleftrightarrow> lf_consumer s = None) \<and> (lf_main s = BeforeStart \<longrightarrow> lf_tickers s = []) \<and>
     (lf_server s = None \<longleftrightarrow> lf_main s < InMainSelect) \<and> (lf_stopped s \<longleftrightarrow> Stopping < lf_main s) \<and>
     (Stopping \<le> lf_main s \<longrightarrow> lf_ctxDone s) \<and> (lf_main s = Returned \<longrightarrow> running s = 0)"

lemma life_inv_alive: "life_inv s \<Longrightarrow> lf_wg s = length (filter (\<lambda>t. snd t \<noteq> TickerEnded) (lf_tickers s)) +
     consumer_alive (lf_consumer s) + server_alive (lf_server s)"
  by (simp add: life_inv_def running_def)

lemma boot_inv: "life_inv boot"
  by (simp add: life_inv_def boot_def running_def consumer_alive_def server_alive_def)

lemma filter_update:
  assumes "i < length xs"
  shows "length (filter P (xs[i := x])) + (if P (xs ! i) then 1 else 0) = length (filter P xs) + (if P x then 1 else 0)"
proof -
  have "xs = take i xs @ xs ! i # drop (Suc i) xs" by (rule id_take_nth_drop[OF assms])
  then have "length (filter P xs) = length (filter P (take i xs @ xs ! i # drop (Suc i) xs))" by (rule arg_cong)
  then show ?thesis by (simp add: upd_conv_take_nth_drop[OF assms])
qed

lemma ticker_movesD:
  assumes "Some pc' \<in> set (ticker_moves n d pc)"
  shows "pc \<noteq> TickerEnded \<and> pc' \<noteq> MakeTicker \<and> (pc' = TickerEnded \<longrightarrow> d \<and> pc = InSelect) \<and> (pc' = Working \<longrightarrow> pc = InSelect) \<and>
    (pc' = InSelect \<longrightarrow> pc \<in> {MakeTicker, Working})"
  using assms by (cases pc; cases "NewTicker (seconds n)") (auto simp: ticker_moves_def split: if_splits)

lemma consumer_movesD: "cpc' \<in> set (consumer_moves d cpc) \<Longrightarrow> cpc \<noteq> ConsumerEnded \<and> cpc' \<noteq> ConsumerEnded"
  by (auto simp: consumer_moves_def split: consumer_pc.splits if_splits)

lemma server_movesD: "spc' \<in> set (server_moves st spc) \<Longrightarrow> spc \<noteq> ServerEnded \<and> (spc' = ServerEnded \<longrightarrow> st)"
  by (auto simp: server_moves_def split: server_pc.splits if_splits)

lemma wg_done_select [simp]:
  "lf_main (wg_done b s) = lf_main s" "lf_ctxDone (wg_done b s) = lf_ctxDone s" "lf_tickers (wg_done b s) = lf_tickers s"
  "lf_consumer (wg_done b s) = lf_consumer s" "lf_server (wg_done b s) = lf_server s" "lf_managerErr (wg_done b s) = lf_managerErr s"
  "lf_grpcErr (wg_done b s) = lf_grpcErr s" "lf_stopped (wg_done b s) = lf_stopped s" "lf_panicked (wg_done b s) = lf_panicked s"
  "running (wg_done b s) = running s" "lf_wg (wg_done b s) = (if b then lf_wg s - 1 else lf_wg s)"
  by (simp_all add: wg_done_def running_def)

lemma move_ticker_select [simp]:
  "lf_main (move_ticker i pc s) = lf_main s" "lf_ctxDone (move_ticker i pc s) = lf_ctxDone s"
  "lf_consumer (move_ticker i pc s) = lf_consumer s" "lf_server (move_ticker i pc s) = lf_server s" "lf_managerErr (move_ticker i pc s) = lf_managerErr s"
  "lf_grpcErr (move_ticker i pc s) = lf_grpcErr s" "lf_stopped (move_ticker i pc s) = lf_stopped s" "lf_panicked (move_ticker i pc s) = lf_panicked s"
  by (simp_all add: move_ticker_def)

lemmas alive_defs = consumer_alive_def server_alive_def

lemma main_keeps_inv:
  assumes inv: "life_inv s" and move: "s' \<in> set (main_moves svc s)"
  shows "life_inv s'"
proof (cases "lf_main s")
  case BeforeStart
  with inv have "lf_consumer s = None" "lf_server s = None" "lf_tickers s = []" "lf_wg s = 0" "lf_managerErr s = 0" "lf_grpcErr s = 0"
    "\<not> lf_stopped s" by (simp_all add: life_inv_def running_def alive_defs)
  with BeforeStart move show ?thesis
    by (cases svc) (simp_all add: main_moves_def mgr_Start_def cs_Start_def rs_Start_def life_inv_def running_def alive_defs)
next
  case BeforeServe
  with inv move show ?thesis by (simp add: main_moves_def life_inv_def running_def alive_defs)
next
  case InMainSelect
  with move consider "0 < lf_managerErr s" "s' = s\<lparr>lf_managerErr := lf_managerErr s - 1, lf_ctxDone := True, lf_main := Stopping\<rparr>"
    | "0 < lf_grpcErr s" "s' = s\<lparr>lf_grpcErr := lf_grpcErr s - 1, lf_ctxDone := True, lf_main := Stopping\<rparr>"
    | "lf_ctxDone s" "s' = s\<lparr>lf_main := Stopping\<rparr>"
    by (auto simp: main_moves_def split: if_splits)
  then show ?thesis by cases (use inv InMainSelect in \<open>simp_all add: life_inv_def running_def\<close>)
next
  case Stopping
  with inv move show ?thesis by (simp add: main_moves_def life_inv_def running_def)
next
  case Waiting
  with inv move show ?thesis by (simp add: main_moves_def life_inv_def running_def split: if_splits)
next
  case Returned
  with move show ?thesis by (simp add: main_moves_def)
qed

lemma ticker_keeps_inv:
  assumes inv: "life_inv s" and i: "i < length (lf_tickers s)" "lf_tickers s ! i = (n, pc)"
    and move: "Some pc' \<in> set (ticker_moves n (lf_ctxDone s) pc)"
  shows "life_inv (move_ticker i pc' s)"
proof -
  have live: "length (filter (\<lambda>t. snd t \<noteq> TickerEnded) ((lf_tickers s)[i := (n, pc')])) + 1 =
      length (filter (\<lambda>t. snd t \<noteq> TickerEnded) (lf_tickers s)) + (if pc' \<noteq> TickerEnded then 1 else 0)"
    using filter_update[OF i(1), of "\<lambda>t. snd t \<noteq> TickerEnded" "(n, pc')"] ticker_movesD[OF move] i(2) by auto
  then have "running (move_ticker i pc' s) = lf_wg (move_ticker i pc' s)"
    using life_inv_alive[OF inv] i(2) by (simp add: move_ticker_def running_def split: if_splits)
  moreover have "lf_main s \<noteq> BeforeStart" using inv i(1) by (auto simp: life_inv_def)
  moreover have "lf_main s \<noteq> Returned" 
  proof
    assume "lf_main s = Returned"
    with inv have "running s = 0" by (simp add: life_inv_def)
    then have "\<forall>t \<in> set (lf_tickers s). snd t = TickerEnded" by (simp add: running_def filter_empty_conv)
    with i ticker_movesD[OF move] show False by (metis nth_mem snd_conv)
  qed
  moreover have "length (lf_tickers (move_ticker i pc' s)) = length (lf_tickers s)" by (simp add: move_ticker_def)
  ultimately show ?thesis using inv by (simp add: life_inv_def)
qed

lemma life_step_inv:
  assumes "life_step svc b s s'" "life_inv s"
  shows "life_inv s'"
  using assms
proof (cases rule: life_step.cases)
  case main
  from main_keeps_inv[OF assms(2) main(3)] show ?thesis .
next
  case signal
  with assms(2) show ?thesis by (cases "lf_main s") (simp_all add: life_inv_def running_def)
next
  case (ticker i n pc pc')
  from ticker_keeps_inv[OF assms(2) ticker(4-6)] ticker(2) show ?thesis by simp
next
  case panic
  have "running (s\<lparr>lf_panicked := True\<rparr>) = running s" by (simp add: running_def)
  with panic assms(2) show ?thesis by (simp add: life_inv_def)
next
  case (consumer cpc cpc')
  with assms(2) consumer_movesD[OF consumer(5)] show ?thesis by (simp add: life_inv_def running_def alive_defs)
next
  case consumer_send
  with assms(2) show ?thesis by (simp add: life_inv_def running_def alive_defs)
next
  case (server spc spc')
  with assms(2) server_movesD[OF server(5)] show ?thesis
    by (cases "spc' = ServerEnded") (simp_all add: life_inv_def running_def alive_defs)
next
  case server_send
  with assms(2) show ?thesis by (simp add: life_inv_def running_def alive_defs)
qed

lemma life_run_inv: "life_run svc k n s s' \<Longrightarrow> life_inv s \<Longrightarrow> life_inv s'"
  by (induction rule: life_run.induct) (auto intro: life_step_inv)

text \<open>\<open>run\<close> never goes back.\<close>

lemma stages_in_order: "life_step svc b s s' \<Longrightarrow> lf_main s \<le> lf_main s'"
proof (induction rule: life_step.induct)
  case (main s s')
  then show ?case by (cases "lf_main s") (auto simp: main_moves_def split: if_splits)
qed simp_all

section \<open>How far the end is\<close>

fun ticker_left :: "ticker_pc \<Rightarrow> nat" where
  "ticker_left MakeTicker = 2" | "ticker_left InSelect = 1" | "ticker_left Working = 2" | "ticker_left TickerEnded = 0"

fun consumer_left :: "consumer_pc \<Rightarrow> nat" where
  "consumer_left Subscribing = 4" | "consumer_left Handling = 3" | "consumer_left Polling = 2" | "consumer_left ConsumerFailed = 1"
| "consumer_left ConsumerEnded = 0"

fun server_left :: "server_pc \<Rightarrow> nat" where
  "server_left Listening = 3" | "server_left Serving = 2" | "server_left ServerFailed = 1" | "server_left ServerEnded = 0"

definition left :: "life \<Rightarrow> nat" where
  "left s = main_left (lf_main s) + sum_list (map (\<lambda>t. ticker_left (snd t)) (lf_tickers s)) +
     (case lf_consumer s of None \<Rightarrow> 0 | Some c \<Rightarrow> consumer_left c) + (case lf_server s of None \<Rightarrow> 0 | Some c \<Rightarrow> server_left c) +
     (if lf_panicked s then 0 else 1)"

lemma sum_update:
  assumes "i < length xs"
  shows "sum_list (map f (xs[i := x])) + f (xs ! i) = sum_list (map f xs) + (f x :: nat)"
proof -
  have "xs = take i xs @ xs ! i # drop (Suc i) xs" by (rule id_take_nth_drop[OF assms])
  then have "sum_list (map f xs) = sum_list (map f (take i xs @ xs ! i # drop (Suc i) xs))" by (rule arg_cong)
  then show ?thesis by (simp add: upd_conv_take_nth_drop[OF assms])
qed

lemma main_left_less:
  assumes inv: "life_inv s" and move: "s' \<in> set (main_moves svc s)"
  shows "left s' < left s"
proof (cases "lf_main s")
  case BeforeStart
  with inv have "lf_consumer s = None" "lf_tickers s = []" by (simp_all add: life_inv_def)
  with BeforeStart move show ?thesis
    by (cases svc) (simp_all add: main_moves_def mgr_Start_def cs_Start_def rs_Start_def left_def split: option.splits)
next
  case BeforeServe
  with inv have "lf_server s = None" by (simp add: life_inv_def)
  with BeforeServe move show ?thesis by (simp add: main_moves_def left_def)
next
  case InMainSelect
  with move have "s' \<in> {s\<lparr>lf_managerErr := lf_managerErr s - 1, lf_ctxDone := True, lf_main := Stopping\<rparr>,
      s\<lparr>lf_grpcErr := lf_grpcErr s - 1, lf_ctxDone := True, lf_main := Stopping\<rparr>, s\<lparr>lf_main := Stopping\<rparr>}"
    by (auto simp: main_moves_def split: if_splits)
  with InMainSelect show ?thesis by (elim insertE emptyE) (simp_all add: left_def)
next
  case Stopping
  with move show ?thesis by (simp add: main_moves_def left_def)
next
  case Waiting
  with move show ?thesis by (simp add: main_moves_def left_def split: if_splits)
next
  case Returned
  with move show ?thesis by (simp add: main_moves_def)
qed

lemma main_ctxDone: "s' \<in> set (main_moves svc s) \<Longrightarrow> lf_ctxDone s \<Longrightarrow> lf_ctxDone s'"
  by (cases "lf_main s"; cases svc) (auto simp: main_moves_def mgr_Start_def cs_Start_def rs_Start_def split: if_splits)

lemma ticker_left_move:
  assumes i: "i < length (lf_tickers s)" "lf_tickers s ! i = (n, pc)" and move: "Some pc' \<in> set (ticker_moves n (lf_ctxDone s) pc)"
  shows "left (move_ticker i pc' s) < left s + (if pc' = Working then 2 else 0)"
proof -
  have "ticker_left pc' < ticker_left pc + (if pc' = Working then 2 else 0)"
    using ticker_movesD[OF move] by (cases pc') auto
  with sum_update[OF i(1), of "\<lambda>t. ticker_left (snd t)" "(n, pc')"] i(2) show ?thesis
    by (simp add: left_def move_ticker_def split: if_splits)
qed

text \<open>Once the context has ended, every step but a tick brings the end closer.\<close>

lemma step_left:
  assumes "life_step svc b s s'" "lf_ctxDone s" "life_inv s"
  shows "lf_ctxDone s' \<and> left s' < left s + (if b then 2 else 0)"
  using assms(1)
proof (cases rule: life_step.cases)
  case main
  then have "lf_ctxDone s'" using main_ctxDone assms(2) by blast
  with main_left_less[OF assms(3)] main show ?thesis by simp
next
  case signal
  with assms(2) show ?thesis by simp
next
  case (ticker i n pc pc')
  with ticker_left_move[OF ticker(4,5,6)] assms(2) show ?thesis by simp
next
  case panic
  with assms(2) show ?thesis by (simp add: left_def)
next
  case (consumer cpc cpc')
  then have "consumer_left cpc' < consumer_left cpc" using assms(2) by (cases cpc) (auto simp: consumer_moves_def)
  with consumer assms(2) show ?thesis by (simp add: left_def)
next
  case consumer_send
  with assms(2) show ?thesis by (simp add: left_def wg_done_def)
next
  case (server spc spc')
  then have "server_left spc' < server_left spc" by (cases spc) (auto simp: server_moves_def split: if_splits)
  with server assms(2) show ?thesis by (simp add: left_def wg_done_def)
next
  case server_send
  with assms(2) show ?thesis by (simp add: left_def wg_done_def)
qed

lemma run_left:
  "life_run svc k n s s' \<Longrightarrow> lf_ctxDone s \<Longrightarrow> life_inv s \<Longrightarrow> lf_ctxDone s' \<and> left s' + n \<le> left s + k"
proof (induction rule: life_run.induct)
  case (tick k n s s1 s2)
  with step_left[OF tick(2)] life_run_inv[OF tick(1)] show ?case by fastforce
next
  case (step k n s s1 s2)
  with step_left[OF step(2)] life_run_inv[OF step(1)] show ?case by fastforce
qed simp

lemma left_bound:
  assumes inv: "life_inv s"
  shows "left s \<le> 17"
proof -
  have t: "ticker_left pc \<le> 2" for pc by (cases pc) simp_all
  have "sum_list (map (\<lambda>t. ticker_left (snd t)) ts) \<le> 2 * length ts" for ts :: "(int \<times> ticker_pc) list"
  proof (induction ts)
    case (Cons x ts)
    with t[of "snd x"] show ?case by simp
  qed simp
  from this[of "lf_tickers s"] inv have "sum_list (map (\<lambda>t. ticker_left (snd t)) (lf_tickers s)) \<le> 4" by (simp add: life_inv_def)
  note ticks = this
  have "consumer_left c \<le> 4" for c by (cases c) simp_all
  then have cons: "(case lf_consumer s of None \<Rightarrow> 0 | Some c \<Rightarrow> consumer_left c) \<le> 4" by (simp split: option.splits)
  have "server_left c \<le> 3" for c by (cases c) simp_all
  then have serv: "(case lf_server s of None \<Rightarrow> 0 | Some c \<Rightarrow> server_left c) \<le> 3" by (simp split: option.splits)
  show ?thesis
  proof (cases "lf_main s < InMainSelect")
    case True
    with inv have none: "lf_server s = None" "lf_main s = BeforeStart \<Longrightarrow> lf_consumer s = None \<and> lf_tickers s = []"
      by (simp_all add: life_inv_def)
    from True have "lf_main s = BeforeStart \<or> lf_main s = BeforeServe" by (cases "lf_main s") simp_all
    then show ?thesis
    proof
      assume "lf_main s = BeforeStart"
      with none show ?thesis by (simp add: left_def)
    next
      assume "lf_main s = BeforeServe"
      with none(1) ticks cons show ?thesis by (simp add: left_def)
    qed
  next
    case False
    then have "main_left (lf_main s) \<le> 3" by (cases "lf_main s") simp_all
    with ticks cons serv show ?thesis by (simp add: left_def)
  qed
qed

section \<open>No deadlock\<close>

lemma waiting_moves:
  assumes inv: "life_inv s" and s: "lf_main s = Waiting" "\<not> lf_panicked s"
  shows "\<exists>s'. life_step svc False s s'"
proof -
  from inv s have st: "lf_ctxDone s" "lf_stopped s" by (simp_all add: life_inv_def)
  have "lf_wg s = 0 \<or> list_ex (\<lambda>t. snd t \<noteq> TickerEnded) (lf_tickers s) \<or> consumer_alive (lf_consumer s) \<noteq> 0 \<or>
      server_alive (lf_server s) \<noteq> 0"
    using life_inv_alive[OF inv] by (auto simp: filter_empty_conv list_ex_iff)
  then consider "lf_wg s = 0" | t where "t \<in> set (lf_tickers s)" "snd t \<noteq> TickerEnded"
    | c where "lf_consumer s = Some c" "c \<noteq> ConsumerEnded" | c where "lf_server s = Some c" "c \<noteq> ServerEnded"
    unfolding list_ex_iff by (cases "lf_consumer s"; cases "lf_server s") (fastforce simp: alive_defs split: if_splits)+
  then show ?thesis
  proof cases
    case 1
    with s have "s\<lparr>lf_main := Returned\<rparr> \<in> set (main_moves svc s)" by (simp add: main_moves_def)
    with life_step.main[OF s(2)] show ?thesis by blast
  next
    case (2 t)
    obtain n pc where t: "t = (n, pc)" by fastforce
    from 2(1) obtain i where i: "i < length (lf_tickers s)" "lf_tickers s ! i = (n, pc)" by (auto simp: in_set_conv_nth t)
    consider "pc = MakeTicker" "NewTicker (seconds n) = None" | pc' where "Some pc' \<in> set (ticker_moves n True pc)" "pc' \<noteq> Working"
      using 2(2) t by (cases pc; cases "NewTicker (seconds n)") (auto simp: ticker_moves_def)
    then show ?thesis
    proof cases
      case 1
      then have "None \<in> set (ticker_moves n (lf_ctxDone s) pc)" by (simp add: ticker_moves_def)
      from life_step.panic[OF s(2) _ this] 2(1) t show ?thesis by blast
    next
      case (2 pc')
      with life_step.ticker[OF s(2) i, of pc'] st show ?thesis by auto
    qed
  next
    case (3 c)
    show ?thesis
    proof (cases "c = ConsumerFailed")
      case True
      with inv 3 have "lf_managerErr s < errCh_cap" by (simp add: life_inv_def errCh_cap_def)
      with life_step.consumer_send[OF s(2)] 3 True show ?thesis by blast
    next
      case False
      with 3(2) obtain c' where "c' \<in> set (consumer_moves (lf_ctxDone s) c)" using st by (cases c) (auto simp: consumer_moves_def)
      with life_step.consumer[OF s(2) 3(1)] show ?thesis by blast
    qed
  next
    case (4 c)
    show ?thesis
    proof (cases "c = ServerFailed")
      case True
      with inv 4 have "lf_grpcErr s < errCh_cap" by (simp add: life_inv_def errCh_cap_def)
      with life_step.server_send[OF s(2)] 4 True show ?thesis by blast
    next
      case False
      with 4(2) obtain c' where "c' \<in> set (server_moves (lf_stopped s) c)" using st by (cases c) (auto simp: server_moves_def)
      with life_step.server[OF s(2) 4(1)] show ?thesis by blast
    qed
  qed
qed

lemma done_moves:
  assumes inv: "life_inv s" and s: "lf_ctxDone s" "lf_main s \<noteq> Returned" "\<not> lf_panicked s"
  shows "\<exists>s'. life_step svc False s s'"
proof (cases "lf_main s = Waiting")
  case True
  from waiting_moves[OF inv this s(3)] show ?thesis .
next
  case False
  with s have "main_moves svc s \<noteq> []" by (cases "lf_main s") (simp_all add: main_moves_def)
  then obtain s' where "s' \<in> set (main_moves svc s)" by (cases "main_moves svc s") auto
  with life_step.main[OF s(3)] show ?thesis by blast
qed

text \<open>With periods that a ticker can have, nothing panics.\<close>

definition periods_ok :: "service \<Rightarrow> bool" where
  "periods_ok svc \<longleftrightarrow> list_all (\<lambda>n. 1 \<le> n \<and> n \<le> 9223372036) (intervals svc)"

lemma period_ticker: "1 \<le> n \<Longrightarrow> n \<le> 9223372036 \<Longrightarrow> NewTicker (seconds n) \<noteq> None"
  using seconds_exact[of n] by (simp add: NewTicker_def word_sless_alt)

lemma move_ticker_intervals:
  assumes "i < length (lf_tickers s)"
  shows "map fst (lf_tickers (move_ticker i pc s)) = map fst (lf_tickers s)"
  using assms by (simp add: move_ticker_def map_update list_update_same_conv)

lemma main_tickers:
  assumes "s' \<in> set (main_moves svc s)"
  shows "lf_panicked s' = lf_panicked s \<and> (lf_tickers s' = lf_tickers s \<or> fst ` set (lf_tickers s') \<subseteq> set (intervals svc))"
  using assms
  by (cases "lf_main s"; cases svc) (auto simp: main_moves_def mgr_Start_def cs_Start_def rs_Start_def split: if_splits)

lemma step_no_panic:
  assumes "life_step svc b s s'" "periods_ok svc" "\<not> lf_panicked s" "fst ` set (lf_tickers s) \<subseteq> set (intervals svc)"
  shows "\<not> lf_panicked s' \<and> fst ` set (lf_tickers s') \<subseteq> set (intervals svc)"
  using assms(1)
proof (cases rule: life_step.cases)
  case main
  with main_tickers[OF main(3)] assms(3,4) show ?thesis by metis
next
  case (ticker i n pc pc')
  with move_ticker_intervals[OF ticker(4), of pc'] assms(3,4) show ?thesis by (metis list.set_map move_ticker_select(8))
next
  case (panic n pc)
  then have "n \<in> set (intervals svc)" using assms(4) by force
  with assms(2) have "1 \<le> n \<and> n \<le> 9223372036" by (simp add: periods_ok_def list_all_iff)
  with period_ticker[of n] panic(5) show ?thesis by (cases pc) (auto simp: ticker_moves_def split: if_splits)
qed (use assms(3,4) in simp_all)

lemma run_no_panic:
  "life_run svc k n s s' \<Longrightarrow> periods_ok svc \<Longrightarrow> \<not> lf_panicked s \<Longrightarrow> fst ` set (lf_tickers s) \<subseteq> set (intervals svc) \<Longrightarrow>
    \<not> lf_panicked s' \<and> fst ` set (lf_tickers s') \<subseteq> set (intervals svc)"
  by (induction rule: life_run.induct) (blast dest: step_no_panic)+

section \<open>Properties\<close>

text \<open>
  C11. Shutdown completes. Once the context of a service has ended, by a signal or because its consumer or
  its server failed, the process never deadlocks: until \<open>run\<close> has returned, some goroutine or the main
  one can take a step that is not a tick, and there are at most 17 such steps, and one more for every
  tick a publisher or the clean-up job still takes.
\<close>

theorem shutdown_completes:
  assumes "periods_ok svc" and "life_run svc k n boot s" and "lf_ctxDone s"
  shows "(lf_main s \<noteq> Returned \<longrightarrow> (\<exists>s'. life_step svc False s s')) \<and>
    (\<forall>k' n' s'. life_run svc k' n' s s' \<longrightarrow> n' \<le> 17 + k')"
proof -
  have inv: "life_inv s" by (rule life_run_inv[OF assms(2) boot_inv])
  have "\<not> lf_panicked s" using run_no_panic[OF assms(2,1)] by (simp add: boot_def)
  with done_moves[OF inv assms(3)] run_left[OF _ assms(3) inv] left_bound[OF inv] show ?thesis by fastforce
qed

text \<open>A complete life: a consignment service that is interrupted.\<close>

definition at_serving :: life where
  "at_serving = boot\<lparr>lf_main := InMainSelect, lf_wg := 3, lf_tickers := [(30, InSelect)], lf_consumer := Some Polling,
     lf_server := Some Serving\<rparr>"

definition at_end :: life where
  "at_end = boot\<lparr>lf_main := Returned, lf_ctxDone := True, lf_tickers := [(30, TickerEnded)], lf_consumer := Some ConsumerEnded,
     lf_server := Some ServerEnded, lf_managerErr := 1, lf_stopped := True\<rparr>"

lemma ticker_30: "NewTicker (seconds 30) \<noteq> None"
  by (rule period_ticker) simp_all

lemma life_starts: "life_run (ConsignmentService 30) 0 5 boot at_serving"
proof -
  let ?svc = "ConsignmentService 30"
  let ?a = "boot\<lparr>lf_main := BeforeServe, lf_wg := 2, lf_tickers := [(30, MakeTicker)], lf_consumer := Some Subscribing\<rparr>"
  let ?b = "?a\<lparr>lf_main := InMainSelect, lf_wg := 3, lf_server := Some Listening\<rparr>"
  let ?c = "?b\<lparr>lf_tickers := [(30, InSelect)]\<rparr>"
  let ?d = "?c\<lparr>lf_consumer := Some Polling\<rparr>"
  have 1: "life_step ?svc False boot ?a"
    by (rule life_step.main) (simp_all add: main_moves_def mgr_Start_def cs_Start_def boot_def)
  have 2: "life_step ?svc False ?a ?b"
    by (rule life_step.main) (simp_all add: main_moves_def boot_def)
  have "Some InSelect \<in> set (ticker_moves 30 (lf_ctxDone ?b) MakeTicker)" using ticker_30 by (auto simp: ticker_moves_def)
  with life_step.ticker[of ?b 0 30 MakeTicker InSelect ?svc] have 3: "life_step ?svc False ?b ?c"
    by (simp add: move_ticker_def wg_done_def boot_def)
  have 4: "life_step ?svc False ?c ?d"
    using life_step.consumer[of ?c Subscribing Polling ?svc] by (simp add: consumer_moves_def boot_def)
  have 5: "life_step ?svc False ?d at_serving"
    using life_step.server[of ?d Listening Serving ?svc] by (simp add: server_moves_def boot_def wg_done_def at_serving_def)
  note R = life_run.step[OF life_run.step[OF life_run.step[OF life_run.step[OF life_run.step[OF life_run.none 1] 2] 3] 4] 5]
  show ?thesis using R by (simp add: eval_nat_numeral)
qed

lemma life_interrupted: "life_run (ConsignmentService 30) 0 6 boot (at_serving\<lparr>lf_ctxDone := True\<rparr>)"
proof -
  have "life_step (ConsignmentService 30) False at_serving (at_serving\<lparr>lf_ctxDone := True\<rparr>)"
    by (rule life_step.signal) (simp_all add: at_serving_def boot_def)
  from life_run.step[OF life_starts this] show ?thesis by (simp add: eval_nat_numeral)
qed

lemma life_ends: "life_run (ConsignmentService 30) 0 13 boot at_end"
proof -
  let ?svc = "ConsignmentService 30"
  let ?a = "at_serving\<lparr>lf_ctxDone := True\<rparr>"
  let ?b = "?a\<lparr>lf_main := Stopping\<rparr>"
  let ?c = "?b\<lparr>lf_main := Waiting, lf_stopped := True\<rparr>"
  let ?d = "?c\<lparr>lf_tickers := [(30, TickerEnded)], lf_wg := 2\<rparr>"
  let ?e = "?d\<lparr>lf_consumer := Some ConsumerFailed\<rparr>"
  let ?f = "?e\<lparr>lf_consumer := Some ConsumerEnded, lf_managerErr := 1, lf_wg := 1\<rparr>"
  let ?g = "?f\<lparr>lf_server := Some ServerEnded, lf_wg := 0\<rparr>"
  have 1: "life_step ?svc False ?a ?b"
    by (rule life_step.main) (simp_all add: main_moves_def at_serving_def boot_def)
  have 2: "life_step ?svc False ?b ?c"
    by (rule life_step.main) (simp_all add: main_moves_def at_serving_def boot_def)
  have 3: "life_step ?svc False ?c ?d"
    using life_step.ticker[of ?c 0 30 InSelect TickerEnded ?svc] by (simp add: ticker_moves_def move_ticker_def wg_done_def at_serving_def boot_def)
  have 4: "life_step ?svc False ?d ?e"
    using life_step.consumer[of ?d Polling ConsumerFailed ?svc] by (simp add: consumer_moves_def at_serving_def boot_def)
  have 5: "life_step ?svc False ?e ?f"
    using life_step.consumer_send[of ?e ?svc] by (simp add: wg_done_def errCh_cap_def at_serving_def boot_def)
  have 6: "life_step ?svc False ?f ?g"
    using life_step.server[of ?f Serving ServerEnded ?svc] by (simp add: server_moves_def wg_done_def at_serving_def boot_def)
  have 7: "life_step ?svc False ?g at_end"
    by (rule life_step.main) (simp_all add: main_moves_def at_serving_def boot_def at_end_def)
  note R = life_run.step[OF life_run.step[OF life_run.step[OF life_run.step[OF life_run.step[OF life_run.step[OF life_run.step[OF
    life_interrupted 1] 2] 3] 4] 5] 6] 7]
  show ?thesis using R by (simp add: eval_nat_numeral)
qed

theorem shutdown_completes_witness:
  "\<exists>s'. life_step (ConsignmentService 30) False (at_serving\<lparr>lf_ctxDone := True\<rparr>) s'"
  using shutdown_completes[OF _ life_interrupted] by (simp add: periods_ok_def) (simp add: at_serving_def boot_def)

text \<open>
  C12. A clean exit. In every reachable state the wait group counts the goroutines that are running, so it
  is never decremented below zero; when \<open>run\<close> returns all of them have ended, the context has ended and
  the server has been stopped; and when the consumer or the server ends while \<open>run\<close> is in its \<open>select\<close>,
  \<open>run\<close> can leave it and end the context.
\<close>

theorem clean_exit:
  assumes "life_run svc k n boot s"
  shows "lf_wg s = running s \<and>
    (lf_main s = Returned \<longrightarrow> running s = 0 \<and> lf_ctxDone s \<and> lf_stopped s) \<and>
    (lf_main s = InMainSelect \<and> \<not> lf_panicked s \<and> (lf_consumer s = Some ConsumerEnded \<or> lf_server s = Some ServerEnded) \<longrightarrow>
      (\<exists>s'. life_step svc False s s' \<and> lf_main s' = Stopping \<and> lf_ctxDone s'))"
proof -
  have inv: "life_inv s" by (rule life_run_inv[OF assms boot_inv])
  have "\<exists>s'. life_step svc False s s' \<and> lf_main s' = Stopping \<and> lf_ctxDone s'"
    if m: "lf_main s = InMainSelect" "\<not> lf_panicked s" and e: "lf_consumer s = Some ConsumerEnded \<or> lf_server s = Some ServerEnded"
  proof -
    from inv e have "0 < lf_managerErr s \<or> 0 < lf_grpcErr s \<or> lf_ctxDone s" by (auto simp: life_inv_def)
    with m(1) have "\<exists>s' \<in> set (main_moves svc s). lf_main s' = Stopping \<and> lf_ctxDone s'" by (auto simp: main_moves_def)
    with life_step.main[OF m(2)] show ?thesis by blast
  qed
  with inv show ?thesis by (auto simp: life_inv_def)
qed

theorem clean_exit_witness: "lf_main at_end = Returned \<and> lf_wg at_end = running at_end \<and> running at_end = 0"
  using clean_exit[OF life_ends] by (simp add: at_end_def boot_def)

end
