(* ===== verification/Launch.thy ===== *)
theory Launch
  imports Startup "HOL-Library.Multiset"
begin

text \<open>
  \<open>run\<close> of the two event-driven services up to the point where the manager and the server start
  (\<open>Lifecycle\<close> has the rest): what is opened in which order, which error is returned, and what the
  deferred calls release. The calls into libraries are parameters.
\<close>

section \<open>Opening and releasing\<close>

text \<open>
  \<open>x, err := open(); if err != nil { return wrap(err) }; defer close(x)\<close>, and then the rest of the
  function: a deferred call runs on every way out of it.
\<close>

definition acquire ::
  "('w \<Rightarrow> (goerr + 'a) \<times> 'w) \<Rightarrow> (goerr \<Rightarrow> goerr) \<Rightarrow> ('a \<Rightarrow> 'w \<Rightarrow> 'w) \<Rightarrow> ('a \<Rightarrow> 'w \<Rightarrow> (goerr + unit) \<times> 'w) \<Rightarrow>
     'w \<Rightarrow> (goerr + unit) \<times> 'w" where
  "acquire open_it wrap close rest w =
    (case open_it w of
       (Inl err, w1) \<Rightarrow> (Inl (wrap err), w1)
     | (Inr x, w1) \<Rightarrow> (case rest x w1 of (r, w2) \<Rightarrow> (r, close x w2)))"

text \<open>
  What \<open>run\<close> calls: the tracer, the MongoDB and PostgreSQL drivers, gRPC connections, the Kafka clients
  by their configurations, and everything from the start of the manager to the end of \<open>wg.Wait\<close>.
\<close>

record ('c, 'k, 'f, 'p, 'w) Process =
  pr_otlpExporter :: "string \<Rightarrow> 'w \<Rightarrow> (goerr + unit) \<times> 'w"
  pr_SetTracerProvider :: "string \<Rightarrow> 'w \<Rightarrow> 'w"
  pr_shutdown :: "'w \<Rightarrow> 'w"
  pr_mongo :: "('c, 'w) MongoDial"
  pr_Disconnect :: "'c \<Rightarrow> 'w \<Rightarrow> 'w"
  pr_pgx :: "('f, 'p, 'w) PgxDial"
  pr_NewClient :: "string \<Rightarrow> 'w \<Rightarrow> (goerr + 'k) \<times> 'w"
  pr_CloseConn :: "'k \<Rightarrow> 'w \<Rightarrow> 'w"
  pr_admin :: "string \<Rightarrow> 'w AdminClient"
  pr_kafkaProducer :: "string \<Rightarrow> string \<Rightarrow> 'w \<Rightarrow> (goerr + unit) \<times> 'w"
  pr_kafkaConsumer :: "string \<Rightarrow> string \<Rightarrow> string \<Rightarrow> 'w \<Rightarrow> (goerr + unit) \<times> 'w"

text \<open>\<open>initTracer\<close> of the main files: the exporter, and a global provider that names the service.\<close>

definition initTracer :: "('c, 'k, 'f, 'p, 'w) Process \<Rightarrow> (string \<Rightarrow> string) \<Rightarrow> string \<Rightarrow> 'w \<Rightarrow> (goerr + unit) \<times> 'w" where
  "initTracer P env serviceName w =
    (case pr_otlpExporter P (env ''OTEL_EXPORTER_OTLP_ENDPOINT'') w of
       (Inl err, w1) \<Rightarrow> (Inl err, w1)
     | (Inr _, w1) \<Rightarrow> (Inr (), pr_SetTracerProvider P serviceName w1))"

definition NewProducer :: "('c, 'k, 'f, 'p, 'w) Process \<Rightarrow> string \<Rightarrow> string \<Rightarrow> 'w \<Rightarrow> (goerr + unit) \<times> 'w" where
  "NewProducer P servers acks w =
    (case pr_kafkaProducer P servers acks w of
       (Inl err, w1) \<Rightarrow> (Inl (Errorf ''failed to create producer'' [err]), w1)
     | (Inr _, w1) \<Rightarrow> (Inr (), w1))"

definition NewConsumer :: "('c, 'k, 'f, 'p, 'w) Process \<Rightarrow> string \<Rightarrow> string \<Rightarrow> string \<Rightarrow> 'w \<Rightarrow> (goerr + unit) \<times> 'w" where
  "NewConsumer P servers groupID reset w =
    (case pr_kafkaConsumer P servers groupID reset w of
       (Inl err, w1) \<Rightarrow> (Inl (Errorf ''failed to create consumer'' [err]), w1)
     | (Inr _, w1) \<Rightarrow> (Inr (), w1))"

section \<open>The consignment service\<close>

text \<open>Topics, Kafka clients and manager, with everything opened before still open.\<close>

definition cs_run_kafka ::
  "('c, 'k, 'f, 'p, 'w) Process \<Rightarrow> ConsignmentConfig \<Rightarrow> 'w CsManager \<Rightarrow> ('w EventHandlers \<Rightarrow> 'w \<Rightarrow> 'w) \<Rightarrow> 'w \<Rightarrow> (goerr + unit) \<times> 'w" where
  "cs_run_kafka P cfg m serve w =
    (case EnsureTopics (pr_admin P (cfg_kafkaAddr cfg)) consignment_topics w of
       (Inl err, w1) \<Rightarrow> (Inl (Errorf ''failed to ensure kafka topics'' [err]), w1)
     | (Inr _, w1) \<Rightarrow>
       (case NewProducer P (cfg_kafkaAddr cfg) ''all'' w1 of
          (Inl err, w2) \<Rightarrow> (Inl err, w2)
        | (Inr _, w2) \<Rightarrow>
          (case NewConsumer P (cfg_kafkaAddr cfg) ''consignment-service'' ''earliest'' w2 of
             (Inl err, w3) \<Rightarrow> (Inl err, w3)
           | (Inr _, w3) \<Rightarrow>
             (case cs_New m consignment_handled of
                Inl err \<Rightarrow> (Inl err, w3)
              | Inr handlers \<Rightarrow> (Inr (), serve handlers w3)))))"

definition cs_run ::
  "('c, 'k, 'f, 'p, 'w) Process \<Rightarrow> (string \<Rightarrow> string) \<Rightarrow> ('c \<Rightarrow> 'k \<Rightarrow> 'k \<Rightarrow> 'w CsManager) \<Rightarrow>
     ('w EventHandlers \<Rightarrow> 'w \<Rightarrow> 'w) \<Rightarrow> 'w \<Rightarrow> (goerr + unit) \<times> 'w" where
  "cs_run P env mgr serve =
    (let cfg = consignment_config env in
     acquire (initTracer P env ''consignment'') (\<lambda>err. Errorf ''failed to init tracer'' [err]) (\<lambda>_. pr_shutdown P) (\<lambda>_.
     acquire (CreateClient (pr_mongo P) (cfg_uri cfg) 0) id (pr_Disconnect P) (\<lambda>mongoCli.
     acquire (pr_NewClient P (cfg_reservationServiceAddr cfg)) id (pr_CloseConn P) (\<lambda>reservationConn.
     acquire (pr_NewClient P (cfg_paymentServiceAddr cfg)) id (pr_CloseConn P) (\<lambda>paymentConn.
       cs_run_kafka P cfg (mgr mongoCli reservationConn paymentConn) serve)))))"

section \<open>The reservation service\<close>

text \<open>The pool of \<open>NewDB\<close> has no deferred \<open>Close\<close>; the error of \<open>ReadEnvironment\<close> ends the process before.\<close>

definition rs_run_kafka ::
  "('c, 'k, 'f, 'p, 'w) Process \<Rightarrow> RsConfig \<Rightarrow> 'w RsManager \<Rightarrow> ('w EventHandlers \<Rightarrow> 'w \<Rightarrow> 'w) \<Rightarrow> 'w \<Rightarrow> (goerr + unit) \<times> 'w" where
  "rs_run_kafka P cfg m serve w =
    (case EnsureTopics (pr_admin P (rcf_ProducerServers cfg)) reservation_topics w of
       (Inl err, w1) \<Rightarrow> (Inl err, w1)
     | (Inr _, w1) \<Rightarrow>
       (case NewProducer P (rcf_ProducerServers cfg) (rcf_Acks cfg) w1 of
          (Inl err, w2) \<Rightarrow> (Inl err, w2)
        | (Inr _, w2) \<Rightarrow>
          (case NewConsumer P (rcf_ConsumerServers cfg) (rcf_GroupID cfg) (rcf_OffsetReset cfg) w2 of
             (Inl err, w3) \<Rightarrow> (Inl err, w3)
           | (Inr _, w3) \<Rightarrow>
             (case rs_New m reservation_handled of
                Inl err \<Rightarrow> (Inl err, w3)
              | Inr handlers \<Rightarrow> (Inr (), serve handlers w3)))))"

definition rs_run ::
  "('c, 'k, 'f, 'p, 'w) Process \<Rightarrow> (string \<Rightarrow> string) \<Rightarrow> RsConfig \<Rightarrow> ('k \<Rightarrow> 'p \<Rightarrow> 'w RsManager) \<Rightarrow>
     ('w EventHandlers \<Rightarrow> 'w \<Rightarrow> 'w) \<Rightarrow> 'w \<Rightarrow> (goerr + unit) \<times> 'w" where
  "rs_run P env cfg mgr serve =
     acquire (initTracer P env ''reservation'') (\<lambda>err. Errorf ''failed to init tracer'' [err]) (\<lambda>_. pr_shutdown P) (\<lambda>_.
     acquire (pr_NewClient P (rcf_VesselService cfg)) id (pr_CloseConn P) (\<lambda>vesselConn w.
       (case NewDB (pr_pgx P) (rcf_DB cfg) w of
          (Inl err, w1) \<Rightarrow> (Inl err, w1)
        | (Inr db, w1) \<Rightarrow> rs_run_kafka P cfg (mgr vesselConn db) serve w1)))"

section \<open>What is held\<close>

datatype ('c, 'k, 'p) handle = Tracer | MongoHandle 'c | Connection 'k | Pool 'p

text \<open>
  The libraries' handles: opening adds one, a failure adds none, releasing removes it, and no other call
  touches them. \<open>held\<close> is the multiset of what is open in a world.
\<close>

definition opens :: "('w \<Rightarrow> 'h multiset) \<Rightarrow> ('a \<Rightarrow> 'h) \<Rightarrow> ('w \<Rightarrow> (goerr + 'a) \<times> 'w) \<Rightarrow> bool" where
  "opens held h f \<longleftrightarrow> (\<forall>w r w'. f w = (r, w') \<longrightarrow>
     held w' = held w + (case r of Inl e \<Rightarrow> {#} | Inr a \<Rightarrow> {#h a#}))"

definition releases :: "('w \<Rightarrow> 'h multiset) \<Rightarrow> 'h \<Rightarrow> ('w \<Rightarrow> 'w) \<Rightarrow> bool" where
  "releases held h f \<longleftrightarrow> (\<forall>w. held (f w) = held w - {#h#})"

definition keeps :: "('w \<Rightarrow> 'h multiset) \<Rightarrow> ('w \<Rightarrow> 'a \<times> 'w) \<Rightarrow> bool" where
  "keeps held f \<longleftrightarrow> (\<forall>w. held (snd (f w)) = held w)"

definition process_ok :: "('c, 'k, 'f, 'p, 'w) Process \<Rightarrow> ('w \<Rightarrow> ('c, 'k, 'p) handle multiset) \<Rightarrow> bool" where
  "process_ok P held \<longleftrightarrow>
     (\<forall>a. opens held (\<lambda>_. Tracer) (pr_otlpExporter P a)) \<and> (\<forall>n w. held (pr_SetTracerProvider P n w) = held w) \<and> releases held Tracer (pr_shutdown P) \<and>
     (\<forall>uri. opens held MongoHandle (md_Connect (pr_mongo P) uri)) \<and> (\<forall>c. keeps held (md_Ping (pr_mongo P) c)) \<and>
     (\<forall>w. held (md_Sleep (pr_mongo P) w) = held w) \<and> (\<forall>c. releases held (MongoHandle c) (pr_Disconnect P c)) \<and>
     (\<forall>f. opens held Pool (px_NewWithConfig (pr_pgx P) f)) \<and> (\<forall>p. keeps held (px_Ping (pr_pgx P) p)) \<and>
     (\<forall>p. releases held (Pool p) (px_Close (pr_pgx P) p)) \<and>
     (\<forall>a. opens held Connection (pr_NewClient P a)) \<and> (\<forall>k. releases held (Connection k) (pr_CloseConn P k)) \<and>
     (\<forall>a. keeps held (ka_Connect (pr_admin P a))) \<and> (\<forall>a ts. keeps held (ka_CreateTopics (pr_admin P a) ts)) \<and>
     (\<forall>a w. held (ka_Close (pr_admin P a) w) = held w) \<and>
     (\<forall>s a. keeps held (pr_kafkaProducer P s a)) \<and> (\<forall>s g o'. keeps held (pr_kafkaConsumer P s g o'))"

lemma opens_held: "opens held h f \<Longrightarrow> f w = (r, w') \<Longrightarrow> held w' = held w + (case r of Inl e \<Rightarrow> {#} | Inr a \<Rightarrow> {#h a#})"
  by (simp add: opens_def)

lemma initTracer_opens:
  assumes "\<forall>a. opens held (\<lambda>_. Tracer) (pr_otlpExporter P a)" "\<forall>n w. held (pr_SetTracerProvider P n w) = held w"
  shows "opens held (\<lambda>_. Tracer) (initTracer P env n)"
  unfolding opens_def
proof (intro allI impI)
  fix w r w' assume run: "initTracer P env n w = (r, w')"
  obtain q w1 where o1: "pr_otlpExporter P (env ''OTEL_EXPORTER_OTLP_ENDPOINT'') w = (q, w1)" by fastforce
  from opens_held[OF assms(1)[rule_format] o1] run o1 assms(2)
  show "held w' = held w + (case r of Inl e \<Rightarrow> {#} | Inr a \<Rightarrow> {#Tracer#})" by (cases q) (auto simp: initTracer_def)
qed

lemma opensD:
  assumes "opens held h f"
  shows "f w = (Inr a, w') \<Longrightarrow> held w' = held w + {#h a#}" and "f w = (Inl e, w') \<Longrightarrow> held w' = held w"
  using opens_held[OF assms, of w] by simp_all

lemma releasesD: "releases held h f \<Longrightarrow> held (f w) = held w - {#h#}"
  by (simp add: releases_def)

lemma keepsD: "keeps held f \<Longrightarrow> f w = (r, w') \<Longrightarrow> held w' = held w"
  by (metis keeps_def snd_conv)

lemma process_okD:
  assumes "process_ok P held"
  shows "opens held (\<lambda>_. Tracer) (initTracer P env n)" "releases held Tracer (pr_shutdown P)"
    "opens held MongoHandle (md_Connect (pr_mongo P) uri)" "keeps held (md_Ping (pr_mongo P) c)"
    "held (md_Sleep (pr_mongo P) w) = held w" "releases held (MongoHandle c) (pr_Disconnect P c)"
    "opens held Pool (px_NewWithConfig (pr_pgx P) f)" "keeps held (px_Ping (pr_pgx P) pool)"
    "releases held (Pool pool) (px_Close (pr_pgx P) pool)"
    "opens held Connection (pr_NewClient P a)" "releases held (Connection k) (pr_CloseConn P k)"
    "keeps held (ka_Connect (pr_admin P a))" "keeps held (ka_CreateTopics (pr_admin P a) ts)" "held (ka_Close (pr_admin P a) w) = held w"
    "keeps held (pr_kafkaProducer P s a)" "keeps held (pr_kafkaConsumer P s g o')"
  using assms initTracer_opens[of held P env n] by (simp_all add: process_ok_def)

lemma held_NewProducer: "process_ok P held \<Longrightarrow> NewProducer P s a w = (r, w') \<Longrightarrow> held w' = held w"
  using keepsD[OF process_okD(15)] by (fastforce simp: NewProducer_def split: prod.splits sum.splits)

lemma held_NewConsumer: "process_ok P held \<Longrightarrow> NewConsumer P s g o' w = (r, w') \<Longrightarrow> held w' = held w"
  using keepsD[OF process_okD(16)] by (fastforce simp: NewConsumer_def split: prod.splits sum.splits)

lemma held_EnsureTopics:
  assumes ok: "process_ok P held" and run: "EnsureTopics (pr_admin P a) ts w = (r, w')"
  shows "held w' = held w"
proof -
  obtain q w1 where c: "ka_Connect (pr_admin P a) w = (q, w1)" by fastforce
  obtain q2 w2 where t: "ka_CreateTopics (pr_admin P a) ts w1 = (q2, w2)" by fastforce
  have "w' = w1 \<or> w' = ka_Close (pr_admin P a) w2"
    using run c t by (auto simp: EnsureTopics_def split: sum.splits option.splits)
  with keepsD[OF process_okD(12)[OF ok] c] keepsD[OF process_okD(13)[OF ok] t] process_okD(14)[OF ok] show ?thesis by auto
qed

lemma held_kafka:
  assumes ok: "process_ok P held" and serve: "\<And>h w. held (serve h w) = held w"
  shows "cs_run_kafka P cfg m serve w = (r, w') \<Longrightarrow> held w' = held w"
    and "rs_run_kafka P rcfg rm serve w = (r, w') \<Longrightarrow> held w' = held w"
  using held_EnsureTopics[OF ok] held_NewProducer[OF ok] held_NewConsumer[OF ok] serve
  by (auto simp: cs_run_kafka_def rs_run_kafka_def split: prod.splits sum.splits)

text \<open>A client whose ping fails is not disconnected, whether another one is made or not.\<close>

definition pings :: "('c, 'w) MongoDial \<Rightarrow> bool" where
  "pings d \<longleftrightarrow> (\<forall>c w. \<exists>u w'. md_Ping d c w = (Inr u, w'))"

lemma held_CreateClient:
  assumes ok: "process_ok P held"
  shows "CreateClient (pr_mongo P) uri n w = (r, w') \<Longrightarrow> \<exists>lost. held w' = held w + image_mset MongoHandle lost +
    (case r of Inl e \<Rightarrow> {#} | Inr c \<Rightarrow> {#MongoHandle c#}) \<and> (pings (pr_mongo P) \<longrightarrow> lost = {#})"
proof (induction "pr_mongo P" uri n w arbitrary: r w' rule: CreateClient.induct)
  case (1 uri n w)
  obtain q w1 where c: "md_Connect (pr_mongo P) uri w = (q, w1)" by fastforce
  show ?case
  proof (cases q)
    case (Inl e)
    with "1.prems" c have "r = Inl e" "w' = w1" by (simp_all add: CreateClient.simps)
    with opensD(2)[OF process_okD(3)[OF ok] c[unfolded Inl]] show ?thesis by (auto intro: exI[of _ "{#}"])
  next
    case (Inr conn)
    note held1 = opensD(1)[OF process_okD(3)[OF ok] c[unfolded Inr]]
    obtain q2 w2 where p: "md_Ping (pr_mongo P) conn w1 = (q2, w2)" by fastforce
    note held2 = keepsD[OF process_okD(4)[OF ok] p]
    show ?thesis
    proof (cases q2)
      case (Inr u)
      with "1.prems" c p \<open>q = Inr conn\<close> have "r = Inr conn" "w' = w2" by (simp_all add: CreateClient.simps)
      with held1 held2 show ?thesis by (auto intro: exI[of _ "{#}"])
    next
      case (Inl e)
      have "\<nexists>u w'. md_Ping (pr_mongo P) conn w1 = (Inr u, w')" using p Inl by simp
      then have no: "\<not> pings (pr_mongo P)" unfolding pings_def by blast
      show ?thesis
      proof (cases "3 \<le>s n")
        case True
        with "1.prems" c p Inl \<open>q = Inr conn\<close> have "r = Inl e" "w' = w2" by (simp_all add: CreateClient.simps)
        with held1 held2 no show ?thesis by (auto intro: exI[of _ "{#conn#}"])
      next
        case False
        with "1.prems" c p Inl \<open>q = Inr conn\<close> have again: "CreateClient (pr_mongo P) uri (n + 1) (md_Sleep (pr_mongo P) w2) = (r, w')"
          by (subst (asm) CreateClient.simps) simp
        from "1.hyps"[OF c[symmetric] Inr p[symmetric] Inl False again] obtain lost where
          "held w' = held (md_Sleep (pr_mongo P) w2) + image_mset MongoHandle lost + (case r of Inl e \<Rightarrow> {#} | Inr c \<Rightarrow> {#MongoHandle c#})"
          by blast
        with held1 held2 no process_okD(5)[OF ok] show ?thesis by (auto intro: exI[of _ "add_mset conn lost"])
      qed
    qed
  qed
qed

lemma held_NewDB:
  assumes ok: "process_ok P held" and run: "NewDB (pr_pgx P) cfg w = (r, w')"
  shows "held w' = held w + (case r of Inl e \<Rightarrow> {#} | Inr p \<Rightarrow> {#Pool p#})"
proof (cases "px_ParseConfig (pr_pgx P) (pool_dsn cfg)")
  case (Inl e)
  with run show ?thesis by (auto simp: NewDB_def)
next
  case (Inr f)
  obtain q w1 where n: "px_NewWithConfig (pr_pgx P) (px_SetConns (pr_pgx P) 10 2 f) w = (q, w1)" by fastforce
  show ?thesis
  proof (cases q)
    case (Inl e)
    with run Inr n opensD(2)[OF process_okD(7)[OF ok] n[unfolded Inl]] show ?thesis by (auto simp: NewDB_def)
  next
    case q: (Inr pool)
    note h1 = opensD(1)[OF process_okD(7)[OF ok] n[unfolded q]]
    obtain q2 w2 where p: "px_Ping (pr_pgx P) pool w1 = (q2, w2)" by fastforce
    from run Inr n q p h1 keepsD[OF process_okD(8)[OF ok] p] releasesD[OF process_okD(9)[OF ok]] show ?thesis
      by (auto simp: NewDB_def split: sum.splits)
  qed
qed

text \<open>What a call leaves behind, besides the handle it gives.\<close>

definition leaves :: "('w \<Rightarrow> 'h multiset) \<Rightarrow> ('h multiset \<Rightarrow> bool) \<Rightarrow> ('w \<Rightarrow> 'a \<times> 'w) \<Rightarrow> bool" where
  "leaves held Q f \<longleftrightarrow> (\<forall>w r w'. f w = (r, w') \<longrightarrow> (\<exists>x. Q x \<and> held w' = held w + x))"

lemma acquire_leaves:
  assumes f: "\<And>w r w'. open_it w = (r, w') \<Longrightarrow> \<exists>x. Qf x \<and> held w' = held w + x + (case r of Inl e \<Rightarrow> {#} | Inr a \<Rightarrow> {#h a#})"
    and close: "\<And>a. releases held (h a) (close a)" and rest: "\<And>a. leaves held Qr (rest a)"
    and Q: "\<And>x y. Qf x \<Longrightarrow> Qr y \<Longrightarrow> Qr (x + y)" "Qr {#}"
  shows "leaves held Qr (acquire open_it wrap close rest)"
  unfolding leaves_def
proof (intro allI impI)
  fix w r w' assume run: "acquire open_it wrap close rest w = (r, w')"
  obtain q w1 where o1: "open_it w = (q, w1)" by fastforce
  from f[OF o1] obtain x where x: "Qf x" "held w1 = held w + x + (case q of Inl e \<Rightarrow> {#} | Inr a \<Rightarrow> {#h a#})" by blast
  show "\<exists>x. Qr x \<and> held w' = held w + x"
  proof (cases q)
    case (Inl e)
    with run o1 x(2) have "held w' = held w + x" by (auto simp: acquire_def)
    with Q(1)[OF x(1) Q(2)] show ?thesis by auto
  next
    case (Inr a)
    obtain r2 w2 where b: "rest a w1 = (r2, w2)" by fastforce
    from rest[of a, unfolded leaves_def, rule_format, OF b] obtain y where y: "Qr y" "held w2 = held w1 + y" by blast
    with run o1 b Inr x(2) releasesD[OF close] have "held w' = held w + (x + y)" by (auto simp: acquire_def)
    with Q(1)[OF x(1) y(1)] show ?thesis by blast
  qed
qed

lemma opens_leaves:
  assumes "opens held h f" "\<And>a. releases held (h a) (close a)" "\<And>a. leaves held Q (rest a)" "Q {#}"
  shows "leaves held Q (acquire f wrap close rest)"
  by (rule acquire_leaves[where Qf = "\<lambda>x. x = {#}" and h = h]) (use assms opens_held[OF assms(1)] in auto)

definition lost_clients :: "bool \<Rightarrow> ('c, 'k, 'p) handle multiset \<Rightarrow> bool" where
  "lost_clients up x \<longleftrightarrow> (\<exists>lost. x = image_mset MongoHandle lost \<and> (up \<longrightarrow> lost = {#}))"

definition left_pool :: "('c, 'k, 'p) handle multiset \<Rightarrow> bool" where
  "left_pool x \<longleftrightarrow> (\<exists>pools. x = image_mset Pool pools \<and> size pools \<le> 1)"

lemma lost_clients_simps [simp]: "lost_clients up {#}" "lost_clients up x \<Longrightarrow> lost_clients up y \<Longrightarrow> lost_clients up (x + y)"
  unfolding lost_clients_def by (auto intro: exI[of _ "{#}"]) (metis image_mset_union add.right_neutral)

lemma kafka_leaves:
  assumes ok: "process_ok P held" and serve: "\<forall>h w. held (serve h w) = held w" and Q: "Q {#}"
  shows "leaves held Q (cs_run_kafka P cfg m serve)" "leaves held Q (rs_run_kafka P rcfg rm serve)"
  using held_kafka[OF ok, of serve] serve Q unfolding leaves_def by (metis add.right_neutral)+

lemma cs_run_leaves:
  assumes ok: "process_ok P held" and serve: "\<forall>h w. held (serve h w) = held w"
  shows "leaves held (lost_clients (pings (pr_mongo P))) (cs_run P env mgr serve)"
proof -
  note D = process_okD[OF ok]
  have "\<exists>x. lost_clients (pings (pr_mongo P)) x \<and> held w' = held w + x + (case r of Inl e \<Rightarrow> {#} | Inr c \<Rightarrow> {#MongoHandle c#})"
    if "CreateClient (pr_mongo P) uri n w = (r, w')" for uri n w r w'
    using held_CreateClient[OF ok that] unfolding lost_clients_def by blast
  then show ?thesis
    unfolding cs_run_def Let_def
    by (intro opens_leaves[OF D(1)] opens_leaves[OF D(10)] acquire_leaves[where h = MongoHandle and Qf = "lost_clients (pings (pr_mongo P))"]
        kafka_leaves[OF ok serve] D(2,6,11)) simp_all
qed

lemma rs_run_leaves:
  assumes ok: "process_ok P held" and serve: "\<forall>h w. held (serve h w) = held w"
  shows "leaves held left_pool (rs_run P env cfg mgr serve)"
proof -
  note D = process_okD[OF ok]
  have none: "left_pool {#}" unfolding left_pool_def by (rule exI[of _ "{#}"]) simp
  have "leaves held left_pool (\<lambda>w. case NewDB (pr_pgx P) (rcf_DB cfg) w of (Inl err, w1) \<Rightarrow> (Inl err, w1)
      | (Inr db, w1) \<Rightarrow> rs_run_kafka P cfg (mgr k db) serve w1)" for k
    unfolding leaves_def
  proof (intro allI impI)
    fix w r w'
    assume run: "(case NewDB (pr_pgx P) (rcf_DB cfg) w of (Inl err, w1) \<Rightarrow> (Inl err, w1)
      | (Inr db, w1) \<Rightarrow> rs_run_kafka P cfg (mgr k db) serve w1) = (r, w')"
    obtain q w1 where n: "NewDB (pr_pgx P) (rcf_DB cfg) w = (q, w1)" by fastforce
    have "held w' = held w1" using run n held_kafka(2)[OF ok, of serve] serve by (cases q) auto
    moreover have "left_pool (case q of Inl e \<Rightarrow> {#} | Inr p \<Rightarrow> {#Pool p#})"
      by (cases q) (auto simp: none left_pool_def intro: exI[of _ "{#p#}" for p])
    ultimately show "\<exists>x. left_pool x \<and> held w' = held w + x" using held_NewDB[OF ok n] by auto
  qed
  with none show ?thesis
    unfolding rs_run_def by (intro opens_leaves[OF D(1)] opens_leaves[OF D(10)] D(2,11)) simp_all
qed

section \<open>Properties\<close>

text \<open>
  A start that fails, and a service that ends, release what they opened. Whatever step of run fails,
  and after a normal end, the tracer and every connection are released; what stays open is the MongoDB
  clients whose ping failed in the consignment service, none when the database answers, and the
  connection pool of the reservation service, whenever it could be opened.
\<close>

theorem run_releases:
  assumes "process_ok P held" and "\<forall>h w. held (serve h w) = held w"
  shows "(\<exists>lost. held (snd (cs_run P env mgr serve w)) = held w + image_mset MongoHandle lost \<and>
      (pings (pr_mongo P) \<longrightarrow> lost = {#})) \<and>
    (\<exists>pools. held (snd (rs_run P env cfg rmgr serve w)) = held w + image_mset Pool pools \<and> size pools \<le> 1)"
  using cs_run_leaves[OF assms, of env mgr] rs_run_leaves[OF assms, of env cfg rmgr]
  unfolding leaves_def lost_clients_def left_pool_def by (metis prod.collapse)

text \<open>A process in which everything answers; its world is what is open.\<close>

definition quiet_process :: "(unit, string, unit, unit, (unit, string, unit) handle multiset) Process" where
  "quiet_process = \<lparr>
     pr_otlpExporter = (\<lambda>a w. (Inr (), add_mset Tracer w)), pr_SetTracerProvider = (\<lambda>n w. w), pr_shutdown = (\<lambda>w. w - {#Tracer#}),
     pr_mongo = \<lparr>md_Connect = (\<lambda>uri w. (Inr (), add_mset (MongoHandle ()) w)), md_Ping = (\<lambda>c w. (Inr (), w)), md_Sleep = (\<lambda>w. w)\<rparr>,
     pr_Disconnect = (\<lambda>c w. w - {#MongoHandle c#}),
     pr_pgx = \<lparr>px_ParseConfig = Inr \<circ> (\<lambda>s. ()), px_SetConns = (\<lambda>a b f. f), px_NewWithConfig = (\<lambda>f w. (Inr (), add_mset (Pool ()) w)),
       px_Ping = (\<lambda>p w. (Inr (), w)), px_Close = (\<lambda>p w. w - {#Pool p#})\<rparr>,
     pr_NewClient = (\<lambda>a w. (Inr a, add_mset (Connection a) w)), pr_CloseConn = (\<lambda>k w. w - {#Connection k#}),
     pr_admin = (\<lambda>a. \<lparr>ka_Connect = (\<lambda>w. (Inr (), w)), ka_CreateTopics = (\<lambda>ts w. (Inr [], w)), ka_Close = (\<lambda>w. w),
       ka_Error = (\<lambda>c. ErrNew '''')\<rparr>),
     pr_kafkaProducer = (\<lambda>s a w. (Inr (), w)), pr_kafkaConsumer = (\<lambda>s g o' w. (Inr (), w))\<rparr>"

lemma quiet_process_ok: "process_ok quiet_process (\<lambda>w. w)"
  by (simp add: process_ok_def quiet_process_def opens_def releases_def keeps_def)

theorem run_releases_witness:
  "\<forall>env mgr. snd (cs_run quiet_process env mgr (\<lambda>h w. w) {#}) = {#}"
proof (intro allI)
  fix env mgr
  have "pings (pr_mongo quiet_process)" by (simp add: pings_def quiet_process_def)
  with run_releases[OF quiet_process_ok, of "\<lambda>h w. w" env mgr "{#}"] show "snd (cs_run quiet_process env mgr (\<lambda>h w. w) {#}) = {#}"
    by auto
qed

end
