(* ===== verification/Mains.thy ===== *)
theory Mains
  imports Launch Gateway
begin

text \<open>
  The main functions of the services that answer calls only - vessel, payment, user and gateway - from
  the environment to the end of their server, the indexes the vessel service creates
  (\<open>SetupIndexes\<close> of \<open>repository.go\<close>), and the cache the reservation service builds from its configuration
  (\<open>NewCache\<close> of \<open>storage/redis/redis.go\<close>).
\<close>

section \<open>How a process ends\<close>

text \<open>
  \<open>log.Fatal\<close> exits at once, without the deferred calls; \<open>log.Panic\<close> runs them. \<open>Ended\<close> is the end of
  \<open>main\<close>, when the server has been stopped by a signal.
\<close>

datatype 'w exit = Ended 'w | Fatal goerr 'w | Panicked goerr 'w

text \<open>Listening, and serving until \<open>GracefulStop\<close> or an error.\<close>

record ('s, 'w) Host =
  ho_Listen :: "string \<Rightarrow> 'w \<Rightarrow> (goerr + unit) \<times> 'w"
  ho_Serve :: "'s \<Rightarrow> 'w \<Rightarrow> (goerr + unit) \<times> 'w"

definition listen_and_serve :: "('s, 'w) Host \<Rightarrow> string \<Rightarrow> 's \<Rightarrow> ('w \<Rightarrow> 'w) \<Rightarrow> 'w \<Rightarrow> 'w exit" where
  "listen_and_serve H addr s deferred w =
    (case ho_Listen H addr w of
       (Inl err, w1) \<Rightarrow> Fatal (Errorf ''failed to listen'' [err]) w1
     | (Inr _, w1) \<Rightarrow>
       (case ho_Serve H s w1 of
          (Inl err, w2) \<Rightarrow> Fatal (Errorf ''failed to serve'' [err]) w2
        | (Inr _, w2) \<Rightarrow> Ended (deferred w2)))"

section \<open>Vessel service\<close>

record IndexModel =
  ix_Keys :: "string list"
  ix_Unique :: bool
  ix_ExpireAfterSeconds :: "nat option"

definition SetupIndexes :: "(IndexModel list \<Rightarrow> 'w \<Rightarrow> (goerr + unit) \<times> 'w) \<Rightarrow> 'w \<Rightarrow> (goerr + unit) \<times> 'w" where
  "SetupIndexes CreateMany w = CreateMany
     [\<lparr>ix_Keys = [''reservation_id'', ''operation''], ix_Unique = True, ix_ExpireAfterSeconds = None\<rparr>,
      \<lparr>ix_Keys = [''created_at''], ix_Unique = False, ix_ExpireAfterSeconds = Some (30 * 24 * 60 * 60)\<rparr>] w"

definition vessel_main ::
  "('c, 'k, 'f, 'p, 'w) Process \<Rightarrow> ('w vessel_repository, 'w) Host \<Rightarrow> ('c \<Rightarrow> IndexModel list \<Rightarrow> 'w \<Rightarrow> (goerr + unit) \<times> 'w) \<Rightarrow>
     ('c \<Rightarrow> 'w MongoRepository) \<Rightarrow> ('w \<Rightarrow> string \<times> 'w) \<Rightarrow> (string \<Rightarrow> string) \<Rightarrow> 'w \<Rightarrow> 'w exit" where
  "vessel_main P H CreateMany repo NewString env w =
    (case CreateMongoClient (pr_mongo P) (vessel_uri env) 0 w of
       (Inl err, w1) \<Rightarrow> Panicked err w1
     | (Inr mongoCli, w1) \<Rightarrow>
       (case SetupIndexes (CreateMany mongoCli) w1 of
          (Inl err, w2) \<Rightarrow> Panicked (Errorf ''failed to setup indexes'' [err]) (pr_Disconnect P mongoCli w2)
        | (Inr _, w2) \<Rightarrow>
          (case initTracer P env ''gateway'' (start_vessels (repo mongoCli) NewString w2) of
             (Inl err, w3) \<Rightarrow> Fatal err w3
           | (Inr _, w3) \<Rightarrow> listen_and_serve H (getenv_or env ''GRPC_ADDRESS'' '':50051'') (mongo_repository (repo mongoCli))
               (\<lambda>v. pr_Disconnect P mongoCli (pr_shutdown P v)) w3)))"

section \<open>Payment service\<close>

definition payment_main :: "('c, 'k, 'f, 'p, 'w) Process \<Rightarrow> (payments, 'w) Host \<Rightarrow> (string \<Rightarrow> string) \<Rightarrow> 'w \<Rightarrow> 'w exit" where
  "payment_main P H env w =
    (case initTracer P env ''consignment'' w of
       (Inl err, w1) \<Rightarrow> Fatal err w1
     | (Inr _, w1) \<Rightarrow> listen_and_serve H (getenv_or env ''GRPC_ADDRESS'' '':50051'') Map.empty (pr_shutdown P) w1)"

section \<open>User service and gateway\<close>

definition user_main ::
  "('d, 'w) SqlxDial \<Rightarrow> ('d \<Rightarrow> 'w \<Rightarrow> 'w) \<Rightarrow> ('w UserHandler, 'w) Host \<Rightarrow> ('d \<Rightarrow> string \<Rightarrow> 'w UserHandler) \<Rightarrow>
     (string \<Rightarrow> string) \<Rightarrow> 'w \<Rightarrow> 'w exit" where
  "user_main D Close H handler env w =
    (case user_config env of
       Inl err \<Rightarrow> Fatal err w
     | Inr cfg \<Rightarrow>
       (case CreatePostgresClient D (ucf_host cfg) (ucf_user cfg) (ucf_password cfg) (ucf_name cfg) 0 w of
          (Inl err, w1) \<Rightarrow> Panicked err w1
        | (Inr db, w1) \<Rightarrow> listen_and_serve H (ucf_grpcAddr cfg) (handler db (ucf_jwtSecret cfg)) (Close db) w1))"

text \<open>\<open>r.Run\<close> listens and serves; it does not return without an error.\<close>

definition gateway_main ::
  "('c, 'k, 'f, 'p, 'w) Process \<Rightarrow> (string \<Rightarrow> 'w Gateway \<Rightarrow> 'w \<Rightarrow> (goerr + unit) \<times> 'w) \<Rightarrow> ('k \<Rightarrow> 'k \<Rightarrow> 'w Gateway) \<Rightarrow>
     (string \<Rightarrow> string) \<Rightarrow> 'w \<Rightarrow> 'w exit" where
  "gateway_main P Run gateway env w =
    (case gateway_config env of
       Inl err \<Rightarrow> Fatal err w
     | Inr cfg \<Rightarrow>
       (case initTracer P env ''gateway'' w of
          (Inl err, w1) \<Rightarrow> Fatal err w1
        | (Inr _, w1) \<Rightarrow>
          (case pr_NewClient P (gcf_userServiceAddr cfg) w1 of
             (Inl err, w2) \<Rightarrow> Fatal (Errorf ''failed to connect to user service'' [err]) w2
           | (Inr userConn, w2) \<Rightarrow>
             (case pr_NewClient P (gcf_consignmentServiceAddr cfg) w2 of
                (Inl err, w3) \<Rightarrow> Fatal (Errorf ''failed to connect to vessel service'' [err]) w3
              | (Inr consignmentConn, w3) \<Rightarrow>
                (case Run (gcf_serverAddr cfg) ((gateway userConn consignmentConn)\<lparr>gw_jwtSecret := gcf_jwtSecret cfg\<rparr>) w3 of
                   (Inl err, w4) \<Rightarrow> Fatal (Errorf ''failed to run server'' [err]) w4
                 | (Inr _, w4) \<Rightarrow>
                     Ended (pr_shutdown P (pr_CloseConn P userConn (pr_CloseConn P consignmentConn w4))))))))"

section \<open>The cache of the reservation service\<close>

text \<open>\<open>time.Duration(ttl) * time.Second\<close> is a product of 64 bits.\<close>

definition NewCache :: "'w RedisClient \<Rightarrow> ReservationInfo codec \<Rightarrow> uuid_lib \<Rightarrow> RsConfig \<Rightarrow> 'w Cache" where
  "NewCache client json u cfg = \<lparr>c_client = client, c_reservationTTL = sint (seconds (rcf_ReservationTTL cfg)),
     c_reservationDataTTL = sint (seconds (rcf_ReservationDataTTL cfg)), c_json = json, c_uuid = u\<rparr>"

section \<open>Facts\<close>

text \<open>Without a secret neither the user service nor the gateway opens anything.\<close>

lemma no_secret_no_service:
  assumes "env ''JWT_SECRET'' = ''''"
  shows "user_main D Close H handler env w = Fatal (ErrNew ''no JWT secret'') w"
    and "gateway_main P Run gateway env w = Fatal (ErrNew ''no JWT secret'') w"
  using assms by (simp_all add: user_main_def user_config_def gateway_main_def gateway_config_def)

text \<open>
  When the vessel service serves, the unique index on which the exactly-once contract rests is there:
  \<open>indexes\<close> are the indexes of the collection, which no other call removes.
\<close>

definition indexes_kept :: "('w \<Rightarrow> IndexModel set) \<Rightarrow> ('w \<Rightarrow> 'w) \<Rightarrow> bool" where
  "indexes_kept indexes f \<longleftrightarrow> (\<forall>w. indexes w \<subseteq> indexes (f w))"

definition op_index :: IndexModel where
  "op_index = \<lparr>ix_Keys = [''reservation_id'', ''operation''], ix_Unique = True, ix_ExpireAfterSeconds = None\<rparr>"

lemma vessel_serves_indexed:
  assumes create: "\<And>c ixs w u w'. CreateMany c ixs w = (Inr u, w') \<Longrightarrow> set ixs \<subseteq> indexes w'"
    and kept: "indexes_kept indexes (start_vessels R NewString)" "indexes_kept indexes (\<lambda>w. snd (initTracer P env ''gateway'' w))"
      "\<And>a. indexes_kept indexes (\<lambda>w. snd (ho_Listen H a w))"
    and serve: "\<And>s w. ho_Serve H s w = (Inr (), w)" and deferred: "\<And>c w. pr_Disconnect P c w = w" "\<And>w. pr_shutdown P w = w"
    and run: "vessel_main P H CreateMany (\<lambda>_. R) NewString env w = Ended w'"
  shows "op_index \<in> indexes w'"
proof -
  obtain q w1 where c: "CreateMongoClient (pr_mongo P) (vessel_uri env) 0 w = (q, w1)" by fastforce
  with run obtain m where m: "q = Inr m" by (cases q) (auto simp: vessel_main_def)
  obtain q2 w2 where s: "SetupIndexes (CreateMany m) w1 = (q2, w2)" by fastforce
  with run c m obtain u where u: "q2 = Inr u" by (cases q2) (auto simp: vessel_main_def)
  let ?v = "start_vessels R NewString w2"
  obtain q3 w3 where t: "initTracer P env ''gateway'' ?v = (q3, w3)" by fastforce
  with run c m s u obtain u3 where u3: "q3 = Inr u3" by (cases q3) (auto simp: vessel_main_def)
  let ?a = "getenv_or env ''GRPC_ADDRESS'' '':50051''"
  obtain q4 w4 where l: "ho_Listen H ?a w3 = (q4, w4)" by fastforce
  from run c m s u t u3 l serve deferred have "w' = w4"
    by (cases q4) (auto simp: vessel_main_def listen_and_serve_def)
  moreover have "op_index \<in> indexes w2"
    using create[OF s[unfolded SetupIndexes_def u]] by (simp add: op_index_def)
  moreover have "indexes w2 \<subseteq> indexes w3" using kept(1)[unfolded indexes_kept_def, rule_format, of w2]
      kept(2)[unfolded indexes_kept_def, rule_format, of ?v] t by auto
  moreover have "indexes w3 \<subseteq> indexes w4" using kept(3)[of ?a, unfolded indexes_kept_def, rule_format, of w3] l by simp
  ultimately show ?thesis by blast
qed

text \<open>With the defaults, a reservation's data outlives its identifier by 20 minutes, 20 rounds of the clean-up job.\<close>

lemma default_cache:
  assumes "ReadEnvironment decode env = Inr cfg" and "env (env_name ''redis.reservation_ttl'') = ''''"
    and "env (env_name ''redis.reservation_data_ttl'') = ''''" and "env (env_name ''manager.cleanup_interval'') = ''''"
  shows "c_reservationTTL (NewCache client json u cfg) = 600 * 10 ^ 9 \<and>
    c_reservationDataTTL (NewCache client json u cfg) = 1800 * 10 ^ 9 \<and> rcf_CleanupInterval cfg = 60"
proof -
  have "rcf_ReservationTTL cfg = 600 \<and> rcf_ReservationDataTTL cfg = 1800 \<and> rcf_CleanupInterval cfg = 60"
    using assms by (auto simp: ReadEnvironment_def unmarshal_config_def int_setting_def split: sum.splits if_splits)
  then show ?thesis using seconds_exact[of 600] seconds_exact[of 1800] by (simp add: NewCache_def)
qed

end
