(* ===== verification/Jobs.thy ===== *)
theory Jobs
  imports Outbox_Properties Consignment_Outbox Startup
begin

text \<open>
  The background loops: \<open>processOutbox\<close> of both event-driven services and \<open>processReservations\<close> of the
  reservation service, from \<open>time.NewTicker\<close> to the end of the context. A run of a loop is given by what
  the rest of the world does before each of its ticks. Errors of a pass are logged and forgotten; \<open>None\<close>
  is a panic. \<open>Lifecycle\<close> has the \<open>select\<close> statements that these runs pass through.
\<close>

section \<open>The loops\<close>

fun outbox_ticks :: "('x OutboxEvent_scheme, 'w) OutboxManager \<Rightarrow> ('w \<Rightarrow> 'w) list \<Rightarrow> 'w \<Rightarrow> 'w" where
  "outbox_ticks m [] w = w"
| "outbox_ticks m (before # later) w = outbox_ticks m later (snd (publishOutbox m (before w)))"

definition processOutbox :: "(OutboxEvent, 'w) OutboxManager \<Rightarrow> int \<Rightarrow> ('w \<Rightarrow> 'w) list \<Rightarrow> 'w \<Rightarrow> 'w option" where
  "processOutbox m interval befores w =
    (case NewTicker (seconds interval) of
       None \<Rightarrow> None
     | Some ticker \<Rightarrow> Some (outbox_ticks m befores w))"

fun cs_outbox_ticks :: "(CsOutboxEvent, 'w) OutboxManager \<Rightarrow> ('w \<Rightarrow> 'w) list \<Rightarrow> 'w \<Rightarrow> 'w" where
  "cs_outbox_ticks m [] w = w"
| "cs_outbox_ticks m (before # later) w = cs_outbox_ticks m later (snd (cs_publishOutbox m (before w)))"

definition cs_processOutbox :: "(CsOutboxEvent, 'w) OutboxManager \<Rightarrow> int \<Rightarrow> ('w \<Rightarrow> 'w) list \<Rightarrow> 'w \<Rightarrow> 'w option" where
  "cs_processOutbox m interval befores w =
    (case NewTicker (seconds interval) of
       None \<Rightarrow> None
     | Some ticker \<Rightarrow> Some (cs_outbox_ticks m befores w))"

fun cleanup_ticks :: "'w RsManager \<Rightarrow> ('w \<Rightarrow> 'w) list \<Rightarrow> 'w \<Rightarrow> 'w option" where
  "cleanup_ticks m [] w = Some w"
| "cleanup_ticks m (before # later) w =
    (case releaseReservations m (before w) of
       None \<Rightarrow> None
     | Some (_, w1) \<Rightarrow> cleanup_ticks m later w1)"

definition processReservations :: "'w RsManager \<Rightarrow> int \<Rightarrow> ('w \<Rightarrow> 'w) list \<Rightarrow> 'w \<Rightarrow> 'w option" where
  "processReservations m interval befores w =
    (case NewTicker (seconds interval) of
       None \<Rightarrow> None
     | Some ticker \<Rightarrow> cleanup_ticks m befores w)"

section \<open>The publishers\<close>

lemma cs_outbox_ticks_same: "cs_outbox_ticks m bs w = outbox_ticks m bs w"
  by (induction bs arbitrary: w) (simp_all add: cs_publishOutbox_same)

text \<open>Every event that is marked as published is among the messages Kafka has acknowledged.\<close>

definition truthful :: "outbox_row list \<Rightarrow> (string \<times> string \<times> bytes) set \<Rightarrow> bool" where
  "truthful rs sent \<longleftrightarrow> (\<forall>row \<in> set rs. row_published row \<longrightarrow> row_message row \<in> sent)"

context outbox_publisher
begin

lemma delivered_truthful:
  assumes "delivered_first h w w'" "truthful (rows h w) (sent h w)"
  shows "truthful (rows h w') (sent h w')"
proof -
  from assms(1) obtain f where sub: "sent h w \<subseteq> sent h w'" and map: "rows h w' = map f (rows h w)"
    and f: "\<forall>row \<in> set (rows h w). row_message (f row) = row_message row \<and>
      (row_published (f row) \<longrightarrow> row_published row \<or> row_message row \<in> sent h w')"
    unfolding delivered_first_def by blast
  show ?thesis
    unfolding truthful_def
  proof (intro ballI impI)
    fix row assume "row \<in> set (rows h w')" "row_published row"
    then obtain r where r: "r \<in> set (rows h w)" "row = f r" "row_published (f r)" by (auto simp: map)
    with f have m: "row_message (f r) = row_message r" "row_published r \<or> row_message r \<in> sent h w'" by auto
    with assms(2) r(1) sub show "row_message row \<in> sent h w'" by (auto simp: truthful_def r(2))
  qed
qed

lemma ticks_truthful:
  assumes "ok h"
  shows "list_all (\<lambda>b. \<forall>v. truthful (rows h v) (sent h v) \<longrightarrow> truthful (rows h (b v)) (sent h (b v))) bs \<Longrightarrow>
    truthful (rows h w) (sent h w) \<Longrightarrow> truthful (rows h (outbox_ticks (mgr h) bs w)) (sent h (outbox_ticks (mgr h) bs w))"
proof (induction bs arbitrary: w)
  case (Cons b bs)
  obtain r w1 where run: "publishOutbox (mgr h) (b w) = (r, w1)" by fastforce
  from Cons.prems have "truthful (rows h (b w)) (sent h (b w))" by simp
  from delivered_truthful[OF publishOutbox_delivered[OF assms run] this] Cons run show ?case by simp
qed simp

end

section \<open>The clean-up job\<close>

text \<open>No pass of the clean-up job gets stuck: it panics only when its ticker does.\<close>

lemma cleanup_ticks_end:
  assumes ok: "sys_ok s"
  shows "\<exists>w'. cleanup_ticks (sy_mgr s) befores w = Some w'"
proof (induction befores arbitrary: w)
  case (Cons before later)
  have cache: "rc_GetExpired (rm_cache (sy_mgr s)) = cache_GetExpired (sy_cache s)"
    using sys_okD(6)[OF ok] by (simp add: wired_def redis_cache_def)
  from GetExpired_terminates[OF sys_okD(1)[OF ok]] obtain q w1 where "cache_GetExpired (sy_cache s) (before w) = Some (q, w1)" by blast
  then have "\<exists>r w2. releaseReservations (sy_mgr s) (before w) = Some (r, w2)"
    by (simp add: releaseReservations_def cache split: sum.splits)
  with Cons.IH show ?case by force
qed simp

section \<open>Properties\<close>

text \<open>
  C13. The publishers of both services tell the truth for as long as they run. When every event marked as
  published had been acknowledged by Kafka at the start, and nothing else breaks that, then it holds
  after every number of passes, whatever fails in them.
\<close>

theorem publishers_truthful:
  assumes "cp_ok s" and "cs_processOutbox (cp_mgr s) n bs w = Some w'" and "truthful (cp_rows s w) (cp_sent s w)"
    and "list_all (\<lambda>b. \<forall>v. truthful (cp_rows s v) (cp_sent s v) \<longrightarrow> truthful (cp_rows s (b v)) (cp_sent s (b v))) bs"
    and "pub_ok s'" and "processOutbox (pub_mgr s') k cs v = Some v'" and "truthful (pg_rows (pb_db s', pb_pv s') v) (pb_sent s' v)"
    and "list_all (\<lambda>b. \<forall>u. truthful (pg_rows (pb_db s', pb_pv s') u) (pb_sent s' u) \<longrightarrow>
      truthful (pg_rows (pb_db s', pb_pv s') (b u)) (pb_sent s' (b u))) cs"
  shows "truthful (cp_rows s w') (cp_sent s w') \<and> truthful (pg_rows (pb_db s', pb_pv s') v') (pb_sent s' v')"
  using assms(2,6) cpub.ticks_truthful[OF assms(1,4,3)] pub.ticks_truthful[OF assms(5,8,7)]
  by (auto simp: cs_processOutbox_def cs_outbox_ticks_same processOutbox_def split: option.splits)

lemma ticker_5: "NewTicker (seconds 5) \<noteq> None"
  using seconds_exact[of 5] by (simp add: NewTicker_def word_sless_alt)

theorem publishers_truthful_witness:
  "truthful (cp_rows mem_cp (outbox_ticks (cp_mgr mem_cp) [id, id] box_world)) (cp_sent mem_cp (outbox_ticks (cp_mgr mem_cp) [id, id] box_world)) \<and>
   truthful (pg_rows (pb_db mem_pub, pb_pv mem_pub) (outbox_ticks (pub_mgr mem_pub) [id] pending_rmem))
     (pb_sent mem_pub (outbox_ticks (pub_mgr mem_pub) [id] pending_rmem))"
proof -
  have run: "cs_processOutbox (cp_mgr mem_cp) 5 [id, id] box_world = Some (outbox_ticks (cp_mgr mem_cp) [id, id] box_world)"
    "processOutbox (pub_mgr mem_pub) 5 [id] pending_rmem = Some (outbox_ticks (pub_mgr mem_pub) [id] pending_rmem)"
    using ticker_5 by (auto simp: cs_processOutbox_def cs_outbox_ticks_same processOutbox_def split: option.splits simp del: outbox_ticks.simps)
  have start: "truthful (cp_rows mem_cp box_world) (cp_sent mem_cp box_world)"
    "truthful (pg_rows (pb_db mem_pub, pb_pv mem_pub) pending_rmem) (pb_sent mem_pub pending_rmem)"
    by (auto simp: truthful_def mem_cp_def mo_rows_def mem_ov_def box_world_def coll_view_def waiting_doc_def abs_document_def
        mem_pub_def pg_rows_def mem_pv_def pending_rmem_def pending_row_def abs_row_def)
  show ?thesis
    by (rule publishers_truthful[OF mem_cp_ok run(1) start(1) _ mem_pub_ok run(2) start(2)]) simp_all
qed

end
