(* ===== verification/Tracing.thy ===== *)
theory Tracing
  imports Outbox
begin

text \<open>
  \<open>pkg/tracing\<close>, which no service uses: the choice of exporter and sampler in \<open>InitTracer\<close>, the global
  tracer, the in-memory exporter of the tests and its analysis of a trace, with a reference definition
  the analysis is equal to, and the attributes of \<open>attributes.go\<close>. The OpenTelemetry SDK is a parameter. The exporter's methods hold its mutex
  for their whole body, so they are functions of its spans.
\<close>

section \<open>Initialisation\<close>

record TracingConfig =
  tcf_ServiceName :: string
  tcf_Environment :: string
  tcf_OTLPEndpoint :: string

text \<open>A sampling fraction is a numerator and a denominator.\<close>

datatype Sampler = AlwaysSample | TraceIDRatioBased nat nat

text \<open>What a provider is built with; a nil exporter is \<open>None\<close>, a nil sampler too.\<close>

record 'x Provider =
  pv_exporter :: "'x option"
  pv_service :: string
  pv_environment :: string
  pv_sampler :: "Sampler option"

record ('f, 'x, 'w) TraceSdk =
  ts_Create :: "string \<Rightarrow> 'w \<Rightarrow> (goerr + 'f) \<times> 'w"
  ts_stdout :: "'f \<Rightarrow> 'w \<Rightarrow> ('x option \<times> goerr option) \<times> 'w"
  ts_otlphttp :: "string \<Rightarrow> 'w \<Rightarrow> ('x option \<times> goerr option) \<times> 'w"

definition sampler_of :: "string \<Rightarrow> Sampler option" where
  "sampler_of environment =
    (if environment = ''development'' \<or> environment = ''testing'' then Some AlwaysSample
     else if environment = ''production'' then Some (TraceIDRatioBased 1 10)
     else None)"

definition new_provider :: "TracingConfig \<Rightarrow> 'x option \<Rightarrow> 'x Provider" where
  "new_provider config exporter = \<lparr>pv_exporter = exporter, pv_service = tcf_ServiceName config,
     pv_environment = tcf_Environment config, pv_sampler = sampler_of (tcf_Environment config)\<rparr>"

text \<open>
  In the first branch \<open>file, err := os.Create(...)\<close> declares a second \<open>err\<close>, to which the error of
  \<open>stdouttrace.New\<close> goes: the \<open>err\<close> that is looked at afterwards is still nil.
\<close>

definition InitTracer :: "('f, 'x, 'w) TraceSdk \<Rightarrow> TracingConfig \<Rightarrow> 'w \<Rightarrow> (goerr + 'x Provider) \<times> 'w" where
  "InitTracer sdk config w =
    (if tcf_Environment config = ''development'' \<or> tcf_Environment config = ''testing'' then
       (case ts_Create sdk ''traces.json'' w of
          (Inl err, w1) \<Rightarrow> (Inl (Errorf ''failed to create traces file'' [err]), w1)
        | (Inr file, w1) \<Rightarrow>
          (case ts_stdout sdk file w1 of
             ((exporter, inner_err), w2) \<Rightarrow> (Inr (new_provider config exporter), w2)))
     else if tcf_Environment config = ''production'' then
       (let endpoint = (if tcf_OTLPEndpoint config = '''' then ''http://localhost:4318/v1/traces'' else tcf_OTLPEndpoint config) in
        case ts_otlphttp sdk endpoint w of
          ((exporter, Some err), w1) \<Rightarrow> (Inl (Errorf ''failed to create exporter'' [err]), w1)
        | ((exporter, None), w1) \<Rightarrow> (Inr (new_provider config exporter), w1))
     else (Inl (Errorf (''unknown environment: '' @ tcf_Environment config) []), w))"

text \<open>The global tracer, by its name.\<close>

definition GetTracer :: "string option \<Rightarrow> string" where
  "GetTracer tracer = (case tracer of None \<Rightarrow> ''uninitialized'' | Some t \<Rightarrow> t)"

text \<open>\<open>Start\<close> of a tracer, by the tracer's name, takes a context and gives it back with the new span.\<close>

definition StartSpan :: "(string \<Rightarrow> 'c \<Rightarrow> string \<Rightarrow> 'c \<times> 's) \<Rightarrow> string option \<Rightarrow> 'c \<Rightarrow> string \<Rightarrow> 'c \<times> 's" where
  "StartSpan Start tracer ctx name = Start (GetTracer tracer) ctx name"

section \<open>The in-memory exporter\<close>

record Span =
  sn_Name :: string
  sn_TraceID :: string
  sn_Start :: time
  sn_End :: time

definition ExportSpans :: "Span list \<Rightarrow> Span list \<Rightarrow> Span list" where
  "ExportSpans e spans = e @ spans"

definition GetSpans :: "Span list \<Rightarrow> Span list" where
  "GetSpans e = e"

definition Clear :: "Span list \<Rightarrow> Span list" where
  "Clear e = []"

definition GetSpansByName :: "Span list \<Rightarrow> string \<Rightarrow> Span list" where
  "GetSpansByName e name = [span \<leftarrow> GetSpans e. sn_Name span = name]"

definition GetSpansByTraceID :: "Span list \<Rightarrow> string \<Rightarrow> Span list" where
  "GetSpansByTraceID e traceID = [span \<leftarrow> GetSpans e. sn_TraceID span = traceID]"

text \<open>
  \<open>InitTestTracer\<close>: a new exporter, the provider that exports to it each span as it ends, and the global
  tracer. A span that ends under a provider with a sampler goes to the exporter when it is sampled.
\<close>

definition NewInMemoryExporter :: "Span list" where
  "NewInMemoryExporter = []"

record TestTracer =
  tt_exporter :: "Span list"
  tt_sampler :: Sampler
  tt_tracer :: "string option"

definition InitTestTracer :: "string \<Rightarrow> TestTracer" where
  "InitTestTracer serviceName = \<lparr>tt_exporter = NewInMemoryExporter, tt_sampler = AlwaysSample, tt_tracer = Some serviceName\<rparr>"

section \<open>Attributes\<close>

text \<open>
  The keys of \<open>attributes.go\<close>. An attribute value is a string or a signed 64-bit integer; \<open>int64\<close> of a
  \<open>uint64\<close> keeps the bits, \<open>int\<close> of an \<open>int32\<close> extends the sign.
\<close>

datatype AttrKey = AttrBlockNumber | AttrTxHash | AttrTxIndex | AttrEventType | AttrContractAddr
  | AttrTokenIn | AttrTokenOut | AttrAmountIn | AttrAmountOut | AttrPoolAddress
  | AttrKafkaTopic | AttrKafkaPartition | AttrKafkaOffset | AttrDBTable | AttrDBOperation | AttrCacheKey | AttrCacheType

fun attr_name :: "AttrKey \<Rightarrow> string" where
  "attr_name AttrBlockNumber = ''blockchain.block_number''"
| "attr_name AttrTxHash = ''blockchain.tx_hash''"
| "attr_name AttrTxIndex = ''blockchain.tx_index''"
| "attr_name AttrEventType = ''blockchain.event_type''"
| "attr_name AttrContractAddr = ''blockchain.contract_address''"
| "attr_name AttrTokenIn = ''swap.token_in''"
| "attr_name AttrTokenOut = ''swap.token_out''"
| "attr_name AttrAmountIn = ''swap.amount_in''"
| "attr_name AttrAmountOut = ''swap.amount_out''"
| "attr_name AttrPoolAddress = ''swap.pool_address''"
| "attr_name AttrKafkaTopic = ''kafka.topic''"
| "attr_name AttrKafkaPartition = ''kafka.partition''"
| "attr_name AttrKafkaOffset = ''kafka.offset''"
| "attr_name AttrDBTable = ''db.table''"
| "attr_name AttrDBOperation = ''db.operation''"
| "attr_name AttrCacheKey = ''cache.key''"
| "attr_name AttrCacheType = ''cache.type''"

datatype AttrValue = Int64Value "64 word" | StringValue string

definition BlockchainAttributes :: "64 word \<Rightarrow> string \<Rightarrow> (string \<times> AttrValue) list" where
  "BlockchainAttributes blockNumber txHash =
    [(attr_name AttrBlockNumber, Int64Value blockNumber), (attr_name AttrTxHash, StringValue txHash)]"

definition SwapAttributes :: "string \<Rightarrow> string \<Rightarrow> string \<Rightarrow> string \<Rightarrow> (string \<times> AttrValue) list" where
  "SwapAttributes tokenIn tokenOut amountIn amountOut =
    [(attr_name AttrTokenIn, StringValue tokenIn), (attr_name AttrTokenOut, StringValue tokenOut),
     (attr_name AttrAmountIn, StringValue amountIn), (attr_name AttrAmountOut, StringValue amountOut)]"

definition KafkaAttributes :: "string \<Rightarrow> int32 \<Rightarrow> 64 word \<Rightarrow> (string \<times> AttrValue) list" where
  "KafkaAttributes topic part offset =
    [(attr_name AttrKafkaTopic, StringValue topic), (attr_name AttrKafkaPartition, Int64Value (word_of_int (sint part))),
     (attr_name AttrKafkaOffset, Int64Value offset)]"

text \<open>What a backend reads of an attribute list.\<close>

definition read_int :: "(string \<times> AttrValue) list \<Rightarrow> AttrKey \<Rightarrow> int option" where
  "read_int attrs k = (case map_of attrs (attr_name k) of Some (Int64Value v) \<Rightarrow> Some (sint v) | _ \<Rightarrow> None)"

lemma attr_names_distinct: "attr_name k = attr_name k' \<Longrightarrow> k = k'"
  by (cases k; cases k') simp_all

text \<open>Block numbers from \<open>2 ^ 63\<close> on are reported as negative.\<close>

lemma block_number_read:
  "read_int (BlockchainAttributes n h) AttrBlockNumber = Some (if uint n < 2 ^ 63 then uint n else uint n - 2 ^ 64)"
proof -
  have "sint n = (uint n + 2 ^ 63) mod 2 ^ 64 - 2 ^ 63"
    by (simp add: sint_uint signed_take_bit_eq_take_bit_shift take_bit_eq_mod)
  moreover have u: "0 \<le> uint n" "uint n < 2 ^ 64" using uint_range_size[of n] by (simp_all add: word_size)
  moreover have "(uint n + 2 ^ 63) mod 2 ^ 64 = (if uint n < 2 ^ 63 then uint n + 2 ^ 63 else uint n + 2 ^ 63 - 2 ^ 64)"
  proof (cases "uint n < 2 ^ 63")
    case False
    then have "(uint n - 2 ^ 63) mod 2 ^ 64 = uint n - 2 ^ 63" using u by (intro mod_pos_pos_trivial) simp_all
    with minus_mod_self2[of "uint n + 2 ^ 63" "2 ^ 64"] False show ?thesis by simp
  qed (use u in simp)
  ultimately have "sint n = (if uint n < 2 ^ 63 then uint n else uint n - 2 ^ 64)" by simp
  then show ?thesis by (simp add: read_int_def BlockchainAttributes_def)
qed

lemma kafka_partition_read:
  "read_int (KafkaAttributes t p off) AttrKafkaPartition = Some (sint p)" "read_int (KafkaAttributes t p off) AttrKafkaOffset = Some (sint off)"
proof -
  have "- (2 ^ 63) \<le> sint p" "sint p < 2 ^ 63" using sint_ge[of p] sint_lt[of p] by simp_all
  then have "sint (word_of_int (sint p) :: 64 word) = sint p"
    by (subst sint_sbintrunc') (simp add: signed_take_bit_int_eq_self)
  then show "read_int (KafkaAttributes t p off) AttrKafkaPartition = Some (sint p)" "read_int (KafkaAttributes t p off) AttrKafkaOffset = Some (sint off)"
    by (simp_all add: read_int_def KafkaAttributes_def)
qed

section \<open>The analysis of a trace\<close>

text \<open>\<open>time.Duration\<close> has 64 bits; \<open>Time.Sub\<close> saturates, \<open>+\<close> wraps.\<close>

type_synonym duration = "64 word"

definition time_Sub :: "time \<Rightarrow> time \<Rightarrow> duration" where
  "time_Sub t u = word_of_int (max (- (2 ^ 63)) (min (2 ^ 63 - 1) (t - u)))"

record TraceMetrics =
  tm_TraceID :: string
  tm_TotalDuration :: duration
  tm_EventProcessingTime :: duration
  tm_KafkaProduceTime :: duration
  tm_KafkaTransportTime :: duration
  tm_WorkerProcessingTime :: duration
  tm_DatabaseOperationTime :: duration
  tm_CacheOperationTime :: duration
  tm_EventListenerSpan :: "Span option"
  tm_KafkaProduceSpan :: "Span option"
  tm_KafkaConsumeSpan :: "Span option"
  tm_WorkerSpan :: "Span option"
  tm_DatabaseSpan :: "Span option"
  tm_CacheSpans :: "Span list"

definition no_metrics :: "string \<Rightarrow> TraceMetrics" where
  "no_metrics traceID = \<lparr>tm_TraceID = traceID, tm_TotalDuration = 0, tm_EventProcessingTime = 0, tm_KafkaProduceTime = 0,
     tm_KafkaTransportTime = 0, tm_WorkerProcessingTime = 0, tm_DatabaseOperationTime = 0, tm_CacheOperationTime = 0,
     tm_EventListenerSpan = None, tm_KafkaProduceSpan = None, tm_KafkaConsumeSpan = None, tm_WorkerSpan = None,
     tm_DatabaseSpan = None, tm_CacheSpans = []\<rparr>"

definition span_duration :: "Span \<Rightarrow> duration" where
  "span_duration span = time_Sub (sn_End span) (sn_Start span)"

text \<open>The \<open>switch\<close> on the name of a span.\<close>

definition categorize :: "Span \<Rightarrow> TraceMetrics \<Rightarrow> TraceMetrics" where
  "categorize span metrics =
    (let name = sn_Name span; duration = span_duration span in
     if name = ''events.handleSwapEvent'' \<or> name = ''events.handleSyncEvent'' then
       metrics\<lparr>tm_EventListenerSpan := Some span, tm_EventProcessingTime := duration\<rparr>
     else if name = ''kafka.produce'' then
       metrics\<lparr>tm_KafkaProduceSpan := Some span, tm_KafkaProduceTime := duration\<rparr>
     else if name = ''kafka.consume'' then
       metrics\<lparr>tm_KafkaConsumeSpan := Some span\<rparr>
     else if name = ''worker.handleTradeEvent'' \<or> name = ''worker.handleReserveEvent'' then
       metrics\<lparr>tm_WorkerSpan := Some span, tm_WorkerProcessingTime := duration\<rparr>
     else if name = ''db.CreateTrade'' \<or> name = ''db.CreateReserve'' then
       metrics\<lparr>tm_DatabaseSpan := Some span, tm_DatabaseOperationTime := duration\<rparr>
     else if name = ''cache.SetPrice'' \<or> name = ''cache.SetReserves'' then
       metrics\<lparr>tm_CacheSpans := tm_CacheSpans metrics @ [span], tm_CacheOperationTime := tm_CacheOperationTime metrics + duration\<rparr>
     else metrics)"

text \<open>One pass of the loop: the bounds (the zero time stands for none yet), then the \<open>switch\<close>.\<close>

definition track_start :: "time \<Rightarrow> Span \<Rightarrow> time" where
  "track_start earliest span = (if earliest = zero_time \<or> sn_Start span < earliest then sn_Start span else earliest)"

definition track_end :: "time \<Rightarrow> Span \<Rightarrow> time" where
  "track_end latest span = (if latest = zero_time \<or> latest < sn_End span then sn_End span else latest)"

fun analyze_spans :: "Span list \<Rightarrow> time \<Rightarrow> time \<Rightarrow> TraceMetrics \<Rightarrow> time \<times> time \<times> TraceMetrics" where
  "analyze_spans [] earliest latest metrics = (earliest, latest, metrics)"
| "analyze_spans (span # spans) earliest latest metrics =
     analyze_spans spans (track_start earliest span) (track_end latest span) (categorize span metrics)"

definition transport_time :: "TraceMetrics \<Rightarrow> TraceMetrics" where
  "transport_time metrics =
    (case (tm_KafkaProduceSpan metrics, tm_KafkaConsumeSpan metrics) of
       (Some p, Some c) \<Rightarrow>
         if sn_End p < sn_Start c then metrics\<lparr>tm_KafkaTransportTime := time_Sub (sn_Start c) (sn_End p)\<rparr> else metrics
     | _ \<Rightarrow> metrics)"

definition AnalyzeTrace :: "Span list \<Rightarrow> string \<Rightarrow> TraceMetrics option" where
  "AnalyzeTrace e traceID =
    (let spans = GetSpansByTraceID e traceID in
     if spans = [] then None
     else (case analyze_spans spans zero_time zero_time (no_metrics traceID) of
       (earliest, latest, metrics) \<Rightarrow>
         Some (transport_time
           (if earliest \<noteq> zero_time \<and> latest \<noteq> zero_time
            then metrics\<lparr>tm_TotalDuration := time_Sub latest earliest\<rparr> else metrics))))"

section \<open>The reference\<close>

text \<open>The last span with one of some names, and how long it took.\<close>

definition named :: "string list \<Rightarrow> Span list \<Rightarrow> Span list" where
  "named names spans = [s \<leftarrow> spans. sn_Name s \<in> set names]"

definition last_named :: "string list \<Rightarrow> Span list \<Rightarrow> Span option" where
  "last_named names spans = (if named names spans = [] then None else Some (last (named names spans)))"

definition took :: "Span option \<Rightarrow> duration" where
  "took s = (case s of None \<Rightarrow> 0 | Some s \<Rightarrow> span_duration s)"

abbreviation "listener_names \<equiv> [''events.handleSwapEvent'', ''events.handleSyncEvent'']"
abbreviation "worker_names \<equiv> [''worker.handleTradeEvent'', ''worker.handleReserveEvent'']"
abbreviation "database_names \<equiv> [''db.CreateTrade'', ''db.CreateReserve'']"
abbreviation "cache_names \<equiv> [''cache.SetPrice'', ''cache.SetReserves'']"

definition trace_reference :: "string \<Rightarrow> Span list \<Rightarrow> TraceMetrics" where
  "trace_reference traceID spans = \<lparr>
     tm_TraceID = traceID,
     tm_TotalDuration = time_Sub (Max (sn_End ` set spans)) (Min (sn_Start ` set spans)),
     tm_EventProcessingTime = took (last_named listener_names spans),
     tm_KafkaProduceTime = took (last_named [''kafka.produce''] spans),
     tm_KafkaTransportTime =
       (case (last_named [''kafka.produce''] spans, last_named [''kafka.consume''] spans) of
          (Some p, Some c) \<Rightarrow> if sn_End p < sn_Start c then time_Sub (sn_Start c) (sn_End p) else 0
        | _ \<Rightarrow> 0),
     tm_WorkerProcessingTime = took (last_named worker_names spans),
     tm_DatabaseOperationTime = took (last_named database_names spans),
     tm_CacheOperationTime = sum_list (map span_duration (named cache_names spans)),
     tm_EventListenerSpan = last_named listener_names spans,
     tm_KafkaProduceSpan = last_named [''kafka.produce''] spans,
     tm_KafkaConsumeSpan = last_named [''kafka.consume''] spans,
     tm_WorkerSpan = last_named worker_names spans,
     tm_DatabaseSpan = last_named database_names spans,
     tm_CacheSpans = named cache_names spans\<rparr>"

lemma analyze_spans_append:
  "analyze_spans (xs @ ys) a b m = (case analyze_spans xs a b m of (a1, b1, m1) \<Rightarrow> analyze_spans ys a1 b1 m1)"
  by (induction xs arbitrary: a b m) simp_all

text \<open>The metrics without the two that are computed after the loop.\<close>

definition loop_metrics :: "string \<Rightarrow> Span list \<Rightarrow> TraceMetrics" where
  "loop_metrics traceID spans = (trace_reference traceID spans)\<lparr>tm_TotalDuration := 0, tm_KafkaTransportTime := 0\<rparr>"

lemma named_snoc: "named names (spans @ [s]) = (if sn_Name s \<in> set names then named names spans @ [s] else named names spans)"
  by (simp add: named_def)

lemma last_named_snoc: "last_named names (spans @ [s]) = (if sn_Name s \<in> set names then Some s else last_named names spans)"
  by (simp add: last_named_def named_snoc)

lemma categorize_loop: "categorize s (loop_metrics tid spans) = loop_metrics tid (spans @ [s])"
  by (simp add: categorize_def Let_def loop_metrics_def trace_reference_def last_named_snoc named_snoc took_def)

lemma loop_start: "loop_metrics tid [] = no_metrics tid"
  by (simp add: loop_metrics_def trace_reference_def no_metrics_def last_named_def named_def took_def)

lemma analyze_spans_result:
  assumes "spans \<noteq> []" "list_all (\<lambda>s. sn_Start s \<noteq> zero_time \<and> sn_End s \<noteq> zero_time) spans"
  shows "analyze_spans spans zero_time zero_time (no_metrics tid) =
    (Min (sn_Start ` set spans), Max (sn_End ` set spans), loop_metrics tid spans)"
  using assms
proof (induction spans rule: rev_induct)
  case (snoc s spans)
  show ?case
  proof (cases "spans = []")
    case True
    with categorize_loop[of s tid "[]"] show ?thesis by (simp add: track_start_def track_end_def loop_start)
  next
    case False
    let ?a = "Min (sn_Start ` set spans)" and ?b = "Max (sn_End ` set spans)"
    from False have "?a \<in> sn_Start ` set spans" "?b \<in> sn_End ` set spans" by (simp_all add: Min_in Max_in)
    with snoc.prems(2) have "?a \<noteq> zero_time" "?b \<noteq> zero_time" by (auto simp: list_all_iff)
    moreover have "Min (sn_Start ` set (spans @ [s])) = min (sn_Start s) ?a" "Max (sn_End ` set (spans @ [s])) = max (sn_End s) ?b"
      using False by simp_all
    ultimately have "track_start ?a s = Min (sn_Start ` set (spans @ [s]))" "track_end ?b s = Max (sn_End ` set (spans @ [s]))"
      unfolding track_start_def track_end_def by (simp_all only: min_def max_def) auto
    with snoc False show ?thesis by (simp add: analyze_spans_append categorize_loop)
  qed
qed simp

section \<open>Properties\<close>

text \<open>
  The analysis of a trace is what its fields promise. When no span of the trace starts or ends at the
  zero time, AnalyzeTrace is nil for an unknown trace, and otherwise has the time from the earliest start
  to the latest end, of every category the last span and its duration, of the cache operations all spans
  and the sum, and the time between produce and consume when they are in that order.
\<close>

theorem analysis_matches_reference:
  assumes "list_all (\<lambda>s. sn_Start s \<noteq> zero_time \<and> sn_End s \<noteq> zero_time) (GetSpansByTraceID e traceID)"
  shows "AnalyzeTrace e traceID =
    (if GetSpansByTraceID e traceID = [] then None else Some (trace_reference traceID (GetSpansByTraceID e traceID)))"
proof (cases "GetSpansByTraceID e traceID = []")
  case False
  let ?spans = "GetSpansByTraceID e traceID"
  from False have "Min (sn_Start ` set ?spans) \<in> sn_Start ` set ?spans" "Max (sn_End ` set ?spans) \<in> sn_End ` set ?spans"
    by (simp_all add: Min_in Max_in)
  with assms have "Min (sn_Start ` set ?spans) \<noteq> zero_time" "Max (sn_End ` set ?spans) \<noteq> zero_time" by (auto simp: list_all_iff)
  with False show ?thesis
    by (simp add: AnalyzeTrace_def Let_def analyze_spans_result[OF False assms] loop_metrics_def)
      (auto simp: transport_time_def trace_reference_def split: option.splits)
qed (simp add: AnalyzeTrace_def)

definition sample_spans :: "Span list" where
  "sample_spans = [\<lparr>sn_Name = ''kafka.produce'', sn_TraceID = ''t'', sn_Start = 10, sn_End = 20\<rparr>,
     \<lparr>sn_Name = ''other'', sn_TraceID = ''u'', sn_Start = 1, sn_End = 2\<rparr>,
     \<lparr>sn_Name = ''kafka.consume'', sn_TraceID = ''t'', sn_Start = 25, sn_End = 40\<rparr>]"

theorem analysis_matches_reference_witness:
  "map_option tm_KafkaTransportTime (AnalyzeTrace sample_spans ''t'') = Some 5"
proof -
  have "GetSpansByTraceID sample_spans ''t'' = [sample_spans ! 0, sample_spans ! 2]"
    by (simp add: GetSpansByTraceID_def GetSpans_def sample_spans_def)
  with analysis_matches_reference[of sample_spans "''t''"] show ?thesis
    by (simp add: sample_spans_def zero_time_def trace_reference_def last_named_def named_def time_Sub_def)
qed

text \<open>An exporter that could not be made for development or testing goes unnoticed.\<close>

lemma stdout_error_lost:
  assumes "tcf_Environment config = ''development''" "ts_Create sdk ''traces.json'' w = (Inr file, w1)"
    "ts_stdout sdk file w1 = ((None, Some err), w2)"
  shows "InitTracer sdk config w = (Inr (new_provider config None), w2)"
  using assms by (simp add: InitTracer_def)

end
