(* ===== verification/Saga_Writes.thy ===== *)
theory Saga_Writes
  imports Consignment_Properties Reservation_System
begin

text \<open>
  Which messages each operation of the two event-driven services can add to its outbox, in every
  branch, failures included. The handler lemmas of \<open>Consignment_Contract\<close>, \<open>Consignment_Server\<close> and
  \<open>Capacity_Manager\<close> say what a nil result means; these say what any run can have written, which is
  what an argument over both services needs.
\<close>

section \<open>The messages of an outbox\<close>

type_synonym message = "string \<times> string \<times> bytes"

definition messages :: "outbox_row list \<Rightarrow> message set" where
  "messages rs = row_message ` set rs"

lemma messages_append [simp]: "messages (rs @ rs') = messages rs \<union> messages rs'"
  by (auto simp: messages_def)

lemma messages_new_row [simp]: "messages [new_row i e] = {(oe_Topic e, oe_Key e, oe_Payload e)}"
  by (simp add: messages_def new_row_def event_row_def row_message_def)

lemma row_message_mark: "row_message (mark_row i r) = row_message r"
  by (simp add: mark_row_def row_message_def)

lemma messages_mark [simp]: "messages (map (mark_row i) rs) = messages rs"
  by (simp add: messages_def image_image row_message_mark)

text \<open>What may be new in \<open>new\<close> over \<open>old\<close>.\<close>

definition adds :: "(message \<Rightarrow> bool) \<Rightarrow> message set \<Rightarrow> message set \<Rightarrow> bool" where
  "adds P old new \<longleftrightarrow> (\<forall>m \<in> new. m \<in> old \<or> P m)"

lemma adds_refl [simp]: "adds P x x"
  by (simp add: adds_def)

lemma adds_trans: "adds P x y \<Longrightarrow> adds P y z \<Longrightarrow> adds P x z"
  by (auto simp: adds_def)

lemma adds_mono: "adds P x y \<Longrightarrow> (\<And>m. P m \<Longrightarrow> Q m) \<Longrightarrow> adds Q x y"
  by (auto simp: adds_def)

text \<open>A message of the given topic whose payload encodes the given value.\<close>

definition encodes :: "'m codec \<Rightarrow> 'm \<Rightarrow> string \<Rightarrow> message \<Rightarrow> bool" where
  "encodes c x t m \<longleftrightarrow> fst m = t \<and> Marshal c x = Inr (snd (snd m))"

lemma encodes_message [simp]: "encodes c x t (t, k, p) \<longleftrightarrow> Marshal c x = Inr p"
  by (simp add: encodes_def)

text \<open>The two forms a retried authorised event can take.\<close>

definition retry_written :: "event_codecs \<Rightarrow> PaymentAuthorisedEvent \<Rightarrow> message \<Rightarrow> bool" where
  "retry_written cs e m \<longleftrightarrow> encodes (pb_PaymentAuthorised cs) e ConsignmentPaymentAuthorisedTopic m \<or>
     encodes (pb_ConfirmationFailed cs) (capture_failed_event e) ConsignmentConfirmationFailedTopic m"

section \<open>The consignment service\<close>

context outbox_repository
begin

lemma create_adds:
  assumes "ok h" "ob_CreateEvent (repo h) e w = (r, w')"
  shows "adds (\<lambda>m. m = (oe_Topic e, oe_Key e, oe_Payload e)) (messages (rows h w)) (messages (rows h w'))"
  using create[OF assms] by (auto simp: adds_def)

end

text \<open>What the rest of the handler writes about a captured payment.\<close>

definition captured_written :: "event_codecs \<Rightarrow> PaymentAuthorisedEvent \<Rightarrow> message \<Rightarrow> bool" where
  "captured_written cs e m \<longleftrightarrow>
     encodes (pb_PaymentCaptured cs) (captured_event e) PaymentCapturedTopic m \<or>
     retry_written cs (e\<lparr>pae_PaymentCaptured := True, pae_RetryCount := pae_RetryCount e + 1\<rparr>) m"

text \<open>What handling an authorised event writes, with the payments it leaves.\<close>

definition authorised_written :: "event_codecs \<Rightarrow> PaymentAuthorisedEvent \<Rightarrow> payments \<Rightarrow> message \<Rightarrow> bool" where
  "authorised_written cs e m msg \<longleftrightarrow>
     (\<exists>pid. encodes (pb_PaymentCaptured cs) (captured_event (e\<lparr>pae_PaymentId := pid\<rparr>)) PaymentCapturedTopic msg \<and>
        (if pae_PaymentCaptured e then pid = pae_PaymentId e else paid (pae_PaymentAuthId e) pid m)) \<or>
     (\<exists>e'. retry_written cs e' msg \<and> retried_from e m e')"

context consignment_manager
begin

lemma event_adds:
  assumes "ok h" "ob_CreateEvent (cm_outbox (mgr h)) (cs_outbox_event t k p) w = (r, w')"
  shows "adds (\<lambda>m. m = (t, k, p)) (messages (rows h w)) (messages (rows h w'))"
  using create_adds[OF assms] by (simp add: cs_outbox_event_def)

lemma publish_adds:
  assumes ok: "ok h" and run: "cm_publishPaymentAuthorised (mgr h) e w = (r, w')"
  shows "adds (retry_written (cm_codecs (mgr h)) e) (messages (rows h w)) (messages (rows h w'))"
  using run
  by (auto simp: cm_publishPaymentAuthorised_def publishCaptureFailedToDLQ_def retry_written_def
      split: if_splits sum.splits prod.splits dest!: event_adds[OF ok] elim!: adds_mono)

lemma schedule_adds:
  assumes ok: "ok h" and run: "schedule_retry (mgr h) e w = (r, w')"
  shows "adds (retry_written (cm_codecs (mgr h)) (e\<lparr>pae_RetryCount := pae_RetryCount e + 1\<rparr>))
    (messages (rows h w)) (messages (rows h w'))"
  using run by (auto simp: schedule_retry_def split: sum.splits prod.splits dest!: publish_adds[OF ok])

lemma captured_tx_adds:
  assumes ok: "ok h" and run: "captured_tx (mgr h) e w = (r, w')"
  shows "adds (encodes (pb_PaymentCaptured (cm_codecs (mgr h))) (captured_event e) PaymentCapturedTopic)
    (messages (rows h w)) (messages (rows h w'))"
proof (cases "Marshal (pb_PaymentCaptured (cm_codecs (mgr h))) (captured_event e)")
  case (Inl err)
  with run show ?thesis by (simp add: captured_tx_def publishPaymentCaptured_def)
next
  case (Inr p)
  obtain r1 w1 where c: "ob_CreateEvent (cm_outbox (mgr h))
      (cs_outbox_event PaymentCapturedTopic (pae_ConsignmentId e) p) w = (r1, w1)" by fastforce
  have "rows h w' = rows h w1"
    using run Inr c update_frame[OF ok] by (auto simp: captured_tx_def publishPaymentCaptured_def split: sum.splits)
  with event_adds[OF ok c] Inr show ?thesis by (auto elim!: adds_mono)
qed

lemma process_captured_adds:
  assumes ok: "ok h" and run: "process_captured (mgr h) e w = (r, w')"
  shows "adds (captured_written (cm_codecs (mgr h)) e) (messages (rows h w)) (messages (rows h w'))"
proof -
  let ?e = "e\<lparr>pae_PaymentCaptured := True\<rparr>"
  obtain r1 w1 where t: "cm_WithTransaction (mgr h) (captured_tx (mgr h) ?e) w = (r1, w1)" by fastforce
  have "\<forall>x q y. captured_tx (mgr h) ?e x = (q, y) \<longrightarrow> pays h y = pays h x" using captured_tx_outcome(1)[OF ok] by blast
  from transaction[OF ok t this] have "rows h w1 = rows h w \<or>
      (\<exists>x y u. rows h x = rows h w \<and> captured_tx (mgr h) ?e x = (Inr u, y) \<and> rows h w1 = rows h y)" by blast
  moreover have "captured_event ?e = captured_event e" by (simp add: captured_event_def)
  ultimately have "adds (encodes (pb_PaymentCaptured (cm_codecs (mgr h))) (captured_event e) PaymentCapturedTopic)
      (messages (rows h w)) (messages (rows h w1))"
    using captured_tx_adds[OF ok, where e = ?e] by (metis adds_refl)
  then have tx: "adds (captured_written (cm_codecs (mgr h)) e) (messages (rows h w)) (messages (rows h w1))"
    by (rule adds_mono) (simp add: captured_written_def)
  show ?thesis
  proof (cases r1)
    case (Inr v)
    with run t have "w' = w1" by (simp add: process_captured_def)
    with tx show ?thesis by simp
  next
    case (Inl err)
    with run t have s: "schedule_retry (mgr h) ?e w1 = (r, w')" by (simp add: process_captured_def)
    from schedule_adds[OF ok this] have "adds (captured_written (cm_codecs (mgr h)) e) (messages (rows h w1)) (messages (rows h w'))"
      by (rule adds_mono) (simp add: captured_written_def)
    with tx show ?thesis by (rule adds_trans)
  qed
qed

lemma process_authorised_adds:
  assumes ok: "ok h" and run: "process_authorised (mgr h) e w = (r, w')"
  shows "adds (authorised_written (cm_codecs (mgr h)) e (pays h w')) (messages (rows h w)) (messages (rows h w'))"
proof (cases "pae_PaymentCaptured e")
  case True
  with run have "process_captured (mgr h) e w = (r, w')" by (simp add: process_authorised_def)
  from process_captured_adds[OF ok this] show ?thesis
  proof (rule adds_mono)
    fix msg
    have "retried_from e (pays h w') (e\<lparr>pae_PaymentCaptured := True, pae_RetryCount := pae_RetryCount e + 1\<rparr>)"
      using True by (simp add: retried_from_def)
    moreover have "captured_event e = captured_event (e\<lparr>pae_PaymentId := pae_PaymentId e\<rparr>)" by (simp add: captured_event_def)
    moreover assume "captured_written (cm_codecs (mgr h)) e msg"
    ultimately show "authorised_written (cm_codecs (mgr h)) e (pays h w') msg"
      using True unfolding captured_written_def authorised_written_def by metis
  qed
next
  case False
  let ?e = "e\<lparr>pae_IdempotencyKey := pae_ConsignmentId e\<rparr>"
  obtain r1 w1 where c: "cm_RetryCapture (mgr h) (pc_Capture (cm_paymentCli (mgr h)) (capture_of e)) w = (r1, w1)" by fastforce
  note cap = capture_retried[OF ok c]
  show ?thesis
  proof (cases r1)
    case (Inl err)
    with run c False have s: "schedule_retry (mgr h) ?e w1 = (r, w')"
      by (simp add: process_authorised_def capture_request_key)
    have "retried_from e (pays h w') (?e\<lparr>pae_RetryCount := pae_RetryCount ?e + 1\<rparr>)"
      using False by (simp add: retried_from_def)
    then have "retry_written (cm_codecs (mgr h)) (?e\<lparr>pae_RetryCount := pae_RetryCount ?e + 1\<rparr>) msg \<Longrightarrow>
        authorised_written (cm_codecs (mgr h)) e (pays h w') msg" for msg
      unfolding authorised_written_def by (intro disjI2 exI conjI)
    with schedule_adds[OF ok s] have "adds (authorised_written (cm_codecs (mgr h)) e (pays h w')) (messages (rows h w1)) (messages (rows h w'))"
      by (rule adds_mono)
    with cap show ?thesis by simp
  next
    case (Inr rsp)
    let ?e' = "?e\<lparr>pae_PaymentId := crsp_PaymentId rsp\<rparr>"
    from run c False Inr have s: "process_captured (mgr h) ?e' w1 = (r, w')"
      by (simp add: process_authorised_def capture_request_key Let_def)
    have paid: "paid (pae_PaymentAuthId e) (crsp_PaymentId rsp) (pays h w')"
      using cap Inr process_captured_outcome(1)[OF ok s] by (simp add: capture_of_def)
    have re: "retried_from e (pays h w') (?e'\<lparr>pae_PaymentCaptured := True, pae_RetryCount := pae_RetryCount ?e' + 1\<rparr>)"
      using False paid by (simp add: retried_from_def)
    have "captured_event ?e' = captured_event (e\<lparr>pae_PaymentId := crsp_PaymentId rsp\<rparr>)" by (simp add: captured_event_def)
    with re paid False have "captured_written (cm_codecs (mgr h)) ?e' msg \<Longrightarrow> authorised_written (cm_codecs (mgr h)) e (pays h w') msg" for msg
      unfolding captured_written_def authorised_written_def by metis
    with process_captured_adds[OF ok s] have "adds (authorised_written (cm_codecs (mgr h)) e (pays h w')) (messages (rows h w1)) (messages (rows h w'))"
      by (rule adds_mono)
    with cap show ?thesis by simp
  qed
qed

end

definition confirm_written :: "Consignment \<Rightarrow> time \<Rightarrow> event_codecs \<Rightarrow> payments \<Rightarrow> payments \<Rightarrow> message \<Rightarrow> bool" where
  "confirm_written c t cs m m' msg \<longleftrightarrow> (\<exists>a m1. authorise_effect (authorise_request c) a m m1 \<and>
     pay_void.at_most_once \<lparr>vreq_AuthId = a\<rparr> m1 m' \<and>
     encodes (pb_PaymentAuthorised cs) (authorised_event a c t) ConsignmentPaymentAuthorisedTopic msg)"

text \<open>A confirmation writes the authorised event of the payment it made.\<close>

context consignment_server
begin

lemma server_publish_adds:
  assumes ok: "ok h" and run: "publishPaymentAuthorised (hdl h) a c t w = (r, w')"
  shows "adds (encodes (pb_PaymentAuthorised (cm_codecs (mgr h))) (authorised_event a c t) ConsignmentPaymentAuthorisedTopic)
      (messages (rows h w)) (messages (rows h w')) \<and> pay_void.at_most_once \<lparr>vreq_AuthId = a\<rparr> (pays h w) (pays h w')"
proof (cases "Marshal (pb_PaymentAuthorised (cm_codecs (mgr h))) (authorised_event a c t)")
  case (Inl e)
  with run hdl_fields[OF ok] have "w' = w" by (simp add: publishPaymentAuthorised_def)
  then show ?thesis by (simp add: pay_void.at_most_once_def)
next
  case (Inr p)
  note F = hdl_fields[OF ok]
  obtain r1 w1 where e: "ob_CreateEvent (cm_outbox (mgr h))
      (cs_outbox_event ConsignmentPaymentAuthorisedTopic (con_ID c) p) w = (r1, w1)" by fastforce
  from run F Inr e have "undone h (con_ID c) a w1 w'"
    using undo_step[OF ok, of "con_ID c" a w1] undone_refl by (cases r1) (auto simp: publishPaymentAuthorised_def)
  with event_adds[OF ok e] create_event(1)[OF ok e] Inr show ?thesis
    by (auto simp: undone_def elim!: adds_mono)
qed

lemma authorise_adds:
  assumes ok: "ok h" and run: "authorise_consignment (hdl h) c t w = (r, w')"
  shows "adds (confirm_written c t (cm_codecs (mgr h)) (pays h w) (pays h w')) (messages (rows h w)) (messages (rows h w'))"
proof -
  note F = hdl_fields[OF ok]
  obtain ra w1 where au: "pc_Authorise (cm_paymentCli (mgr h)) (authorise_request c) w = (ra, w1)" by fastforce
  note A = authorise_call[OF ok au]
  show ?thesis
  proof (cases ra)
    case (Inl e)
    with run F au have "w' = cancelConsignment (con_ID c) (cm_repository (mgr h)) w1"
      by (auto simp: authorise_consignment_def)
    with A cancel_outcome(1)[OF ok, of "con_ID c" w1] show ?thesis by simp
  next
    case (Inr rsp)
    let ?a = "arsp_AuthId rsp"
    from A Inr have eff: "authorise_effect (authorise_request c) ?a (pays h w) (pays h w1)" and r1: "rows h w1 = rows h w" by auto
    obtain rp w2 where pu: "publishPaymentAuthorised (hdl h) ?a c t w1 = (rp, w2)" by fastforce
    note P = server_publish_adds[OF ok pu]
    have "undone h (con_ID c) ?a w2 w'"
      using run F au Inr pu undo_step[OF ok, of "con_ID c" ?a w2] undone_refl
      by (cases rp) (auto simp: authorise_consignment_def)
    then have U: "rows h w' = rows h w2" "pay_void.at_most_once \<lparr>vreq_AuthId = ?a\<rparr> (pays h w1) (pays h w')"
      using P by (auto simp: undone_def intro: pay_void.at_most_once_trans)
    with eff have "encodes (pb_PaymentAuthorised (cm_codecs (mgr h))) (authorised_event ?a c t) ConsignmentPaymentAuthorisedTopic msg \<Longrightarrow>
        confirm_written c t (cm_codecs (mgr h)) (pays h w) (pays h w') msg" for msg
      unfolding confirm_written_def by blast
    with conjunct1[OF P] show ?thesis unfolding r1 U(1) by (rule adds_mono)
  qed
qed

lemma ConfirmConsignment_adds:
  assumes ok: "ok h" and run: "ConfirmConsignment (hdl h) req w = (r, w')"
  shows "adds (\<lambda>msg. \<exists>c \<in> set (docs h w). confirm_written c (ch_Now (hdl h) w) (cm_codecs (mgr h)) (pays h w) (pays h w') msg)
    (messages (rows h w)) (messages (rows h w'))"
  using ok run
proof (cases rule: ConfirmConsignment_cases)
  case refused
  then show ?thesis by (simp add: same_def)
next
  case (authorise c w2)
  from authorise_adds[OF ok authorise(4)] authorise(1,3) show ?thesis
    by (auto simp: same_def elim!: adds_mono)
qed

end

section \<open>The reservation service\<close>

text \<open>The retry event, and the confirmed event once the confirmation is recorded.\<close>

definition cleared_written :: "event_codecs \<Rightarrow> CapacityEvent \<Rightarrow> vdb \<Rightarrow> message \<Rightarrow> bool" where
  "cleared_written cs ev d m \<longleftrightarrow>
     encodes (pb_Capacity cs) (bump ev) (retry_topic (bump ev)) m \<or>
     ce_Action ev = CAPACITY_ACTION_CONFIRM \<and> ev_done ev d \<and>
       encodes (pb_ReservationConfirmed cs) (confirmed_event ev) rs_ReservationConfirmedTopic m"

context capacity_manager
begin

lemma outbox_adds:
  assumes "ok h" "ob_CreateEvent (repo h) (outbox_event t k p) w = (r, w')"
  shows "adds (\<lambda>m. m = (t, k, p)) (messages (rows h w)) (messages (rows h w'))"
  using create_adds[OF assms] by (simp add: outbox_event_def)

lemma retry_adds:
  assumes ok: "ok h" and run: "publishRetryEvent (mgr h) ev w = (r, w')"
  shows "adds (encodes (pb_Capacity (rm_codecs (mgr h))) (bump ev) (retry_topic (bump ev))) (messages (rows h w)) (messages (rows h w'))"
  using run unfolding publishRetryEvent_bump
  by (auto simp: mgr_outbox split: sum.splits prod.splits dest!: outbox_adds[OF ok] elim!: adds_mono)

lemma confirmed_adds:
  assumes ok: "ok h" and run: "publishReservationConfirmed (mgr h) ev w = (r, w')"
  shows "adds (encodes (pb_ReservationConfirmed (rm_codecs (mgr h))) (confirmed_event ev) rs_ReservationConfirmedTopic)
    (messages (rows h w)) (messages (rows h w'))"
  using run
  by (auto simp: publishReservationConfirmed_def mgr_outbox split: sum.splits prod.splits dest!: outbox_adds[OF ok] elim!: adds_mono)

lemma cleared_adds:
  assumes ok: "ok h" and run: "process_cleared (mgr h) ev w = (r, w')"
  shows "adds (cleared_written (rm_codecs (mgr h)) ev (cap h w')) (messages (rows h w)) (messages (rows h w'))"
proof -
  obtain q w1 where call: "vessel_call (mgr h) ev w = (q, w1)" by fastforce
  note frm = vessel_frame[OF ok call]
  show ?thesis
  proof (cases q)
    case (Inl e)
    obtain p w2 where pub: "publishRetryEvent (mgr h) ev w1 = (p, w2)" by fastforce
    with run call Inl have "w' = w2" by (auto simp: process_cleared_def split: sum.splits)
    with retry_adds[OF ok pub] frm show ?thesis by (auto simp: cleared_written_def elim!: adds_mono)
  next
    case (Inr x)
    obtain d w2 where del: "rc_DeleteID (cache h) (ev_id ev) w1 = (d, w2)" by fastforce
    note fr2 = delete_id_frame[OF ok del]
    have dn: "ev_done ev (cap h w1)" using vessel_done[OF ok] call Inr by blast
    show ?thesis
    proof (cases "ce_Action ev = CAPACITY_ACTION_CONFIRM")
      case False
      with run call Inr del have "w' = w2" by (simp add: process_cleared_def mgr_cache)
      with fr2 frm show ?thesis by simp
    next
      case True
      obtain p w3 where pub: "publishReservationConfirmed (mgr h) ev w2 = (p, w3)" by fastforce
      with run call Inr del True have w': "w' = w3" by (simp add: process_cleared_def mgr_cache)
      with confirmed_adds[OF ok pub] confirmed_published(3)[OF ok pub] dn fr2 frm True
      show ?thesis by (auto simp: cleared_written_def elim!: adds_mono)
    qed
  qed
qed

lemma process_adds:
  assumes ok: "ok h" and run: "processCapacityEvent (mgr h) ev w = (r, w')"
  shows "adds (\<lambda>m. \<exists>b. cleared_written (rm_codecs (mgr h)) (ev\<lparr>ce_CacheCleared := b\<rparr>) (cap h w') m)
    (messages (rows h w)) (messages (rows h w'))"
  using run
proof (cases rule: process_cases)
  case cleared
  have "ev = ev\<lparr>ce_CacheCleared := ce_CacheCleared ev\<rparr>" by simp
  then have "cleared_written cs ev d m \<Longrightarrow> \<exists>b. cleared_written cs (ev\<lparr>ce_CacheCleared := b\<rparr>) d m" for cs d m by metis
  with cleared_adds[OF ok cleared(2)] show ?thesis by (rule adds_mono)
next
  case (failed e w1 p)
  have "ev = ev\<lparr>ce_CacheCleared := ce_CacheCleared ev\<rparr>" by simp
  then have "encodes (pb_Capacity cs) (bump ev) (retry_topic (bump ev)) m \<Longrightarrow> \<exists>b. cleared_written cs (ev\<lparr>ce_CacheCleared := b\<rparr>) d m" for cs d m
    unfolding cleared_written_def by metis
  with retry_adds[OF ok failed(3)]
  have "adds (\<lambda>m. \<exists>b. cleared_written (rm_codecs (mgr h)) (ev\<lparr>ce_CacheCleared := b\<rparr>) (cap h w') m)
      (messages (rows h w1)) (messages (rows h w'))" by (rule adds_mono)
  with delete_data_frame[OF ok failed(2)] show ?thesis by simp
next
  case duplicate
  then show ?thesis using delete_data_frame[OF ok duplicate(2)] by simp
next
  case (first w1)
  from cleared_adds[OF ok first(3)]
  have "adds (\<lambda>m. \<exists>b. cleared_written (rm_codecs (mgr h)) (ev\<lparr>ce_CacheCleared := b\<rparr>) (cap h w') m)
      (messages (rows h w1)) (messages (rows h w'))" by (rule adds_mono) blast
  with delete_data_frame[OF ok first(2)] show ?thesis by simp
qed

end

end
