(* ===== verification/Saga.thy ===== *)
theory Saga
  imports Saga_Writes
begin

text \<open>
  The consignment and the reservation service together. Kafka is the set of messages that have been
  produced: any of them may be delivered to any service that handles its topic, at any time and any
  number of times. The invariant says what every message in flight vouches for; it gives the safety
  of the saga as a whole, through both services and the payment and vessel services behind them.
\<close>

section \<open>The platform\<close>

record ('c, 'r) platform =
  pl_cs :: "'c cs_system"
  pl_rs :: "'r rs_system"

record ('c, 'r) pstate =
  st_cs :: 'c
  st_rs :: 'r
  st_log :: "message set"

definition codecs_ok :: "event_codecs \<Rightarrow> bool" where
  "codecs_ok cs \<longleftrightarrow> codec_ok (pb_PaymentAuthorised cs) \<and> codec_ok (pb_PaymentCaptured cs) \<and>
     codec_ok (pb_ReservationConfirmed cs) \<and> codec_ok (pb_ReservationExpired cs) \<and>
     codec_ok (pb_ConfirmationFailed cs) \<and> codec_ok (pb_Capacity cs)"

text \<open>Both services are built with the same protobuf messages.\<close>

definition platform_ok :: "('c, 'r) platform \<Rightarrow> bool" where
  "platform_ok P \<longleftrightarrow> cs_ok (pl_cs P) \<and> sys_ok (pl_rs P) \<and>
     rm_codecs (sy_mgr (pl_rs P)) = cm_codecs (ss_mgr (pl_cs P)) \<and> codecs_ok (cm_codecs (ss_mgr (pl_cs P)))"

abbreviation pl_codecs :: "('c, 'r) platform \<Rightarrow> event_codecs" where
  "pl_codecs P \<equiv> cm_codecs (ss_mgr (pl_cs P))"

abbreviation st_docs :: "('c, 'r) platform \<Rightarrow> ('c, 'r) pstate \<Rightarrow> Consignment list" where
  "st_docs P s \<equiv> ss_docs (pl_cs P) (st_cs s)"

abbreviation st_pays :: "('c, 'r) platform \<Rightarrow> ('c, 'r) pstate \<Rightarrow> payments" where
  "st_pays P s \<equiv> ss_pays (pl_cs P) (st_cs s)"

abbreviation st_cap :: "('c, 'r) platform \<Rightarrow> ('c, 'r) pstate \<Rightarrow> vdb" where
  "st_cap P s \<equiv> committed (sy_vv (pl_rs P)) (st_rs s)"

abbreviation rs_rows :: "('c, 'r) platform \<Rightarrow> 'r \<Rightarrow> outbox_row list" where
  "rs_rows P \<equiv> pg_rows (sy_db (pl_rs P), sy_pv (pl_rs P))"

text \<open>Every message there is: in one of the outboxes, or on Kafka.\<close>

definition all_messages :: "('c, 'r) platform \<Rightarrow> ('c, 'r) pstate \<Rightarrow> message set" where
  "all_messages P s = messages (ss_rows (pl_cs P) (st_cs s)) \<union> messages (rs_rows P (st_rs s)) \<union> st_log s"

text \<open>
  One step: a call of the consignment service, an event delivered to a handler of either service, the
  clean-up job, the production of a message that waits in an outbox, or anything that leaves the
  consignments, the payments and the messages of the outboxes alone, and neither forgets a capacity
  operation nor confirms capacity (the publishers' claims and marks, time, and the gRPC calls of the
  reservation service but its ConfirmCapacity, which nothing calls).
\<close>

inductive saga_step :: "('c, 'r) platform \<Rightarrow> ('c, 'r) pstate \<Rightarrow> ('c, 'r) pstate \<Rightarrow> bool" for P where
  create: "CreateConsignment (ss_hdl (pl_cs P)) req (st_cs s) = (rc, c') \<Longrightarrow> saga_step P s (s\<lparr>st_cs := c'\<rparr>)"
| confirm: "ConfirmConsignment (ss_hdl (pl_cs P)) creq (st_cs s) = (rf, c') \<Longrightarrow> saga_step P s (s\<lparr>st_cs := c'\<rparr>)"
| cs_event: "(t, k, v) \<in> st_log s \<Longrightarrow> cs_handlers (ss_mgr (pl_cs P)) t = Some f \<Longrightarrow> f k v (st_cs s) = (r, c') \<Longrightarrow>
    saga_step P s (s\<lparr>st_cs := c'\<rparr>)"
| rs_event: "(t, k, v) \<in> st_log s \<Longrightarrow> rs_handlers (sy_mgr (pl_rs P)) t = Some g \<Longrightarrow> g k v (st_rs s) = (r, d') \<Longrightarrow>
    saga_step P s (s\<lparr>st_rs := d'\<rparr>)"
| cleanup: "releaseReservations (sy_mgr (pl_rs P)) (st_rs s) = Some (r, d') \<Longrightarrow> saga_step P s (s\<lparr>st_rs := d'\<rparr>)"
| produce: "m \<in> messages (ss_rows (pl_cs P) (st_cs s)) \<union> messages (rs_rows P (st_rs s)) \<Longrightarrow>
    saga_step P s (s\<lparr>st_log := insert m (st_log s)\<rparr>)"
| cs_other: "ss_docs (pl_cs P) c' = st_docs P s \<Longrightarrow> ss_pays (pl_cs P) c' = st_pays P s \<Longrightarrow>
    messages (ss_rows (pl_cs P) c') = messages (ss_rows (pl_cs P) (st_cs s)) \<Longrightarrow> saga_step P s (s\<lparr>st_cs := c'\<rparr>)"
| rs_other: "messages (rs_rows P d') = messages (rs_rows P (st_rs s)) \<Longrightarrow>
    set (ops_of (st_cap P s)) \<subseteq> set (ops_of (committed (sy_vv (pl_rs P)) d')) \<Longrightarrow>
    (\<And>rid. recorded (committed (sy_vv (pl_rs P)) d') rid opConfirm \<Longrightarrow> recorded (st_cap P s) rid opConfirm) \<Longrightarrow> saga_step P s (s\<lparr>st_rs := d'\<rparr>)"

inductive saga_run :: "('c, 'r) platform \<Rightarrow> ('c, 'r) pstate \<Rightarrow> ('c, 'r) pstate \<Rightarrow> bool" for P where
  none: "saga_run P s s"
| more: "saga_run P s s1 \<Longrightarrow> saga_step P s1 s2 \<Longrightarrow> saga_run P s s2"

section \<open>What a message vouches for\<close>

definition paid_for :: "payments \<Rightarrow> string \<Rightarrow> string \<Rightarrow> bool" where
  "paid_for m cid pid \<longleftrightarrow> (\<exists>a p. m a = Some p \<and> pay_consignmentID p = cid \<and> pay_captureID p = pid \<and>
     pay_status p \<in> {statusCaptured, statusRefunded})"

definition stands_on :: "Consignment list \<Rightarrow> string \<Rightarrow> string \<Rightarrow> bool" where
  "stands_on docs cid rid \<longleftrightarrow> (\<exists>c \<in> set docs. con_ID c = cid \<and> con_ReservationID c = rid)"

definition auth_good :: "payments \<Rightarrow> Consignment list \<Rightarrow> PaymentAuthorisedEvent \<Rightarrow> bool" where
  "auth_good m docs e \<longleftrightarrow>
     (\<exists>p. m (pae_PaymentAuthId e) = Some p \<and> pay_consignmentID p = pae_ConsignmentId e) \<and>
     (pae_PaymentCaptured e \<longrightarrow> paid_for m (pae_ConsignmentId e) (pae_PaymentId e)) \<and>
     stands_on docs (pae_ConsignmentId e) (pae_ReservationId e)"

definition captured_good :: "payments \<Rightarrow> Consignment list \<Rightarrow> PaymentCapturedEvent \<Rightarrow> bool" where
  "captured_good m docs e \<longleftrightarrow> paid_for m (pce_ConsignmentId e) (pce_PaymentId e) \<and>
     (\<exists>i. pce_ReservationInfo e = Some i \<and> stands_on docs (pce_ConsignmentId e) (evi_Id i))"

definition capacity_good :: "payments \<Rightarrow> Consignment list \<Rightarrow> CapacityEvent \<Rightarrow> bool" where
  "capacity_good m docs e \<longleftrightarrow> (ce_Action e = CAPACITY_ACTION_CONFIRM \<longrightarrow>
     paid_for m (ce_ConsignmentId e) (ce_PaymentId e) \<and> stands_on docs (ce_ConsignmentId e) (ev_id e))"

definition confirmed_good :: "payments \<Rightarrow> Consignment list \<Rightarrow> vdb \<Rightarrow> ReservationConfirmedEvent \<Rightarrow> bool" where
  "confirmed_good m docs d e \<longleftrightarrow> (\<exists>pid. paid_for m (rce_ConsignmentId e) pid) \<and>
     stands_on docs (rce_ConsignmentId e) (rce_ReservationId e) \<and> recorded d (rce_ReservationId e) opConfirm"

definition decodes_to :: "'m codec \<Rightarrow> ('m \<Rightarrow> bool) \<Rightarrow> bytes \<Rightarrow> bool" where
  "decodes_to c Q v \<longleftrightarrow> (\<exists>e. Unmarshal c v = Inr e \<and> Q e)"

fun good :: "event_codecs \<Rightarrow> payments \<Rightarrow> Consignment list \<Rightarrow> vdb \<Rightarrow> message \<Rightarrow> bool" where
  "good cs m docs d (t, k, v) \<longleftrightarrow>
     t = ConsignmentPaymentAuthorisedTopic \<and> decodes_to (pb_PaymentAuthorised cs) (auth_good m docs) v \<or>
     t = PaymentCapturedTopic \<and> decodes_to (pb_PaymentCaptured cs) (captured_good m docs) v \<or>
     t \<in> {ReleaseCapacityTopic, ConfirmCapacityTopic, CapacityFailedTopic} \<and>
       decodes_to (pb_Capacity cs) (capacity_good m docs) v \<or>
     t = ReservationConfirmedTopic \<and> decodes_to (pb_ReservationConfirmed cs) (confirmed_good m docs d) v \<or>
     t = ReservationExpiredTopic \<and> decodes_to (pb_ReservationExpired cs) (\<lambda>_. True) v \<or>
     t = ConsignmentConfirmationFailedTopic \<and> decodes_to (pb_ConfirmationFailed cs) (\<lambda>_. True) v"

lemmas good_simps [simp del] = good.simps

lemmas topics = cs_topic_defs rs_topic_defs

definition settled :: "payments \<Rightarrow> vdb \<Rightarrow> Consignment \<Rightarrow> bool" where
  "settled m d c \<longleftrightarrow> con_Status c = StatusConfirmed \<longrightarrow>
     (\<exists>pid. paid_for m (con_ID c) pid) \<and> recorded d (con_ReservationID c) opConfirm"

definition paid_load :: "payments \<Rightarrow> Consignment list \<Rightarrow> string \<Rightarrow> bool" where
  "paid_load m docs rid \<longleftrightarrow> (\<exists>cid pid. paid_for m cid pid \<and> stands_on docs cid rid)"

definition saga_inv :: "('c, 'r) platform \<Rightarrow> ('c, 'r) pstate \<Rightarrow> bool" where
  "saga_inv P s \<longleftrightarrow>
     (\<forall>m \<in> all_messages P s. good (pl_codecs P) (st_pays P s) (st_docs P s) (st_cap P s) m) \<and>
     (\<forall>c \<in> set (st_docs P s). settled (st_pays P s) (st_cap P s) c) \<and>
     (\<forall>rid. recorded (st_cap P s) rid opConfirm \<longrightarrow> paid_load (st_pays P s) (st_docs P s) rid)"

section \<open>Everything vouched for stays so\<close>

definition pays_grow :: "payments \<Rightarrow> payments \<Rightarrow> bool" where
  "pays_grow m m' \<longleftrightarrow> (\<forall>a p. m a = Some p \<longrightarrow> (\<exists>p'. m' a = Some p' \<and> pay_advances p p'))"

lemma pays_grow_refl [simp]: "pays_grow m m"
  by (simp add: pays_grow_def)

lemma pays_grow_trans: "pays_grow x y \<Longrightarrow> pays_grow y z \<Longrightarrow> pays_grow x z"
  unfolding pays_grow_def by (meson pay_advances_trans)

lemma effects_grow:
  "capture_effect cq m m' \<Longrightarrow> pays_grow m m'" "void_effect vq m m' \<Longrightarrow> pays_grow m m'"
  "authorise_effect aq a m m' \<Longrightarrow> pays_grow m m'" "only_refunds pid m m' \<Longrightarrow> pays_grow m m'"
proof -
  show "capture_effect cq m m' \<Longrightarrow> pays_grow m m'" "void_effect vq m m' \<Longrightarrow> pays_grow m m'"
    by (auto simp: pays_grow_def capture_effect_def void_effect_def pay_advances_def)
  show "authorise_effect aq a m m' \<Longrightarrow> pays_grow m m'"
    by (auto simp: pays_grow_def authorise_effect_def pay_Authorise_def Let_def dom_def)
  show "pays_grow m m'" if r: "only_refunds pid m m'"
    unfolding pays_grow_def
  proof (intro allI impI)
    fix a p assume p: "m a = Some p"
    from r[unfolded only_refunds_def, rule_format, of a] p
    show "\<exists>p'. m' a = Some p' \<and> pay_advances p p'" by (auto simp: pay_advances_def)
  qed
qed

lemma once_grow:
  "pay_capture.at_most_once cq m m' \<Longrightarrow> pays_grow m m'" "pay_void.at_most_once vq m m' \<Longrightarrow> pays_grow m m'"
  by (auto simp: pay_capture.at_most_once_def pay_void.at_most_once_def effects_grow)

lemma paid_for_grow: "paid_for m cid pid \<Longrightarrow> pays_grow m m' \<Longrightarrow> paid_for m' cid pid"
  unfolding paid_for_def pays_grow_def by (fastforce simp: pay_advances_def)

lemma stands_on_advance:
  assumes "stands_on docs cid rid" "docs_advance docs docs'"
  shows "stands_on docs' cid rid"
proof -
  from assms(1) obtain c where c: "c \<in> set docs" "con_ID c = cid" "con_ReservationID c = rid" by (auto simp: stands_on_def)
  from assms(2) obtain new where "map con_facts docs' = map con_facts docs @ map con_facts new" by (auto simp: docs_advance_def)
  then have "con_facts ` set docs \<subseteq> con_facts ` set docs'" by (metis Un_upper1 set_append set_map)
  with c(1) obtain c' where "c' \<in> set docs'" "con_facts c' = con_facts c" by force
  with c(2,3) show ?thesis by (auto simp: stands_on_def con_facts_def)
qed

lemma recorded_grow: "recorded d rid k \<Longrightarrow> set (ops_of d) \<subseteq> set (ops_of d') \<Longrightarrow> recorded d' rid k"
  by (auto simp: recorded_def list_ex_iff)

lemma decodes_to_mono: "decodes_to c Q v \<Longrightarrow> (\<And>e. Q e \<Longrightarrow> Q' e) \<Longrightarrow> decodes_to c Q' v"
  by (auto simp: decodes_to_def)

text \<open>The state of the stores has moved on.\<close>

definition onward :: "payments \<Rightarrow> Consignment list \<Rightarrow> vdb \<Rightarrow> payments \<Rightarrow> Consignment list \<Rightarrow> vdb \<Rightarrow> bool" where
  "onward m docs d m' docs' d' \<longleftrightarrow> pays_grow m m' \<and> docs_advance docs docs' \<and> set (ops_of d) \<subseteq> set (ops_of d')"

lemma good_onward:
  assumes "good cs m docs d msg" and on: "onward m docs d m' docs' d'"
  shows "good cs m' docs' d' msg"
proof -
  obtain t k v where msg: "msg = (t, k, v)" by (cases msg)
  note G = paid_for_grow[where m = m and m' = m'] stands_on_advance[where docs = docs and docs' = docs']
    recorded_grow[where d = d and d' = d']
  note O = on[unfolded onward_def]
  have 1: "auth_good m docs e \<Longrightarrow> auth_good m' docs' e" for e
    using G O unfolding auth_good_def pays_grow_def pay_advances_def by metis
  have 2: "captured_good m docs e \<Longrightarrow> captured_good m' docs' e" for e
    using G O unfolding captured_good_def by blast
  have 3: "capacity_good m docs e \<Longrightarrow> capacity_good m' docs' e" for e
    using G O unfolding capacity_good_def by blast
  have 4: "confirmed_good m docs d e \<Longrightarrow> confirmed_good m' docs' d' e" for e
    using G O unfolding confirmed_good_def by blast
  from assms(1) show ?thesis
    unfolding msg good.simps
    by (elim disjE conjE) (simp_all add: decodes_to_mono[OF _ 1] decodes_to_mono[OF _ 2] decodes_to_mono[OF _ 3] decodes_to_mono[OF _ 4])
qed

lemma paid_load_onward: "paid_load m docs rid \<Longrightarrow> onward m docs d m' docs' d' \<Longrightarrow> paid_load m' docs' rid"
  unfolding paid_load_def onward_def using paid_for_grow stands_on_advance by blast

lemma settled_onward: "settled m d c \<Longrightarrow> onward m docs d m' docs' d' \<Longrightarrow> settled m' d' c"
  using paid_for_grow[of m _ _ m'] recorded_grow[of d _ _ d'] by (auto simp: settled_def onward_def)


lemma onward_refl [simp]: "onward m docs d m docs d"
  by (simp add: onward_def docs_advance_refl)

text \<open>A new message whose content is vouched for.\<close>

lemma encodes_decodes: "codec_ok c \<Longrightarrow> encodes c x t msg \<Longrightarrow> Q x \<Longrightarrow> fst msg = t \<and> decodes_to c Q (snd (snd msg))"
  by (auto simp: encodes_def decodes_to_def codec_okD)

lemma good_split: "good cs m docs d msg \<longleftrightarrow> good cs m docs d (fst msg, fst (snd msg), snd (snd msg))"
  by simp

lemma good_intros:
  assumes "codecs_ok cs"
  shows "encodes (pb_PaymentAuthorised cs) e1 ConsignmentPaymentAuthorisedTopic msg \<Longrightarrow> auth_good m docs e1 \<Longrightarrow> good cs m docs d msg"
    and "encodes (pb_PaymentCaptured cs) e2 PaymentCapturedTopic msg \<Longrightarrow> captured_good m docs e2 \<Longrightarrow> good cs m docs d msg"
    and "encodes (pb_Capacity cs) e3 t msg \<Longrightarrow> t \<in> {ReleaseCapacityTopic, ConfirmCapacityTopic, CapacityFailedTopic} \<Longrightarrow>
      capacity_good m docs e3 \<Longrightarrow> good cs m docs d msg"
    and "encodes (pb_ReservationConfirmed cs) e4 ReservationConfirmedTopic msg \<Longrightarrow> confirmed_good m docs d e4 \<Longrightarrow> good cs m docs d msg"
    and "encodes (pb_ReservationExpired cs) e5 ReservationExpiredTopic msg \<Longrightarrow> good cs m docs d msg"
    and "encodes (pb_ConfirmationFailed cs) e6 ConsignmentConfirmationFailedTopic msg \<Longrightarrow> good cs m docs d msg"
  using assms unfolding codecs_ok_def good_split[of cs m docs d msg] good.simps
  by (metis encodes_decodes)+

lemma topics_distinct [simp]:
  "distinct [ConsignmentPaymentAuthorisedTopic, PaymentCapturedTopic, ReleaseCapacityTopic, ConfirmCapacityTopic,
     CapacityFailedTopic, ReservationConfirmedTopic, ReservationExpiredTopic, ConsignmentConfirmationFailedTopic]"
  by (simp add: topics)

lemma shared_topics:
  "rs_PaymentCapturedTopic = PaymentCapturedTopic" "rs_ReservationExpiredTopic = ReservationExpiredTopic"
  "rs_ConfirmationFailedTopic = ConsignmentConfirmationFailedTopic" "rs_ReservationConfirmedTopic = ReservationConfirmedTopic"
  by (simp_all add: topics)

lemma good_dests:
  "good cs m docs d (ConsignmentPaymentAuthorisedTopic, k, v) \<Longrightarrow> decodes_to (pb_PaymentAuthorised cs) (auth_good m docs) v"
  "good cs m docs d (PaymentCapturedTopic, k, v) \<Longrightarrow> decodes_to (pb_PaymentCaptured cs) (captured_good m docs) v"
  "t \<in> {ReleaseCapacityTopic, ConfirmCapacityTopic, CapacityFailedTopic} \<Longrightarrow> good cs m docs d (t, k, v) \<Longrightarrow>
     decodes_to (pb_Capacity cs) (capacity_good m docs) v"
  "good cs m docs d (ReservationConfirmedTopic, k, v) \<Longrightarrow> decodes_to (pb_ReservationConfirmed cs) (confirmed_good m docs d) v"
  "good cs m docs d (ReservationExpiredTopic, k, v) \<Longrightarrow> decodes_to (pb_ReservationExpired cs) (\<lambda>_. True) v"
  "good cs m docs d (ConsignmentConfirmationFailedTopic, k, v) \<Longrightarrow> decodes_to (pb_ConfirmationFailed cs) (\<lambda>_. True) v"
  by (auto simp: good.simps topics)

section \<open>One step at a time\<close>

text \<open>
  What a step of one service has to show: the stores move on, what is new in its outbox is vouched for,
  and so is every confirmed consignment.
\<close>

definition cs_keeps :: "('c, 'r) platform \<Rightarrow> vdb \<Rightarrow> 'c \<Rightarrow> 'c \<Rightarrow> bool" where
  "cs_keeps P d w w' \<longleftrightarrow>
     onward (ss_pays (pl_cs P) w) (ss_docs (pl_cs P) w) d (ss_pays (pl_cs P) w') (ss_docs (pl_cs P) w') d \<and>
     adds (good (pl_codecs P) (ss_pays (pl_cs P) w') (ss_docs (pl_cs P) w') d)
       (messages (ss_rows (pl_cs P) w)) (messages (ss_rows (pl_cs P) w')) \<and>
     ((\<forall>c \<in> set (ss_docs (pl_cs P) w). settled (ss_pays (pl_cs P) w) d c) \<longrightarrow>
      (\<forall>c \<in> set (ss_docs (pl_cs P) w'). settled (ss_pays (pl_cs P) w') d c))"

lemma platform_okD:
  assumes "platform_ok P"
  shows "cs_ok (pl_cs P)" "sys_ok (pl_rs P)" "rm_codecs (sy_mgr (pl_rs P)) = pl_codecs P" "codecs_ok (pl_codecs P)"
  using assms by (simp_all add: platform_ok_def)

text \<open>A status other than confirmed needs no vouching.\<close>

lemma settled_updated:
  assumes "\<forall>c \<in> set docs. settled m d c" "cu_Status u = Some st" "st \<noteq> StatusConfirmed" "pays_grow m m'"
  shows "\<forall>c \<in> set (updated i u docs). settled m' d c"
proof
  fix c assume "c \<in> set (updated i u docs)"
  then consider (old) "c \<in> set docs" | (new) y where "c = set_fields u y"
    unfolding updated_def by (auto dest: where_update_sound)
  then show "settled m' d c"
  proof cases
    case old
    with assms settled_onward[of m d c docs m' docs d] show ?thesis by (simp add: onward_def docs_advance_refl)
  next
    case new
    with assms(2,3) show ?thesis by (simp add: settled_def set_fields_def Let_def split: option.splits)
  qed
qed

definition unconfirming :: "Consignment list \<Rightarrow> Consignment list \<Rightarrow> bool" where
  "unconfirming docs docs' \<longleftrightarrow> docs' = docs \<or>
     (\<exists>i u st. cu_Status u = Some st \<and> st \<noteq> StatusConfirmed \<and> docs' = updated i u docs)"

lemma unconfirmingI [simp]:
  "unconfirming docs docs" "unconfirming docs (set_status i StatusCancelled docs)" "unconfirming docs (updated i (captured_update e) docs)"
proof -
  have "StatusCancelled \<noteq> StatusConfirmed" "StatusConfirmationPending \<noteq> StatusConfirmed" by (simp_all add: status_defs)
  then show "unconfirming docs docs" "unconfirming docs (set_status i StatusCancelled docs)" "unconfirming docs (updated i (captured_update e) docs)"
    unfolding unconfirming_def captured_update_def set_status_updated by (metis ConsignmentUpdate.select_convs(1))+
qed

lemma cs_keepsI:
  assumes grow: "pays_grow (ss_pays (pl_cs P) w) (ss_pays (pl_cs P) w')"
    and adv: "docs_advance (ss_docs (pl_cs P) w) (ss_docs (pl_cs P) w')"
    and msgs: "adds (good (pl_codecs P) (ss_pays (pl_cs P) w') (ss_docs (pl_cs P) w') d)
       (messages (ss_rows (pl_cs P) w)) (messages (ss_rows (pl_cs P) w'))"
    and docs: "unconfirming (ss_docs (pl_cs P) w) (ss_docs (pl_cs P) w')"
  shows "cs_keeps P d w w'"
proof -
  let ?m = "ss_pays (pl_cs P) w" and ?m' = "ss_pays (pl_cs P) w'" and ?docs = "ss_docs (pl_cs P) w" and ?docs' = "ss_docs (pl_cs P) w'"
  have on: "onward ?m ?docs d ?m' ?docs' d" using grow adv by (simp add: onward_def)
  have "\<forall>c \<in> set ?docs'. settled ?m' d c" if old: "\<forall>c \<in> set ?docs. settled ?m d c"
    using docs settled_onward[OF _ on] old settled_updated[OF old _ _ grow] unfolding unconfirming_def by metis
  with on msgs show ?thesis unfolding cs_keeps_def by blast
qed

lemma retry_written_good:
  assumes "codecs_ok cs" "retry_written cs e msg" "auth_good m docs e"
  shows "good cs m docs d msg"
  using assms(2) good_intros(1)[OF assms(1) _ assms(3)] good_intros(6)[OF assms(1)] unfolding retry_written_def by blast

lemma cs_handlers_at:
  "cs_handlers m ConsignmentPaymentAuthorisedTopic = Some (handlePaymentAuthorisedEvent m)"
  "cs_handlers m ConsignmentConfirmationFailedTopic = Some (handleFailedConfirmationEvent m)"
  "cs_handlers m ReservationExpiredTopic = Some (handleExpiredReservationEvent m)"
  "cs_handlers m ReservationConfirmedTopic = Some (handleReservationConfirmedEvent m)"
  by (simp_all add: cs_handlers_def topics)

lemma cs_handlersE:
  assumes "cs_handlers m t = Some f"
  obtains "t = ConsignmentPaymentAuthorisedTopic" "f = handlePaymentAuthorisedEvent m"
  | "t = ConsignmentConfirmationFailedTopic" "f = handleFailedConfirmationEvent m"
  | "t = ReservationExpiredTopic" "f = handleExpiredReservationEvent m"
  | "t = ReservationConfirmedTopic" "f = handleReservationConfirmedEvent m"
  using assms by (auto simp: cs_handlers_def split: if_splits)

text \<open>The handler of an authorised event.\<close>

lemma authorised_written_good:
  assumes ok: "codecs_ok cs" and w: "authorised_written cs e m' msg" and e: "auth_good m docs e"
    and grow: "pays_grow m m'" and adv: "docs_advance docs docs'"
  shows "good cs m' docs' d msg"
proof -
  from e obtain p where p: "m (pae_PaymentAuthId e) = Some p" "pay_consignmentID p = pae_ConsignmentId e"
    by (auto simp: auth_good_def)
  from p grow obtain p' where p': "m' (pae_PaymentAuthId e) = Some p'" "pay_consignmentID p' = pae_ConsignmentId e"
    unfolding pays_grow_def by (metis pay_advances_def)
  have st: "stands_on docs' (pae_ConsignmentId e) (pae_ReservationId e)"
    using e adv stands_on_advance by (auto simp: auth_good_def)
  have old: "pae_PaymentCaptured e \<Longrightarrow> paid_for m' (pae_ConsignmentId e) (pae_PaymentId e)"
    using e grow paid_for_grow by (auto simp: auth_good_def)
  have new: "paid (pae_PaymentAuthId e) pid m' \<Longrightarrow> paid_for m' (pae_ConsignmentId e) pid" for pid
    using p' by (auto simp: paid_def paid_for_def)
  from w consider
      (captured) pid where "encodes (pb_PaymentCaptured cs) (captured_event (e\<lparr>pae_PaymentId := pid\<rparr>)) PaymentCapturedTopic msg"
        "if pae_PaymentCaptured e then pid = pae_PaymentId e else paid (pae_PaymentAuthId e) pid m'"
    | (retry) e' where "retry_written cs e' msg" "retried_from e m' e'"
    unfolding authorised_written_def by blast
  then show ?thesis
  proof cases
    case captured
    from captured(2) old new have "paid_for m' (pae_ConsignmentId e) pid" by (auto split: if_splits)
    with st have "captured_good m' docs' (captured_event (e\<lparr>pae_PaymentId := pid\<rparr>))"
      by (simp add: captured_good_def captured_event_def)
    from good_intros(2)[OF ok captured(1) this] show ?thesis .
  next
    case retry
    have "pae_PaymentCaptured e' \<Longrightarrow> paid_for m' (pae_ConsignmentId e) (pae_PaymentId e')"
      using retry(2) old new by (auto simp: retried_from_def)
    with retry(2) p' st have "auth_good m' docs' e'" by (simp add: auth_good_def retried_from_def)
    from retry_written_good[OF ok retry(1) this] show ?thesis .
  qed
qed

lemma authorised_keeps:
  assumes ok: "platform_ok P" and e: "decodes_to (pb_PaymentAuthorised (pl_codecs P)) (auth_good (ss_pays (pl_cs P) w) (ss_docs (pl_cs P) w)) v"
    and run: "handlePaymentAuthorisedEvent (ss_mgr (pl_cs P)) k v w = (r, w')"
  shows "cs_keeps P d w w'"
proof -
  note C = platform_okD(1)[OF ok]
  from e obtain ev where dec: "Unmarshal (pb_PaymentAuthorised (pl_codecs P)) v = Inr ev"
    and ev: "auth_good (ss_pays (pl_cs P) w) (ss_docs (pl_cs P) w) ev" by (auto simp: decodes_to_def)
  with run have p: "process_authorised (ss_mgr (pl_cs P)) ev w = (r, w')" by (simp add: handlePaymentAuthorisedEvent_def)
  have grow: "pays_grow (ss_pays (pl_cs P) w) (ss_pays (pl_cs P) w')"
    using mgr.process_authorised_outcome(1)[OF C p] by (rule once_grow)
  have adv: "docs_advance (ss_docs (pl_cs P) w) (ss_docs (pl_cs P) w')"
    by (rule handler_advance[OF C cs_handlers_at(1) run])
  show ?thesis
  proof (rule cs_keepsI[OF grow adv])
    show "adds (good (pl_codecs P) (ss_pays (pl_cs P) w') (ss_docs (pl_cs P) w') d)
        (messages (ss_rows (pl_cs P) w)) (messages (ss_rows (pl_cs P) w'))"
      using mgr.process_authorised_adds[OF C p]
      by (rule adds_mono) (rule authorised_written_good[OF platform_okD(4)[OF ok] _ ev grow adv])
    show "unconfirming (ss_docs (pl_cs P) w) (ss_docs (pl_cs P) w')"
      using mgr.process_authorised_outcome(3)[OF C p] by auto
  qed
qed

text \<open>The handlers that end a saga write nothing.\<close>

lemma failed_keeps:
  assumes ok: "platform_ok P" and run: "handleFailedConfirmationEvent (ss_mgr (pl_cs P)) k v w = (r, w')"
  shows "cs_keeps P d w w'"
proof -
  note C = platform_okD(1)[OF ok]
  have adv: "docs_advance (ss_docs (pl_cs P) w) (ss_docs (pl_cs P) w')" by (rule handler_advance[OF C cs_handlers_at(2) run])
  show ?thesis
  proof (cases "Unmarshal (pb_ConfirmationFailed (pl_codecs P)) v")
    case (Inl e)
    with run adv show ?thesis by (intro cs_keepsI) (auto simp: handleFailedConfirmationEvent_def)
  next
    case (Inr e)
    with run have p: "process_failed (ss_mgr (pl_cs P)) e w = (r, w')" by (simp add: handleFailedConfirmationEvent_def)
    note out = mgr.process_failed_outcome[OF C p]
    have "pays_grow (ss_pays (pl_cs P) w) (ss_pays (pl_cs P) w')"
      using mgr.undo_payment_outcome(3)[OF C, of e w] unfolding out(2) by (auto split: if_splits intro: once_grow effects_grow)
    from cs_keepsI[OF this adv] out(1,3) show ?thesis by auto
  qed
qed

lemma expired_keeps:
  assumes ok: "platform_ok P" and run: "handleExpiredReservationEvent (ss_mgr (pl_cs P)) k v w = (r, w')"
  shows "cs_keeps P d w w'"
proof -
  note C = platform_okD(1)[OF ok]
  have adv: "docs_advance (ss_docs (pl_cs P) w) (ss_docs (pl_cs P) w')" by (rule handler_advance[OF C cs_handlers_at(3) run])
  show ?thesis
  proof (cases "Unmarshal (pb_ReservationExpired (pl_codecs P)) v")
    case (Inl e)
    with run adv show ?thesis by (intro cs_keepsI) (auto simp: handleExpiredReservationEvent_def)
  next
    case (Inr e)
    with run have p: "process_expired (ss_mgr (pl_cs P)) e w = (r, w')" by (simp add: handleExpiredReservationEvent_def)
    note out = mgr.process_expired_outcome[OF C p]
    have "pays_grow (ss_pays (pl_cs P) w) (ss_pays (pl_cs P) w')" using out(2) by (auto intro: effects_grow)
    from cs_keepsI[OF this adv] out show ?thesis by auto
  qed
qed

text \<open>Confirming rests on what the event vouches for.\<close>

lemma confirmed_keeps:
  assumes ok: "platform_ok P" and e: "decodes_to (pb_ReservationConfirmed (pl_codecs P)) (confirmed_good (ss_pays (pl_cs P) w) (ss_docs (pl_cs P) w) d) v"
    and run: "handleReservationConfirmedEvent (ss_mgr (pl_cs P)) k v w = (r, w')"
  shows "cs_keeps P d w w'"
proof -
  note C = platform_okD(1)[OF ok]
  let ?docs = "ss_docs (pl_cs P) w" and ?docs' = "ss_docs (pl_cs P) w'" and ?m = "ss_pays (pl_cs P) w"
  from e obtain ev where dec: "Unmarshal (pb_ReservationConfirmed (pl_codecs P)) v = Inr ev" and ev: "confirmed_good ?m ?docs d ev"
    by (auto simp: decodes_to_def)
  with run have p: "process_confirmed (ss_mgr (pl_cs P)) ev w = (r, w')" by (simp add: handleReservationConfirmedEvent_def)
  note out = mgr.process_confirmed_outcome[OF C p]
  have adv: "docs_advance ?docs ?docs'" by (rule handler_advance[OF C cs_handlers_at(4) run])
  have "\<forall>c \<in> set ?docs'. settled ?m d c" if old: "\<forall>c \<in> set ?docs. settled ?m d c"
  proof
    fix c assume "c \<in> set ?docs'"
    then consider "c \<in> set ?docs" | y where "y \<in> set ?docs" "con_ID y = rce_ConsignmentId ev" "c = y\<lparr>con_Status := StatusConfirmed\<rparr>"
      using out(3) unfolding set_status_def by (elim disjE conjE) (auto dest!: where_update_sound)
    then show "settled ?m d c"
    proof cases
      case 2
      from ev obtain c0 where c0: "c0 \<in> set ?docs" "con_ID c0 = rce_ConsignmentId ev" "con_ReservationID c0 = rce_ReservationId ev"
        by (auto simp: confirmed_good_def stands_on_def)
      have "c0 = y" using mgr.ids[OF C, of w] c0(1,2) 2(1,2) by (metis inj_onD distinct_map)
      with ev c0 2 show ?thesis by (simp add: settled_def confirmed_good_def)
    qed (use old in blast)
  qed
  with adv out(1,2) show ?thesis by (simp add: cs_keeps_def onward_def)
qed

lemma cs_event_keeps:
  assumes ok: "platform_ok P" and msg: "good (pl_codecs P) (ss_pays (pl_cs P) w) (ss_docs (pl_cs P) w) d (t, k, v)"
    and h: "cs_handlers (ss_mgr (pl_cs P)) t = Some f" and run: "f k' v w = (r, w')"
  shows "cs_keeps P d w w'"
  using h
proof (cases rule: cs_handlersE)
  case 1
  with msg run authorised_keeps[OF ok good_dests(1)] show ?thesis by simp
next
  case 2
  with run failed_keeps[OF ok] show ?thesis by simp
next
  case 3
  with run expired_keeps[OF ok] show ?thesis by simp
next
  case 4
  with msg run confirmed_keeps[OF ok good_dests(4)] show ?thesis by simp
qed

section \<open>The calls of the consignment service\<close>

lemma create_keeps:
  assumes ok: "platform_ok P" and run: "CreateConsignment (ss_hdl (pl_cs P)) req w = (r, w')"
  shows "cs_keeps P d w w'"
proof -
  note C = platform_okD(1)[OF ok]
  note out = svc.CreateConsignment_outcome[OF C run]
  have adv: "docs_advance (ss_docs (pl_cs P) w) (ss_docs (pl_cs P) w')" by (rule cs_step_advance[OF C cs_step.create[OF run]])
  have "settled m d c" if "con_Status c = StatusPending" for m c
    using that by (simp add: settled_def status_defs)
  with out adv show ?thesis unfolding cs_keeps_def by (auto simp: onward_def)
qed

lemma confirm_written_good:
  assumes ok: "codecs_ok cs" and c: "c \<in> set docs" and w: "confirm_written c t cs m m' msg" and adv: "docs_advance docs docs'"
  shows "good cs m' docs' d msg"
proof -
  from w obtain a m1 where eff: "authorise_effect (authorise_request c) a m m1"
    and once: "pay_void.at_most_once \<lparr>vreq_AuthId = a\<rparr> m1 m'"
    and enc: "encodes (pb_PaymentAuthorised cs) (authorised_event a c t) ConsignmentPaymentAuthorisedTopic msg"
    unfolding confirm_written_def by blast
  from eff obtain p where "m1 a = Some p" "pay_consignmentID p = con_ID c"
    by (auto simp: authorise_effect_def pay_Authorise_def authorise_request_def Let_def)
  with once_grow(2)[OF once] obtain p' where "m' a = Some p'" "pay_consignmentID p' = con_ID c"
    unfolding pays_grow_def by (metis pay_advances_def)
  moreover have "stands_on docs' (con_ID c) (con_ReservationID c)"
    by (rule stands_on_advance[OF _ adv]) (use c in \<open>auto simp: stands_on_def\<close>)
  ultimately have "auth_good m' docs' (authorised_event a c t)"
    by (simp add: auth_good_def authorised_event_def zero_PaymentAuthorisedEvent_def)
  from good_intros(1)[OF ok enc this] show ?thesis .
qed

lemma confirm_keeps:
  assumes ok: "platform_ok P" and run: "ConfirmConsignment (ss_hdl (pl_cs P)) req w = (r, w')"
  shows "cs_keeps P d w w'"
proof -
  note C = platform_okD(1)[OF ok]
  let ?docs = "ss_docs (pl_cs P) w" and ?docs' = "ss_docs (pl_cs P) w'" and ?m = "ss_pays (pl_cs P) w" and ?m' = "ss_pays (pl_cs P) w'"
  have adv: "docs_advance ?docs ?docs'" by (rule cs_step_advance[OF C cs_step.confirm[OF run]])
  have eff: "pays_grow ?m ?m'" and docs: "?docs' \<in> {?docs, set_status (cfr_Id req) StatusCancelled ?docs}"
    using confirm_saga_core[OF C run]
    by (auto split: sum.splits intro: effects_grow pays_grow_trans[OF effects_grow(3) effects_grow(2)])
  have "adds (good (pl_codecs P) ?m' ?docs' d) (messages (ss_rows (pl_cs P) w)) (messages (ss_rows (pl_cs P) w'))"
    using svc.ConfirmConsignment_adds[OF C run]
    by (rule adds_mono) (auto intro: confirm_written_good[OF platform_okD(4)[OF ok] _ _ adv])
  from cs_keepsI[OF eff adv this] docs show ?thesis by auto
qed

section \<open>The reservation service\<close>

definition rs_keeps :: "('c, 'r) platform \<Rightarrow> payments \<Rightarrow> Consignment list \<Rightarrow> 'r \<Rightarrow> 'r \<Rightarrow> bool" where
  "rs_keeps P m docs w w' \<longleftrightarrow>
     set (ops_of (committed (sy_vv (pl_rs P)) w)) \<subseteq> set (ops_of (committed (sy_vv (pl_rs P)) w')) \<and>
     adds (good (pl_codecs P) m docs (committed (sy_vv (pl_rs P)) w')) (messages (rs_rows P w)) (messages (rs_rows P w')) \<and>
     (\<forall>rid. recorded (committed (sy_vv (pl_rs P)) w') rid opConfirm \<longrightarrow>
        recorded (committed (sy_vv (pl_rs P)) w) rid opConfirm \<or> paid_load m docs rid)"

lemma rs_keeps_refl: "rs_keeps P m docs w w"
  by (simp add: rs_keeps_def)

lemma rs_keeps_trans:
  assumes "rs_keeps P m docs x y" "rs_keeps P m docs y z"
  shows "rs_keeps P m docs x z"
proof -
  have "onward m docs (committed (sy_vv (pl_rs P)) y) m docs (committed (sy_vv (pl_rs P)) z)"
    using assms(2) by (simp add: rs_keeps_def onward_def docs_advance_refl)
  then have "adds (good (pl_codecs P) m docs (committed (sy_vv (pl_rs P)) z)) (messages (rs_rows P x)) (messages (rs_rows P y))"
    using assms(1) by (auto simp: rs_keeps_def elim!: adds_mono good_onward)
  with assms show ?thesis by (auto simp: rs_keeps_def intro: adds_trans)
qed

lemma rs_mgr: "platform_ok P \<Longrightarrow> sys_mgr (pl_rs P) = sy_mgr (pl_rs P)"
  by (simp add: platform_okD(2) sys_okD(6) sys_mgr_wired)

lemma retry_topics: "retry_topic ev \<in> {ReleaseCapacityTopic, ConfirmCapacityTopic, CapacityFailedTopic}"
  by (simp add: retry_topic_def)

lemma ev_effect_ops: "ev_effect ev d d' \<Longrightarrow> set (ops_of d) \<subseteq> set (ops_of d')"
  by (auto simp: ev_effect_def split: option.splits dest: cap_step_ops_grow)

lemma ev_effect_confirms:
  assumes "ev_effect ev d d'" "recorded d' rid opConfirm"
  shows "recorded d rid opConfirm \<or> ce_Action ev = CAPACITY_ACTION_CONFIRM \<and> rid = ev_id ev"
  using assms
  by (auto simp: ev_effect_def ev_call_def recorded_def op_names MarshalCapacityRequest_def capacity_request_def
      split: if_splits elim!: cap_releaseE cap_confirmE)

text \<open>What the processing of a capacity event writes.\<close>

lemma cleared_written_good:
  assumes ok: "codecs_ok cs" and w: "cleared_written cs (ev\<lparr>ce_CacheCleared := b\<rparr>) d msg" and ev: "capacity_good m docs ev"
  shows "good cs m docs d msg"
proof -
  let ?ev = "ev\<lparr>ce_CacheCleared := b\<rparr>"
  from w consider (retry) "encodes (pb_Capacity cs) (bump ?ev) (retry_topic (bump ?ev)) msg"
    | (confirmed) "ce_Action ev = CAPACITY_ACTION_CONFIRM" "ev_done ev d"
      "encodes (pb_ReservationConfirmed cs) (confirmed_event ?ev) rs_ReservationConfirmedTopic msg"
    unfolding cleared_written_def by auto
  then show ?thesis
  proof cases
    case retry
    from ev have "capacity_good m docs (bump ?ev)" by (simp add: capacity_good_def bump_def)
    from good_intros(3)[OF ok retry retry_topics this] show ?thesis .
  next
    case confirmed
    then have "recorded d (ev_id ev) opConfirm"
      by (simp add: ev_done_def ev_call_def call_marked_def MarshalCapacityRequest_def capacity_request_def)
    with ev confirmed(1) have "confirmed_good m docs d (confirmed_event ?ev)"
      by (auto simp: confirmed_good_def capacity_good_def confirmed_event_def)
    from good_intros(4)[OF ok confirmed(3)[unfolded shared_topics] this] show ?thesis .
  qed
qed

lemma process_keeps:
  assumes ok: "platform_ok P" and ev: "capacity_good m docs ev" and run: "processCapacityEvent (sy_mgr (pl_rs P)) ev w = (r, w')"
  shows "rs_keeps P m docs w w'"
proof -
  note R = platform_okD(2)[OF ok]
  from run have p: "processCapacityEvent (sys_mgr (pl_rs P)) ev w = (r, w')" by (simp add: rs_mgr[OF ok])
  from rs.process_effect(1)[OF R p] have ops: "set (ops_of (committed (sy_vv (pl_rs P)) w)) \<subseteq> set (ops_of (committed (sy_vv (pl_rs P)) w'))"
    using ev_effect_ops by auto
  have "adds (good (pl_codecs P) m docs (committed (sy_vv (pl_rs P)) w')) (messages (rs_rows P w)) (messages (rs_rows P w'))"
    using rs.process_adds[OF R p]
    by (rule adds_mono) (auto simp: rs_mgr[OF ok] platform_okD(3)[OF ok] intro: cleared_written_good[OF platform_okD(4)[OF ok] _ ev])
  moreover have "recorded (committed (sy_vv (pl_rs P)) w) rid opConfirm \<or> paid_load m docs rid"
    if "recorded (committed (sy_vv (pl_rs P)) w') rid opConfirm" for rid
    using rs.process_effect(1)[OF R p] ev_effect_confirms[OF _ that, of ev] that ev
    by (auto simp: capacity_good_def paid_load_def)
  ultimately show ?thesis using ops by (simp add: rs_keeps_def)
qed

text \<open>Publishing an expiry or a failure leaves the capacity alone.\<close>

lemma publish_keeps:
  assumes ok: "platform_ok P"
    and run: "ob_CreateEvent (rm_outbox (sy_mgr (pl_rs P))) (outbox_event t k p) w = (r, w')"
    and g: "\<And>d. good (pl_codecs P) m docs d (t, k, p)"
  shows "rs_keeps P m docs w w'"
proof -
  note R = platform_okD(2)[OF ok]
  have "ob_CreateEvent (postgres_outbox (sy_db (pl_rs P))) (outbox_event t k p) w = (r, w')"
    using run rs.mgr_outbox[of "pl_rs P"] by (simp add: rs_mgr[OF ok])
  from rs.outbox_adds[OF R this] rs.publish_frame(3)[OF R this] g show ?thesis
    by (auto simp: rs_keeps_def elim!: adds_mono)
qed

lemma expired_published:
  assumes ok: "platform_ok P" and run: "publishReservationExpired (sy_mgr (pl_rs P)) info w = (r, w')"
  shows "rs_keeps P m docs w w'"
  using run good_intros(5)[OF platform_okD(4)[OF ok]]
  by (auto simp: publishReservationExpired_def platform_okD(3)[OF ok] shared_topics rs_keeps_refl
      split: sum.splits intro!: publish_keeps[OF ok])

lemma failure_published:
  assumes ok: "platform_ok P" and run: "publishConfirmationFailed (sy_mgr (pl_rs P)) ev w = (r, w')"
  shows "rs_keeps P m docs w w'"
  using run good_intros(6)[OF platform_okD(4)[OF ok]]
  by (auto simp: publishConfirmationFailed_def platform_okD(3)[OF ok] shared_topics rs_keeps_refl
      split: sum.splits intro!: publish_keeps[OF ok])

lemma expiries_keep: "platform_ok P \<Longrightarrow> rs_keeps P m docs w (publish_all_expired (sy_mgr (pl_rs P)) infos w)"
proof (induction infos arbitrary: w)
  case (Cons i infos)
  obtain r w1 where p: "publishReservationExpired (sy_mgr (pl_rs P)) i w = (r, w1)" by fastforce
  from expired_published[OF Cons.prems p] Cons p show ?case by (auto intro: rs_keeps_trans)
qed (simp add: rs_keeps_refl)

lemma cleanup_keeps:
  assumes ok: "platform_ok P" and run: "releaseReservations (sy_mgr (pl_rs P)) w = Some (r, w')"
  shows "rs_keeps P m docs w w'"
proof -
  note R = platform_okD(2)[OF ok]
  obtain q w1 where g: "rc_GetExpired (redis_cache (sy_cache (pl_rs P))) w = Some (q, w1)"
    and w': "w' = (case q of Inl err \<Rightarrow> w1 | Inr expired \<Rightarrow> publish_all_expired (sy_mgr (pl_rs P)) expired w1)"
    using run rs.mgr_cache[of "pl_rs P"] rs_mgr[OF ok]
    by (auto simp: releaseReservations_def split: option.splits sum.splits)
  from rs.expired_frame[OF R g] have "rs_keeps P m docs w w1" by (simp add: rs_keeps_def)
  with expiries_keep[OF ok] show ?thesis by (auto simp: w' split: sum.splits intro: rs_keeps_trans)
qed

text \<open>The event handlers.\<close>

lemma rs_handlersE:
  assumes "rs_handlers m t = Some f"
  obtains "t = PaymentCapturedTopic" "f = handlePaymentCapturedEvent m"
  | "t \<in> {ReleaseCapacityTopic, ConfirmCapacityTopic}" "f = handleCapacityEvent m"
  | "t = ReservationExpiredTopic" "f = handleReservationExpiredEvent m"
  | "t = CapacityFailedTopic" "f = handleFailedCapacityEvent m"
  using assms by (auto simp: rs_handlers_def shared_topics split: if_splits)

lemma release_good: "capacity_good m docs (expired_to_release e)" "capacity_good m docs (failed_to_release ev)"
  by (simp_all add: capacity_good_def expired_to_release_def failed_to_release_def)

lemma rs_event_keeps:
  assumes ok: "platform_ok P" and msg: "good (pl_codecs P) m docs (committed (sy_vv (pl_rs P)) w) (t, k, v)"
    and h: "rs_handlers (sy_mgr (pl_rs P)) t = Some f" and run: "f k' v w = (r, w')"
  shows "rs_keeps P m docs w w'"
  using h
proof (cases rule: rs_handlersE)
  case 1
  with msg good_dests(2) obtain e where e: "Unmarshal (pb_PaymentCaptured (pl_codecs P)) v = Inr e" "captured_good m docs e"
    unfolding decodes_to_def by blast
  then have "capacity_good m docs (captured_to_confirm e)"
    by (auto simp: captured_good_def capacity_good_def captured_to_confirm_def)
  with 1 e run process_keeps[OF ok] show ?thesis
    by (auto simp: handlePaymentCapturedEvent_def platform_okD(3)[OF ok] rs_keeps_refl split: if_splits)
next
  case 2
  with msg good_dests(3)[of t] obtain e where "Unmarshal (pb_Capacity (pl_codecs P)) v = Inr e" "capacity_good m docs e"
    unfolding decodes_to_def by blast
  with 2 run process_keeps[OF ok] show ?thesis
    by (simp add: handleCapacityEvent_def platform_okD(3)[OF ok])
next
  case 3
  with run process_keeps[OF ok release_good(1)] show ?thesis
    by (auto simp: handleReservationExpiredEvent_def platform_okD(3)[OF ok] rs_keeps_refl split: sum.splits)
next
  case 4
  show ?thesis
  proof (cases "\<exists>e. Unmarshal (pb_Capacity (pl_codecs P)) v = Inr e \<and> ce_Action e = CAPACITY_ACTION_CONFIRM")
    case False
    with 4 run show ?thesis
      by (auto simp: handleFailedCapacityEvent_def platform_okD(3)[OF ok] rs_keeps_refl split: sum.splits if_splits)
  next
    case True
    then obtain e where e: "Unmarshal (pb_Capacity (pl_codecs P)) v = Inr e" "ce_Action e = CAPACITY_ACTION_CONFIRM" by blast
    obtain q w1 where p: "processCapacityEvent (sy_mgr (pl_rs P)) (failed_to_release e) w = (q, w1)" by fastforce
    obtain q2 w2 where n: "publishConfirmationFailed (sy_mgr (pl_rs P)) e w1 = (q2, w2)" by fastforce
    have "w' = w2" using run 4 e p n by (auto simp: handleFailedCapacityEvent_def platform_okD(3)[OF ok] split: sum.splits)
    with rs_keeps_trans[OF process_keeps[OF ok release_good(2) p] failure_published[OF ok n]] show ?thesis by simp
  qed
qed

section \<open>The invariant\<close>

lemma cs_keeps_inv:
  assumes inv: "saga_inv P s" and keep: "cs_keeps P (st_cap P s) (st_cs s) c'"
  shows "saga_inv P (s\<lparr>st_cs := c'\<rparr>)"
proof -
  let ?s = "s\<lparr>st_cs := c'\<rparr>"
  from keep have on: "onward (st_pays P s) (st_docs P s) (st_cap P s) (st_pays P ?s) (st_docs P ?s) (st_cap P ?s)"
    and new: "adds (good (pl_codecs P) (st_pays P ?s) (st_docs P ?s) (st_cap P ?s)) (messages (ss_rows (pl_cs P) (st_cs s))) (messages (ss_rows (pl_cs P) c'))"
    by (simp_all add: cs_keeps_def)
  have old: "good (pl_codecs P) (st_pays P ?s) (st_docs P ?s) (st_cap P ?s) m" if "m \<in> all_messages P s" for m
    using inv that good_onward[OF _ on] by (auto simp: saga_inv_def)
  have "good (pl_codecs P) (st_pays P ?s) (st_docs P ?s) (st_cap P ?s) m" if m: "m \<in> all_messages P ?s" for m
    using m new old[of m] by (auto simp: all_messages_def adds_def)
  moreover have "\<forall>c \<in> set (st_docs P ?s). settled (st_pays P ?s) (st_cap P ?s) c"
    using inv keep by (simp add: saga_inv_def cs_keeps_def)
  moreover have "\<forall>rid. recorded (st_cap P ?s) rid opConfirm \<longrightarrow> paid_load (st_pays P ?s) (st_docs P ?s) rid"
    using inv paid_load_onward[OF _ on] by (simp add: saga_inv_def)
  ultimately show ?thesis unfolding saga_inv_def by blast
qed

lemma rs_keeps_inv:
  assumes inv: "saga_inv P s" and keep: "rs_keeps P (st_pays P s) (st_docs P s) (st_rs s) d'"
  shows "saga_inv P (s\<lparr>st_rs := d'\<rparr>)"
proof -
  let ?s = "s\<lparr>st_rs := d'\<rparr>"
  from keep have on: "onward (st_pays P s) (st_docs P s) (st_cap P s) (st_pays P ?s) (st_docs P ?s) (st_cap P ?s)"
    and new: "adds (good (pl_codecs P) (st_pays P ?s) (st_docs P ?s) (st_cap P ?s)) (messages (rs_rows P (st_rs s))) (messages (rs_rows P d'))"
    by (simp_all add: rs_keeps_def onward_def docs_advance_refl)
  have old: "good (pl_codecs P) (st_pays P ?s) (st_docs P ?s) (st_cap P ?s) m" if "m \<in> all_messages P s" for m
    using inv that good_onward[OF _ on] by (auto simp: saga_inv_def)
  have "good (pl_codecs P) (st_pays P ?s) (st_docs P ?s) (st_cap P ?s) m" if m: "m \<in> all_messages P ?s" for m
    using m new old[of m] by (auto simp: all_messages_def adds_def)
  moreover have "\<forall>c \<in> set (st_docs P ?s). settled (st_pays P ?s) (st_cap P ?s) c"
    using inv settled_onward[OF _ on] by (simp add: saga_inv_def)
  moreover have "\<forall>rid. recorded (st_cap P ?s) rid opConfirm \<longrightarrow> paid_load (st_pays P ?s) (st_docs P ?s) rid"
    using inv keep by (auto simp: saga_inv_def rs_keeps_def)
  ultimately show ?thesis unfolding saga_inv_def by blast
qed

lemma saga_step_inv:
  assumes ok: "platform_ok P" and step: "saga_step P s s'" and inv: "saga_inv P s"
  shows "saga_inv P s'"
proof -
  have msg: "good (pl_codecs P) (st_pays P s) (st_docs P s) (st_cap P s) m" if "m \<in> st_log s" for m
    using inv that by (simp add: saga_inv_def all_messages_def)
  from step show ?thesis
  proof cases
    case (create req rc c')
    with create_keeps[OF ok] cs_keeps_inv[OF inv] show ?thesis by blast
  next
    case (confirm creq rf c')
    with confirm_keeps[OF ok] cs_keeps_inv[OF inv] show ?thesis by blast
  next
    case (cs_event t k v f r c')
    from cs_keeps_inv[OF inv cs_event_keeps[OF ok msg[OF cs_event(2)] cs_event(3,4)]] cs_event(1) show ?thesis by simp
  next
    case (rs_event t k v g r d')
    from rs_keeps_inv[OF inv rs_event_keeps[OF ok msg[OF rs_event(2)] rs_event(3,4)]] rs_event(1) show ?thesis by simp
  next
    case (cleanup r d')
    with cleanup_keeps[OF ok] rs_keeps_inv[OF inv] show ?thesis by blast
  next
    case (produce m)
    with inv show ?thesis by (auto simp: saga_inv_def all_messages_def)
  next
    case (cs_other c')
    then have "cs_keeps P (st_cap P s) (st_cs s) c'" by (simp add: cs_keeps_def)
    from cs_keeps_inv[OF inv this] cs_other(1) show ?thesis by simp
  next
    case (rs_other d')
    then have "rs_keeps P (st_pays P s) (st_docs P s) (st_rs s) d'" by (auto simp: rs_keeps_def)
    from rs_keeps_inv[OF inv this] rs_other(1) show ?thesis by simp
  qed
qed

lemma saga_run_inv:
  assumes "platform_ok P" "saga_run P s s'" "saga_inv P s"
  shows "saga_inv P s'"
  using assms(2,3) by (induction rule: saga_run.induct) (auto intro: saga_step_inv[OF assms(1)])

end
