(* ===== verification/Saga_Memory.thy ===== *)
theory Saga_Memory
  imports Saga Consignment_Runs Reservation_Properties
begin

text \<open>
  Both services on their in-memory systems, and one complete saga on them: the witnesses of
  \<open>Saga_Properties\<close> are that run, from the confirmation of a consignment to its last event.
\<close>

section \<open>The platform\<close>

definition load_mgr :: "rmem RsManager" where
  "load_mgr = mem_mgr\<lparr>rm_codecs := cs_codecs\<rparr>"

definition load_sys :: "rmem rs_system" where
  "load_sys = mem_sys\<lparr>sy_mgr := load_mgr\<rparr>"

definition mem_platform :: "(smem, rmem) platform" where
  "mem_platform = \<lparr>pl_cs = mem_cs, pl_rs = load_sys\<rparr>"

lemma load_select [simp]:
  "pl_cs mem_platform = mem_cs" "pl_rs mem_platform = load_sys" "sy_mgr load_sys = load_mgr" "sy_cache load_sys = mem_cache"
  "sy_rv load_sys = mem_rv" "sy_db load_sys = mem_pg" "sy_pv load_sys = mem_pv" "sy_vv load_sys = sys_vv"
  "sy_mongo load_sys = sys_mongo" "sy_rpc load_sys = mem_rpc"
  "rm_cache load_mgr = redis_cache mem_cache" "rm_outbox load_mgr = postgres_outbox mem_pg" "rm_codecs load_mgr = cs_codecs"
  "rm_vesselCli load_mgr = rm_vesselCli mem_mgr" "rm_Retry load_mgr = rm_Retry mem_mgr"
  by (simp_all add: mem_platform_def load_sys_def load_mgr_def) (simp_all add: mem_sys_def)

lemma load_sys_ok: "sys_ok load_sys"
proof -
  have "independent load_sys"
    using sys_okD(7)[OF mem_sys_ok]
    by (simp add: independent_def cache_idle_def outbox_idle_def vessels_idle_def) (simp add: mem_sys_def)
  then show ?thesis
    using mem_sys_ok by (simp add: sys_ok_def wired_def) (simp add: mem_sys_def)
qed

lemma mem_platform_ok: "platform_ok mem_platform"
proof -
  have "codecs_ok cs_codecs"
    unfolding codecs_ok_def cs_codecs_def event_codecs.select_convs by (simp add: table_codec_ok)
  then show ?thesis using mem_cs_ok load_sys_ok by (simp add: platform_ok_def)
qed

section \<open>The reservation\<close>

text \<open>Reservation \<open>r\<close> is cached and holds capacity on vessel \<open>v\<close>.\<close>

definition reserved_db :: vdb where
  "reserved_db = \<lparr>vessels_of = [sample_vessel\<lparr>ID := ''v'', ReservedWeight := 60\<rparr>],
     ops_of = [capacity_operation ''r'' opReserve ''v'' 0]\<rparr>"

definition loaded_db :: vdb where
  "loaded_db = \<lparr>vessels_of = [sample_vessel\<lparr>ID := ''v'', UsedWeight := 60\<rparr>],
     ops_of = [capacity_operation ''r'' opConfirm ''v'' 0, capacity_operation ''r'' opReserve ''v'' 0]\<rparr>"

definition rs_at :: "(string \<times> bytes \<times> time) list \<Rightarrow> pg_row list \<Rightarrow> vdb \<Rightarrow> vdb \<Rightarrow> rmem" where
  "rs_at kvs rows db tx = \<lparr>rx_redis = kvs, rx_now = 0, rx_rows = rows, rx_tx = [],
     rx_mongo = \<lparr>m_db = db, m_tx = tx, m_commit_lost = False\<rparr>, rx_sent = [], rx_del_lost = False,
     rx_outbox_down = False, rx_vessel_down = False\<rparr>"

definition reserved_rmem :: rmem where
  "reserved_rmem = rs_at [(id_key ''r'', '''', 600), (data_key ''r'', ''info'', 1800)] [] reserved_db reserved_db"

definition paid_event :: PaymentCapturedEvent where
  "paid_event = captured_event (sample_auth\<lparr>pae_PaymentId := ''c1''\<rparr>)"

definition loaded_event :: ReservationConfirmedEvent where
  "loaded_event = \<lparr>rce_ReservationId = ''r'', rce_ConsignmentId = ''c1'', rce_SagaStartedAt = pae_SagaStartedAt sample_auth\<rparr>"

definition loaded_row :: pg_row where
  "loaded_row = mx_row rs_ReservationConfirmedTopic ''c1'' ''loaded'' [] (rs_at [] [] loaded_db loaded_db)"

lemma load_codecs:
  "Unmarshal (pb_PaymentCaptured cs_codecs) ''captured'' = Inr paid_event"
  "Unmarshal (pb_ReservationConfirmed cs_codecs) ''loaded'' = Inr loaded_event"
  "Marshal (pb_ReservationConfirmed cs_codecs) loaded_event = Inr ''loaded''"
  by (simp_all add: cs_codecs_def table_codec_def paid_event_def loaded_event_def)
    (simp add: sample_auth_def authorised_event_def zero_PaymentAuthorisedEvent_def)

lemma load_confirm:
  "GetId (ce_ReservationInfo (captured_to_confirm paid_event)) = ''r''" "ce_ConsignmentId (captured_to_confirm paid_event) = ''c1''"
  "ce_Action (captured_to_confirm paid_event) = CAPACITY_ACTION_CONFIRM" "\<not> ce_CacheCleared (captured_to_confirm paid_event)"
  "confirmed_event ((captured_to_confirm paid_event)\<lparr>ce_CacheCleared := True\<rparr>) = loaded_event"
  "capacity_request ((captured_to_confirm paid_event)\<lparr>ce_CacheCleared := True\<rparr>) =
     \<lparr>pbr_VesselId = ''v'', pbr_Weight = 60, pbr_NumberOfContainers = 0, pbr_ReservationId = ''r''\<rparr>"
  "pce_ReservationInfo paid_event \<noteq> None"
  by (simp_all add: paid_event_def captured_to_confirm_def captured_event_def confirmed_event_def loaded_event_def capacity_request_def
      GetId_def GetVesselId_def GetWeight_def GetNumberOfContainers_def zero_CapacityEvent_def sample_auth_def authorised_event_def
      zero_PaymentAuthorisedEvent_def sample_con_def int32_len_def int32_of_int_def)

lemma run_load: "vessel_ConfirmCapacity (mongo_repository sys_mongo)
    \<lparr>pbr_VesselId = ''v'', pbr_Weight = 60, pbr_NumberOfContainers = 0, pbr_ReservationId = ''r''\<rparr> (rs_at kvs rows reserved_db tx) =
  (Inr (), rs_at kvs rows loaded_db loaded_db)"
  by (simp add: vessel_ConfirmCapacity_def mongo_repository_def repo_ConfirmCapacity_def confirm_body_def sys_mongo_def in_mongo_def mem_defs
      rs_at_def reserved_db_def loaded_db_def recorded_def op_names MarshalCapacityRequest_def has_id_def confirm_update_def
      sample_vessel_def add_op_def put_vessel_def capacity_operation_def is_op_def int_of_int32_def)

lemma load_keys: "id_key i \<noteq> data_key i" "data_key i \<noteq> id_key i"
  by (simp_all add: id_key_def data_key_def)

lemma rs_at_select:
  "rx_del_lost (rs_at kvs rows db tx) = False" "rx_vessel_down (rs_at kvs rows db tx) = False"
  "rx_outbox_down (rs_at kvs rows db tx) = False" "rx_rows (rs_at kvs rows db tx) = rows"
  "mx_live (rs_at kvs rows db tx) = live_at 0 (map_of kvs)" 
  "mx_del k (rs_at kvs rows db tx) = rs_at (filter (\<lambda>e. fst e \<noteq> k) kvs) rows db tx"
  "(rs_at kvs rows db tx)\<lparr>rx_rows := rows'\<rparr> = rs_at kvs rows' db tx"
  by (simp_all add: rs_at_def mx_live_def mx_del_def fun_eq_iff)

lemma run_paid: "handlePaymentCapturedEvent load_mgr key ''captured'' reserved_rmem = (Inr (), rs_at [] [loaded_row] loaded_db loaded_db)"
proof -
  let ?e = "(captured_to_confirm paid_event)\<lparr>ce_CacheCleared := True\<rparr>"
  have call: "vessel_call load_mgr ?e (rs_at kvs [] reserved_db reserved_db) = (Inr (), rs_at kvs [] loaded_db loaded_db)" for kvs
    using run_load by (simp add: vessel_call_def load_confirm) (simp add: mem_mgr_def mem_rpc_def rs_at_select numeral_3_eq_3)
  have id: "snd (cache_DeleteID mem_cache i (rs_at kvs rows db tx)) = rs_at (filter (\<lambda>e. fst e \<noteq> id_key i) kvs) rows db tx" for i kvs rows db tx
    by (simp add: cache_DeleteID_def mem_cache_def mem_redis_def rs_at_select)
  show ?thesis
    by (simp add: handlePaymentCapturedEvent_def load_codecs load_confirm processCapacityEvent_def mem_DeleteData reserved_rmem_def rs_at_select
        live_at_def load_keys process_cleared_def call redis_cache_def[THEN arg_cong[where f = rc_DeleteID]] id publishReservationConfirmed_def
        mem_CreateEvent loaded_row_def)
qed

section \<open>The consignment\<close>

text \<open>The events of the consignment service, with the first event still in the outbox.\<close>

definition second_doc :: outboxDocument where
  "second_doc = mem_event [first_doc] PaymentCapturedTopic ''c1'' ''captured''"

definition paid_con :: Consignment where
  "paid_con = sample_con\<lparr>con_Status := StatusConfirmationPending, con_PaymentID := ''c1''\<rparr>"

lemma run_authorised_first:
  "handlePaymentAuthorisedEvent cs_mgr key ''auth'' (cs_at [sample_con] [first_doc] [''a'' \<mapsto> auth_pay] False) =
     (Inr (), cs_at [paid_con] [first_doc, second_doc] [''a'' \<mapsto> capt_pay] False)"
proof -
  have cap: "process_authorised cs_mgr sample_auth (cs_at [sample_con] [first_doc] [''a'' \<mapsto> auth_pay] False) =
      process_captured cs_mgr ((keyed_auth 0)\<lparr>pae_PaymentId := ''c1''\<rparr>) (cs_at [sample_con] [first_doc] [''a'' \<mapsto> capt_pay] False)"
    by (simp add: process_authorised_def sample_auth_fields keyed_fields capture_request_def mem_capture auth_pay_status capt_pay_def)
  let ?e = "(keyed_auth 0)\<lparr>pae_PaymentId := ''c1'', pae_PaymentCaptured := True\<rparr>"
  have u: "captured_update ?e = \<lparr>cu_Status = Some StatusConfirmationPending, cu_PaymentID = Some ''c1''\<rparr>"
    by (simp add: captured_update_def)
  have ev: "mongo_CreateEvent mem_box (cs_outbox_event PaymentCapturedTopic ''c1'' ''captured'') (cs_at [sample_con] [first_doc] m False) =
      (Inr (), cs_at [sample_con] [first_doc, second_doc] m False)" for m
    using mem_CreateEvent_second[of "cs_at [sample_con] [first_doc] m False" _ "''c1''" "''auth''"]
    by (simp add: first_doc_def second_doc_def cs_at_select)
  have tx: "captured_tx cs_mgr ?e (cs_at [sample_con] [first_doc] m False) =
      (Inr (), cs_at [set_fields (captured_update ?e) sample_con] [first_doc, second_doc] m False)" for m
    using mem_update_one(2)[of "captured_update ?e" sample_con]
    by (simp add: captured_tx_def publishPaymentCaptured_def mongo_outbox_def mongo_consignments_def captured_event_key keyed_fields
        cs_codecs_encode ev sample_auth_fields u)
  show ?thesis
    by (simp add: handlePaymentAuthorisedEvent_def cs_codecs_decode cap process_captured_def store_WithTransaction_def mem_client_def tx)
      (simp add: u set_fields_def paid_con_def)
qed

lemma run_loaded: "handleReservationConfirmedEvent cs_mgr key ''loaded'' (cs_at [paid_con] box m lost) =
   (Inr (), cs_at [paid_con\<lparr>con_Status := StatusConfirmed\<rparr>] box m lost)"
  using mem_update_one(1)[of paid_con StatusConfirmed]
  by (simp add: handleReservationConfirmedEvent_def load_codecs loaded_event_def process_confirmed_def mongo_consignments_def mem_metrics
      paid_con_def sample_auth_fields)

section \<open>The saga\<close>

lemma box_messages:
  "box_okl box \<Longrightarrow> messages (ss_rows mem_cs (cs_at cs box m lost)) = (\<lambda>x. (od_Topic x, od_Key x, od_Payload x)) ` set box"
  by (simp add: messages_def mo_rows_def mem_ov_def coll_view_def cs_at_select image_image row_message_def abs_document_def)

lemma docs_okl: "box_okl [first_doc]" "box_okl [first_doc, second_doc]"
  by (simp_all add: first_doc_def second_doc_def mem_event_okl mem_event2_okl)

abbreviation auth_message :: message where
  "auth_message \<equiv> (ConsignmentPaymentAuthorisedTopic, ''c1'', ''auth'')"

abbreviation paid_message :: message where
  "paid_message \<equiv> (PaymentCapturedTopic, ''c1'', ''captured'')"

abbreviation loaded_message :: message where
  "loaded_message \<equiv> (ReservationConfirmedTopic, ''c1'', ''loaded'')"

lemma load_rows: "messages (rs_rows mem_platform (rs_at [] [loaded_row] loaded_db loaded_db)) = {loaded_message}"
  by (simp add: messages_def pg_rows_def mem_pv_def mx_valid_def rs_at_select abs_row_def row_message_def loaded_row_def mx_row_def shared_topics)

definition saga_start :: "(smem, rmem) pstate" where
  "saga_start = \<lparr>st_cs = no_pay, st_rs = reserved_rmem, st_log = {}\<rparr>"

definition saga_end :: "(smem, rmem) pstate" where
  "saga_end = \<lparr>st_cs = cs_at [paid_con\<lparr>con_Status := StatusConfirmed\<rparr>] [first_doc, second_doc] [''a'' \<mapsto> capt_pay] False,
     st_rs = rs_at [] [loaded_row] loaded_db loaded_db, st_log = {loaded_message, paid_message, auth_message}\<rparr>"

text \<open>Confirm; deliver the authorisation, the payment, the load.\<close>

lemma complete_saga: "saga_run mem_platform saga_start saga_end"
proof -
  let ?P = mem_platform
  have fields: "od_Topic first_doc = ConsignmentPaymentAuthorisedTopic" "od_Key first_doc = ''c1''" "od_Payload first_doc = ''auth''"
    "od_Topic second_doc = PaymentCapturedTopic" "od_Key second_doc = ''c1''" "od_Payload second_doc = ''captured''"
    by (simp_all add: first_doc_def second_doc_def mem_event_def)
  have box: "messages (ss_rows mem_cs (cs_at cs [first_doc] m lost)) = {auth_message}"
    "messages (ss_rows mem_cs (cs_at cs [first_doc, second_doc] m lost)) = {auth_message, paid_message}" for cs m lost
    using box_messages[OF docs_okl(1), of cs m lost] box_messages[OF docs_okl(2), of cs m lost] by (simp_all add: fields)
  let ?c1 = "cs_at [sample_con] [first_doc] [''a'' \<mapsto> auth_pay] False"
  let ?c2 = "cs_at [paid_con] [first_doc, second_doc] [''a'' \<mapsto> capt_pay] False"
  let ?r1 = "rs_at [] [loaded_row] loaded_db loaded_db"
  have "saga_run ?P saga_start (saga_start\<lparr>st_cs := ?c1\<rparr>)"
    using saga_step.confirm[of ?P "\<lparr>cfr_Id = ''c1''\<rparr>" saga_start] run_confirm
    by (auto intro: saga_run.intros simp: saga_start_def)
  then have 1: "saga_run ?P saga_start \<lparr>st_cs = ?c1, st_rs = reserved_rmem, st_log = {}\<rparr>" by (simp add: saga_start_def)
  have "saga_step ?P \<lparr>st_cs = ?c1, st_rs = reserved_rmem, st_log = {}\<rparr> \<lparr>st_cs = ?c1, st_rs = reserved_rmem, st_log = {auth_message}\<rparr>"
    using saga_step.produce[of auth_message ?P "\<lparr>st_cs = ?c1, st_rs = reserved_rmem, st_log = {}\<rparr>"] box by simp
  note 2 = saga_run.more[OF 1 this]
  have "cs_handlers cs_mgr ConsignmentPaymentAuthorisedTopic = Some (handlePaymentAuthorisedEvent cs_mgr)"
    "cs_handlers cs_mgr ReservationConfirmedTopic = Some (handleReservationConfirmedEvent cs_mgr)"
    "rs_handlers load_mgr PaymentCapturedTopic = Some (handlePaymentCapturedEvent load_mgr)"
    by (simp_all add: cs_handlers_def rs_handlers_def topics)
  note h = this
  have "saga_step ?P \<lparr>st_cs = ?c1, st_rs = reserved_rmem, st_log = {auth_message}\<rparr> \<lparr>st_cs = ?c2, st_rs = reserved_rmem, st_log = {auth_message}\<rparr>"
    using saga_step.cs_event[of "ConsignmentPaymentAuthorisedTopic" "''c1''" "''auth''" "\<lparr>st_cs = ?c1, st_rs = reserved_rmem, st_log = {auth_message}\<rparr>" ?P]
    by (simp add: h run_authorised_first)
  note 3 = saga_run.more[OF 2 this]
  have "saga_step ?P \<lparr>st_cs = ?c2, st_rs = reserved_rmem, st_log = {auth_message}\<rparr> \<lparr>st_cs = ?c2, st_rs = reserved_rmem, st_log = {paid_message, auth_message}\<rparr>"
    using saga_step.produce[of paid_message ?P "\<lparr>st_cs = ?c2, st_rs = reserved_rmem, st_log = {auth_message}\<rparr>"] box by simp
  note 4 = saga_run.more[OF 3 this]
  have "saga_step ?P \<lparr>st_cs = ?c2, st_rs = reserved_rmem, st_log = {paid_message, auth_message}\<rparr> \<lparr>st_cs = ?c2, st_rs = ?r1, st_log = {paid_message, auth_message}\<rparr>"
    using saga_step.rs_event[of "PaymentCapturedTopic" "''c1''" "''captured''" "\<lparr>st_cs = ?c2, st_rs = reserved_rmem, st_log = {paid_message, auth_message}\<rparr>" ?P]
    by (simp add: h run_paid)
  note 5 = saga_run.more[OF 4 this]
  have "saga_step ?P \<lparr>st_cs = ?c2, st_rs = ?r1, st_log = {paid_message, auth_message}\<rparr> \<lparr>st_cs = ?c2, st_rs = ?r1, st_log = {loaded_message, paid_message, auth_message}\<rparr>"
    using saga_step.produce[of loaded_message ?P "\<lparr>st_cs = ?c2, st_rs = ?r1, st_log = {paid_message, auth_message}\<rparr>"] load_rows by simp
  note 6 = saga_run.more[OF 5 this]
  have "saga_step ?P \<lparr>st_cs = ?c2, st_rs = ?r1, st_log = {loaded_message, paid_message, auth_message}\<rparr> saga_end"
    using saga_step.cs_event[of "ReservationConfirmedTopic" "''c1''" "''loaded''" "\<lparr>st_cs = ?c2, st_rs = ?r1, st_log = {loaded_message, paid_message, auth_message}\<rparr>" ?P]
    by (simp add: h run_loaded saga_end_def)
  from saga_run.more[OF 6 this] show ?thesis .
qed

end
