(* ===== verification/Saga_Properties.thy ===== *)
theory Saga_Properties
  imports Saga_Memory
begin

text \<open>
  The properties of the saga across services, with a complete saga on the in-memory systems as their
  witness: a consignment is confirmed, paid, loaded, and ends confirmed.
\<close>

section \<open>From a fresh start\<close>

text \<open>Nothing is under way: no message, no confirmed consignment, no confirmed capacity.\<close>

definition starting :: "('c, 'r) platform \<Rightarrow> ('c, 'r) pstate \<Rightarrow> bool" where
  "starting P s \<longleftrightarrow> all_messages P s = {} \<and> list_all (\<lambda>c. con_Status c \<noteq> StatusConfirmed) (st_docs P s) \<and>
     list_all (\<lambda>op. op_Operation op \<noteq> opConfirm) (ops_of (st_cap P s))"

lemma starting_inv: "starting P s \<Longrightarrow> saga_inv P s"
  by (auto simp: starting_def saga_inv_def settled_def recorded_def is_op_def list_all_iff list_ex_iff)

lemma reached_inv: "platform_ok P \<Longrightarrow> starting P s \<Longrightarrow> saga_run P s s' \<Longrightarrow> saga_inv P s'"
  by (rule saga_run_inv[OF _ _ starting_inv])

text \<open>What a handler answers to a message it cannot use.\<close>

definition unusable :: "goerr + unit \<Rightarrow> bool" where
  "unusable r \<longleftrightarrow> (\<exists>e. r = Inl (Errorf ''failed to unmarshal event'' [e])) \<or>
     r = Inl (Errorf ''payment captured event missing reservation_info'' [])"

lemma cs_process_usable:
  "\<not> unusable (fst (process_authorised m e w))" "\<not> unusable (fst (process_failed m f w))"
  "\<not> unusable (fst (process_expired m x w))" "\<not> unusable (fst (process_confirmed m c w))"
  by (simp_all add: unusable_def process_authorised_def process_captured_def schedule_retry_def Let_def process_failed_def
      process_expired_def process_confirmed_def split: sum.splits prod.splits)

lemma rs_process_usable: "\<not> unusable (fst (processCapacityEvent m ev w))"
  by (simp add: unusable_def processCapacityEvent_def process_cleared_def Let_def split: sum.splits prod.splits)

lemma cs_handler_usable:
  assumes "good cs m docs d (t, k, v)" "cm_codecs g = cs" "cs_handlers g t = Some f"
  shows "\<not> unusable (fst (f k' v w))"
  using assms(3)
proof (cases rule: cs_handlersE)
  case 1
  with assms(1,2) good_dests(1) show ?thesis
    by (fastforce simp: decodes_to_def handlePaymentAuthorisedEvent_def cs_process_usable)
next
  case 2
  with assms(1,2) good_dests(6) show ?thesis
    by (fastforce simp: decodes_to_def handleFailedConfirmationEvent_def cs_process_usable)
next
  case 3
  with assms(1,2) good_dests(5) show ?thesis
    by (fastforce simp: decodes_to_def handleExpiredReservationEvent_def cs_process_usable)
next
  case 4
  with assms(1,2) good_dests(4) show ?thesis
    by (fastforce simp: decodes_to_def handleReservationConfirmedEvent_def cs_process_usable)
qed

lemma rs_handler_usable:
  assumes "good cs m docs d (t, k, v)" "rm_codecs g = cs" "rs_handlers g t = Some f"
  shows "\<not> unusable (fst (f k' v w))"
  using assms(3)
proof (cases rule: rs_handlersE)
  case 1
  with assms(1) good_dests(2) obtain e where "Unmarshal (pb_PaymentCaptured cs) v = Inr e" "captured_good m docs e"
    unfolding decodes_to_def by blast
  with 1 assms(2) show ?thesis by (auto simp: handlePaymentCapturedEvent_def captured_good_def rs_process_usable)
next
  case 2
  with assms(1) good_dests(3)[of t] obtain e where "Unmarshal (pb_Capacity cs) v = Inr e" unfolding decodes_to_def by blast
  with 2 assms(2) show ?thesis by (simp add: handleCapacityEvent_def rs_process_usable)
next
  case 3
  with assms(1) good_dests(5) obtain e where "Unmarshal (pb_ReservationExpired cs) v = Inr e" unfolding decodes_to_def by blast
  with 3 assms(2) show ?thesis by (simp add: handleReservationExpiredEvent_def rs_process_usable)
next
  case 4
  with assms(1) good_dests(3)[of t] obtain e where "Unmarshal (pb_Capacity cs) v = Inr e" unfolding decodes_to_def by blast
  with 4 assms(2) show ?thesis
    by (simp add: handleFailedCapacityEvent_def unusable_def Let_def split: sum.splits prod.splits)
qed

lemma topics_handled:
  "good cs m docs d (t, k, v) \<Longrightarrow> t \<in> dom (cs_handlers g) \<union> dom (rs_handlers h)"
  by (auto simp: good.simps cs_handlers_def rs_handlers_def shared_topics)

section \<open>Properties\<close>

text \<open>
  C1. Confirmed means paid and loaded. Whatever calls the consignment service gets and in whatever
  order, however often Kafka delivers the events of the two services, whatever fails on the way: when
  nothing was under way at the start, a consignment that is confirmed has a payment that was captured
  (and at most refunded since), and the vessel service has recorded the confirmation of its
  reservation; and capacity is confirmed for reservations of paid consignments only.
\<close>

theorem confirmed_means_paid_and_loaded:
  assumes "platform_ok P" and "starting P s" and "saga_run P s s'"
  shows "(\<forall>c \<in> set (st_docs P s'). con_Status c = StatusConfirmed \<longrightarrow>
      recorded (st_cap P s') (con_ReservationID c) opConfirm \<and>
      (\<exists>a p. st_pays P s' a = Some p \<and> pay_consignmentID p = con_ID c \<and> pay_status p \<in> {statusCaptured, statusRefunded})) \<and>
    (\<forall>rid. recorded (st_cap P s') rid opConfirm \<longrightarrow>
      (\<exists>c \<in> set (st_docs P s'). con_ReservationID c = rid \<and>
        (\<exists>a p. st_pays P s' a = Some p \<and> pay_consignmentID p = con_ID c \<and> pay_status p \<in> {statusCaptured, statusRefunded})))"
proof (intro conjI ballI allI impI)
  note inv = reached_inv[OF assms, unfolded saga_inv_def]
  fix c assume c: "c \<in> set (st_docs P s')" "con_Status c = StatusConfirmed"
  then have "settled (st_pays P s') (st_cap P s') c" using inv by blast
  with c(2) show "recorded (st_cap P s') (con_ReservationID c) opConfirm"
    and "\<exists>a p. st_pays P s' a = Some p \<and> pay_consignmentID p = con_ID c \<and> pay_status p \<in> {statusCaptured, statusRefunded}"
    by (auto simp: settled_def paid_for_def)
next
  fix rid assume "recorded (st_cap P s') rid opConfirm"
  then have "paid_load (st_pays P s') (st_docs P s') rid"
    using reached_inv[OF assms, unfolded saga_inv_def] by blast
  then show "\<exists>c \<in> set (st_docs P s'). con_ReservationID c = rid \<and>
      (\<exists>a p. st_pays P s' a = Some p \<and> pay_consignmentID p = con_ID c \<and> pay_status p \<in> {statusCaptured, statusRefunded})"
    unfolding paid_load_def stands_on_def paid_for_def by fastforce
qed

lemma saga_starts: "starting mem_platform saga_start"
  by (simp add: starting_def all_messages_def messages_def mo_rows_def mem_ov_def pg_rows_def mem_pv_def coll_view_def mx_valid_def
      saga_start_def no_pay_def reserved_rmem_def rs_at_def mem_cv_def cons_okl_def sample_con_def sys_vv_def reserved_db_def
      capacity_operation_def op_names status_defs)

theorem confirmed_means_paid_and_loaded_witness:
  "con_Status (hd (st_docs mem_platform saga_end)) = StatusConfirmed \<and> recorded (st_cap mem_platform saga_end) ''r'' opConfirm \<and>
   (\<exists>a p. st_pays mem_platform saga_end a = Some p \<and> pay_consignmentID p = ''c1'' \<and> pay_status p \<in> {statusCaptured, statusRefunded})"
proof -
  let ?c = "paid_con\<lparr>con_Status := StatusConfirmed\<rparr>"
  have docs: "st_docs mem_platform saga_end = [?c]" by (simp add: saga_end_def mem_cs_stores)
  have c: "?c \<in> set (st_docs mem_platform saga_end)" "con_Status ?c = StatusConfirmed" "con_ReservationID ?c = ''r''" "con_ID ?c = ''c1''"
    using docs by (simp_all add: paid_con_def sample_con_def)
  from confirmed_means_paid_and_loaded[OF mem_platform_ok saga_starts complete_saga, THEN conjunct1, rule_format, OF c(1,2)] c(3,4)
  show ?thesis using docs by simp
qed

text \<open>
  C2. The services understand each other. Every message on Kafka is of a topic that a handler is there
  for, and no handler of either service, whatever its state, refuses it as undecodable or for a missing
  reservation: these two branches, whose messages would be lost, are never taken.
\<close>

theorem messages_understood:
  assumes "platform_ok P" and "starting P s" and "saga_run P s s'" and "(t, k, v) \<in> st_log s'"
  shows "t \<in> dom (cs_handlers (ss_mgr (pl_cs P))) \<union> dom (rs_handlers (sy_mgr (pl_rs P))) \<and>
    (\<forall>f w. cs_handlers (ss_mgr (pl_cs P)) t = Some f \<longrightarrow> \<not> unusable (fst (f k v w))) \<and>
    (\<forall>g w. rs_handlers (sy_mgr (pl_rs P)) t = Some g \<longrightarrow> \<not> unusable (fst (g k v w)))"
proof -
  have "good (pl_codecs P) (st_pays P s') (st_docs P s') (st_cap P s') (t, k, v)"
    using reached_inv[OF assms(1-3)] assms(4) by (auto simp: saga_inv_def all_messages_def)
  from topics_handled[OF this] cs_handler_usable[OF this refl] rs_handler_usable[OF this platform_okD(3)[OF assms(1)]]
  show ?thesis by blast
qed

theorem messages_understood_witness:
  "\<not> unusable (fst (handleReservationConfirmedEvent cs_mgr ''c1'' ''loaded'' no_pay)) \<and>
   \<not> unusable (fst (handlePaymentCapturedEvent load_mgr ''c1'' ''captured'' reserved_rmem))"
proof -
  note U = messages_understood[OF mem_platform_ok saga_starts complete_saga]
  have "cs_handlers cs_mgr ReservationConfirmedTopic = Some (handleReservationConfirmedEvent cs_mgr)"
    "rs_handlers load_mgr PaymentCapturedTopic = Some (handlePaymentCapturedEvent load_mgr)"
    by (simp_all add: cs_handlers_def rs_handlers_def topics)
  with U[of ReservationConfirmedTopic "''c1''" "''loaded''"] U[of PaymentCapturedTopic "''c1''" "''captured''"]
  show ?thesis by (simp add: saga_end_def)
qed

end
