(* ===== verification/Saga_Completion.thy ===== *)
theory Saga_Completion
  imports Saga_Memory
begin

text \<open>
  The saga can be completed: from a confirmation that was accepted, when the next calls of the servers
  involved succeed and the reservation is still cached, the messages delivered one after the other take
  the consignment to its confirmation. One lemma per stage shows that the handler of the message
  succeeds and leaves the next message in the outbox; \<open>cs_up\<close> and \<open>rs_up\<close> state what it is for the
  servers to be up. \<open>Saga_Properties\<close> has what holds of every run, whatever fails.
\<close>

section \<open>Servers that are up\<close>

lemma attempts_first: "f w = (Inr a, w') \<Longrightarrow> attempts k f w = (Inr a, w')"
  by (cases k) simp_all

lemma retry_first: "retry_within n rt \<Longrightarrow> f w = (Inr a, w') \<Longrightarrow> rt f w = (Inr a, w')"
  using attempts_first[of f w a w'] by (metis retry_within_def)

text \<open>
  \<open>H n w\<close>: in the world \<open>w\<close> the next \<open>n\<close> calls of the consignment service succeed. The number is there
  because no collection takes documents under fresh UUIDs for ever. A transaction whose callback
  succeeds on what the database holds is committed.
\<close>

definition cs_up :: "'c cs_system \<Rightarrow> (nat \<Rightarrow> 'c \<Rightarrow> bool) \<Rightarrow> bool" where
  "cs_up s H \<longleftrightarrow> (\<forall>n w. H (Suc n) w \<longrightarrow>
     (\<forall>f. ps_rpc_capture (ss_pay s) f w = f w) \<and> (\<forall>m. H n (ps_setpays (ss_pay s) m w)) \<and>
     H n (snd (mo_NewUUID (ss_box s) w)) \<and>
     (\<forall>x i. od_Id x = uuid_String (mo_uuid (ss_box s)) i \<and> od_Id x \<notin> od_Id ` set (ss_events s w) \<longrightarrow>
        (\<exists>w'. mo_InsertOne (ss_box s) x w = (Inr (), w') \<and> H n w')) \<and>
     (\<forall>i u. i \<in> con_ID ` set (ss_docs s w) \<longrightarrow>
        (\<exists>k w'. cc_UpdateOne (ss_cons s) (\<lambda>c. con_ID c = i) (set_fields u) w = (Inr (Suc k), w') \<and> H n w')) \<and>
     (\<exists>w'. ms_StartSession (ss_client s) w = (Inr (), w') \<and> H n w') \<and> H n (ms_EndSession (ss_client s) w) \<and>
     (\<forall>fn m. (\<forall>x. H n x \<and> docs_idle s w x \<and> events_idle s w x \<longrightarrow> (\<exists>y. fn x = (Inr (), y) \<and> H m y)) \<longrightarrow>
        (\<exists>w'. ms_WithTransaction (ss_client s) fn w = (Inr (), w') \<and> H m w')))"

lemma cs_upD:
  assumes "cs_up s H" "H (Suc n) w"
  shows "ps_rpc_capture (ss_pay s) f w = f w" "H n (ps_setpays (ss_pay s) m w)" "H n (snd (mo_NewUUID (ss_box s) w))"
    and "od_Id x = uuid_String (mo_uuid (ss_box s)) i \<Longrightarrow> od_Id x \<notin> od_Id ` set (ss_events s w) \<Longrightarrow>
      \<exists>w'. mo_InsertOne (ss_box s) x w = (Inr (), w') \<and> H n w'"
    and "c \<in> con_ID ` set (ss_docs s w) \<Longrightarrow>
      \<exists>k w'. cc_UpdateOne (ss_cons s) (\<lambda>x. con_ID x = c) (set_fields u) w = (Inr (Suc k), w') \<and> H n w'"
    and "\<exists>w'. ms_StartSession (ss_client s) w = (Inr (), w') \<and> H n w'" "H n (ms_EndSession (ss_client s) w)"
    and "(\<And>x. H n x \<Longrightarrow> docs_idle s w x \<Longrightarrow> events_idle s w x \<Longrightarrow> \<exists>y. fn x = (Inr (), y) \<and> H l y) \<Longrightarrow>
      \<exists>w'. ms_WithTransaction (ss_client s) fn w = (Inr (), w') \<and> H l w'"
proof -
  note U = assms(1)[unfolded cs_up_def, THEN spec, THEN spec, THEN mp, OF assms(2)]
  from U have 1: "\<forall>f. ps_rpc_capture (ss_pay s) f w = f w" "\<forall>m. H n (ps_setpays (ss_pay s) m w)"
    and 2: "H n (snd (mo_NewUUID (ss_box s) w))"
    and 3: "\<forall>x i. od_Id x = uuid_String (mo_uuid (ss_box s)) i \<and> od_Id x \<notin> od_Id ` set (ss_events s w) \<longrightarrow>
        (\<exists>w'. mo_InsertOne (ss_box s) x w = (Inr (), w') \<and> H n w')"
    and 4: "\<forall>i u. i \<in> con_ID ` set (ss_docs s w) \<longrightarrow>
        (\<exists>k w'. cc_UpdateOne (ss_cons s) (\<lambda>c. con_ID c = i) (set_fields u) w = (Inr (Suc k), w') \<and> H n w')"
    and 5: "\<exists>w'. ms_StartSession (ss_client s) w = (Inr (), w') \<and> H n w'" "H n (ms_EndSession (ss_client s) w)"
    and 6: "\<forall>fn m. (\<forall>x. H n x \<and> docs_idle s w x \<and> events_idle s w x \<longrightarrow> (\<exists>y. fn x = (Inr (), y) \<and> H m y)) \<longrightarrow>
        (\<exists>w'. ms_WithTransaction (ss_client s) fn w = (Inr (), w') \<and> H m w')"
    by - (elim conjE, assumption)+
  show "ps_rpc_capture (ss_pay s) f w = f w" "H n (ps_setpays (ss_pay s) m w)" using 1 by simp_all
  show "H n (snd (mo_NewUUID (ss_box s) w))" by (rule 2)
  show "od_Id x = uuid_String (mo_uuid (ss_box s)) i \<Longrightarrow> od_Id x \<notin> od_Id ` set (ss_events s w) \<Longrightarrow>
      \<exists>w'. mo_InsertOne (ss_box s) x w = (Inr (), w') \<and> H n w'" using 3 by blast
  show "c \<in> con_ID ` set (ss_docs s w) \<Longrightarrow>
      \<exists>k w'. cc_UpdateOne (ss_cons s) (\<lambda>x. con_ID x = c) (set_fields u) w = (Inr (Suc k), w') \<and> H n w'" using 4 by blast
  show "\<exists>w'. ms_StartSession (ss_client s) w = (Inr (), w') \<and> H n w'" "H n (ms_EndSession (ss_client s) w)" by (fact 5)+
  show "(\<And>x. H n x \<Longrightarrow> docs_idle s w x \<Longrightarrow> events_idle s w x \<Longrightarrow> \<exists>y. fn x = (Inr (), y) \<and> H l y) \<Longrightarrow>
      \<exists>w'. ms_WithTransaction (ss_client s) fn w = (Inr (), w') \<and> H l w'" using 6 by blast
qed

lemma up_create:
  assumes ok: "cs_ok s" and up: "cs_up s H" and w: "H (Suc (Suc n)) w"
  shows "\<exists>w'. mongo_CreateEvent (ss_box s) e w = (Inr (), w') \<and> H n w'"
proof -
  obtain i w0 where new: "mo_NewUUID (ss_box s) w = (i, w0)" by fastforce
  with cs_upD(3)[OF up w] have w0: "H (Suc n) w0" by simp
  let ?x = "outbox_document (uuid_String (mo_uuid (ss_box s)) i) (mo_Now (ss_box s) w0) (mo_Inject (ss_box s) w) e"
  have id: "od_Id ?x = uuid_String (mo_uuid (ss_box s)) i" by (simp add: outbox_document_def)
  from mongo_outbox_okD(5)[OF cs_okD(2)[OF ok], unfolded mo_uuid_ok_def fst_conv snd_conv, rule_format, OF new]
  have "od_Id ?x \<notin> od_Id ` set (ss_events s w0)" unfolding id by force
  from cs_upD(4)[OF up w0 id this] obtain w' where "mo_InsertOne (ss_box s) ?x w0 = (Inr (), w')" "H n w'" by blast
  with new show ?thesis by (simp add: mongo_CreateEvent_def)
qed

lemma up_update:
  assumes up: "cs_up s H" and w: "H (Suc n) w" and i: "i \<in> con_ID ` set (ss_docs s w)"
  shows "cu_Status u \<noteq> None \<Longrightarrow> \<exists>w'. mongo_Update (ss_cons s) i u w = (Inr (), w') \<and> H n w'"
    and "\<exists>w'. mongo_UpdateStatus (ss_cons s) i st w = (Inr (), w') \<and> H n w'"
proof -
  show "\<exists>w'. mongo_Update (ss_cons s) i u w = (Inr (), w') \<and> H n w'" if "cu_Status u \<noteq> None"
    using cs_upD(5)[OF up w i, of u] that by (auto simp: mongo_Update_def)
  have "set_fields \<lparr>cu_Status = Some st, cu_PaymentID = None\<rparr> = (\<lambda>c. c\<lparr>con_Status := st\<rparr>)"
    by (simp add: fun_eq_iff set_fields_def)
  with cs_upD(5)[OF up w i, of "\<lparr>cu_Status = Some st, cu_PaymentID = None\<rparr>"]
  show "\<exists>w'. mongo_UpdateStatus (ss_cons s) i st w = (Inr (), w') \<and> H n w'"
    by (auto simp: mongo_UpdateStatus_def)
qed

section \<open>The payment is captured\<close>

lemma up_capture:
  assumes ok: "cs_ok s" and up: "cs_up s H" and w: "H (Suc n) w"
    and p: "ss_pays s w (creq_AuthId q) = Some p" "pay_status p = statusAuthorised"
  shows "\<exists>rsp w'. cm_RetryCapture (ss_mgr s) (pc_Capture (cm_paymentCli (ss_mgr s)) q) w = (Inr rsp, w') \<and>
    crsp_PaymentId rsp = creq_IdempotencyKey q \<and> H n w'"
proof -
  obtain rsp m where cap: "pay_Capture q (ss_pays s w) = (Inr rsp, m)" "crsp_PaymentId rsp = creq_IdempotencyKey q"
    using p by (simp add: pay_Capture_def Let_def)
  have "pc_Capture (cm_paymentCli (ss_mgr s)) q w = (Inr rsp, ps_setpays (ss_pay s) m w)"
    using cap(1) by (simp add: cs_wiredD[OF ok] payment_client_def cs_upD(1)[OF up w] serve_def)
  from retry_first[OF cs_okD(5)[OF ok], of "pc_Capture (cm_paymentCli (ss_mgr s)) q", OF this]
  show ?thesis using cap(2) cs_upD(2)[OF up w] by blast
qed

lemma up_captured_tx:
  assumes ok: "cs_ok s" and up: "cs_up s H" and x: "H (Suc (Suc (Suc n))) x"
    and i: "pae_ConsignmentId e \<in> con_ID ` set (ss_docs s x)"
    and enc: "Marshal (pb_PaymentCaptured (cm_codecs (ss_mgr s))) (captured_event e) = Inr p"
  shows "\<exists>y. captured_tx (ss_mgr s) e x = (Inr (), y) \<and> H n y"
proof -
  let ?e = "cs_outbox_event PaymentCapturedTopic (pae_ConsignmentId e) p"
  from up_create[OF ok up x] obtain y where y: "mongo_CreateEvent (ss_box s) ?e x = (Inr (), y)" "H (Suc n) y" by blast
  have "ss_docs s y = ss_docs s x"
    using create_frame_box[OF ok, of ?e x "Inr ()" y] y(1) by (simp add: mongo_outbox_def docs_idle_def)
  with i have "pae_ConsignmentId e \<in> con_ID ` set (ss_docs s y)" by simp
  from up_update(1)[OF up y(2) this, of "captured_update e"] y(1) show ?thesis
    by (auto simp: captured_tx_def publishPaymentCaptured_def enc cs_wiredD[OF ok] mongo_outbox_def mongo_consignments_def captured_update_def)
qed

lemma up_captured:
  assumes ok: "cs_ok s" and up: "cs_up s H" and w: "H (Suc (Suc (Suc (Suc (Suc (Suc n)))))) w"
    and i: "pae_ConsignmentId e \<in> con_ID ` set (ss_docs s w)"
    and enc: "Marshal (pb_PaymentCaptured (cm_codecs (ss_mgr s))) (captured_event e) = Inr p"
  shows "\<exists>w'. process_captured (ss_mgr s) e w = (Inr (), w') \<and> H n w' \<and> ss_pays s w' = ss_pays s w \<and>
    handed_over (cm_codecs (ss_mgr s)) (e\<lparr>pae_PaymentCaptured := True\<rparr>) (ss_docs s w) (ss_docs s w') (ss_rows s w')"
proof -
  let ?e = "e\<lparr>pae_PaymentCaptured := True\<rparr>"
  have same: "pae_ConsignmentId ?e = pae_ConsignmentId e" "captured_event ?e = captured_event e" by (simp_all add: captured_event_def)
  from cs_upD(6)[OF up w] obtain w0 where st: "ms_StartSession (ss_client s) w = (Inr (), w0)" "H (Suc (Suc (Suc (Suc (Suc n))))) w0" by blast
  have idle: "all_idle s w w0" using cs_okD(8)[OF ok, unfolded transactions_ok_def] st(1) by blast
  have "\<exists>w1. ms_WithTransaction (ss_client s) (captured_tx (ss_mgr s) ?e) w0 = (Inr (), w1) \<and> H (Suc n) w1"
  proof (rule cs_upD(8)[OF up st(2)])
    fix x assume "H (Suc (Suc (Suc (Suc n)))) x" "docs_idle s w0 x" "events_idle s w0 x"
    with idle i show "\<exists>y. captured_tx (ss_mgr s) ?e x = (Inr (), y) \<and> H (Suc n) y"
      by (intro up_captured_tx[OF ok up]) (simp_all add: same enc idle_defs)
  qed
  then obtain w1 where tx: "ms_WithTransaction (ss_client s) (captured_tx (ss_mgr s) ?e) w0 = (Inr (), w1)" "H (Suc n) w1" by blast
  let ?w = "ms_EndSession (ss_client s) w1"
  have run: "cm_WithTransaction (ss_mgr s) (captured_tx (ss_mgr s) ?e) w = (Inr (), ?w)"
    using st(1) tx(1) by (simp add: cs_wiredD[OF ok] store_WithTransaction_def)
  have "\<forall>x q y. captured_tx (ss_mgr s) ?e x = (q, y) \<longrightarrow> ss_pays s y = ss_pays s x"
    using mgr.captured_tx_outcome(1)[OF ok] by blast
  from mgr.transaction[OF ok run this] obtain x y u where pays: "ss_pays s ?w = ss_pays s w"
    and xy: "ss_docs s x = ss_docs s w" "ss_rows s x = ss_rows s w" "captured_tx (ss_mgr s) ?e x = (Inr u, y)"
      "ss_docs s ?w = ss_docs s y" "ss_rows s ?w = ss_rows s y" by blast
  from mgr.captured_tx_outcome(2)[OF ok xy(3) refl] xy
  have "handed_over (cm_codecs (ss_mgr s)) ?e (ss_docs s w) (ss_docs s ?w) (ss_rows s ?w)" by simp
  moreover have "process_captured (ss_mgr s) e w = (Inr (), ?w)" by (simp add: process_captured_def run)
  ultimately show ?thesis using pays cs_upD(7)[OF up tx(2)] by blast
qed


text \<open>The whole handler: the payment captured under the id of the consignment, and the consignment handed over.\<close>

lemma up_authorised:
  assumes ok: "cs_ok s" and up: "cs_up s H" and w: "H (Suc (Suc (Suc (Suc (Suc (Suc (Suc n))))))) w"
    and e: "\<not> pae_PaymentCaptured e" "pae_ConsignmentId e \<in> con_ID ` set (ss_docs s w)"
    and p: "ss_pays s w (pae_PaymentAuthId e) = Some p" "pay_status p = statusAuthorised"
    and enc: "Marshal (pb_PaymentCaptured (cm_codecs (ss_mgr s))) (captured_event (e\<lparr>pae_PaymentId := pae_ConsignmentId e\<rparr>)) = Inr b"
  shows "\<exists>w'. process_authorised (ss_mgr s) e w = (Inr (), w') \<and> H n w' \<and>
    con_facts ` set (ss_docs s w') = con_facts ` set (ss_docs s w) \<and>
    paid (pae_PaymentAuthId e) (pae_ConsignmentId e) (ss_pays s w') \<and>
    queued PaymentCapturedTopic (pae_ConsignmentId e) b (ss_rows s w')"
proof -
  let ?e = "e\<lparr>pae_IdempotencyKey := pae_ConsignmentId e\<rparr>" and ?i = "pae_ConsignmentId e"
  have "ss_pays s w (creq_AuthId (capture_of e)) = Some p" by (simp add: capture_of_def p)
  from up_capture[OF ok up w this p(2)] obtain rsp w1 where
    cap: "cm_RetryCapture (ss_mgr s) (pc_Capture (cm_paymentCli (ss_mgr s)) (capture_of e)) w = (Inr rsp, w1)"
    and rsp: "crsp_PaymentId rsp = ?i" and w1: "H (Suc (Suc (Suc (Suc (Suc (Suc n)))))) w1"
    by (auto simp: capture_of_def)
  from mgr.capture_retried[OF ok cap] rsp have docs: "ss_docs s w1 = ss_docs s w"
    and pd: "paid (pae_PaymentAuthId e) ?i (ss_pays s w1)" by (auto simp: capture_of_def)
  let ?e' = "?e\<lparr>pae_PaymentId := ?i\<rparr>"
  have same: "captured_event ?e' = captured_event (e\<lparr>pae_PaymentId := ?i\<rparr>)" by (simp add: captured_event_def)
  have i: "pae_ConsignmentId ?e' \<in> con_ID ` set (ss_docs s w1)" using e(2) docs by simp
  from up_captured[OF ok up w1 i] enc obtain w' where w': "process_captured (ss_mgr s) ?e' w1 = (Inr (), w')" "H n w'"
    "ss_pays s w' = ss_pays s w1"
    "handed_over (cm_codecs (ss_mgr s)) (?e'\<lparr>pae_PaymentCaptured := True\<rparr>) (ss_docs s w1) (ss_docs s w') (ss_rows s w')"
    unfolding same by blast
  have "process_authorised (ss_mgr s) e w = (Inr (), w')"
    using e(1) cap rsp w'(1) by (simp add: process_authorised_def Let_def capture_request_key)
  moreover have "captured_event (?e'\<lparr>pae_PaymentCaptured := True\<rparr>) = captured_event (e\<lparr>pae_PaymentId := ?i\<rparr>)"
    by (simp add: captured_event_def)
  with w'(4) enc have "queued PaymentCapturedTopic ?i b (ss_rows s w')"
    and "ss_docs s w' = updated ?i (captured_update (?e'\<lparr>pae_PaymentCaptured := True\<rparr>)) (ss_docs s w)"
    by (simp_all add: handed_over_def docs)
  moreover have "map con_facts (updated ?i u cs) = map con_facts cs" for u cs
    unfolding updated_def by (rule where_update_keys) (simp add: set_fields_def con_facts_def Let_def split: option.splits)
  ultimately show ?thesis using w'(2,3) pd by (metis list.set_map)
qed

section \<open>The capacity is confirmed\<close>

text \<open>
  \<open>K w\<close>: from the world \<open>w\<close> on the servers of the reservation service are up: a deletion is answered, a
  ConfirmCapacity for a vessel that exists reaches the vessel service and succeeds, and the outbox takes
  an event whose key has none pending.
\<close>

definition rs_up :: "'r rs_system \<Rightarrow> ('r \<Rightarrow> bool) \<Rightarrow> bool" where
  "rs_up s K \<longleftrightarrow> (\<forall>w. K w \<longrightarrow>
     (\<forall>k. \<exists>n w'. rd_Del (c_client (sy_cache s)) k w = (Inr n, w') \<and> K w') \<and>
     (\<forall>q. pbr_VesselId q \<in> ID ` set (vessels_of (committed (sy_vv s) w)) \<longrightarrow>
        (\<exists>w'. sy_rpc s (vessel_ConfirmCapacity (mongo_repository (sy_mongo s)) q) w = (Inr (), w') \<and> K w')) \<and>
     (\<forall>t k p tc. \<not> pending_for t k (pg_rows (sy_db s, sy_pv s) w) \<longrightarrow> fst (pg_Insert (sy_db s) t k p tc w) = Inr ()))"

lemma rs_upD:
  assumes "rs_up s K" "K w"
  shows "\<exists>n w'. rd_Del (c_client (sy_cache s)) k w = (Inr n, w') \<and> K w'"
    and "pbr_VesselId q \<in> ID ` set (vessels_of (committed (sy_vv s) w)) \<Longrightarrow>
      \<exists>w'. sy_rpc s (vessel_ConfirmCapacity (mongo_repository (sy_mongo s)) q) w = (Inr (), w') \<and> K w'"
    and "\<not> pending_for t key (pg_rows (sy_db s, sy_pv s) w) \<Longrightarrow> fst (pg_Insert (sy_db s) t key p tc w) = Inr ()"
  using assms(1)[unfolded rs_up_def, THEN spec, THEN mp, OF assms(2)] by - (elim conjE; blast)+

text \<open>The cached reservation outlives the deletion that the handler begins with.\<close>

definition cached_until_deleted :: "'r rs_system \<Rightarrow> string \<Rightarrow> 'r \<Rightarrow> bool" where
  "cached_until_deleted s rid w \<longleftrightarrow>
     live_at (rv_now (sy_rv s) (snd (rd_Del (c_client (sy_cache s)) (data_key rid) w))) (rv_store (sy_rv s) w) (data_key rid) \<noteq> None"

lemma up_delete:
  assumes ok: "sys_ok s" and up: "rs_up s K" and w: "K w" and live: "cached_until_deleted s rid w"
  shows "\<exists>w'. cache_DeleteData (sy_cache s) rid w = (Inr True, w') \<and> K w' \<and> outbox_idle s w w' \<and> vessels_idle s w w'"
proof -
  from rs_upD(1)[OF up w] obtain n w1 where d: "rd_Del (c_client (sy_cache s)) (data_key rid) w = (Inr n, w1)" "K w1" by blast
  from sys_okD(1)[OF ok] d(1) obtain t where t: "t \<le> rv_now (sy_rv s) w1"
    "n = (if live_at t (rv_store (sy_rv s) w) (data_key rid) = None then 0 else 1)"
    by (rule del_outcome) blast
  with live d(1) have "n = 1" by (auto simp: cached_until_deleted_def live_at_def split: option.splits if_splits)
  with d independentD(1)[OF ok d(1)] show ?thesis by (simp add: cache_DeleteData_def)
qed

lemma up_event:
  assumes ok: "sys_ok s" and up: "rs_up s K" and w: "K w" and free: "\<not> pending_for t k (pg_rows (sy_db s, sy_pv s) w)"
  shows "\<exists>w'. db_CreateEvent (sy_db s) (outbox_event t k p) w = (Inr (), w') \<and>
    (t, k, p) \<in> messages (pg_rows (sy_db s, sy_pv s) w') \<and> vessels_idle s w w'"
proof -
  let ?e = "outbox_event t k p"
  obtain r w' where ins: "pg_Insert (sy_db s) t k p (pg_Inject (sy_db s) w) w = (r, w')" by fastforce
  with rs_upD(3)[OF up w free] have "r = Inr ()" by (metis fst_conv)
  with ins have run: "db_CreateEvent (sy_db s) ?e w = (Inr (), w')" by (simp add: db_CreateEvent_def outbox_event_def)
  then have run': "ob_CreateEvent (postgres_outbox (sy_db s)) ?e w = (Inr (), w')" by (simp add: postgres_outbox_def)
  have "pending_for t k (pg_rows (sy_db s, sy_pv s) w')"
    using pg.create_pending[OF sys_okD(2)[OF ok], unfolded fst_conv, OF run'] by (simp add: outbox_event_def)
  with free pg.create[OF sys_okD(2)[OF ok], unfolded fst_conv, OF run']
  have "(t, k, p) \<in> messages (pg_rows (sy_db s, sy_pv s) w')" by (auto simp: outbox_event_def)
  with run independentD(4)[OF ok ins] show ?thesis by blast
qed


text \<open>The event that asks to confirm, and the one that reports it.\<close>

definition loaded_report :: "PaymentCapturedEvent \<Rightarrow> ReservationConfirmedEvent" where
  "loaded_report e = confirmed_event (captured_to_confirm e)"

lemma up_loaded:
  assumes ok: "sys_ok s" and up: "rs_up s K" and w: "K w"
    and i: "pce_ReservationInfo e = Some i" and live: "cached_until_deleted s (evi_Id i) w"
    and vessel: "evi_VesselId i \<in> ID ` set (vessels_of (committed (sy_vv s) w))"
    and free: "\<not> pending_for rs_ReservationConfirmedTopic (pce_ConsignmentId e) (pg_rows (sy_db s, sy_pv s) w)"
    and dec: "Unmarshal (pb_PaymentCaptured (rm_codecs (sy_mgr s))) v = Inr e"
    and enc: "Marshal (pb_ReservationConfirmed (rm_codecs (sy_mgr s))) (loaded_report e) = Inr p"
  shows "\<exists>w'. handlePaymentCapturedEvent (sy_mgr s) key v w = (Inr (), w') \<and>
    (rs_ReservationConfirmedTopic, pce_ConsignmentId e, p) \<in> messages (pg_rows (sy_db s, sy_pv s) w') \<and>
    recorded (committed (sy_vv s) w') (evi_Id i) opConfirm"
proof -
  note wired = sys_okD(6)[OF ok, unfolded wired_def]
  let ?ev = "(captured_to_confirm e)\<lparr>ce_CacheCleared := True\<rparr>"
  have fields: "ev_id ?ev = evi_Id i" "ev_id (captured_to_confirm e) = evi_Id i" "ce_Action ?ev = CAPACITY_ACTION_CONFIRM"
    "ce_ConsignmentId ?ev = pce_ConsignmentId e" "confirmed_event ?ev = loaded_report e" "\<not> ce_CacheCleared (captured_to_confirm e)"
    "pbr_VesselId (capacity_request ?ev) = evi_VesselId i" "pbr_ReservationId (capacity_request ?ev) = evi_Id i"
    by (simp_all add: captured_to_confirm_def loaded_report_def confirmed_event_def capacity_request_def zero_CapacityEvent_def i
        GetId_def GetVesselId_def)
  from up_delete[OF ok up w live] obtain w1 where del: "cache_DeleteData (sy_cache s) (evi_Id i) w = (Inr True, w1)" and w1: "K w1"
    and idle1: "outbox_idle s w w1" "vessels_idle s w w1" by blast
  from rs_upD(2)[OF up w1, of "capacity_request ?ev"] vessel idle1(2) obtain w2 where
    conf: "sy_rpc s (vessel_ConfirmCapacity (mongo_repository (sy_mongo s)) (capacity_request ?ev)) w1 = (Inr (), w2)" and w2: "K w2"
    by (auto simp: fields vessels_idle_def)
  let ?f = "sy_rpc s (vessel_ConfirmCapacity (mongo_repository (sy_mongo s)) (capacity_request ?ev))"
  have "rm_Retry (sy_mgr s) ?f w1 = (Inr (), w2)" using conf by (rule retry_first[OF sys_okD(5)[OF ok], of ?f])
  then have call: "vessel_call (sys_mgr s) ?ev w1 = (Inr (), w2)"
    by (simp add: sys_vessel_call[OF sys_okD(6)[OF ok]] fields)
  have idle2: "outbox_idle s w1 w2" using sys_call_idle[OF ok call] by (simp add: both_idle_def)
  have call_of: "ev_call ?ev = Some (Confirm (MarshalCapacityRequest (capacity_request ?ev)))" unfolding ev_call_def fields by simp
  have "ev_done ?ev (committed (sy_vv s) w2)" by (rule sys_call_effect(2)[OF ok call refl])
  then have rec2: "recorded (committed (sy_vv s) w2) (evi_Id i) opConfirm"
    unfolding ev_done_def call_of call_marked_def option.case MarshalCapacityRequest_def fields by simp
  from rs_upD(1)[OF up w2] obtain n w3 where d: "rd_Del (c_client (sy_cache s)) (id_key (evi_Id i)) w2 = (Inr n, w3)" and w3: "K w3" by blast
  have idle3: "outbox_idle s w2 w3" "vessels_idle s w2 w3" using independentD(1)[OF ok d] by simp_all
  have rows: "pg_rows (sy_db s, sy_pv s) w3 = pg_rows (sy_db s, sy_pv s) w"
    using idle1(1) idle2 idle3(1) by (simp add: idle_rows)
  from up_event[OF ok up w3, of rs_ReservationConfirmedTopic "pce_ConsignmentId e" p] free rows obtain w4 where
    ev: "db_CreateEvent (sy_db s) (outbox_event rs_ReservationConfirmedTopic (pce_ConsignmentId e) p) w3 = (Inr (), w4)"
      "(rs_ReservationConfirmedTopic, pce_ConsignmentId e, p) \<in> messages (pg_rows (sy_db s, sy_pv s) w4)" "vessels_idle s w3 w4"
    by auto
  have "snd (rc_DeleteID (rm_cache (sy_mgr s)) (evi_Id i) w2) = w3"
    using d wired by (simp add: redis_cache_def cache_DeleteID_def)
  moreover have "publishReservationConfirmed (sy_mgr s) ?ev w3 = (Inr (), w4)"
    using ev(1) wired by (simp add: publishReservationConfirmed_def fields enc postgres_outbox_def)
  ultimately have "process_cleared (sy_mgr s) ?ev w1 = (Inr (), w4)"
    using call by (simp add: process_cleared_def sys_mgr_wired[OF sys_okD(6)[OF ok]] fields Let_def)
  then have "handlePaymentCapturedEvent (sy_mgr s) key v w = (Inr (), w4)"
    using del wired by (simp add: handlePaymentCapturedEvent_def dec i processCapacityEvent_def fields redis_cache_def)
  moreover have "committed (sy_vv s) w4 = committed (sy_vv s) w2" using idle3(2) ev(3) by (simp add: vessels_idle_def)
  ultimately show ?thesis using ev(2) rec2 by auto
qed

section \<open>The consignment is confirmed\<close>

lemma up_confirmed:
  assumes ok: "cs_ok s" and up: "cs_up s H" and w: "H (Suc n) w"
    and dec: "Unmarshal (pb_ReservationConfirmed (cm_codecs (ss_mgr s))) v = Inr e"
    and i: "rce_ConsignmentId e \<in> con_ID ` set (ss_docs s w)"
  shows "\<exists>w'. handleReservationConfirmedEvent (ss_mgr s) key v w = (Inr (), w') \<and> ss_pays s w' = ss_pays s w \<and>
    ss_docs s w' = set_status (rce_ConsignmentId e) StatusConfirmed (ss_docs s w)"
proof -
  from up_update(2)[OF up w i] obtain w1 where "mongo_UpdateStatus (ss_cons s) (rce_ConsignmentId e) StatusConfirmed w = (Inr (), w1)"
    by blast
  then obtain w' where run: "process_confirmed (ss_mgr s) e w = (Inr (), w')"
    by (simp add: process_confirmed_def cs_wiredD[OF ok] mongo_consignments_def)
  with mgr.process_confirmed_outcome(2,3)[OF ok run] show ?thesis by (auto simp: handleReservationConfirmedEvent_def dec)
qed


section \<open>From the confirmation to its end\<close>

text \<open>
  The events of a saga, as they follow from the consignment and the time it was confirmed at; the
  payment is captured under the id of the consignment.
\<close>

definition paid_report :: "Consignment \<Rightarrow> time \<Rightarrow> PaymentCapturedEvent" where
  "paid_report c started = captured_event ((authorised_event '''' c started)\<lparr>pae_PaymentId := con_ID c\<rparr>)"

text \<open>
  What the saga of a consignment needs of the reservation service: its reservation is cached, its
  vessel exists, no report for it waits in the outbox, and its events can be encoded.
\<close>

definition loadable :: "('c, 'r) platform \<Rightarrow> 'r \<Rightarrow> time \<Rightarrow> Consignment \<Rightarrow> bool" where
  "loadable P d started c \<longleftrightarrow>
     cached_until_deleted (pl_rs P) (con_ReservationID c) d \<and>
     con_VesselID c \<in> ID ` set (vessels_of (committed (sy_vv (pl_rs P)) d)) \<and>
     \<not> pending_for ReservationConfirmedTopic (con_ID c) (rs_rows P d) \<and>
     (\<exists>b. Marshal (pb_PaymentCaptured (pl_codecs P)) (paid_report c started) = Inr b) \<and>
     (\<exists>b. Marshal (pb_ReservationConfirmed (pl_codecs P)) (loaded_report (paid_report c started)) = Inr b)"

text \<open>The three deliveries that complete a saga, each answered with nil, and what they leave behind.\<close>

definition completes :: "('c, 'r) platform \<Rightarrow> string \<Rightarrow> 'c \<Rightarrow> 'r \<Rightarrow> 'c \<Rightarrow> 'r \<Rightarrow> message set \<Rightarrow> bool" where
  "completes P i c d c' d' ms \<longleftrightarrow> (\<exists>v1 v2 v3 c1.
     ms = {(ConsignmentPaymentAuthorisedTopic, i, v1), (PaymentCapturedTopic, i, v2), (ReservationConfirmedTopic, i, v3)} \<and>
     (ConsignmentPaymentAuthorisedTopic, i, v1) \<in> messages (ss_rows (pl_cs P) c) \<and>
     handlePaymentAuthorisedEvent (ss_mgr (pl_cs P)) i v1 c = (Inr (), c1) \<and>
     (PaymentCapturedTopic, i, v2) \<in> messages (ss_rows (pl_cs P) c1) \<and>
     handlePaymentCapturedEvent (sy_mgr (pl_rs P)) i v2 d = (Inr (), d') \<and>
     (ReservationConfirmedTopic, i, v3) \<in> messages (rs_rows P d') \<and>
     handleReservationConfirmedEvent (ss_mgr (pl_cs P)) i v3 c1 = (Inr (), c'))"

lemma completesI:
  assumes "(ConsignmentPaymentAuthorisedTopic, i, v1) \<in> messages (ss_rows (pl_cs P) c)"
    and "handlePaymentAuthorisedEvent (ss_mgr (pl_cs P)) i v1 c = (Inr (), c1)"
    and "(PaymentCapturedTopic, i, v2) \<in> messages (ss_rows (pl_cs P) c1)"
    and "handlePaymentCapturedEvent (sy_mgr (pl_rs P)) i v2 d = (Inr (), d')"
    and "(ReservationConfirmedTopic, i, v3) \<in> messages (rs_rows P d')"
    and "handleReservationConfirmedEvent (ss_mgr (pl_cs P)) i v3 c1 = (Inr (), c')"
  shows "completes P i c d c' d' {(ConsignmentPaymentAuthorisedTopic, i, v1), (PaymentCapturedTopic, i, v2), (ReservationConfirmedTopic, i, v3)}"
  unfolding completes_def by (rule exI[of _ v1], rule exI[of _ v2], rule exI[of _ v3], rule exI[of _ c1]) (simp add: assms)

lemma queued_message: "queued t k p rs \<Longrightarrow> (t, k, p) \<in> messages rs"
  by (force simp: queued_def messages_def)

text \<open>The deliveries, in order, are a run of the platform.\<close>

lemma completes_run:
  assumes "completes P i c d c' d' ms"
  shows "saga_run P \<lparr>st_cs = c, st_rs = d, st_log = log\<rparr> \<lparr>st_cs = c', st_rs = d', st_log = ms \<union> log\<rparr>"
proof -
  from assms obtain v1 v2 v3 c1 where ms: "ms = {(ConsignmentPaymentAuthorisedTopic, i, v1), (PaymentCapturedTopic, i, v2), (ReservationConfirmedTopic, i, v3)}"
    and a: "(ConsignmentPaymentAuthorisedTopic, i, v1) \<in> messages (ss_rows (pl_cs P) c)"
      "handlePaymentAuthorisedEvent (ss_mgr (pl_cs P)) i v1 c = (Inr (), c1)"
    and b: "(PaymentCapturedTopic, i, v2) \<in> messages (ss_rows (pl_cs P) c1)"
      "handlePaymentCapturedEvent (sy_mgr (pl_rs P)) i v2 d = (Inr (), d')"
    and l: "(ReservationConfirmedTopic, i, v3) \<in> messages (rs_rows P d')"
      "handleReservationConfirmedEvent (ss_mgr (pl_cs P)) i v3 c1 = (Inr (), c')"
    unfolding completes_def by blast
  let ?m1 = "(ConsignmentPaymentAuthorisedTopic, i, v1)" and ?m2 = "(PaymentCapturedTopic, i, v2)" and ?m3 = "(ReservationConfirmedTopic, i, v3)"
  let ?s0 = "\<lparr>st_cs = c, st_rs = d, st_log = log\<rparr>" and ?s1 = "\<lparr>st_cs = c, st_rs = d, st_log = insert ?m1 log\<rparr>"
    and ?s2 = "\<lparr>st_cs = c1, st_rs = d, st_log = insert ?m1 log\<rparr>" and ?s3 = "\<lparr>st_cs = c1, st_rs = d, st_log = insert ?m2 (insert ?m1 log)\<rparr>"
    and ?s4 = "\<lparr>st_cs = c1, st_rs = d', st_log = insert ?m2 (insert ?m1 log)\<rparr>"
    and ?s5 = "\<lparr>st_cs = c1, st_rs = d', st_log = insert ?m3 (insert ?m2 (insert ?m1 log))\<rparr>"
    and ?s6 = "\<lparr>st_cs = c', st_rs = d', st_log = insert ?m3 (insert ?m2 (insert ?m1 log))\<rparr>"
  have captured: "rs_handlers (sy_mgr (pl_rs P)) PaymentCapturedTopic = Some (handlePaymentCapturedEvent (sy_mgr (pl_rs P)))"
    by (simp add: rs_handlers_def topics)
  have "saga_step P ?s0 ?s1" using saga_step.produce[of ?m1 P ?s0] a(1) by simp
  moreover have "saga_step P ?s1 ?s2" using saga_step.cs_event[OF _ cs_handlers_at(1), of i v1 ?s1 P "Inr ()" c1] a(2) by simp
  moreover have "saga_step P ?s2 ?s3" using saga_step.produce[of ?m2 P ?s2] b(1) by simp
  moreover have "saga_step P ?s3 ?s4" using saga_step.rs_event[OF _ captured, of i v2 ?s3 "Inr ()" d'] b(2) by simp
  moreover have "saga_step P ?s4 ?s5" using saga_step.produce[of ?m3 P ?s4] l(1) by simp
  moreover have "saga_step P ?s5 ?s6" using saga_step.cs_event[OF _ cs_handlers_at(4), of i v3 ?s5 P "Inr ()" c'] l(2) by simp
  ultimately have "saga_run P ?s0 ?s6" by (meson saga_run.intros)
  moreover have "?s6 = \<lparr>st_cs = c', st_rs = d', st_log = ms \<union> log\<rparr>" by (simp add: ms insert_commute)
  ultimately show ?thesis by simp
qed


lemma completion:
  assumes ok: "platform_ok P" and confirm: "ConfirmConsignment (ss_hdl (pl_cs P)) req c0 = (Inr rsp, c)"
    and cs: "cs_up (pl_cs P) H" "H 8 c" and rs: "rs_up (pl_rs P) K" "K d"
    and load: "\<forall>x \<in> set (ss_docs (pl_cs P) c0). con_ID x = cfr_Id req \<longrightarrow> loadable P d (ch_Now (ss_hdl (pl_cs P)) c0) x"
  shows "\<exists>c' d' ms x. completes P (cfr_Id req) c d c' d' ms \<and> x \<in> set (ss_docs (pl_cs P) c') \<and> con_ID x = cfr_Id req \<and>
    con_Status x = StatusConfirmed \<and> paid_for (ss_pays (pl_cs P) c') (con_ID x) (con_ID x) \<and>
    recorded (committed (sy_vv (pl_rs P)) d') (con_ReservationID x) opConfirm"
proof -
  note C = platform_okD(1)[OF ok] and R = platform_okD(2)[OF ok] and cod = platform_okD(3)[OF ok] and cods = platform_okD(4)[OF ok, unfolded codecs_ok_def]
  let ?s = "pl_cs P" and ?i = "cfr_Id req" and ?now = "ch_Now (ss_hdl (pl_cs P)) c0"
  from confirm_saga_core[OF C confirm] obtain x a b where docs: "ss_docs ?s c = ss_docs ?s c0"
    and x: "x \<in> set (ss_docs ?s c0)" "con_ID x = ?i"
    and auth: "authorise_effect (authorise_request x) a (ss_pays ?s c0) (ss_pays ?s c)"
    and b: "Marshal (pb_PaymentAuthorised (pl_codecs P)) (authorised_event a x ?now) = Inr b"
      "queued ConsignmentPaymentAuthorisedTopic (con_ID x) b (ss_rows ?s c)" by auto
  from load x obtain b2 b3 where live: "cached_until_deleted (pl_rs P) (con_ReservationID x) d"
    and vessel: "con_VesselID x \<in> ID ` set (vessels_of (committed (sy_vv (pl_rs P)) d))"
    and free: "\<not> pending_for ReservationConfirmedTopic (con_ID x) (rs_rows P d)"
    and b2: "Marshal (pb_PaymentCaptured (pl_codecs P)) (paid_report x ?now) = Inr b2"
    and b3: "Marshal (pb_ReservationConfirmed (pl_codecs P)) (loaded_report (paid_report x ?now)) = Inr b3"
    by (auto simp: loadable_def)
  let ?e = "authorised_event a x ?now"
  have e: "pae_ConsignmentId ?e = ?i" "pae_PaymentAuthId ?e = a" "\<not> pae_PaymentCaptured ?e"
    "captured_event (?e\<lparr>pae_PaymentId := ?i\<rparr>) = paid_report x ?now"
    by (simp_all add: authorised_event_def zero_PaymentAuthorisedEvent_def x(2) paid_report_def captured_event_def)
  obtain p where p: "ss_pays ?s c a = Some p" "pay_status p = statusAuthorised" "pay_consignmentID p = ?i"
    using auth by (auto simp: authorise_effect_def pay_Authorise_def authorise_request_def x(2))
  have 8: "H (Suc (Suc (Suc (Suc (Suc (Suc (Suc (Suc 0)))))))) c" using cs(2) by (simp add: eval_nat_numeral)
  have "\<exists>c1. process_authorised (ss_mgr ?s) ?e c = (Inr (), c1) \<and> H (Suc 0) c1 \<and>
      con_facts ` set (ss_docs ?s c1) = con_facts ` set (ss_docs ?s c) \<and> paid a ?i (ss_pays ?s c1) \<and>
      queued PaymentCapturedTopic ?i b2 (ss_rows ?s c1)"
    using up_authorised[OF C cs(1) 8, of ?e p b2] x p b2 by (force simp: e docs)
  then obtain c1 where c1: "process_authorised (ss_mgr ?s) ?e c = (Inr (), c1)" "H (Suc 0) c1"
      "con_facts ` set (ss_docs ?s c1) = con_facts ` set (ss_docs ?s c)" "paid a ?i (ss_pays ?s c1)"
      "queued PaymentCapturedTopic ?i b2 (ss_rows ?s c1)" by blast
  have run1: "handlePaymentAuthorisedEvent (ss_mgr ?s) ?i b c = (Inr (), c1)"
    using c1(1) codec_okD[of "pb_PaymentAuthorised (pl_codecs P)"] cods b(1) by (simp add: handlePaymentAuthorisedEvent_def)
  have info: "pce_ReservationInfo (paid_report x ?now) = Some \<lparr>evi_Id = con_ReservationID x, evi_VesselId = con_VesselID x,
      evi_ConsignmentId = '''', evi_NumberOfContainers = int32_len (con_Containers x), evi_Weight = con_Weight x\<rparr>"
    and cid: "pce_ConsignmentId (paid_report x ?now) = ?i" "rce_ConsignmentId (loaded_report (paid_report x ?now)) = ?i"
    by (simp_all add: paid_report_def captured_event_def authorised_event_def x(2) loaded_report_def confirmed_event_def captured_to_confirm_def)
  have dec2: "Unmarshal (pb_PaymentCaptured (rm_codecs (sy_mgr (pl_rs P)))) b2 = Inr (paid_report x ?now)"
    using codec_okD[of "pb_PaymentCaptured (pl_codecs P)"] cods b2 by (simp add: cod)
  have "\<exists>d'. handlePaymentCapturedEvent (sy_mgr (pl_rs P)) ?i b2 d = (Inr (), d') \<and>
      (ReservationConfirmedTopic, ?i, b3) \<in> messages (rs_rows P d') \<and>
      recorded (committed (sy_vv (pl_rs P)) d') (con_ReservationID x) opConfirm"
    using up_loaded[OF R rs info _ _ _ dec2, of b3 ?i] live vessel free b3 by (simp add: shared_topics cid cod x(2))
  then obtain d' where d': "handlePaymentCapturedEvent (sy_mgr (pl_rs P)) ?i b2 d = (Inr (), d')"
    "(ReservationConfirmedTopic, ?i, b3) \<in> messages (rs_rows P d')" "recorded (committed (sy_vv (pl_rs P)) d') (con_ReservationID x) opConfirm"
    by blast
  have "con_facts x \<in> con_facts ` set (ss_docs ?s c1)" using x(1) by (simp add: c1(3) docs)
  then obtain y where y: "y \<in> set (ss_docs ?s c1)" "con_facts y = con_facts x" by force
  then have y_ids: "con_ID y = ?i" "con_ReservationID y = con_ReservationID x" using x(2) by (simp_all add: con_facts_def)
  have dec3: "Unmarshal (pb_ReservationConfirmed (pl_codecs P)) b3 = Inr (loaded_report (paid_report x ?now))"
    using codec_okD[of "pb_ReservationConfirmed (pl_codecs P)"] cods b3 by simp
  have "\<exists>c2. handleReservationConfirmedEvent (ss_mgr ?s) ?i b3 c1 = (Inr (), c2) \<and> ss_pays ?s c2 = ss_pays ?s c1 \<and>
      ss_docs ?s c2 = set_status ?i StatusConfirmed (ss_docs ?s c1)"
    using up_confirmed[OF C cs(1) c1(2) dec3, of ?i] y(1) y_ids(1) by (force simp: cid)
  then obtain c2 where c2: "handleReservationConfirmedEvent (ss_mgr ?s) ?i b3 c1 = (Inr (), c2)" "ss_pays ?s c2 = ss_pays ?s c1"
      "ss_docs ?s c2 = set_status ?i StatusConfirmed (ss_docs ?s c1)" by blast
  have "completes P ?i c d c2 d' {(ConsignmentPaymentAuthorisedTopic, ?i, b), (PaymentCapturedTopic, ?i, b2), (ReservationConfirmedTopic, ?i, b3)}"
    by (rule completesI[OF queued_message[OF b(2), unfolded x(2)] run1 queued_message[OF c1(5)] d'(1,2) c2(1)])
  moreover have "y\<lparr>con_Status := StatusConfirmed\<rparr> \<in> set (ss_docs ?s c2)"
    using y(1) y_ids(1) by (force simp: c2(3) set_status_def where_update_def)
  moreover have "paid_for (ss_pays ?s c2) ?i ?i"
  proof -
    have "pays_grow (ss_pays ?s c) (ss_pays ?s c1)" using mgr.process_authorised_outcome(1)[OF C c1(1)] by (rule once_grow)
    with p(1,3) obtain p' where "ss_pays ?s c1 a = Some p'" "pay_consignmentID p' = ?i" by (fastforce simp: pays_grow_def pay_advances_def)
    with c1(4) show ?thesis by (auto simp: paid_def paid_for_def c2(2))
  qed
  ultimately show ?thesis using d'(3) y_ids
    by (intro exI[of _ c2] exI[of _ d'] exI exI[of _ "y\<lparr>con_Status := StatusConfirmed\<rparr>"] conjI) simp_all
qed


section \<open>The in-memory systems are up\<close>

definition mem_up :: "nat \<Rightarrow> smem \<Rightarrow> bool" where
  "mem_up n w \<longleftrightarrow> \<not> sx_box_down w \<and> \<not> sx_pay_lost w \<and> cons_okl (sx_cons w) \<and> box_okl (sx_box w) \<and> length (sx_box w) + n < 2 ^ 100"

lemma mem_up_less: "mem_up (Suc n) w \<Longrightarrow> mem_up n w"
  by (simp add: mem_up_def)

lemma mem_up_insert:
  assumes up: "mem_up (Suc n) w" and x: "od_Id x = uuid_String mem_uuid i" "od_Id x \<notin> od_Id ` set (coll_view box_okl (sx_box w))"
  shows "\<exists>w'. mo_InsertOne mem_box x w = (Inr (), w') \<and> mem_up n w'"
proof -
  have "od_Id x = uuid_String mem_uuid (of_nat (parse_digits (od_Id x)))" using x(1) by (simp add: mem_uuid_def parse_nat_digits)
  moreover have "box_okl (sx_box w)" "length (sx_box w) + Suc n < 2 ^ 100" using up by (simp_all add: mem_up_def)
  ultimately have "box_okl (sx_box w @ [x])" using x(2) by (simp add: box_okl_def coll_view_def)
  with up show ?thesis by (simp add: mem_box_def mem_up_def coll_write_def put_box_def)
qed

lemma mem_up_update:
  assumes up: "mem_up (Suc n) w" and i: "i \<in> con_ID ` set (coll_view cons_okl (sx_cons w))"
  shows "\<exists>k w'. cc_UpdateOne mem_collection (\<lambda>c. con_ID c = i) (set_fields u) w = (Inr (Suc k), w') \<and> mem_up n w'"
proof -
  have okl: "cons_okl (sx_cons w)" using up by (simp add: mem_up_def)
  with i have "list_ex (\<lambda>c. con_ID c = i) (sx_cons w)" by (auto simp: coll_view_def list_ex_iff)
  then obtain j where j: "first_index (\<lambda>c. con_ID c = i) (sx_cons w) = Some j" using first_index_None by (metis not_None_eq)
  have "map con_ID ((sx_cons w)[j := set_fields u (sx_cons w ! j)]) = map con_ID (sx_cons w)"
    using first_index_Some[OF j] by (metis list_update_id map_update nth_map set_fields_id)
  with okl have "cons_okl ((sx_cons w)[j := set_fields u (sx_cons w ! j)])" by (simp add: cons_okl_def)
  with okl j up show ?thesis
    by (simp add: mem_collection_def coll_update_one_def coll_view_def coll_write_def put_cons_def mem_up_def)
qed

lemma mem_cs_up: "cs_up mem_cs mem_up"
  unfolding cs_up_def mem_cs_select
proof (intro allI impI conjI)
  fix n w assume up: "mem_up (Suc n) w"
  note less = mem_up_less[OF up]
  show "ps_rpc_capture mem_pay f w = f w" for f using up by (simp add: mem_pay_def lossy_def mem_up_def)
  show "mem_up n (ps_setpays mem_pay m w)" for m using less by (simp add: mem_pay_def mem_up_def)
  show "mem_up n (snd (mo_NewUUID mem_box w))" using less by (simp add: mem_box_def)
  show "\<exists>w'. mo_InsertOne mem_box x w = (Inr (), w') \<and> mem_up n w'"
    if "od_Id x = uuid_String (mo_uuid mem_box) i \<and> od_Id x \<notin> od_Id ` set (mv_docs mem_ov w)" for x i
    by (rule mem_up_insert[OF up, of x i]) (use that in \<open>auto simp: mem_ov_def mem_box_def\<close>)
  show "\<exists>k w'. cc_UpdateOne mem_collection (\<lambda>c. con_ID c = i) (set_fields u) w = (Inr (Suc k), w') \<and> mem_up n w'"
    if "i \<in> con_ID ` set (cv_docs mem_cv w)" for i u
    using mem_up_update[OF up, of i u] that by (simp add: mem_cv_def)
  show "\<exists>w'. ms_StartSession mem_client w = (Inr (), w') \<and> mem_up n w'" "mem_up n (ms_EndSession mem_client w)"
    using less by (simp_all add: mem_client_def)
  show "\<exists>w'. ms_WithTransaction mem_client fn w = (Inr (), w') \<and> mem_up m w'"
    if "\<forall>x. mem_up n x \<and> docs_idle mem_cs w x \<and> events_idle mem_cs w x \<longrightarrow> (\<exists>y. fn x = (Inr (), y) \<and> mem_up m y)" for fn m
  proof -
    from that less obtain y where "fn w = (Inr (), y)" "mem_up m y" by (auto simp: idle_defs)
    then show ?thesis by (simp add: mem_client_def)
  qed
qed

definition mem_rs_running :: "rmem \<Rightarrow> bool" where
  "mem_rs_running w \<longleftrightarrow> \<not> rx_del_lost w \<and> \<not> rx_outbox_down w \<and> \<not> rx_vessel_down w \<and> mx_valid w \<and>
     of_nat (length (rx_rows w)) \<notin> pgr_id ` set (rx_rows w) \<and> \<not> m_commit_lost (rx_mongo w)"

lemma mem_confirm_up:
  assumes up: "mem_rs_running w" and v: "pbr_VesselId q \<in> ID ` set (vessels_of (m_db (rx_mongo w)))"
  shows "\<exists>w'. vessel_ConfirmCapacity (mongo_repository sys_mongo) q w = (Inr (), w') \<and> mem_rs_running w'"
proof -
  have "list_ex (has_id (pbr_VesselId q)) (vessels_of (m_db (rx_mongo w)))" using v by (auto simp: has_id_def list_ex_iff)
  then obtain j where j: "first_index (has_id (pbr_VesselId q)) (vessels_of (m_db (rx_mongo w))) = Some j"
    using first_index_None by (metis not_None_eq)
  have run: "mem_rs_running (w\<lparr>rx_mongo := m\<rparr>)" if "\<not> m_commit_lost m" for m
    using up that by (simp add: mem_rs_running_def mx_valid_def)
  have lost: "\<not> m_commit_lost (rx_mongo w)" using up by (simp add: mem_rs_running_def)
  show ?thesis
    by (cases "recorded (m_db (rx_mongo w)) (pbr_ReservationId q) opConfirm")
      (simp_all add: vessel_ConfirmCapacity_def mongo_repository_def repo_ConfirmCapacity_def confirm_body_def sys_mongo_def in_mongo_def
        mem_defs MarshalCapacityRequest_def capacity_operation_def j lost run Let_def)
qed

lemma load_sys_up: "rs_up load_sys mem_rs_running"
  unfolding rs_up_def load_select
proof (intro allI impI conjI)
  fix w assume up: "mem_rs_running w"
  show "\<exists>n w'. rd_Del (c_client mem_cache) k w = (Inr n, w') \<and> mem_rs_running w'" for k
    using up by (simp add: mem_cache_def mem_redis_def mem_rs_running_def mx_del_def mx_valid_def)
  show "\<exists>w'. mem_rpc (vessel_ConfirmCapacity (mongo_repository sys_mongo) q) w = (Inr (), w') \<and> mem_rs_running w'"
    if "pbr_VesselId q \<in> ID ` set (vessels_of (committed sys_vv w))" for q
    using mem_confirm_up[OF up] up that by (simp add: mem_rpc_def mem_rs_running_def sys_vv_def)
  show "fst (pg_Insert mem_pg t k p tc w) = Inr ()" if "\<not> pending_for t k (pg_rows (mem_pg, mem_pv) w)" for t k p tc
    using up that by (simp add: mem_pg_def mem_rs_running_def pg_rows_def pending_abs mem_pv_def)
qed


section \<open>The property\<close>

lemma saga_run_trans: "saga_run P s2 s3 \<Longrightarrow> saga_run P s1 s2 \<Longrightarrow> saga_run P s1 s3"
  by (induction rule: saga_run.induct) (auto intro: saga_run.intros)

text \<open>
  C3. A confirmation that was accepted can be completed, from any state of the platform. When
  ConfirmConsignment has succeeded, the next eight calls of the consignment service succeed, the servers of
  the reservation service are up, the consignment's reservation is cached and its vessel exists, then three
  deliveries (the authorisation, the captured payment, the confirmed reservation), each of a message that
  the one before has queued and each answered with nil, form a run of the saga at whose end the consignment
  is confirmed, its payment is captured, and its capacity is recorded as confirmed.
\<close>

theorem accepted_confirmation_completes:
  assumes ok: "platform_ok P" and confirm: "ConfirmConsignment (ss_hdl (pl_cs P)) req (st_cs s) = (Inr rsp, c)"
    and cs: "cs_up (pl_cs P) H" "H 8 c" and rs: "rs_up (pl_rs P) K" "K (st_rs s)"
    and load: "\<forall>x \<in> set (st_docs P s). con_ID x = cfr_Id req \<longrightarrow> loadable P (st_rs s) (ch_Now (ss_hdl (pl_cs P)) (st_cs s)) x"
  shows "\<exists>s' ms x. completes P (cfr_Id req) c (st_rs s) (st_cs s') (st_rs s') ms \<and> st_log s' = ms \<union> st_log s \<and> saga_run P s s' \<and>
    x \<in> set (st_docs P s') \<and> con_ID x = cfr_Id req \<and> con_Status x = StatusConfirmed \<and>
    paid_for (st_pays P s') (con_ID x) (con_ID x) \<and> recorded (st_cap P s') (con_ReservationID x) opConfirm"
proof -
  from completion[OF ok confirm cs rs load] obtain c' d' ms x where
    fin: "completes P (cfr_Id req) c (st_rs s) c' d' ms"
    and x: "x \<in> set (ss_docs (pl_cs P) c')" "con_ID x = cfr_Id req" "con_Status x = StatusConfirmed"
      "paid_for (ss_pays (pl_cs P) c') (con_ID x) (con_ID x)" "recorded (committed (sy_vv (pl_rs P)) d') (con_ReservationID x) opConfirm"
    by blast
  have "saga_run P s (s\<lparr>st_cs := c\<rparr>)" by (rule saga_run.more[OF saga_run.none saga_step.confirm[OF confirm]])
  moreover have "s\<lparr>st_cs := c\<rparr> = \<lparr>st_cs = c, st_rs = st_rs s, st_log = st_log s\<rparr>" by simp
  ultimately have "saga_run P s \<lparr>st_cs = c', st_rs = d', st_log = ms \<union> st_log s\<rparr>"
    using saga_run_trans[OF completes_run[OF fin]] by simp
  with fin x show ?thesis
    by (intro exI[of _ "\<lparr>st_cs = c', st_rs = d', st_log = ms \<union> st_log s\<rparr>"] exI[of _ ms] exI[of _ x] conjI) simp_all
qed

lemma accepted_confirmation_completes_witness:
  "\<exists>s' ms x. completes mem_platform ''c1'' (cs_at [sample_con] [first_doc] [''a'' \<mapsto> auth_pay] False) reserved_rmem (st_cs s') (st_rs s') ms \<and>
     x \<in> set (st_docs mem_platform s') \<and> con_ID x = ''c1'' \<and> con_Status x = StatusConfirmed"
proof -
  have confirm: "ConfirmConsignment (ss_hdl (pl_cs mem_platform)) \<lparr>cfr_Id = ''c1''\<rparr> (st_cs saga_start) =
      (Inr \<lparr>cfs_Confirmed = True\<rparr>, cs_at [sample_con] [first_doc] [''a'' \<mapsto> auth_pay] False)"
    using run_confirm by (simp add: saga_start_def)
  have up: "mem_up 8 (cs_at [sample_con] [first_doc] [''a'' \<mapsto> auth_pay] False)"
    using docs_okl(1) by (simp add: mem_up_def cs_at_select cons_okl_def)
  have rs: "mem_rs_running (st_rs saga_start)"
    by (simp add: saga_start_def reserved_rmem_def mem_rs_running_def rs_at_def mx_valid_def)
  have docs: "st_docs mem_platform saga_start = [sample_con]"
    by (simp add: saga_start_def no_pay_def mem_cv_def coll_view_def cons_okl_def)
  have now: "ch_Now (ss_hdl (pl_cs mem_platform)) (st_cs saga_start) = 0" by (simp add: saga_start_def no_pay_def cs_hdl_def)
  have paid: "paid_report sample_con 0 = paid_event"
    by (simp add: paid_report_def paid_event_def sample_auth_def captured_event_def authorised_event_def zero_PaymentAuthorisedEvent_def)
      (simp add: sample_con_def)
  have codes: "Marshal (pb_PaymentCaptured cs_codecs) paid_event = Inr ''captured''" "loaded_report paid_event = loaded_event"
    using load_confirm(5) by (simp_all add: cs_codecs_def table_codec_def paid_event_def loaded_report_def confirmed_event_def)
  have "loadable mem_platform (st_rs saga_start) 0 sample_con"
    using codes load_codecs(3) by (simp add: loadable_def paid)
      (simp add: cached_until_deleted_def saga_start_def reserved_rmem_def mem_cache_def mem_redis_def mem_rv_def rs_at_def live_at_def load_keys
        sample_con_def sys_vv_def reserved_db_def pg_rows_def mem_pv_def mx_valid_def mx_del_def pending_for_def)
  then have load: "\<forall>x \<in> set (st_docs mem_platform saga_start). con_ID x = cfr_Id \<lparr>cfr_Id = ''c1''\<rparr> \<longrightarrow>
      loadable mem_platform (st_rs saga_start) (ch_Now (ss_hdl (pl_cs mem_platform)) (st_cs saga_start)) x"
    unfolding docs now by simp
  have laws: "cs_up (pl_cs mem_platform) mem_up" "rs_up (pl_rs mem_platform) mem_rs_running" using mem_cs_up load_sys_up by simp_all
  from accepted_confirmation_completes[OF mem_platform_ok confirm laws(1) up laws(2) rs load] obtain s' ms x where
    "completes mem_platform (cfr_Id \<lparr>cfr_Id = ''c1''\<rparr>) (cs_at [sample_con] [first_doc] [''a'' \<mapsto> auth_pay] False) (st_rs saga_start)
       (st_cs s') (st_rs s') ms" "x \<in> set (st_docs mem_platform s')" "con_ID x = cfr_Id \<lparr>cfr_Id = ''c1''\<rparr>" "con_Status x = StatusConfirmed"
    by blast
  then show ?thesis by (intro exI[of _ s'] exI[of _ ms] exI[of _ x] conjI) (simp_all add: saga_start_def)
qed

end
