(* ===== verification/Command_Line.thy ===== *)
theory Command_Line
  imports Mains Gateway_Memory Consignment_Properties
begin

text \<open>
  The two command line clients: \<open>cmd/consignment-cli\<close>, which creates a consignment from a JSON file and
  lists the consignments, and \<open>cmd/user-cli\<close>, which creates a user and then lists and authenticates
  every user. Both call their service directly. File system, JSON decoder, flag parser and the gRPC
  stubs are parameters; what the programs print is part of their result.
\<close>

section \<open>What a client does and prints\<close>

datatype line = CreatedConsignment bool | AConsignment PbConsignment
  | CreatedUser string | AUser PbUser | AToken string

text \<open>A run ends as the main functions do, and has printed some lines.\<close>

type_synonym 'w cli_run = "line list \<times> 'w exit"

text \<open>A nil pointer dereference.\<close>

definition nil_dereference :: goerr where
  "nil_dereference = ErrNew ''invalid memory address or nil pointer dereference''"

section \<open>consignment-cli\<close>

text \<open>
  The stub of the consignment service: the metadata of the context go with the call. A message may be
  a nil pointer.
\<close>

type_synonym metadata = "(string \<times> string) list"

record 'w ConsignmentStub =
  cst_CreateConsignment :: "metadata \<Rightarrow> PbConsignment option \<Rightarrow> 'w \<Rightarrow> (goerr + PbResponse) \<times> 'w"
  cst_GetConsignments :: "metadata \<Rightarrow> 'w \<Rightarrow> (goerr + PbResponse) \<times> 'w"

record ('k, 'w) ConsignmentCli =
  cl_NewClient :: "string \<Rightarrow> 'w \<Rightarrow> (goerr + 'k) \<times> 'w"
  cl_Close :: "'k \<Rightarrow> 'w \<Rightarrow> 'w"
  cl_stub :: "'k \<Rightarrow> 'w ConsignmentStub"
  cl_ReadFile :: "string \<Rightarrow> 'w \<Rightarrow> (goerr + bytes) \<times> 'w"
  cl_json :: "bytes \<Rightarrow> goerr + PbConsignment option"

text \<open>The JSON text \<open>null\<close> is a nil consignment without an error.\<close>

definition parseFile :: "('k, 'w) ConsignmentCli \<Rightarrow> string \<Rightarrow> 'w \<Rightarrow> (goerr + PbConsignment option) \<times> 'w" where
  "parseFile C f w =
    (case cl_ReadFile C f w of
       (Inl err, w1) \<Rightarrow> (Inl err, w1)
     | (Inr data, w1) \<Rightarrow> (cl_json C data, w1))"

text \<open>From the parsed file on; \<open>log.Fatalf\<close> ends the process without closing the connection.\<close>

definition create_and_list :: "('k, 'w) ConsignmentCli \<Rightarrow> 'k \<Rightarrow> metadata \<Rightarrow> PbConsignment option \<Rightarrow> 'w \<Rightarrow> 'w cli_run" where
  "create_and_list C conn ctx consignment w =
    (case cst_CreateConsignment (cl_stub C conn) ctx consignment w of
       (Inl err, w1) \<Rightarrow> ([], Fatal (Errorf ''CreateConsignment RPC failed'' [err]) w1)
     | (Inr res, w1) \<Rightarrow>
       (case cst_GetConsignments (cl_stub C conn) ctx w1 of
          (Inl err, w2) \<Rightarrow>
            ([CreatedConsignment (prs_Created res)], Fatal (Errorf ''GetConsignments RPC failed'' [err]) w2)
        | (Inr all, w2) \<Rightarrow>
            (CreatedConsignment (prs_Created res) # map AConsignment (prs_Consignments all), Ended (cl_Close C conn w2))))"

definition consignment_cli_main ::
  "('k, 'w) ConsignmentCli \<Rightarrow> (string \<Rightarrow> string) \<Rightarrow> string list \<Rightarrow> 'w \<Rightarrow> 'w cli_run" where
  "consignment_cli_main C env args w =
    (case cl_NewClient C (getenv_or env ''SERVICE_ADDRESS'' ''localhost:50051'') w of
       (Inl err, w1) \<Rightarrow> ([], Fatal (Errorf ''failed to connect'' [err]) w1)
     | (Inr conn, w1) \<Rightarrow>
         if length args < 3 then ([], Fatal (ErrNew ''not enough arguments, expecting file and token'') w1)
         else
           (case parseFile C (args ! 1) w1 of
              (Inl err, w2) \<Rightarrow> ([], Fatal (Errorf ''Could not parse file'' [err]) w2)
            | (Inr consignment, w2) \<Rightarrow> create_and_list C conn [(''token'', args ! 2)] consignment w2))"

section \<open>user-cli\<close>

record 'w UserStub =
  ust_Create :: "PbUser \<Rightarrow> 'w \<Rightarrow> (goerr + UserResponse) \<times> 'w"
  ust_GetAll :: "'w \<Rightarrow> (goerr + UserResponse) \<times> 'w"
  ust_Auth :: "PbUser \<Rightarrow> 'w \<Rightarrow> (goerr + Token) \<times> 'w"

text \<open>
  The flags, as the library leaves them in the four variables: parsing fails, or answers a request
  for help itself, or calls the action.
\<close>

record cli_flags =
  fl_name :: string
  fl_email :: string
  fl_password :: string
  fl_company :: string

record ('k, 'w) UserCli =
  ul_NewClient :: "string \<Rightarrow> 'w \<Rightarrow> (goerr + 'k) \<times> 'w"
  ul_Close :: "'k \<Rightarrow> 'w \<Rightarrow> 'w"
  ul_stub :: "'k \<Rightarrow> 'w UserStub"
  ul_flags :: "string list \<Rightarrow> goerr + cli_flags option"

definition cli_user :: "cli_flags \<Rightarrow> PbUser" where
  "cli_user f = \<lparr>pus_Id = '''', pus_Name = fl_name f, pus_Company = fl_company f, pus_Email = fl_email f, pus_Password = fl_password f\<rparr>"

definition cli_login :: "cli_flags \<Rightarrow> PbUser \<Rightarrow> PbUser" where
  "cli_login f user = \<lparr>pus_Id = '''', pus_Name = '''', pus_Company = '''', pus_Email = pus_Email user, pus_Password = fl_password f\<rparr>"

text \<open>The loop over the users; the error names the email of the flag, not the user's.\<close>

fun auth_all :: "'w UserStub \<Rightarrow> cli_flags \<Rightarrow> PbUser list \<Rightarrow> 'w \<Rightarrow> line list \<times> (goerr + unit) \<times> 'w" where
  "auth_all st f [] w = ([], Inr (), w)"
| "auth_all st f (user # users) w =
    (case ust_Auth st (cli_login f user) w of
       (Inl err, w1) \<Rightarrow> ([AUser user], Inl (Errorf (''Could not authenticate user: '' @ fl_email f) [err]), w1)
     | (Inr t, w1) \<Rightarrow>
         (case auth_all st f users w1 of (out, q, w2) \<Rightarrow> (AUser user # AToken (tok_Token t) # out, q, w2)))"

text \<open>The action, with \<open>log.Fatal\<close> of its error in \<open>main\<close>; \<open>res.User.Id\<close> dereferences a pointer.\<close>

definition user_cli_action :: "('k, 'w) UserCli \<Rightarrow> 'k \<Rightarrow> cli_flags \<Rightarrow> 'w \<Rightarrow> 'w cli_run" where
  "user_cli_action C conn f w =
    (let st = ul_stub C conn in
     case ust_Create st (cli_user f) w of
       (Inl err, w1) \<Rightarrow> ([], Fatal err w1)
     | (Inr res, w1) \<Rightarrow>
       (case urs_User res of
          None \<Rightarrow> ([], Panicked nil_dereference (ul_Close C conn w1))
        | Some created \<Rightarrow>
          (case ust_GetAll st w1 of
             (Inl err, w2) \<Rightarrow> ([CreatedUser (pus_Id created)], Fatal (Errorf ''Could not list users'' [err]) w2)
           | (Inr all, w2) \<Rightarrow>
             (case auth_all st f (urs_Users all) w2 of
                (out, Inl err, w3) \<Rightarrow> (CreatedUser (pus_Id created) # out, Fatal err w3)
              | (out, Inr _, w3) \<Rightarrow> (CreatedUser (pus_Id created) # out, Ended (ul_Close C conn w3))))))"

definition user_cli_main :: "('k, 'w) UserCli \<Rightarrow> (string \<Rightarrow> string) \<Rightarrow> string list \<Rightarrow> 'w \<Rightarrow> 'w cli_run" where
  "user_cli_main C env args w =
    (case ul_NewClient C (getenv_or env ''SERVICE_ADDRESS'' ''localhost:50051'') w of
       (Inl err, w1) \<Rightarrow> ([], Fatal (Errorf ''failed to connect'' [err]) w1)
     | (Inr conn, w1) \<Rightarrow>
       (case ul_flags C args of
          Inl err \<Rightarrow> ([], Fatal err w1)
        | Inr None \<Rightarrow> ([], Ended (ul_Close C conn w1))
        | Inr (Some f) \<Rightarrow> user_cli_action C conn f w1))"

section \<open>In front of the services\<close>

text \<open>The user service behind a transport, and what a successful answer says.\<close>

definition user_stub ::
  "(('w \<Rightarrow> (goerr + UserResponse) \<times> 'w) \<Rightarrow> 'w \<Rightarrow> (goerr + UserResponse) \<times> 'w) \<Rightarrow>
   (('w \<Rightarrow> (goerr + Token) \<times> 'w) \<Rightarrow> 'w \<Rightarrow> (goerr + Token) \<times> 'w) \<Rightarrow> 'w UserHandler \<Rightarrow> 'w UserStub" where
  "user_stub tr ta h = \<lparr>ust_Create = (\<lambda>q. tr (user_Create h q)), ust_GetAll = tr (user_GetAll h), ust_Auth = (\<lambda>q. ta (user_Auth h q))\<rparr>"

lemma answered: "transport_ok rpc \<Longrightarrow> rpc f w = (Inr a, w') \<Longrightarrow> f w = (Inr a, w')"
  unfolding transport_ok_def by (metis Inl_Inr_False fst_conv)

lemma user_GetAll_rows:
  assumes "users_ok r rows" "uh_repository h = postgres_users r" "user_GetAll h w = (Inr resp, w')"
  shows "rows w' = rows w" "urs_Users resp = map UnmarshalUser (rows w)"
proof -
  obtain q w1 where s: "us_Select r w = (q, w1)" by fastforce
  from users_okD(2)[OF assms(1) s] s assms(2,3) show "rows w' = rows w" "urs_Users resp = map UnmarshalUser (rows w)"
    by (auto simp: user_GetAll_def postgres_users_def users_GetAll_def UnmarshalUserCollection_def split: sum.splits)
qed

text \<open>A loop that ends authenticated the owner of every address with the one password.\<close>

lemma auth_all_matches:
  assumes ok: "users_ok r rows" and repo: "uh_repository h = postgres_users r" and tr: "transport_ok ta"
    and auth: "ust_Auth st = (\<lambda>q. ta (user_Auth h q))"
  shows "auth_all st f us w = (out, Inr u, w') \<Longrightarrow> rows w' = rows w \<and>
    (\<forall>x \<in> set us. \<exists>v \<in> set (rows w). usr_Email v = pus_Email x \<and> bc_Compare (uh_bcrypt h) (usr_Password v) (fl_password f) = None)"
proof (induction us arbitrary: w out)
  case (Cons x us)
  obtain q w1 where a: "ust_Auth st (cli_login f x) w = (q, w1)" by fastforce
  with Cons.prems obtain t where q: "q = Inr t" by (cases q) auto
  from answered[OF tr, of "user_Auth h (cli_login f x)" w t w1] a q auth have run: "user_Auth h (cli_login f x) w = (Inr t, w1)" by simp
  have rows1: "rows w1 = rows w" using user_Auth_outcome(1)[OF ok repo run] .
  from user_Auth_outcome(2)[OF ok repo run refl] obtain v where
    v: "v \<in> set (rows w)" "usr_Email v = pus_Email x" "bc_Compare (uh_bcrypt h) (usr_Password v) (fl_password f) = None"
    by (auto simp: cli_login_def)
  obtain out2 where rest: "auth_all st f us w1 = (out2, Inr u, w')" using Cons.prems a q by (auto split: prod.splits)
  from Cons.IH[OF rest] rows1 v show ?case by auto
qed simp

text \<open>An action that ends has registered its user, and its password opens every account there is.\<close>

lemma user_action_one_password:
  assumes ok: "users_ok r rows" "bcrypt_ok h rows" and repo: "uh_repository h = postgres_users r"
    and tr: "transport_ok tr" "transport_ok ta" and stub: "ul_stub C conn = user_stub tr ta h"
    and close: "\<forall>w. rows (ul_Close C conn w) = rows w"
    and run: "user_cli_action C conn f w = (out, Ended w')"
  shows "(\<exists>hash i. rows w' = rows w @ [(MarshalUser (cli_user f))\<lparr>usr_ID := i, usr_Password := hash\<rparr>]) \<and>
    (\<forall>u \<in> set (rows w'). bc_Compare (uh_bcrypt h) (usr_Password u) (fl_password f) = None)"
proof -
  obtain q1 w1 where c: "ust_Create (ul_stub C conn) (cli_user f) w = (q1, w1)" by fastforce
  with run obtain res where res: "q1 = Inr res" by (cases q1) (auto simp: user_cli_action_def Let_def)
  with run c obtain new where new: "urs_User res = Some new"
    by (cases "urs_User res") (auto simp: user_cli_action_def Let_def)
  obtain q2 w2 where g: "ust_GetAll (ul_stub C conn) w1 = (q2, w2)" by fastforce
  with run c res new obtain every where every: "q2 = Inr every" by (cases q2) (auto simp: user_cli_action_def Let_def)
  obtain out3 q3 w3 where a: "auth_all (ul_stub C conn) f (urs_Users every) w2 = (out3, q3, w3)" by (metis prod.collapse)
  with run c res new g every obtain u where q3: "q3 = Inr u" "w' = ul_Close C conn w3"
    by (cases q3) (auto simp: user_cli_action_def Let_def)
  from answered[OF tr(1), of "user_Create h (cli_user f)" w res w1] c res stub
  have create: "user_Create h (cli_user f) w = (Inr res, w1)" by (simp add: user_stub_def)
  then obtain i hash where rows1: "rows w1 = rows w @ [(MarshalUser (cli_user f))\<lparr>usr_ID := i, usr_Password := hash\<rparr>]"
    by (rule user_Create_outcome[OF ok repo])
  from answered[OF tr(1), of "user_GetAll h" w1 every w2] g every stub
  have getall: "user_GetAll h w1 = (Inr every, w2)" by (simp add: user_stub_def)
  note rows2 = user_GetAll_rows[OF ok(1) repo getall]
  have auth: "ust_Auth (ul_stub C conn) = (\<lambda>q. ta (user_Auth h q))" by (simp add: stub user_stub_def)
  from auth_all_matches[OF ok(1) repo tr(2) auth a[unfolded q3(1)]]
  have rows3: "rows w3 = rows w2" and match: "\<forall>x \<in> set (rows w1). \<exists>v \<in> set (rows w2). usr_Email v = usr_Email x \<and>
      bc_Compare (uh_bcrypt h) (usr_Password v) (fl_password f) = None"
    by (auto simp: rows2(2) UnmarshalUser_def)
  have "bc_Compare (uh_bcrypt h) (usr_Password x) (fl_password f) = None" if x: "x \<in> set (rows w1)" for x
  proof -
    from match x obtain v where v: "v \<in> set (rows w1)" "usr_Email v = usr_Email x"
      "bc_Compare (uh_bcrypt h) (usr_Password v) (fl_password f) = None" unfolding rows2(1) by blast
    from same_email[OF users_okD(1)[OF ok(1), of w1] v(1) x v(2)] v(3) show ?thesis by simp
  qed
  moreover have "rows w' = rows w1" by (simp add: q3(2) close[rule_format] rows3 rows2(1))
  ultimately show ?thesis using rows1 by auto
qed

lemma user_Auth_cong: "pus_Email q = pus_Email q' \<Longrightarrow> pus_Password q = pus_Password q' \<Longrightarrow> user_Auth h q w = user_Auth h q' w"
  by (simp add: user_Auth_def cong: sum.case_cong option.case_cong prod.case_cong)

lemma cli_login_alice: "user_Auth mem_user_handler (cli_login f (UnmarshalUser alice)) w =
    user_Auth mem_user_handler (alice_req\<lparr>pus_Password := fl_password f\<rparr>) w"
  by (rule user_Auth_cong) (simp_all add: cli_login_def UnmarshalUser_def alice_def MarshalUser_def)

definition alice_flags :: cli_flags where
  "alice_flags = \<lparr>fl_name = ''A'', fl_email = ''a@b'', fl_password = ''pw'', fl_company = ''C''\<rparr>"

definition mem_user_cli :: "(unit, umem) UserCli" where
  "mem_user_cli = \<lparr>ul_NewClient = (\<lambda>a w. (Inr (), w)), ul_Close = (\<lambda>k w. w),
     ul_stub = (\<lambda>k. user_stub (\<lambda>f. f) (\<lambda>f. f) mem_user_handler), ul_flags = (\<lambda>args. Inr (Some alice_flags))\<rparr>"

lemma alice_cli_run: "user_cli_action mem_user_cli () alice_flags no_users =
    ([CreatedUser ''a'', AUser (UnmarshalUser alice), AToken ''tok''], Ended (no_users\<lparr>um_rows := [alice]\<rparr>))"
proof -
  have flags: "cli_user alice_flags = alice_req" "alice_req\<lparr>pus_Password := fl_password alice_flags\<rparr> = alice_req"
    by (simp_all add: cli_user_def alice_flags_def alice_req_def)
  have all: "user_GetAll mem_user_handler (no_users\<lparr>um_rows := [alice]\<rparr>) =
      (Inr \<lparr>urs_User = None, urs_Users = [UnmarshalUser alice]\<rparr>, no_users\<lparr>um_rows := [alice]\<rparr>)"
    by (simp add: user_GetAll_def mem_user_handler_def postgres_users_def users_GetAll_def mem_users_def UnmarshalUserCollection_def
        alice_view[unfolded mem_users_def])
  have login: "user_Auth mem_user_handler (cli_login alice_flags (UnmarshalUser alice)) (no_users\<lparr>um_rows := [alice]\<rparr>) =
      (Inr (zero_Token\<lparr>tok_Token := ''tok''\<rparr>), no_users\<lparr>um_rows := [alice]\<rparr>)"
    using mem_login by (simp add: cli_login_alice flags)
  show ?thesis
    using mem_register all login
    by (simp add: user_cli_action_def mem_user_cli_def user_stub_def flags) (simp add: alice_def MarshalUser_def UnmarshalUser_def zero_Token_def)
qed

text \<open>
  C40. The user client works only while all users have one password. Whenever a run with parsed flags
  reaches its end, in front of the user service over any transport, it has registered its user, and the
  password it was given opens every account in the table; so once a user with another password exists,
  every run ends in log.Fatal, after having created its user.
\<close>

theorem user_cli_needs_one_password:
  assumes ok: "users_ok r rows" "bcrypt_ok h rows" and repo: "uh_repository h = postgres_users r"
    and tr: "transport_ok tr" "transport_ok ta" and stub: "\<forall>conn. ul_stub C conn = user_stub tr ta h"
    and idle: "\<forall>a w. rows (snd (ul_NewClient C a w)) = rows w" "\<forall>conn w. rows (ul_Close C conn w) = rows w"
    and flags: "ul_flags C args = Inr (Some f)" and run: "user_cli_main C env args w = (out, Ended w')"
  shows "(\<exists>hash i. rows w' = rows w @ [(MarshalUser (cli_user f))\<lparr>usr_ID := i, usr_Password := hash\<rparr>]) \<and>
    (\<forall>u \<in> set (rows w'). bc_Compare (uh_bcrypt h) (usr_Password u) (fl_password f) = None)"
proof -
  let ?addr = "getenv_or env ''SERVICE_ADDRESS'' ''localhost:50051''"
  obtain q w1 where n: "ul_NewClient C ?addr w = (q, w1)" by fastforce
  with idle(1) have rows1: "rows w1 = rows w" by (metis snd_conv)
  from run n flags obtain conn where "user_cli_action C conn f w1 = (out, Ended w')"
    by (cases q) (auto simp: user_cli_main_def)
  from user_action_one_password[OF ok repo tr stub[rule_format] _ this] idle(2) rows1 show ?thesis by simp
qed

lemma user_cli_needs_one_password_witness:
  "bc_Compare (uh_bcrypt mem_user_handler) (usr_Password alice) (fl_password alice_flags) = None"
proof -
  have tr: "transport_ok (\<lambda>f :: umem \<Rightarrow> (goerr + UserResponse) \<times> umem. f)" "transport_ok (\<lambda>f :: umem \<Rightarrow> (goerr + Token) \<times> umem. f)"
    by (simp_all add: transport_ok_def)
  have C: "\<forall>conn. ul_stub mem_user_cli conn = user_stub (\<lambda>f. f) (\<lambda>f. f) mem_user_handler"
    "\<forall>a w. um_view (snd (ul_NewClient mem_user_cli a w)) = um_view w" "\<forall>conn w. um_view (ul_Close mem_user_cli conn w) = um_view w"
    "ul_flags mem_user_cli [] = Inr (Some alice_flags)" by (simp_all add: mem_user_cli_def)
  have repo: "uh_repository mem_user_handler = postgres_users mem_users" by (simp add: mem_user_handler_def)
  have run: "user_cli_main mem_user_cli env [] no_users =
      ([CreatedUser ''a'', AUser (UnmarshalUser alice), AToken ''tok''], Ended (no_users\<lparr>um_rows := [alice]\<rparr>))" for env
    using alice_cli_run by (simp add: user_cli_main_def C(4)) (simp add: mem_user_cli_def)
  from user_cli_needs_one_password[OF mem_users_ok mem_bcrypt_ok repo tr C run]
  show ?thesis by (simp add: alice_view)
qed

section \<open>The consignment client in front of its service\<close>

text \<open>A nil message travels as the empty one.\<close>

definition empty_consignment :: PbConsignment where
  "empty_consignment = \<lparr>pbc_Id = '''', pbc_Description = '''', pbc_Weight = 0, pbc_Containers = [], pbc_VesselId = '''', pbc_Status = ''''\<rparr>"

definition sent :: "PbConsignment option \<Rightarrow> PbConsignment" where
  "sent c = (case c of None \<Rightarrow> empty_consignment | Some x \<Rightarrow> x)"

definition consignment_stub ::
  "(('w \<Rightarrow> (goerr + PbResponse) \<times> 'w) \<Rightarrow> 'w \<Rightarrow> (goerr + PbResponse) \<times> 'w) \<Rightarrow> 'w CsHandler \<Rightarrow> 'w ConsignmentStub" where
  "consignment_stub tr h = \<lparr>cst_CreateConsignment = (\<lambda>ctx c. tr (CreateConsignment h (sent c))), cst_GetConsignments = (\<lambda>ctx. tr (GetConsignments h))\<rparr>"

text \<open>A run that ends has created its consignment, whatever the token.\<close>

lemma consignment_run_creates:
  assumes ok: "cs_ok s" and tr: "transport_ok tr" and stub: "cl_stub C conn = consignment_stub tr (ss_hdl s)"
    and close: "\<forall>w. ss_docs s (cl_Close C conn w) = ss_docs s w"
    and run: "create_and_list C conn ctx c w = (out, Ended w')"
  shows "(\<exists>new. ss_docs s w' = ss_docs s w @ [new] \<and> con_Status new = StatusPending \<and>
      con_Weight new = pbc_Weight (sent c) \<and> (\<exists>shown \<subseteq> set (ss_docs s w').
        hd out = CreatedConsignment True \<and> set (tl out) = AConsignment ` UnmarshalConsignment ` shown)) \<and>
    create_and_list C conn other_token c w = (out, Ended w')"
proof -
  obtain q1 w1 where c: "tr (CreateConsignment (ss_hdl s) (sent c)) w = (q1, w1)" by fastforce
  with run stub obtain res where res: "q1 = Inr res" by (cases q1) (auto simp: create_and_list_def consignment_stub_def)
  obtain q2 w2 where g: "tr (GetConsignments (ss_hdl s)) w1 = (q2, w2)" by fastforce
  with run stub c res obtain every where every: "q2 = Inr every"
    by (cases q2) (auto simp: create_and_list_def consignment_stub_def)
  with run stub c res g have out: "out = CreatedConsignment (prs_Created res) # map AConsignment (prs_Consignments every)"
    "w' = cl_Close C conn w2" by (simp_all add: create_and_list_def consignment_stub_def)
  from svc.CreateConsignment_success[OF ok answered[OF tr c[unfolded res]]] obtain new rsv w3 w4 where
    new: "ss_docs s w1 = ss_docs s w @ [new]" "con_ID new \<notin> con_ID ` set (ss_docs s w)"
      "rvc_ReserveCapacity (ch_reservationCli (ss_hdl s))
        \<lparr>rcr_ConsignmentId = con_ID new, rcr_Weight = con_Weight new, rcr_NumberOfContainers = int32_len (con_Containers new)\<rparr> w3 = (Inr rsv, w4)"
    and fields: "new = (MarshalConsignment ((sent c)\<lparr>pbc_Id := con_ID new,
        pbc_VesselId := rres_VesselId rsv, pbc_Status := StatusPending\<rparr>))\<lparr>con_ReservationID := rres_Id rsv\<rparr>"
    and x: "res = \<lparr>prs_Created = True, prs_Consignment = Some (UnmarshalConsignment new), prs_Consignments = []\<rparr>" by blast
  have created: "prs_Created res" by (simp add: x)
  have "con_Status new = StatusPending \<and> con_Weight new = pbc_Weight (sent c)"
    by (subst (1 2) fields) (simp add: MarshalConsignment_def)
  moreover from svc.GetConsignments_outcome[OF ok answered[OF tr g[unfolded every]]]
  have docs2: "ss_docs s w2 = ss_docs s w1" and listed: "set (prs_Consignments every) \<subseteq> UnmarshalConsignment ` set (ss_docs s w1)"
    by (simp_all add: mgr.same_def)
  have docs': "ss_docs s w' = ss_docs s w @ [new]" by (simp add: out(2) close[rule_format] docs2 new(1))
  from listed obtain shown where shown: "shown \<subseteq> set (ss_docs s w1)" "set (prs_Consignments every) = UnmarshalConsignment ` shown"
    by (meson subset_imageE)
  have "hd out = CreatedConsignment True \<and> set (tl out) = AConsignment ` UnmarshalConsignment ` shown"
    using created by (simp add: out(1) shown(2)[symmetric])
  moreover have "shown \<subseteq> set (ss_docs s w')" using shown(1) by (simp add: docs' new(1))
  moreover have "create_and_list C conn other_token c w = (out, Ended w')"
    using run c g by (simp add: create_and_list_def stub consignment_stub_def res every)
  ultimately show ?thesis using docs' by blast
qed

text \<open>
  The consignment client creates a consignment and shows stored ones, and its token does not matter.
  When a run reaches its end, the file was read and parsed, the service holds one more consignment, which
  is pending and has the weight of the file (0 when the file says null), the lines printed after
  "Created: true" are stored consignments, and with any other token the run would have been the same.
\<close>

theorem consignment_cli_creates:
  assumes ok: "cs_ok s" and tr: "transport_ok tr" and stub: "\<forall>conn. cl_stub C conn = consignment_stub tr (ss_hdl s)"
    and idle: "\<forall>a w. ss_docs s (snd (cl_NewClient C a w)) = ss_docs s w" "\<forall>conn w. ss_docs s (cl_Close C conn w) = ss_docs s w"
      "\<forall>f w. ss_docs s (snd (cl_ReadFile C f w)) = ss_docs s w"
    and run: "consignment_cli_main C env [prog, file, token] w = (out, Ended w')"
  shows "\<exists>data c new. cl_json C data = Inr c \<and> ss_docs s w' = ss_docs s w @ [new] \<and> con_Status new = StatusPending \<and>
    con_Weight new = pbc_Weight (sent c) \<and>
    (\<exists>shown \<subseteq> set (ss_docs s w'). hd out = CreatedConsignment True \<and> set (tl out) = AConsignment ` UnmarshalConsignment ` shown) \<and>
    consignment_cli_main C env [prog, file, other_token] w = (out, Ended w')"
proof -
  let ?addr = "getenv_or env ''SERVICE_ADDRESS'' ''localhost:50051''"
  obtain q w1 where n: "cl_NewClient C ?addr w = (q, w1)" by fastforce
  with run obtain conn where conn: "q = Inr conn" by (cases q) (auto simp: consignment_cli_main_def)
  obtain q2 w2 where f: "cl_ReadFile C file w1 = (q2, w2)" by fastforce
  with run n conn obtain data where data: "q2 = Inr data" by (cases q2) (auto simp: consignment_cli_main_def parseFile_def)
  with run n conn f obtain c where c: "cl_json C data = Inr c" by (cases "cl_json C data") (auto simp: consignment_cli_main_def parseFile_def)
  have docs: "ss_docs s w2 = ss_docs s w" using idle(1,3) n f by (metis snd_conv)
  have main: "consignment_cli_main C env [prog, file, t] w = create_and_list C conn [(''token'', t)] c w2" for t
    by (simp add: consignment_cli_main_def n conn parseFile_def f data c)
  from consignment_run_creates[OF ok tr stub[rule_format] _ run[unfolded main], of "[(''token'', other_token)]"] idle(2) c docs
  show ?thesis by (simp add: main) blast
qed

definition cli_request :: PbConsignment where
  "cli_request = \<lparr>pbc_Id = '''', pbc_Description = ''d'', pbc_Weight = 60, pbc_Containers = [], pbc_VesselId = '''', pbc_Status = ''''\<rparr>"

definition mem_consignment_cli :: "(unit, smem) ConsignmentCli" where
  "mem_consignment_cli = \<lparr>cl_NewClient = (\<lambda>a w. (Inr (), w)), cl_Close = (\<lambda>k w. w),
     cl_stub = (\<lambda>k. consignment_stub (\<lambda>f. f) cs_hdl), cl_ReadFile = (\<lambda>f w. (Inr f, w)), cl_json = (\<lambda>b. Inr (Some cli_request))\<rparr>"

lemma consignment_cli_creates_witness:
  "\<exists>new. ss_docs mem_cs (cs_at [sample_con\<lparr>con_ID := uuid_String mem_uuid 5\<rparr>] [] Map.empty False) =
      ss_docs mem_cs (cs_at [] [] Map.empty False) @ [new] \<and> con_Status new = StatusPending \<and> con_Weight new = 60"
proof -
  let ?c = "sample_con\<lparr>con_ID := uuid_String mem_uuid 5\<rparr>" and ?w = "cs_at [] [] Map.empty False"
  let ?w' = "cs_at [?c] [] Map.empty False"
  have tr: "transport_ok (\<lambda>f :: smem \<Rightarrow> (goerr + PbResponse) \<times> smem. f)" by (simp add: transport_ok_def)
  have C: "\<forall>conn. cl_stub mem_consignment_cli conn = consignment_stub (\<lambda>f. f) (ss_hdl mem_cs)"
    "\<forall>a w. ss_docs mem_cs (snd (cl_NewClient mem_consignment_cli a w)) = ss_docs mem_cs w"
    "\<forall>conn w. ss_docs mem_cs (cl_Close mem_consignment_cli conn w) = ss_docs mem_cs w"
    "\<forall>f w. ss_docs mem_cs (snd (cl_ReadFile mem_consignment_cli f w)) = ss_docs mem_cs w" by (simp_all add: mem_consignment_cli_def)
  have create: "CreateConsignment cs_hdl cli_request ?w =
      (Inr \<lparr>prs_Created = True, prs_Consignment = Some (UnmarshalConsignment ?c), prs_Consignments = []\<rparr>, ?w')"
    using run_create by (simp add: Let_def cli_request_def)
  have list: "GetConsignments cs_hdl ?w' =
      (Inr \<lparr>prs_Created = False, prs_Consignment = None, prs_Consignments = [UnmarshalConsignment ?c]\<rparr>, ?w')"
    by (simp add: GetConsignments_def mongo_consignments_def mongo_GetAll_def mem_collection_def coll_view_def cs_at_select cons_okl_def
        UnmarshalConsignmentCollection_def)
  have run: "consignment_cli_main mem_consignment_cli env [''cli'', ''f'', ''t''] ?w =
      ([CreatedConsignment True, AConsignment (UnmarshalConsignment ?c)], Ended ?w')" for env
    using create list by (simp add: consignment_cli_main_def parseFile_def create_and_list_def mem_consignment_cli_def consignment_stub_def sent_def)
  obtain data c new where d: "cl_json mem_consignment_cli data = Inr c" "ss_docs mem_cs ?w' = ss_docs mem_cs ?w @ [new]"
    "con_Status new = StatusPending" "con_Weight new = pbc_Weight (sent c)"
    using consignment_cli_creates[OF mem_cs_ok tr C run] by blast
  from d(1) have "sent c = cli_request" by (auto simp: mem_consignment_cli_def sent_def)
  with d(2-4) show ?thesis by (intro exI[of _ new]) (simp add: cli_request_def)
qed

end
