(* ===== verification/Observability.thy ===== *)
theory Observability
  imports Mains Consignment_Properties
begin

text \<open>
  What the services offer to those who watch them: the Prometheus collectors of the consignment service
  (\<open>metrics/metrics.go\<close>), the metrics server of the event-driven services (\<open>serveMetrics\<close> of their
  \<open>main.go\<close>), and the gRPC servers with their health service (\<open>NewGRPCServer\<close> of \<open>server/server.go\<close>).
  Prometheus, the HTTP server and the gRPC library are parameters.
\<close>

section \<open>\<open>metrics/metrics.go\<close>\<close>

text \<open>
  A vector of collectors is what \<open>WithLabelValues\<close> and the collector's method do with a label. The
  histogram has upper bounds of buckets in seconds; durations are handed over in nanoseconds.
\<close>

record 'w Prometheus =
  pm_NewHistogramVec :: "string \<Rightarrow> nat list \<Rightarrow> string list \<Rightarrow> string \<Rightarrow> time \<Rightarrow> 'w \<Rightarrow> 'w"
  pm_NewCounterVec :: "string \<Rightarrow> string list \<Rightarrow> string \<Rightarrow> 'w \<Rightarrow> 'w"

record 'w metrics =
  me_sagaDuration :: "string \<Rightarrow> time \<Rightarrow> 'w \<Rightarrow> 'w"
  me_sagaTotal :: "string \<Rightarrow> 'w \<Rightarrow> 'w"

definition ObserveSagaDuration :: "'w metrics \<Rightarrow> time \<Rightarrow> string \<Rightarrow> 'w \<Rightarrow> 'w" where
  "ObserveSagaDuration m duration status w = me_sagaDuration m status duration w"

definition IncSagaTotal :: "'w metrics \<Rightarrow> string \<Rightarrow> 'w \<Rightarrow> 'w" where
  "IncSagaTotal m status w = me_sagaTotal m status w"

definition metrics_New :: "'w Prometheus \<Rightarrow> 'w Metrics" where
  "metrics_New P =
    (let m = \<lparr>me_sagaDuration = pm_NewHistogramVec P ''shippy_saga_duration_seconds'' [1, 5, 10, 15, 20, 30, 45, 60, 90, 120] [''status''],
              me_sagaTotal = pm_NewCounterVec P ''shippy_saga_total'' [''status'']\<rparr>
     in \<lparr>mx_ObserveSagaDuration = ObserveSagaDuration m, mx_IncSagaTotal = IncSagaTotal m\<rparr>)"

section \<open>\<open>serveMetrics\<close>\<close>

text \<open>Runs beside the service; \<open>log.Fatal\<close> ends the whole process.\<close>

definition serveMetrics :: "(string \<Rightarrow> 'w \<Rightarrow> (goerr + unit) \<times> 'w) \<Rightarrow> string \<Rightarrow> 'w \<Rightarrow> 'w exit" where
  "serveMetrics ListenAndServe addr w =
    (case ListenAndServe addr w of
       (Inl err, w1) \<Rightarrow> Fatal (Errorf ''metrics server failed'' [err]) w1
     | (Inr _, w1) \<Rightarrow> Ended w1)"

section \<open>\<open>NewGRPCServer\<close>\<close>

text \<open>
  A server under construction: its handler, what has been registered on it, and the status its health
  server gives by service name.
\<close>

datatype registration = ConsignmentService | ReservationService | HealthServer | Reflection

datatype ServingStatus = UNKNOWN | SERVING | NOT_SERVING | SERVICE_UNKNOWN

record 'h GRPCServer =
  gs_handler :: 'h
  gs_services :: "registration list"
  gs_health :: "string \<rightharpoonup> ServingStatus"

definition cs_NewGRPCServer :: "'w CsHandler \<Rightarrow> 'w CsHandler GRPCServer" where
  "cs_NewGRPCServer handler = \<lparr>gs_handler = handler,
     gs_services = [ConsignmentService, HealthServer, Reflection],
     gs_health = [[] \<mapsto> SERVING]\<rparr>"

text \<open>The options are not passed on.\<close>

definition rs_NewGRPCServer :: "'h \<Rightarrow> 'o list \<Rightarrow> 'h GRPCServer" where
  "rs_NewGRPCServer handler grpcOpts = \<lparr>gs_handler = handler,
     gs_services = [ReservationService, HealthServer, Reflection],
     gs_health = [[] \<mapsto> SERVING]\<rparr>"

section \<open>Facts\<close>

lemma rs_options_ignored: "rs_NewGRPCServer h opts = rs_NewGRPCServer h opts'"
  by (simp add: rs_NewGRPCServer_def)

text \<open>\<open>ListenAndServe\<close> never returns nil, so a metrics server that ends takes the service with it, without a shutdown.\<close>

lemma metrics_server_fatal:
  assumes "\<forall>a w. \<exists>e. fst (ListenAndServe a w) = Inl e"
  shows "\<exists>e. serveMetrics ListenAndServe addr w = Fatal e (snd (ListenAndServe addr w))"
  using assms[rule_format, of addr w] by (cases "ListenAndServe addr w") (auto simp: serveMetrics_def)

text \<open>A counter that counts, and that nothing but the counter moves.\<close>

definition counts :: "'w Prometheus \<Rightarrow> ('w \<Rightarrow> string \<Rightarrow> nat) \<Rightarrow> bool" where
  "counts P tally \<longleftrightarrow>
     (\<forall>st w. tally (mx_IncSagaTotal (metrics_New P) st w) = (tally w)(st := Suc (tally w st))) \<and>
     (\<forall>d st w. tally (mx_ObserveSagaDuration (metrics_New P) d st w) = tally w)"

definition uncounted :: "'w ConsignmentRepository \<Rightarrow> ('w \<Rightarrow> string \<Rightarrow> nat) \<Rightarrow> bool" where
  "uncounted r tally \<longleftrightarrow> (\<forall>i st w. tally (snd (cr_UpdateStatus r i st w)) = tally w)"

lemma saga_metrics_count:
  assumes "counts P tally" "cm_metrics m = metrics_New P"
  shows "tally (saga_metrics m started st w) = (tally w)(st := Suc (tally w st))"
  using assms by (simp add: counts_def saga_metrics_def Let_def split: option.split)

text \<open>Deliveries of one message, each handled by the consignment service with nil.\<close>

fun nil_deliveries :: "'w CsManager \<Rightarrow> bytes \<Rightarrow> bytes \<Rightarrow> nat \<Rightarrow> 'w \<Rightarrow> 'w \<Rightarrow> bool" where
  "nil_deliveries m key val 0 w w' \<longleftrightarrow> w' = w"
| "nil_deliveries m key val (Suc n) w w' \<longleftrightarrow>
     (case handleReservationConfirmedEvent m key val w of
        (Inl err, w1) \<Rightarrow> False
      | (Inr _, w1) \<Rightarrow> nil_deliveries m key val n w1 w')"

text \<open>
  \<open>shippy_saga_total\<close> counts deliveries. Kafka delivers a reservation-confirmed message at least once, and
  every delivery that is handled adds one to the confirmed sagas: \<open>n\<close> deliveries of one message are \<open>n\<close>.
\<close>

lemma redeliveries_counted:
  assumes "counts P tally" "cm_metrics m = metrics_New P" "uncounted (cm_repository m) tally" "nil_deliveries m key val n w w'"
  shows "tally w' = (tally w)(''confirmed'' := tally w ''confirmed'' + n)"
  using assms(4)
proof (induction n arbitrary: w)
  case (Suc n)
  then obtain u w1 where run: "handleReservationConfirmedEvent m key val w = (Inr u, w1)" and rest: "nil_deliveries m key val n w1 w'"
    by (auto split: prod.splits sum.splits)
  from run obtain e where "process_confirmed m e w = (Inr u, w1)"
    by (cases "Unmarshal (pb_ReservationConfirmed (cm_codecs m)) val") (simp_all add: handleReservationConfirmedEvent_def)
  then obtain w0 where "cr_UpdateStatus (cm_repository m) (rce_ConsignmentId e) StatusConfirmed w = (Inr (), w0)"
    and w1: "w1 = saga_metrics m (rce_SagaStartedAt e) ''confirmed'' w0"
    by (auto simp: process_confirmed_def split: prod.splits sum.splits)
  with assms(3) have "tally w0 = tally w" unfolding uncounted_def by (metis snd_conv)
  then show ?case using Suc.IH[OF rest] w1 saga_metrics_count[OF assms(1,2)] by (simp add: fun_eq_iff)
qed simp

end
