(* ===== verification/Spec2Isabelle.thy ===== *)
theory Spec2Isabelle
  imports Vessel_Properties Reservation_Properties Server_Properties Outbox_Properties Payment Kafka
    Consignment_Properties Consignment_Outbox Database_Clients Gateway_Properties Startup Lifecycle Mains Jobs
    Tracing Saga_Properties Saga_Completion Command_Line Observability
begin

text \<open>
  A model of the shippy microservices and the theorems that make it correct.

  \<^bold>\<open>The program.\<close> Shippy carries consignments on vessels. An HTTP gateway (\<open>cmd/gateway\<close>) stands in front of
  the user service (\<open>cmd/user-service\<close>) and the consignment service (\<open>cmd/consignment-service\<close>). Creating a
  consignment reserves capacity: the consignment service calls the reservation service
  (\<open>cmd/reservation-service\<close>), which reserves on a vessel through the vessel service (\<open>cmd/vessel-service\<close>) and
  keeps the reservation in Redis with a deadline. Confirming a consignment authorises a payment with the payment
  service (\<open>cmd/payment-service\<close>) and starts a saga over Kafka (\<open>pkg/kafka\<close>):

    \<^item> the consignment service captures the payment and publishes that it is captured;
    \<^item> the reservation service deletes the cached reservation, has the vessel service confirm the capacity, and
      publishes that the reservation is confirmed;
    \<^item> the consignment service sets the consignment to confirmed.

  A reservation that expires is released and its consignment cancelled; a payment or a load that fails is retried
  and ends in a failure event, which undoes the payment and cancels the consignment. Both event-driven services
  write their events to an outbox in their own database, in one transaction with the state they go with where there
  is one, and publish them from there.

  \<^bold>\<open>How the code is modelled.\<close> A Go function that returns \<open>(T, error)\<close> returns \<open>goerr + 'a\<close>; one that acts on the
  outside takes a world of type \<open>'w\<close> last and returns it in a pair; a panic is \<open>None\<close>. Structs are records, statuses
  and topics are the strings of the code, \<open>int32\<close> and durations are words where they can wrap, protobuf enumerations
  are datatypes. MongoDB, PostgreSQL, Redis, Kafka, gRPC, bcrypt and JWT are records of the calls the code makes;
  what their documentation promises is a predicate over such a record and a view of what the server holds
  (\<open>mongo_ok\<close>, \<open>pg_ok\<close>, \<open>redis_ok\<close>, \<open>kafka_ok\<close>, \<open>producer_law\<close>, \<open>transport_ok\<close>, \<open>codec_ok\<close>): a call that answers
  with an error may have taken effect all the same, a call over gRPC may lose its request or its answer, a commit may
  be unknown. Every predicate is met by an in-memory instance (the \<open>_Memory\<close> theories), on which the witnesses run.

  \<^bold>\<open>Shared theories.\<close>

    \<^item> \<open>Prelude\<close>: Go errors and \<open>errors.Is\<close>, retry loops with backoff (\<open>attempts\<close>, \<open>retry_within\<close>), \<open>int32\<close>
      conversions, decimal numbers, UUIDs, and the collections \<open>go_defs\<close>, \<open>frame_rules\<close>, \<open>conv_simps\<close>.
    \<^item> \<open>Events\<close>: the messages of \<open>proto/events\<close> and their codecs.
    \<^item> \<open>Kafka\<close>: producer, consumer with its commit rule, topic creation, trace headers.
    \<^item> \<open>Exactly_Once\<close>: the contract of an operation that records what it did (\<open>exactly_once\<close>): retries and
      redeliveries change the state at most once. Interpreted for release and confirm of the vessel repository, of
      its gRPC handlers and of these behind a lossy transport, for the reserve attempt of the reservation service,
      and for capture and void of the payment service.

  \<^bold>\<open>Vessel service.\<close> \<open>Vessel_Repository\<close> translates \<open>repository.go\<close> (sessions, transactions, the capacity
  operations with their unique index), \<open>Vessel_Handler\<close> translates \<open>handler.go\<close>. \<open>Vessel_Contract\<close> is the abstract
  specification: a step relation \<open>cap_step\<close> on the committed content, which every operation refines or leaves alone.
  \<open>Vessel_Capacity\<close> derives the invariants over sequences of steps, \<open>Vessel_Properties\<close> states them: never booked
  beyond the capacity, counters equal to the sums over the live reservations, retried operations once.

  \<^bold>\<open>Reservation service.\<close> \<open>Reservation_Cache\<close> translates \<open>storage/redis\<close>; \<open>GetExpired\<close> scans with a cursor in a
  \<open>partial_function\<close>. Redis promises something of single \<open>SCAN\<close> calls and of a chain of them (\<open>scan_chain\<close>); from
  that \<open>Redis_Contract\<close> proves that the loop ends with every batch of the chain, what \<open>GetExpired\<close> returns exactly
  while keys expire under it, and the interface \<open>reservation_cache\<close>. \<open>Postgres_Outbox\<close> translates \<open>storage/postgres/outbox.go\<close> with its partial
  unique index and its claim by \<open>FOR UPDATE SKIP LOCKED\<close>. \<open>Reservation_Manager\<close> translates \<open>manager/event.go\<close> and
  \<open>manager.go\<close>; \<open>Capacity_Manager\<close> proves what it guarantees over its interfaces (the locale \<open>capacity_manager\<close>) and
  \<open>Reservation_System\<close> wires it as \<open>main.go\<close> does. \<open>Reservation_Server\<close> translates \<open>server/handler.go\<close>, with
  \<open>Server_Contract\<close> and \<open>Server_Properties\<close>. \<open>Reservation_Properties\<close> states what one delivery does, that
  the first event of a reservation wins, how retries end, and what the clean-up job schedules.

  \<^bold>\<open>Consignment service.\<close> \<open>Mongo_Driver\<close> has the laws of its collections, \<open>Consignment_Storage\<close> and \<open>Mongo_Outbox\<close>
  translate \<open>storage/mongo\<close>. \<open>Consignment_Manager\<close> translates \<open>manager/event.go\<close> and \<open>manager.go\<close>,
  \<open>Consignment_Server\<close> translates \<open>server/handler.go\<close>. \<open>Consignment_Contract\<close> has the effect of every handler on
  consignments, outbox and payments (the locales \<open>consignment_manager\<close> and \<open>consignment_server\<close>);
  \<open>Consignment_System\<close> interprets them on the wiring of \<open>main.go\<close>. \<open>Consignment_Properties\<close> and \<open>Consignment_Outbox\<close>
  state what each event and each call does, with the payments behind it, and what the outbox promises.

  \<^bold>\<open>Payment service.\<close> \<open>Payment\<close> translates \<open>handler.go\<close>: the map of payments under its mutex, four operations with
  their idempotency checks, and the life cycle of a payment.

  \<^bold>\<open>Outbox.\<close> \<open>Outbox\<close> translates \<open>manager/outbox.go\<close> of the reservation service over the interface
  \<open>outbox_repository\<close>, with the publisher's guarantee in \<open>outbox_publisher\<close>: an event is marked only after Kafka has
  acknowledged it. A pass has a context of its own, which ends with the service's or after 20 seconds
  (\<open>publishCtx_Err\<close>); what a pass leaves waits for the next. \<open>Outbox_Properties\<close> and \<open>Consignment_Outbox\<close> interpret it for PostgreSQL and MongoDB; the
  consignment service has a publisher of its own, \<open>cs_publishOutbox\<close>, proved equal in \<open>Consignment_Outbox\<close>. A lease is
  a time of the instance's clock that the database's clock has to pass: \<open>lease_excludes\<close> says so for a table on which
  all instances work (\<open>table_steps\<close>) and assumes nothing of how the clocks compare.

  \<^bold>\<open>Gateway and users.\<close> \<open>Gateway\<close> translates the routes, the token check and the handlers; \<open>User_Service\<close> translates
  \<open>cmd/user-service\<close>. What gin does with a path that no route matches is that of
  \<open>gin.Default\<close>: a redirect to the path without its last slash, or 404. \<open>Gateway_Properties\<close>: nothing under
  \<open>/v1/consignments\<close> without a valid token, a registered user gets in, what the answer to a confirmation means. \<open>Command_Line\<close> has the two clients of \<open>cmd/consignment-cli\<close> and
  \<open>cmd/user-cli\<close>, which call the services directly, with what they print and how they end.

  \<^bold>\<open>Processes.\<close> \<open>Database_Clients\<close> has the dialling loops, equal to a reference that names the try that counts.
  \<open>Startup\<close> reads the environment and the viper configuration and lists topics and seeds. \<open>Launch\<close> is \<open>run\<close> up to the
  start of the goroutines and what its deferred calls release, \<open>Lifecycle\<close> the rest: the goroutines, error channels
  and wait group as a step relation in which every interleaving shuts down without a deadlock, \<open>Jobs\<close> the background
  loops, \<open>Mains\<close> the main functions of the services that answer calls only. \<open>Tracing\<close> is \<open>pkg/tracing\<close>,
  the attributes and the analysis of test spans included; \<open>Observability\<close> has the metrics collectors and how the
  metrics and gRPC servers are set up.

  \<^bold>\<open>The saga as a whole.\<close> \<open>Saga_Writes\<close> says which messages each operation can put into an outbox, in every branch.
  \<open>Saga\<close> puts both services together: Kafka is the set of messages ever produced, any of which may be delivered to a
  handler of its topic at any time and any number of times; calls, clean-up and everything that leaves the stores
  alone may happen in between. Its invariant says what each message vouches for: a captured event for a captured
  payment, a confirmed event for recorded capacity. \<open>Saga_Properties\<close> states what follows: a consignment that is
  confirmed is paid and loaded, capacity is confirmed for paid consignments only, and no message of one service is
  refused by the other. \<open>Saga_Memory\<close> runs a complete saga on the in-memory systems. \<open>Saga_Completion\<close> shows
  that an accepted confirmation can be completed from any state: one lemma per stage, when the servers it calls are up
  (\<open>cs_up\<close>, with the number of calls that succeed, and \<open>rs_up\<close>), proves that its handler returns nil and leaves the
  message of the next stage in the outbox.

  \<^bold>\<open>Bounds.\<close> Retries are those of the code: three tries per call (\<open>retry_within 3\<close>), three counted retries per event
  on \<open>int32\<close> counters, dialling counters that start at 0 and give up at 3. A saga that meets no failure takes eight
  calls of the consignment service, the bound of \<open>accepted_confirmation_completes\<close>. No function of the model takes fuel except
  \<open>consume\<close>, whose number is the passes until the context ends. Loops that could run forever are
  \<open>partial_function (option)\<close>, with a theorem that they end. A shutdown takes at most 17 steps and one more for every
  tick that is still taken.

  \<^bold>\<open>Idealisations.\<close> Time is a number of nanoseconds; MongoDB keeps milliseconds, which changes no comparison, as the
  lease is whole milliseconds. The index of the capacity operations expires its entries after 30 days: the
  exactly-once theorems speak of states in which they are kept, and a step of \<open>Saga\<close> forgets none. A transaction
  shows its writes at once or not at all. The calls of a goroutine return, as the clients' deadlines see to.

  \<^bold>\<open>Not modelled.\<close> Log lines and spans have no effect on the state, and the trace context is passed through.
  Generated protobuf and gRPC code is the codecs and the lossy transport. The reading of a configuration file is left
  out, as no service names one. \<open>cmd/email-service\<close> is a stub. The integration tests, deployment files and load tests
  are not part of the program.
\<close>

end
